(* ===== verification/Prelude.thy ===== *)
theory Prelude
  imports Main "HOL-Library.Word" "HOL-Library.Sublist"
begin

text \<open>
  Shared vocabulary of the development: the parts of the JavaScript runtime and of Node's
  \<open>Buffer\<close> that the modelled sources use.

  \<^item> A byte is an \<open>8 word\<close>, a \<open>Buffer\<close> a list of bytes. Writing past the end of a buffer is
    written out (\<open>buf_copy\<close> clips as \<open>Buffer.copy\<close> does, \<open>buf_fill0\<close> throws as \<open>Buffer.fill\<close>
    does).
  \<^item> A JavaScript string is represented by its UTF-8 encoding, one \<open>char\<close> per byte.
    \<open>Buffer.from(s, 'utf8')\<close> is then \<open>utf8_bytes\<close>, and \<open>buf.toString('utf8')\<close> is
    \<open>utf8_text\<close>, which replaces ill-formed sequences by U+FFFD as the WHATWG decoder does.
    Where the source counts UTF-16 code units, \<open>js_length\<close> does so.
  \<^item> A thrown error is \<open>Inl message\<close> (\<open>Err\<close>), a returned value \<open>Inr value\<close> (\<open>Ok\<close>).
\<close>

unbundle bit_operations_syntax

section \<open>Collections of facts\<close>

named_theorems buf_simps "lengths and shapes of buffers"
named_theorems js_defs "definitions of the runtime helpers"

section \<open>Results\<close>

type_synonym 'a result = "string + 'a"

abbreviation Err :: "'e \<Rightarrow> 'e + 'a" where "Err \<equiv> Inl"
abbreviation Ok :: "'a \<Rightarrow> 'e + 'a" where "Ok \<equiv> Inr"

definition and_then :: "'e + 'a \<Rightarrow> ('a \<Rightarrow> 'e + 'b) \<Rightarrow> 'e + 'b" where
  "and_then r f = (case r of Inl e \<Rightarrow> Inl e | Inr x \<Rightarrow> f x)"

lemma and_then_simps [simp]:
  "and_then (Inl e) f = Inl e" "and_then (Inr x) f = f x"
  by (simp_all add: and_then_def)

lemma and_then_Ok_iff: "and_then r f = Inr y \<longleftrightarrow> (\<exists>x. r = Inr x \<and> f x = Inr y)"
  by (cases r) auto

fun collect :: "('e + 'a) list \<Rightarrow> 'e + 'a list" where
  "collect [] = Inr []"
| "collect (r # rs) = and_then r (\<lambda>x. and_then (collect rs) (\<lambda>xs. Inr (x # xs)))"

lemma collect_Ok [simp]: "collect (map Inr xs) = Inr xs"
  by (induction xs) auto

lemma find_SomeD: "find P xs = Some x \<Longrightarrow> x \<in> set xs \<and> P x"
  by (auto simp: find_Some_iff)

lemma collect_length: "collect rs = Inr xs \<Longrightarrow> length xs = length rs"
  by (induction rs arbitrary: xs) (auto simp: and_then_Ok_iff)

section \<open>Bytes and buffers\<close>

type_synonym byte = "8 word"
type_synonym buffer = "byte list"

definition byte_of_int :: "int \<Rightarrow> byte" where
  "byte_of_int n = word_of_int n"

definition be16 :: "nat \<Rightarrow> buffer" where
  "be16 n = [of_nat (n div 256), of_nat n]"

definition be32 :: "nat \<Rightarrow> buffer" where
  "be32 n = [of_nat (n div 16777216), of_nat (n div 65536), of_nat (n div 256), of_nat n]"

definition readUInt16BE :: "buffer \<Rightarrow> nat \<Rightarrow> nat" where
  "readUInt16BE buf off = 256 * unat (buf ! off) + unat (buf ! (off + 1))"

definition readUInt32BE :: "buffer \<Rightarrow> nat \<Rightarrow> nat" where
  "readUInt32BE buf off =
     16777216 * unat (buf ! off) + 65536 * unat (buf ! (off + 1))
     + 256 * unat (buf ! (off + 2)) + unat (buf ! (off + 3))"

definition subarray :: "buffer \<Rightarrow> nat \<Rightarrow> nat \<Rightarrow> buffer" where
  "subarray buf s e = take (e - s) (drop s buf)"

definition buf_copy :: "buffer \<Rightarrow> buffer \<Rightarrow> nat \<Rightarrow> buffer" where
  "buf_copy src dst off =
     take off dst @ take (length dst - off) src @ drop (off + length src) dst"

definition buf_fill0 :: "buffer \<Rightarrow> nat \<Rightarrow> nat \<Rightarrow> buffer result" where
  "buf_fill0 buf s e =
     (if e > length buf then Inl ''ERR_OUT_OF_RANGE''
      else if s \<ge> e then Inr buf
      else Inr (take s buf @ replicate (e - s) 0 @ drop e buf))"

definition xor_bytes :: "buffer \<Rightarrow> buffer \<Rightarrow> buffer" where
  "xor_bytes xs ys = map2 (XOR) xs ys"

lemma length_be16 [simp, buf_simps]: "length (be16 n) = 2"
  by (simp add: be16_def)

lemma length_be32 [simp, buf_simps]: "length (be32 n) = 4"
  by (simp add: be32_def)

lemma unat_byte_lt [simp]: "unat (b :: byte) < 256"
  using unsigned_less [of b] by simp

lemma unat_of_nat_byte [simp]: "unat (of_nat n :: byte) = n mod 256"
  by (simp add: unat_of_nat)

lemma readUInt16BE_be16:
  "n < 65536 \<Longrightarrow> length pre = off \<Longrightarrow> readUInt16BE (pre @ be16 n @ post) off = n"
  by (simp add: readUInt16BE_def be16_def nth_append)

lemma bytes4_value:
  "16777216 * (n div 16777216) + 65536 * (n div 65536 mod 256) + 256 * (n div 256 mod 256) + n mod 256
     = (n :: nat)"
proof -
  have *: "n mod 65536 = 256 * (n div 256 mod 256) + n mod 256"
    using mod_mult2_eq [of n 256 256] by simp
  have "n div 65536 = 256 * (n div 16777216) + n div 65536 mod 256"
    using div_mult_mod_eq [of "n div 65536" 256] by (simp add: div_mult2_eq [symmetric])
  moreover have "n = 65536 * (n div 65536) + n mod 65536"
    by simp
  ultimately show ?thesis using * by simp
qed

lemma readUInt32BE_be32:
  "n < 4294967296 \<Longrightarrow> length pre = off \<Longrightarrow> readUInt32BE (pre @ be32 n @ post) off = n"
  using bytes4_value [of n] by (simp add: readUInt32BE_def be32_def nth_append)

lemma readUInt16BE_lt: "readUInt16BE buf off < 65536"
  using unat_byte_lt [of "buf ! off"] unat_byte_lt [of "buf ! (off + 1)"]
  by (simp add: readUInt16BE_def del: unat_byte_lt)

lemma length_subarray [simp, buf_simps]:
  "length (subarray buf s e) = min (e - s) (length buf - s)"
  by (simp add: subarray_def min.commute)

lemma length_buf_copy [simp, buf_simps]: "length (buf_copy src dst off) = length dst"
  by (simp add: buf_copy_def)

lemma buf_copy_exact:
  "buf_copy src (pre @ old @ post) off = pre @ src @ post"
  if "length pre = off" and "length old = length src"
  using that by (simp add: buf_copy_def)

lemma buf_fill0_Ok:
  "e \<le> length buf \<Longrightarrow> s < e \<Longrightarrow> buf_fill0 buf s e = Inr (take s buf @ replicate (e - s) 0 @ drop e buf)"
  by (simp add: buf_fill0_def)

lemma buf_fill0_mid:
  "buf_fill0 (pre @ old @ post) s e = Inr (pre @ replicate (length old) 0 @ post)"
  if "length pre = s" and "e = s + length old"
  using that by (simp add: buf_fill0_def)

lemma buf_fill0_length: "buf_fill0 buf s e = Inr buf' \<Longrightarrow> length buf' = length buf"
  by (auto simp: buf_fill0_def split: if_splits)

lemma length_xor_bytes [simp, buf_simps]:
  "length (xor_bytes xs ys) = min (length xs) (length ys)"
  by (simp add: xor_bytes_def)

lemma xor_bytes_cancel: "length xs \<le> length ys \<Longrightarrow> xor_bytes (xor_bytes xs ys) ys = xs"
proof (induction xs arbitrary: ys)
  case Nil
  then show ?case by (simp add: xor_bytes_def)
next
  case (Cons x xs)
  then obtain y ys' where "ys = y # ys'" and "length xs \<le> length ys'"
    by (cases ys) auto
  with Cons.IH [of ys'] show ?case
    by (simp add: xor_bytes_def xor.assoc)
qed

end
