(* ===== verification/JsText.thy ===== *)
theory JsText
  imports Prelude Complex_Main
begin

text \<open>
  JavaScript strings as their UTF-8 bytes: splitting, joining, trimming, \<open>parseInt\<close>,
  \<open>Number\<close>, \<open>toString\<close> in bases 10 and 16, \<open>padStart\<close>, and the UTF-8 conversions of Node's
  \<open>Buffer\<close>. The lemmas are the round trips the address and packet theories rest on.
\<close>

section \<open>Characters\<close>

definition code :: "char \<Rightarrow> nat" where
  "code c = of_char c"

definition byte_of_char :: "char \<Rightarrow> byte" where
  "byte_of_char c = of_nat (code c)"

definition char_of_byte :: "byte \<Rightarrow> char" where
  "char_of_byte b = char_of (unat b)"

lemma code_lt [simp]: "code c < 256"
  by (simp add: code_def)

lemma char_of_code [simp]: "char_of (code c) = c"
  by (simp add: code_def)

lemma code_char_of [simp]: "code (char_of n) = n mod 256"
  by (simp add: code_def)

lemma byte_char_inverse [simp]: "char_of_byte (byte_of_char c) = c"
  by (simp add: char_of_byte_def byte_of_char_def)

lemma char_byte_inverse [simp]: "byte_of_char (char_of_byte b) = b"
  by (simp add: char_of_byte_def byte_of_char_def unat_mod_distrib)

definition is_digit :: "char \<Rightarrow> bool" where
  "is_digit c \<longleftrightarrow> 48 \<le> code c \<and> code c \<le> 57"

definition digit_val :: "char \<Rightarrow> nat" where
  "digit_val c = code c - 48"

definition digit_char :: "nat \<Rightarrow> char" where
  "digit_char d = char_of (48 + d)"

definition is_hex :: "char \<Rightarrow> bool" where
  "is_hex c \<longleftrightarrow> is_digit c \<or> (65 \<le> code c \<and> code c \<le> 70) \<or> (97 \<le> code c \<and> code c \<le> 102)"

definition hex_val :: "char \<Rightarrow> nat" where
  "hex_val c = (if code c \<le> 57 then code c - 48 else if code c \<le> 70 then code c - 55 else code c - 87)"

definition hex_char :: "nat \<Rightarrow> char" where
  "hex_char d = (if d < 10 then char_of (48 + d) else char_of (87 + d))"

lemma is_digit_digit_char [simp]: "d < 10 \<Longrightarrow> is_digit (digit_char d)"
  by (simp add: is_digit_def digit_char_def)

lemma digit_val_digit_char [simp]: "d < 10 \<Longrightarrow> digit_val (digit_char d) = d"
  by (simp add: digit_val_def digit_char_def)

lemma is_hex_hex_char [simp]: "d < 16 \<Longrightarrow> is_hex (hex_char d)"
  by (auto simp: is_hex_def is_digit_def hex_char_def)

lemma hex_val_hex_char [simp]: "d < 16 \<Longrightarrow> hex_val (hex_char d) = d"
  by (auto simp: hex_val_def hex_char_def)

section \<open>UTF-8\<close>

definition utf8_bytes :: "string \<Rightarrow> buffer" where
  "utf8_bytes s = map byte_of_char s"

text \<open>How many of the next bytes continue the sequence, at most \<open>n\<close>, the first in \<open>lo..hi\<close>.\<close>

fun utf8_conts :: "nat \<Rightarrow> nat \<Rightarrow> nat \<Rightarrow> buffer \<Rightarrow> nat" where
  "utf8_conts 0 lo hi bs = 0"
| "utf8_conts (Suc n) lo hi [] = 0"
| "utf8_conts (Suc n) lo hi (b # bs) =
     (if lo \<le> unat b \<and> unat b \<le> hi then Suc (utf8_conts n 128 191 bs) else 0)"

lemma utf8_conts_le: "utf8_conts n lo hi bs \<le> length bs"
  by (induction n lo hi bs rule: utf8_conts.induct) auto

text \<open>The continuation count a lead byte announces, with the range of its first continuation.\<close>

definition utf8_lead :: "byte \<Rightarrow> (nat \<times> nat \<times> nat) option" where
  "utf8_lead b = (let n = unat b in
     if n < 128 then Some (0, 128, 191)
     else if n < 194 then None
     else if n < 224 then Some (1, 128, 191)
     else if n = 224 then Some (2, 160, 191)
     else if n = 237 then Some (2, 128, 159)
     else if n < 240 then Some (2, 128, 191)
     else if n = 240 then Some (3, 144, 191)
     else if n < 244 then Some (3, 128, 191)
     else if n = 244 then Some (3, 128, 143)
     else None)"

definition utf8_replacement :: buffer where
  "utf8_replacement = [239, 191, 189]"

function utf8_fix :: "buffer \<Rightarrow> buffer" where
  "utf8_fix [] = []"
| "utf8_fix (b # bs) =
     (case utf8_lead b of
        None \<Rightarrow> utf8_replacement @ utf8_fix bs
      | Some (n, lo, hi) \<Rightarrow>
          let k = utf8_conts n lo hi bs in
          (if k = n then b # take k bs else utf8_replacement) @ utf8_fix (drop k bs))"
  by pat_completeness auto
termination
  by (relation "measure length") auto

definition utf8_text :: "buffer \<Rightarrow> string" where
  "utf8_text buf = map char_of_byte (utf8_fix buf)"

definition valid_text :: "string \<Rightarrow> bool" where
  "valid_text s \<longleftrightarrow> utf8_fix (utf8_bytes s) = utf8_bytes s"

lemma utf8_text_bytes [simp]: "valid_text s \<Longrightarrow> utf8_text (utf8_bytes s) = s"
  by (simp add: valid_text_def utf8_text_def) (simp add: utf8_bytes_def comp_def)

lemma length_utf8_bytes [simp, buf_simps]: "length (utf8_bytes s) = length s"
  by (simp add: utf8_bytes_def)

lemma utf8_bytes_append [simp]: "utf8_bytes (s @ t) = utf8_bytes s @ utf8_bytes t"
  by (simp add: utf8_bytes_def)

lemma utf8_bytes_inj [simp]: "utf8_bytes s = utf8_bytes t \<longleftrightarrow> s = t"
proof
  assume "utf8_bytes s = utf8_bytes t"
  then have "map char_of_byte (utf8_bytes s) = map char_of_byte (utf8_bytes t)" by simp
  then show "s = t" by (simp add: utf8_bytes_def comp_def)
qed simp

lemma ascii_utf8_fix: "\<forall>b\<in>set bs. unat b < 128 \<Longrightarrow> utf8_fix bs = bs"
  by (induction bs) (auto simp: utf8_lead_def)

lemma ascii_valid_text: "\<forall>c\<in>set s. code c < 128 \<Longrightarrow> valid_text s"
  by (simp add: valid_text_def, rule ascii_utf8_fix) (auto simp: utf8_bytes_def byte_of_char_def)

text \<open>\<open>s.length\<close> and \<open>s.slice(0, n)\<close> count UTF-16 code units; a pair cut in the middle leaves a
  lone surrogate, which every encoder writes as U+FFFD.\<close>

fun js_length :: "string \<Rightarrow> nat" where
  "js_length [] = 0"
| "js_length (c # cs) =
     (if 128 \<le> code c \<and> code c < 192 then 0 else if 240 \<le> code c then 2 else 1) + js_length cs"

fun js_take :: "nat \<Rightarrow> string \<Rightarrow> string" where
  "js_take n [] = []"
| "js_take n (c # cs) =
     (if 128 \<le> code c \<and> code c < 192 then c # js_take n cs
      else if 240 \<le> code c then
        (if n = 0 then [] else if n = 1 then map char_of_byte utf8_replacement
         else c # js_take (n - 2) cs)
      else if n = 0 then [] else c # js_take (n - 1) cs)"

lemma js_length_ascii: "\<forall>c\<in>set s. code c < 128 \<Longrightarrow> js_length s = length s"
  by (induction s) auto

section \<open>Splitting and joining\<close>

fun js_split :: "char \<Rightarrow> string \<Rightarrow> string list" where
  "js_split sep [] = [[]]"
| "js_split sep (c # cs) =
     (if c = sep then [] # js_split sep cs
      else (case js_split sep cs of [] \<Rightarrow> [[c]] | w # ws \<Rightarrow> (c # w) # ws))"

fun js_join :: "string \<Rightarrow> string list \<Rightarrow> string" where
  "js_join sep [] = []"
| "js_join sep [w] = w"
| "js_join sep (w # v # ws) = w @ sep @ js_join sep (v # ws)"

lemma js_split_not_Nil [simp]: "js_split sep s \<noteq> []"
  by (induction s) (auto split: list.splits)

lemma js_split_no_sep: "sep \<notin> set w \<Longrightarrow> js_split sep w = [w]"
  by (induction w) auto

lemma js_split_append:
  "sep \<notin> set w \<Longrightarrow> js_split sep (w @ sep # rest) = w # js_split sep rest"
  by (induction w) auto

lemma js_split_join:
  "ws \<noteq> [] \<Longrightarrow> \<forall>w\<in>set ws. sep \<notin> set w \<Longrightarrow> js_split sep (js_join [sep] ws) = ws"
  by (induction "[sep]" ws rule: js_join.induct) (auto simp: js_split_no_sep js_split_append)

text \<open>\<open>s.split('::')\<close>: the separator is two characters.\<close>

fun split_colons :: "string \<Rightarrow> string list" where
  "split_colons [] = [[]]"
| "split_colons [c] = [[c]]"
| "split_colons (c # d # cs) =
     (if c = CHR '':'' \<and> d = CHR '':'' then [] # split_colons cs
      else (case split_colons (d # cs) of [] \<Rightarrow> [[c]] | w # ws \<Rightarrow> (c # w) # ws))"

fun has_colons :: "string \<Rightarrow> bool" where
  "has_colons (c # d # cs) \<longleftrightarrow> (c = CHR '':'' \<and> d = CHR '':'') \<or> has_colons (d # cs)"
| "has_colons _ \<longleftrightarrow> False"

definition starts_with :: "string \<Rightarrow> string \<Rightarrow> bool" where
  "starts_with s w \<longleftrightarrow> take (length w) s = w"

definition js_includes :: "string \<Rightarrow> char \<Rightarrow> bool" where
  "js_includes s c \<longleftrightarrow> c \<in> set s"

section \<open>White space\<close>

definition char_seq :: "nat list \<Rightarrow> string" where
  "char_seq ns = map char_of ns"

text \<open>The code points \<open>trim\<close> removes (WhiteSpace and LineTerminator), as UTF-8.\<close>

definition js_spaces :: "string list" where
  "js_spaces = map char_seq
     [[9], [10], [11], [12], [13], [32], [194, 160], [225, 154, 128],
      [226, 128, 128], [226, 128, 129], [226, 128, 130], [226, 128, 131], [226, 128, 132],
      [226, 128, 133], [226, 128, 134], [226, 128, 135], [226, 128, 136], [226, 128, 137],
      [226, 128, 138], [226, 128, 168], [226, 128, 169], [226, 128, 175], [226, 129, 159],
      [227, 128, 128], [239, 187, 191]]"

fun trim_with :: "string list \<Rightarrow> nat \<Rightarrow> string \<Rightarrow> string" where
  "trim_with ws 0 s = s"
| "trim_with ws (Suc n) s =
     (case find (\<lambda>w. w \<noteq> [] \<and> take (length w) s = w) ws of
        None \<Rightarrow> s | Some w \<Rightarrow> trim_with ws n (drop (length w) s))"

definition js_trim_left :: "string \<Rightarrow> string" where
  "js_trim_left s = trim_with js_spaces (length s) s"

definition js_trim :: "string \<Rightarrow> string" where
  "js_trim s = (let l = js_trim_left s in rev (trim_with (map rev js_spaces) (length l) (rev l)))"

definition no_space_start :: "string \<Rightarrow> bool" where
  "no_space_start s \<longleftrightarrow> (case s of [] \<Rightarrow> True | c # _ \<Rightarrow> 33 \<le> code c \<and> code c < 128)"

lemma no_space_head:
  assumes "no_space_start s" and "w \<in> set js_spaces"
  shows "take (length w) s \<noteq> w"
  using assms
  by (cases s) (auto simp: no_space_start_def js_spaces_def char_seq_def code_def)

lemma trim_left_clean [simp]: "no_space_start s \<Longrightarrow> js_trim_left s = s"
proof -
  assume "no_space_start s"
  then have "find (\<lambda>w. w \<noteq> [] \<and> take (length w) s = w) js_spaces = None"
    by (auto simp: find_None_iff dest: no_space_head)
  then show ?thesis
    by (cases "length s") (simp_all add: js_trim_left_def)
qed

lemma no_space_head_rev:
  assumes "no_space_start s" and "w \<in> set (map rev js_spaces)"
  shows "take (length w) s \<noteq> w"
  using assms
  by (cases s) (auto simp: no_space_start_def js_spaces_def char_seq_def code_def)

lemma trim_clean:
  assumes "no_space_start s" and "no_space_start (rev s)"
  shows "js_trim s = s"
proof -
  from assms(2) have "find (\<lambda>w. w \<noteq> [] \<and> take (length w) (rev s) = w) (map rev js_spaces) = None"
    by (auto simp only: find_None_iff dest: no_space_head_rev)
  then have "trim_with (map rev js_spaces) n (rev s) = rev s" for n
    by (cases n) simp_all
  with assms(1) show ?thesis
    by (simp add: js_trim_def)
qed

section \<open>Numbers as text\<close>

fun show_nat :: "nat \<Rightarrow> string" where
  "show_nat n = (if n < 10 then [digit_char n] else show_nat (n div 10) @ [digit_char (n mod 10)])"

fun show_hex :: "nat \<Rightarrow> string" where
  "show_hex n = (if n < 16 then [hex_char n] else show_hex (n div 16) @ [hex_char (n mod 16)])"

declare show_nat.simps [simp del] show_hex.simps [simp del]

definition show_int :: "int \<Rightarrow> string" where
  "show_int i = (if i < 0 then CHR ''-'' # show_nat (nat (- i)) else show_nat (nat i))"

definition digits_val :: "string \<Rightarrow> nat" where
  "digits_val ds = foldl (\<lambda>acc c. acc * 10 + digit_val c) 0 ds"

definition hexes_val :: "string \<Rightarrow> nat" where
  "hexes_val ds = foldl (\<lambda>acc c. acc * 16 + hex_val c) 0 ds"

text \<open>An optional sign: the factor and what follows it.\<close>

definition take_sign :: "string \<Rightarrow> int \<times> string" where
  "take_sign s = (case s of
     [] \<Rightarrow> (1, [])
   | c # cs \<Rightarrow> if c = CHR ''-'' then (-1, cs) else if c = CHR ''+'' then (1, cs) else (1, s))"

text \<open>\<open>parseInt(s, 10)\<close> and \<open>parseInt(s, 16)\<close>; \<open>None\<close> is NaN.\<close>

definition parse_int10 :: "string \<Rightarrow> int option" where
  "parse_int10 s = (let (sgn, r) = take_sign (js_trim_left s); ds = takeWhile is_digit r in
     if ds = [] then None else Some (sgn * int (digits_val ds)))"

definition parse_int16 :: "string \<Rightarrow> int option" where
  "parse_int16 s = (let (sgn, r) = take_sign (js_trim_left s);
       r' = (if take 2 r = ''0x'' \<or> take 2 r = ''0X'' then drop 2 r else r);
       ds = takeWhile is_hex r' in
     if ds = [] then None else Some (sgn * int (hexes_val ds)))"

text \<open>
  \<open>Number(s)\<close>: white space around, a decimal literal with optional fraction and exponent, or a
  \<open>0x\<close>/\<open>0o\<close>/\<open>0b\<close> integer; empty text is 0. \<open>None\<close> stands for NaN and for the infinities, which
  the callers treat alike (not an integer, 0 when converted to 32 bits). Values are exact
  rationals: the rounding of literals beyond 53 significant bits is not modelled.
\<close>

definition base_digits :: "nat \<Rightarrow> string \<Rightarrow> rat option" where
  "base_digits b ds =
     (if ds \<noteq> [] \<and> (\<forall>c\<in>set ds. is_hex c \<and> hex_val c < b)
      then Some (of_nat (foldl (\<lambda>acc c. acc * b + hex_val c) 0 ds)) else None)"

definition scale10 :: "rat \<Rightarrow> int \<Rightarrow> rat" where
  "scale10 q e = (if 0 \<le> e then q * 10 ^ nat e else q / 10 ^ nat (- e))"

definition js_exponent :: "string \<Rightarrow> int option" where
  "js_exponent r = (case r of
     [] \<Rightarrow> Some 0
   | c # cs \<Rightarrow>
       (let (sgn, ds) = take_sign cs in
        if (c = CHR ''e'' \<or> c = CHR ''E'') \<and> ds \<noteq> [] \<and> (\<forall>d\<in>set ds. is_digit d)
        then Some (sgn * int (digits_val ds)) else None))"

definition js_decimal :: "string \<Rightarrow> rat option" where
  "js_decimal t =
     (let (sgn, r) = take_sign t;
          ip = takeWhile is_digit r; r1 = dropWhile is_digit r;
          dot = (r1 \<noteq> [] \<and> hd r1 = CHR ''.'');
          fp = (if dot then takeWhile is_digit (tl r1) else []);
          r2 = (if dot then dropWhile is_digit (tl r1) else r1)
      in if ip = [] \<and> fp = [] then None
         else (case js_exponent r2 of
                 None \<Rightarrow> None
               | Some e \<Rightarrow> Some (of_int sgn *
                   scale10 (of_nat (digits_val (ip @ fp))) (e - int (length fp)))))"

definition js_number :: "string \<Rightarrow> rat option" where
  "js_number s =
     (let t = js_trim s; p = take 2 t in
      if t = [] then Some 0
      else if p = ''0x'' \<or> p = ''0X'' then base_digits 16 (drop 2 t)
      else if p = ''0o'' \<or> p = ''0O'' then base_digits 8 (drop 2 t)
      else if p = ''0b'' \<or> p = ''0B'' then base_digits 2 (drop 2 t)
      else js_decimal t)"

text \<open>\<open>ToUint32\<close>, the conversion of \<open>x >>> 0\<close>, and \<open>ToInt32\<close>, that of the other bit operators.\<close>

definition js_trunc :: "rat \<Rightarrow> int" where
  "js_trunc q = (if 0 \<le> q then \<lfloor>q\<rfloor> else \<lceil>q\<rceil>)"

definition to_uint32 :: "rat option \<Rightarrow> nat" where
  "to_uint32 x = (case x of None \<Rightarrow> 0 | Some q \<Rightarrow> nat (js_trunc q mod 4294967296))"

definition to_word32 :: "rat option \<Rightarrow> 32 word" where
  "to_word32 x = (case x of None \<Rightarrow> 0 | Some q \<Rightarrow> word_of_int (js_trunc q))"

definition pad_start :: "nat \<Rightarrow> char \<Rightarrow> string \<Rightarrow> string" where
  "pad_start n c s = replicate (n - js_length s) c @ s"

lemma show_nat_small: "n < 10 \<Longrightarrow> show_nat n = [digit_char n]"
  by (subst show_nat.simps) simp

lemma show_nat_big: "\<not> n < 10 \<Longrightarrow> show_nat n = show_nat (n div 10) @ [digit_char (n mod 10)]"
  by (subst show_nat.simps) simp

lemma show_hex_small: "n < 16 \<Longrightarrow> show_hex n = [hex_char n]"
  by (subst show_hex.simps) simp

lemma show_hex_big: "\<not> n < 16 \<Longrightarrow> show_hex n = show_hex (n div 16) @ [hex_char (n mod 16)]"
  by (subst show_hex.simps) simp

lemma show_nat_digits: "\<forall>c\<in>set (show_nat n). is_digit c"
proof (induction n rule: show_nat.induct)
  case (1 n)
  then show ?case
    by (cases "n < 10") (auto simp: show_nat_small show_nat_big)
qed

lemma show_hex_hexes: "\<forall>c\<in>set (show_hex n). is_hex c"
proof (induction n rule: show_hex.induct)
  case (1 n)
  then show ?case
    by (cases "n < 16") (auto simp: show_hex_small show_hex_big)
qed

lemma show_nat_not_Nil [simp]: "show_nat n \<noteq> []"
  by (cases "n < 10") (simp_all add: show_nat_small show_nat_big)

lemma show_hex_not_Nil [simp]: "show_hex n \<noteq> []"
  by (cases "n < 16") (simp_all add: show_hex_small show_hex_big)

lemma digits_val_show [simp]: "digits_val (show_nat n) = n"
proof (induction n rule: show_nat.induct)
  case (1 n)
  then show ?case
    by (cases "n < 10") (simp_all add: show_nat_small show_nat_big digits_val_def)
qed

lemma hexes_val_show [simp]: "hexes_val (show_hex n) = n"
proof (induction n rule: show_hex.induct)
  case (1 n)
  then show ?case
    by (cases "n < 16") (simp_all add: show_hex_small show_hex_big hexes_val_def)
qed

lemma digit_no_space: "is_digit c \<Longrightarrow> no_space_start (c # cs)"
  by (simp add: is_digit_def no_space_start_def)

lemma take_sign_digit: "is_digit c \<Longrightarrow> take_sign (c # cs) = (1, c # cs)"
  by (auto simp: take_sign_def is_digit_def code_def)

lemma digits_span:
  assumes "\<forall>c\<in>set ds. is_digit c"
  shows "takeWhile is_digit ds = ds" and "dropWhile is_digit ds = []"
  using assms by (simp_all only: takeWhile_eq_all_conv dropWhile_eq_Nil_conv)

lemma parse_int10_digits:
  assumes "ds \<noteq> []" and "\<forall>c\<in>set ds. is_digit c"
  shows "parse_int10 ds = Some (int (digits_val ds))"
proof -
  from assms obtain c cs where "ds = c # cs" and "is_digit c" by (cases ds) auto
  then have "js_trim_left ds = ds" and "take_sign ds = (1, ds)"
    by (simp_all add: digit_no_space take_sign_digit)
  then show ?thesis
    using assms by (simp add: parse_int10_def digits_span)
qed

lemma parse_int10_show [simp]: "parse_int10 (show_nat n) = Some (int n)"
  by (simp add: parse_int10_digits show_nat_digits)

lemma trim_digits [simp]:
  assumes "\<forall>c\<in>set ds. is_digit c"
  shows "js_trim ds = ds"
proof (rule trim_clean)
  show "no_space_start ds"
    using assms by (cases ds) (auto simp: no_space_start_def is_digit_def)
  show "no_space_start (rev ds)"
    using assms by (cases ds rule: rev_cases) (auto simp: no_space_start_def is_digit_def)
qed

lemma js_number_digits:
  assumes "ds \<noteq> []" and "\<forall>c\<in>set ds. is_digit c"
  shows "js_number ds = Some (of_nat (digits_val ds))"
proof -
  from assms obtain c cs where ds: "ds = c # cs" and "is_digit c" by (cases ds) auto
  then have sign: "take_sign ds = (1, ds)" by (simp add: take_sign_digit)
  have nohex: "take 2 ds \<noteq> [a, b]" if "\<not> is_digit b" for a b
    using assms(2) that by (cases ds; cases "tl ds") auto
  have dec: "js_decimal ds = Some (of_nat (digits_val ds))"
    by (simp add: js_decimal_def js_exponent_def scale10_def sign assms digits_span)
  have "\<not> is_digit d" if "d \<in> {CHR ''x'', CHR ''X'', CHR ''o'', CHR ''O'', CHR ''b'', CHR ''B''}" for d
    using that by (auto simp: is_digit_def code_def)
  then show ?thesis
    using assms nohex dec by (simp add: js_number_def Let_def)
qed

lemma js_number_show [simp]: "js_number (show_nat n) = Some (of_nat n)"
  by (simp add: js_number_digits show_nat_digits)

lemma js_trunc_of_nat [simp]: "js_trunc (of_nat n) = int n"
  by (simp add: js_trunc_def)

lemma to_uint32_of_nat [simp]: "to_uint32 (Some (of_nat n)) = n mod 4294967296"
  by (simp add: to_uint32_def nat_mod_distrib)

lemma dot_not_digit [simp]: "CHR ''.'' \<notin> set (show_nat n)"
  using show_nat_digits [of n] by (auto simp: is_digit_def code_def)

lemma colon_not_hex [simp]: "CHR '':'' \<notin> set (show_hex n)"
  using show_hex_hexes [of n] by (auto simp: is_hex_def is_digit_def code_def)

section \<open>Visible text\<close>

text \<open>Texts of printable ASCII without blanks: trimming leaves them alone.\<close>

definition visible :: "string \<Rightarrow> bool" where
  "visible s \<longleftrightarrow> (\<forall>c\<in>set s. 33 \<le> code c \<and> code c < 128)"

lemma visible_append [simp]: "visible (s @ t) \<longleftrightarrow> visible s \<and> visible t"
  by (auto simp: visible_def)

lemma visible_Cons [simp]: "visible (c # s) \<longleftrightarrow> 33 \<le> code c \<and> code c < 128 \<and> visible s"
  by (auto simp: visible_def)

lemma visible_Nil [simp]: "visible []"
  by (simp add: visible_def)

lemma visible_trim [simp]: "visible s \<Longrightarrow> js_trim s = s"
proof (rule trim_clean)
  assume s: "visible s"
  then show "no_space_start s" by (cases s) (auto simp: no_space_start_def)
  from s show "no_space_start (rev s)" by (cases s rule: rev_cases) (auto simp: no_space_start_def)
qed

lemma visible_show_nat [simp]: "visible (show_nat n)"
  using show_nat_digits [of n] by (auto simp: visible_def is_digit_def)

lemma visible_join: "visible sep \<Longrightarrow> \<forall>w\<in>set ws. visible w \<Longrightarrow> visible (js_join sep ws)"
  by (induction sep ws rule: js_join.induct) auto

lemma takeWhile_until: "c \<notin> set u \<Longrightarrow> takeWhile (\<lambda>x. x \<noteq> c) (u @ c # v) = u"
  by (induction u) auto

lemma takeWhile_none: "c \<notin> set u \<Longrightarrow> takeWhile (\<lambda>x. x \<noteq> c) u = u"
  by (induction u) auto

lemma dropWhile_until: "c \<notin> set u \<Longrightarrow> dropWhile (\<lambda>x. x \<noteq> c) (u @ c # v) = c # v"
  by (induction u) auto

lemma special_chars [simp]:
  "\<not> is_digit CHR ''/''" "\<not> is_digit CHR '',''" "\<not> is_digit CHR ''%''" "\<not> is_digit CHR '':''"
  by (simp_all add: is_digit_def code_def)

lemma hex_no [simp]: "\<not> is_hex c \<Longrightarrow> c \<notin> set (show_hex n)"
  using show_hex_hexes [of n] by auto

lemma special_not_hex [simp]:
  "\<not> is_hex CHR ''%''" "\<not> is_hex CHR '':''" "\<not> is_hex CHR ''.''" "\<not> is_hex CHR ''/''"
  by (simp_all add: is_hex_def is_digit_def code_def)

end
