(* ===== verification/Framing.thy ===== *)
theory Framing
  imports Prelude
begin

text \<open>
  Self-delimiting encodings. A codec that decodes one item from the front of a buffer and gives
  back the rest is all that a reader of a stream of items needs; the locale states that contract
  and proves the stream lemmas once. It is interpreted on the RADIUS attribute encoding
  (theory RadiusWire) and on the RouterOS API word encoding (theory RouterosStream).
\<close>

text \<open>Decode items until the decoder stops; the fuel bounds the number of items.\<close>

fun decode_all :: "(buffer \<Rightarrow> ('a \<times> buffer) option) \<Rightarrow> nat \<Rightarrow> buffer \<Rightarrow> 'a list \<times> buffer" where
  "decode_all dec 0 bs = ([], bs)"
| "decode_all dec (Suc n) bs =
     (case dec bs of
        None \<Rightarrow> ([], bs)
      | Some (x, rest) \<Rightarrow> (let (xs, r) = decode_all dec n rest in (x # xs, r)))"

locale framing =
  fixes enc :: "'a \<Rightarrow> buffer"
    and dec :: "buffer \<Rightarrow> ('a \<times> buffer) option"
    and ok :: "'a \<Rightarrow> bool"
  assumes dec_enc: "ok x \<Longrightarrow> dec (enc x @ rest) = Some (x, rest)"
    and dec_shrinks: "dec bs = Some (x, rest) \<Longrightarrow> length rest < length bs"
begin

lemma enc_nonempty: "ok x \<Longrightarrow> 0 < length (enc x)"
  using dec_enc [of x "[]"] dec_shrinks [of "enc x @ []" x "[]"] by simp

lemma items_le_bytes: "\<forall>x\<in>set xs. ok x \<Longrightarrow> length xs \<le> length (concat (map enc xs))"
proof (induction xs)
  case Nil
  then show ?case by simp
next
  case (Cons x xs)
  then have "length xs \<le> length (concat (map enc xs))" and "0 < length (enc x)"
    using enc_nonempty [of x] by simp_all
  then show ?case by (simp only: list.map concat.simps length_append length_Cons)
qed

lemma stream_roundtrip:
  assumes "\<forall>x\<in>set xs. ok x" and "dec rest = None" and "length xs \<le> n"
  shows "decode_all dec n (concat (map enc xs) @ rest) = (xs, rest)"
  using assms
proof (induction xs arbitrary: n)
  case Nil
  then show ?case by (cases n) auto
next
  case (Cons x xs)
  then obtain m where "n = Suc m" and "length xs \<le> m" by (cases n) auto
  with Cons show ?case by (simp add: dec_enc)
qed

lemma fuel_suffices:
  "length bs \<le> n \<Longrightarrow> decode_all dec (n + k) bs = decode_all dec n bs"
proof (induction n arbitrary: bs)
  case 0
  have "dec [] = None"
    using dec_shrinks [of "[]"] by (cases "dec []") auto
  with 0 show ?case by (cases k) auto
next
  case (Suc n)
  show ?case
  proof (cases "dec bs")
    case None
    then show ?thesis by simp
  next
    case (Some p)
    then obtain x rest where p: "dec bs = Some (x, rest)" by (cases p) auto
    then have "length rest \<le> n" using dec_shrinks [OF p] Suc.prems by simp
    then show ?thesis using p Suc.IH [of rest] by simp
  qed
qed

lemma stops_where_dec_stops: "length bs \<le> n \<Longrightarrow> dec (snd (decode_all dec n bs)) = None"
proof (induction n arbitrary: bs)
  case 0
  then show ?case using dec_shrinks [of "[]"] by (cases "dec []") auto
next
  case (Suc n)
  show ?case
  proof (cases "dec bs")
    case None
    then show ?thesis by simp
  next
    case (Some p)
    then obtain x rest where p: "dec bs = Some (x, rest)" by (cases p) auto
    then have "length rest \<le> n" using dec_shrinks [OF p] Suc.prems by simp
    then show ?thesis using p Suc.IH [of rest] by (cases "decode_all dec n rest") simp
  qed
qed

end

text \<open>
  Where the decoder accepts canonical encodings only, what it consumed is the encoding of what it
  returned, so nothing of the input is lost or invented.
\<close>

locale exact_framing = framing +
  assumes dec_exact: "dec bs = Some (x, rest) \<Longrightarrow> ok x \<and> bs = enc x @ rest"
begin

lemma stream_exact:
  "decode_all dec n bs = (xs, rest) \<Longrightarrow> (\<forall>x\<in>set xs. ok x) \<and> bs = concat (map enc xs) @ rest"
proof (induction n arbitrary: bs xs rest)
  case 0
  then show ?case by simp
next
  case (Suc n)
  show ?case
  proof (cases "dec bs")
    case None
    with Suc.prems show ?thesis by simp
  next
    case (Some p)
    then obtain x r where p: "dec bs = Some (x, r)" by (cases p) auto
    obtain ys r' where q: "decode_all dec n r = (ys, r')" by force
    with p Suc.prems have "xs = x # ys" and "rest = r'" by simp_all
    with dec_exact [OF p] Suc.IH [OF q] show ?thesis by simp
  qed
qed

end

end
