(* ===== verification/RadiusCodec.thy ===== *)
theory RadiusCodec
  imports JsText Framing
begin

text \<open>
  The RADIUS packet codec, \<open>src/services/radiusServerCodec.js\<close>: decoding of packets and
  attributes, PAP and CHAP passwords, Message-Authenticator and response signing.
  MD5 and HMAC-MD5 are Node's \<open>crypto\<close>; they are the parameters \<open>md5\<close> (of the concatenation
  of the \<open>update\<close>d buffers) and \<open>hmac\<close> (of key and message). What the code relies on is that
  a digest has sixteen bytes.
\<close>

section \<open>Constants\<close>

definition ACCESS_REQUEST :: nat where "ACCESS_REQUEST = 1"
definition ACCESS_ACCEPT :: nat where "ACCESS_ACCEPT = 2"
definition ACCESS_REJECT :: nat where "ACCESS_REJECT = 3"
definition ACCOUNTING_REQUEST :: nat where "ACCOUNTING_REQUEST = 4"
definition ACCOUNTING_RESPONSE :: nat where "ACCOUNTING_RESPONSE = 5"

lemmas code_defs = ACCESS_REQUEST_def ACCESS_ACCEPT_def ACCESS_REJECT_def
  ACCOUNTING_REQUEST_def ACCOUNTING_RESPONSE_def

datatype attr_name =
  USER_NAME | USER_PASSWORD | CHAP_PASSWORD | NAS_IP_ADDRESS | NAS_PORT | SERVICE_TYPE
| FRAMED_PROTOCOL | FRAMED_IP_ADDRESS | FRAMED_POOL | REPLY_MESSAGE | VENDOR_SPECIFIC
| CALLED_STATION_ID | CALLING_STATION_ID | SESSION_TIMEOUT | ACCT_STATUS_TYPE
| ACCT_DELAY_TIME | ACCT_INPUT_OCTETS | ACCT_OUTPUT_OCTETS | ACCT_SESSION_ID
| ACCT_SESSION_TIME | ACCT_INPUT_PACKETS | ACCT_OUTPUT_PACKETS | ACCT_TERMINATE_CAUSE
| ACCT_INPUT_GIGAWORDS | ACCT_OUTPUT_GIGAWORDS | EVENT_TIMESTAMP | CHAP_CHALLENGE
| NAS_PORT_ID | FRAMED_IPV6_PREFIX | MESSAGE_AUTHENTICATOR

fun ATTR :: "attr_name \<Rightarrow> nat" where
  "ATTR USER_NAME = 1"
| "ATTR USER_PASSWORD = 2"
| "ATTR CHAP_PASSWORD = 3"
| "ATTR NAS_IP_ADDRESS = 4"
| "ATTR NAS_PORT = 5"
| "ATTR SERVICE_TYPE = 6"
| "ATTR FRAMED_PROTOCOL = 7"
| "ATTR FRAMED_IP_ADDRESS = 8"
| "ATTR FRAMED_POOL = 88"
| "ATTR REPLY_MESSAGE = 18"
| "ATTR VENDOR_SPECIFIC = 26"
| "ATTR CALLED_STATION_ID = 30"
| "ATTR CALLING_STATION_ID = 31"
| "ATTR SESSION_TIMEOUT = 27"
| "ATTR ACCT_STATUS_TYPE = 40"
| "ATTR ACCT_DELAY_TIME = 41"
| "ATTR ACCT_INPUT_OCTETS = 42"
| "ATTR ACCT_OUTPUT_OCTETS = 43"
| "ATTR ACCT_SESSION_ID = 44"
| "ATTR ACCT_SESSION_TIME = 46"
| "ATTR ACCT_INPUT_PACKETS = 47"
| "ATTR ACCT_OUTPUT_PACKETS = 48"
| "ATTR ACCT_TERMINATE_CAUSE = 49"
| "ATTR ACCT_INPUT_GIGAWORDS = 52"
| "ATTR ACCT_OUTPUT_GIGAWORDS = 53"
| "ATTR EVENT_TIMESTAMP = 55"
| "ATTR CHAP_CHALLENGE = 60"
| "ATTR NAS_PORT_ID = 87"
| "ATTR FRAMED_IPV6_PREFIX = 97"
| "ATTR MESSAGE_AUTHENTICATOR = 80"

fun ACCT_STATUS :: "nat \<Rightarrow> string option" where
  "ACCT_STATUS n =
     (if n = 1 then Some ''Start''
      else if n = 2 then Some ''Stop''
      else if n = 3 then Some ''Interim-Update''
      else if n = 7 then Some ''Accounting-On''
      else if n = 8 then Some ''Accounting-Off''
      else None)"

section \<open>Packets\<close>

record rad_attr =
  attr_type :: nat
  attr_value :: buffer

record rad_packet =
  pkt_code :: nat
  pkt_identifier :: nat
  pkt_length :: nat
  pkt_authenticator :: buffer
  pkt_attributes :: "rad_attr list"
  pkt_raw :: buffer

text \<open>The attribute loop of \<open>decodePacket\<close>: it stops at the first malformed attribute.\<close>

function decode_attrs :: "buffer \<Rightarrow> nat \<Rightarrow> nat \<Rightarrow> rad_attr list" where
  "decode_attrs buf len off =
     (if off + 2 \<le> len then
        (let alen = unat (buf ! (off + 1)) in
         if alen < 2 \<or> off + alen > len then []
         else \<lparr>attr_type = unat (buf ! off), attr_value = subarray buf (off + 2) (off + alen)\<rparr>
              # decode_attrs buf len (off + alen))
      else [])"
  by pat_completeness auto
termination
  by (relation "measure (\<lambda>(buf, len, off). len - off)") auto

declare decode_attrs.simps [simp del]

definition decodePacket :: "buffer \<Rightarrow> rad_packet result" where
  "decodePacket buf =
     (if length buf < 20 then Inl ''RADIUS packet too short''
      else let len = readUInt16BE buf 2 in
        if len < 20 \<or> len > length buf then Inl ''RADIUS packet length out of range''
        else Inr \<lparr>pkt_code = unat (buf ! 0), pkt_identifier = unat (buf ! 1), pkt_length = len,
                  pkt_authenticator = subarray buf 4 20,
                  pkt_attributes = decode_attrs buf len 20,
                  pkt_raw = subarray buf 0 len\<rparr>)"

section \<open>Attribute access\<close>

definition getAttr :: "rad_attr list \<Rightarrow> nat \<Rightarrow> buffer option" where
  "getAttr attributes ty =
     (case find (\<lambda>x. attr_type x = ty) attributes of
        Some a \<Rightarrow> Some (attr_value a) | None \<Rightarrow> None)"

definition getString :: "rad_attr list \<Rightarrow> nat \<Rightarrow> string option" where
  "getString attributes ty =
     (case getAttr attributes ty of Some v \<Rightarrow> Some (utf8_text v) | None \<Rightarrow> None)"

definition getInt :: "rad_attr list \<Rightarrow> nat \<Rightarrow> nat option" where
  "getInt attributes ty =
     (case getAttr attributes ty of
        Some v \<Rightarrow> (if 4 \<le> length v then Some (readUInt32BE v 0) else None)
      | None \<Rightarrow> None)"

definition dotted :: "nat list \<Rightarrow> string" where
  "dotted os = js_join ''.'' (map show_nat os)"

definition getIp :: "rad_attr list \<Rightarrow> nat \<Rightarrow> string option" where
  "getIp attributes ty =
     (case getAttr attributes ty of
        Some v \<Rightarrow> (if length v = 4 then Some (dotted (map unat v)) else None)
      | None \<Rightarrow> None)"

section \<open>Framed-IPv6-Prefix\<close>

text \<open>The run-length scan for the longest run of zero groups; the earlier run wins a tie.\<close>

function best_zero_run :: "string list \<Rightarrow> nat \<Rightarrow> int \<Rightarrow> nat \<Rightarrow> int \<times> nat" where
  "best_zero_run groups start bestStart bestLength =
     (if start < length groups then
        (if groups ! start \<noteq> ''0'' then best_zero_run groups (start + 1) bestStart bestLength
         else let run = length (takeWhile (\<lambda>g. g = ''0'') (drop start groups)) in
           (if bestLength < run then best_zero_run groups (start + run) (int start) run
            else best_zero_run groups (start + run) bestStart bestLength))
      else (bestStart, bestLength))"
  by pat_completeness auto
termination
proof (relation "measure (\<lambda>(groups, start, _). length groups - start)", goal_cases)
  case 1
  then show ?case by simp
next
  case 2
  then show ?case by simp
next
  case (3 groups start bestStart bestLength run)
  then have "0 < run" by (simp add: Cons_nth_drop_Suc [symmetric])
  with \<open>start < length groups\<close> show ?case by simp
next
  case (4 groups start bestStart bestLength run)
  then have "0 < run" by (simp add: Cons_nth_drop_Suc [symmetric])
  with \<open>start < length groups\<close> show ?case by simp
qed

declare best_zero_run.simps [simp del]

definition ipv6_groups :: "buffer \<Rightarrow> string list" where
  "ipv6_groups address = map (\<lambda>k. show_hex (readUInt16BE address (2 * k))) [0..<8]"

definition compress_groups :: "string list \<Rightarrow> string" where
  "compress_groups groups =
     (let (bestStart, bestLength) = best_zero_run groups 0 (-1) 0 in
      if bestLength > 1
      then js_join '':'' (take (nat bestStart) groups) @ ''::''
           @ js_join '':'' (drop (nat bestStart + bestLength) groups)
      else js_join '':'' groups)"

definition decode_ipv6_prefix :: "buffer \<Rightarrow> string result" where
  "decode_ipv6_prefix v =
     (if length v < 2 then Inl ''Malformed Framed-IPv6-Prefix attribute''
      else if v ! 0 \<noteq> 0 then Inl ''Malformed Framed-IPv6-Prefix reserved byte''
      else let prefixLength = unat (v ! 1); expectedLength = 2 + (prefixLength + 7) div 8 in
        if prefixLength > 128 \<or> length v \<noteq> expectedLength
        then Inl ''Malformed Framed-IPv6-Prefix length''
        else let remainingBits = prefixLength mod 8;
                 hostMask = push_bit (8 - remainingBits) 1 - (1 :: byte) in
          if remainingBits \<noteq> 0 \<and> length v > 2
             \<and> (v ! (length v - 1)) AND hostMask \<noteq> 0
          then Inl ''Malformed Framed-IPv6-Prefix host bits''
          else let address = buf_copy (drop 2 v) (replicate 16 0) 0 in
            Inr (compress_groups (ipv6_groups address) @ ''/'' @ show_nat prefixLength))"

definition getIpv6Prefix :: "rad_attr list \<Rightarrow> string option result" where
  "getIpv6Prefix attributes =
     (case getAttr attributes (ATTR FRAMED_IPV6_PREFIX) of
        None \<Rightarrow> Inr None
      | Some v \<Rightarrow> and_then (decode_ipv6_prefix v) (\<lambda>s. Inr (Some s)))"

section \<open>PAP and CHAP passwords\<close>

text \<open>The block loop: each block is xored with the digest of the secret and the previous
  ciphertext block, the first with the Request Authenticator.\<close>

function pap_decode_blocks :: "(buffer \<Rightarrow> buffer) \<Rightarrow> buffer \<Rightarrow> buffer \<Rightarrow> buffer \<Rightarrow> buffer" where
  "pap_decode_blocks md5 secretBuf prev enc =
     (if enc = [] then []
      else xor_bytes (take 16 enc) (md5 (secretBuf @ prev))
           @ pap_decode_blocks md5 secretBuf (take 16 enc) (drop 16 enc))"
  by pat_completeness auto
termination
  by (relation "measure (\<lambda>(md5, s, l, enc). length enc)") auto

function pap_encode_blocks :: "(buffer \<Rightarrow> buffer) \<Rightarrow> buffer \<Rightarrow> buffer \<Rightarrow> buffer \<Rightarrow> buffer" where
  "pap_encode_blocks md5 secretBuf prev padded =
     (if padded = [] then []
      else let c = xor_bytes (take 16 padded) (md5 (secretBuf @ prev)) in
           c @ pap_encode_blocks md5 secretBuf c (drop 16 padded))"
  by pat_completeness auto
termination
  by (relation "measure (\<lambda>(md5, s, l, enc). length enc)") auto

declare pap_decode_blocks.simps [simp del] pap_encode_blocks.simps [simp del]

definition strip_nuls :: "buffer \<Rightarrow> buffer" where
  "strip_nuls out = rev (dropWhile (\<lambda>b. b = 0) (rev out))"

definition decodePapPassword ::
  "(buffer \<Rightarrow> buffer) \<Rightarrow> buffer \<Rightarrow> string \<Rightarrow> buffer \<Rightarrow> string option" where
  "decodePapPassword md5 enc secret requestAuthenticator =
     (if length enc = 0 \<or> length enc mod 16 \<noteq> 0 then None
      else Some (utf8_text (strip_nuls
             (pap_decode_blocks md5 (utf8_bytes secret) requestAuthenticator enc))))"

definition encodePapPassword ::
  "(buffer \<Rightarrow> buffer) \<Rightarrow> string \<Rightarrow> string \<Rightarrow> buffer \<Rightarrow> buffer" where
  "encodePapPassword md5 plaintext secret requestAuthenticator =
     (let src = utf8_bytes plaintext;
          padLen = max 16 ((length src + 15) div 16 * 16);
          padded = buf_copy src (replicate padLen 0) 0
      in pap_encode_blocks md5 (utf8_bytes secret) requestAuthenticator padded)"

definition verifyChap :: "(buffer \<Rightarrow> buffer) \<Rightarrow> buffer \<Rightarrow> buffer \<Rightarrow> string \<Rightarrow> bool" where
  "verifyChap md5 chapPassword challenge plaintextPassword =
     (if length chapPassword < 17 then False
      else let chapId = chapPassword ! 0; resp = subarray chapPassword 1 17;
               expected = md5 ([chapId] @ utf8_bytes plaintextPassword @ challenge)
        in length resp = length expected \<and> resp = expected)"

section \<open>Message-Authenticator and response signing\<close>

definition encodeIntAttr :: "nat \<Rightarrow> nat \<Rightarrow> buffer" where
  "encodeIntAttr ty value = [of_nat ty, 6] @ be32 (value mod 4294967296)"

text \<open>The offset of the first Message-Authenticator attribute of length 18.\<close>

function ma_offset :: "buffer \<Rightarrow> nat \<Rightarrow> nat option" where
  "ma_offset work off =
     (if off + 2 \<le> length work then
        (let alen = unat (work ! (off + 1)) in
         if alen < 2 then None
         else if unat (work ! off) = ATTR MESSAGE_AUTHENTICATOR \<and> alen = 18 then Some off
         else ma_offset work (off + alen))
      else None)"
  by pat_completeness auto
termination
  by (relation "measure (\<lambda>(work, off). length work - off)") auto

declare ma_offset.simps [simp del]

definition verifyMessageAuthenticator ::
  "(buffer \<Rightarrow> buffer \<Rightarrow> buffer) \<Rightarrow> buffer \<Rightarrow> rad_attr list \<Rightarrow> string \<Rightarrow> bool result" where
  "verifyMessageAuthenticator hmac packet attributes secret =
     (case getAttr attributes (ATTR MESSAGE_AUTHENTICATOR) of
        None \<Rightarrow> Inr True
      | Some ma \<Rightarrow>
          if length ma \<noteq> 16 then Inr False
          else (case ma_offset packet 20 of
                  None \<Rightarrow> Inr False
                | Some off \<Rightarrow>
                    and_then (buf_fill0 packet (off + 2) (off + 18)) (\<lambda>work.
                      let computed = hmac (utf8_bytes secret) work
                      in Inr (length computed = length ma \<and> computed = ma))))"

definition signResponse ::
  "(buffer \<Rightarrow> buffer) \<Rightarrow> (buffer \<Rightarrow> buffer \<Rightarrow> buffer) \<Rightarrow> buffer \<Rightarrow> buffer \<Rightarrow> string \<Rightarrow> bool
     \<Rightarrow> buffer result" where
  "signResponse md5 hmac packet requestAuthenticator secret withMessageAuth =
     (let packet1 = buf_copy requestAuthenticator packet 4 in
      and_then
        (if withMessageAuth then
           (case ma_offset packet1 20 of
              None \<Rightarrow> Inr packet1
            | Some off \<Rightarrow>
                and_then (buf_fill0 packet1 (off + 2) (off + 18)) (\<lambda>zeroed.
                  Inr (buf_copy (hmac (utf8_bytes secret) zeroed) zeroed (off + 2))))
         else Inr packet1)
        (\<lambda>packet2. Inr (buf_copy (md5 (packet2 @ utf8_bytes secret)) packet2 4)))"

definition messageAuthenticatorPlaceholder :: buffer where
  "messageAuthenticatorPlaceholder = [of_nat (ATTR MESSAGE_AUTHENTICATOR), 18] @ replicate 16 0"

end
