(* ===== verification/RadiusCoa.thy ===== *)
theory RadiusCoa
  imports RadiusCodec
begin

text \<open>
  The RADIUS attribute and packet encoder, \<open>src/services/radiusCoaEncoder.js\<close>, and the vendor
  attribute sets of a plan, \<open>src/services/radiusAttributeService.js\<close>; the round trips with the
  codec of theory RadiusCodec. Storing a number into a buffer cell keeps it modulo 256.
\<close>

section \<open>Attribute encoders\<close>

definition encodeUserName :: "string \<Rightarrow> buffer" where
  "encodeUserName username =
     (let valueBytes = utf8_bytes username in [1, of_nat (2 + length valueBytes)] @ valueBytes)"

definition octet_cell :: "int option list \<Rightarrow> nat \<Rightarrow> byte" where
  "octet_cell parts i =
     (if i < length parts then (case parts ! i of Some n \<Rightarrow> byte_of_int n | None \<Rightarrow> 0) else 0)"

definition encodeFramedIPAddress :: "string \<Rightarrow> buffer" where
  "encodeFramedIPAddress ipStr =
     (let parts = map parse_int10 (js_split CHR ''.'' ipStr)
      in [8, 6, octet_cell parts 0, octet_cell parts 1, octet_cell parts 2, octet_cell parts 3])"

definition encodeVSA :: "nat \<Rightarrow> nat \<Rightarrow> buffer \<Rightarrow> buffer result" where
  "encodeVSA vendorId vendorType vendorValue =
     (let valueLen = length vendorValue in
      if valueLen > 247
      then Inl (''VSA value too long: '' @ show_nat valueLen @ '' bytes (max 247)'')
      else Inr ([26, of_nat (8 + valueLen)] @ be32 vendorId
                @ [of_nat vendorType, of_nat (2 + valueLen)] @ vendorValue))"

definition encodeMikrotikRateLimit :: "string \<Rightarrow> buffer result" where
  "encodeMikrotikRateLimit rateLimit = encodeVSA 14988 8 (utf8_bytes rateLimit)"

definition encodeMikrotikAddressList :: "string \<Rightarrow> buffer result" where
  "encodeMikrotikAddressList listName = encodeVSA 14988 19 (utf8_bytes listName)"

definition encodeCiscoAvPair :: "string \<Rightarrow> buffer result" where
  "encodeCiscoAvPair avPairStr = encodeVSA 9 1 (utf8_bytes avPairStr)"

definition encodeAcctSessionId :: "string \<Rightarrow> buffer result" where
  "encodeAcctSessionId sessionId =
     (let valueBytes = utf8_bytes sessionId in
      if length valueBytes > 253
      then Inl (''Acct-Session-Id too long: '' @ show_nat (length valueBytes) @ '' bytes (max 253)'')
      else Inr ([44, of_nat (2 + length valueBytes)] @ valueBytes))"

definition encodeWisprBandwidth :: "nat \<Rightarrow> string \<Rightarrow> buffer result" where
  "encodeWisprBandwidth vendorType bps =
     encodeVSA 14122 vendorType (be32 (to_uint32 (js_number bps)))"

section \<open>Aggregate encoders\<close>

text \<open>An item is a prebuilt buffer, or a \<open>{type, value}\<close> pair with a buffer or a text value.\<close>

datatype attr_item = Prebuilt buffer | TlvBytes nat buffer | TlvText nat string

definition tlv_item :: "nat \<Rightarrow> buffer \<Rightarrow> buffer result" where
  "tlv_item ty valueBytes =
     (if length valueBytes > 253
      then Inl (''RADIUS attribute value too long: '' @ show_nat (length valueBytes)
                @ '' bytes (max 253)'')
      else Inr ([of_nat ty, of_nat (2 + length valueBytes)] @ valueBytes))"

fun encode_item :: "attr_item \<Rightarrow> buffer result" where
  "encode_item (Prebuilt b) = Inr b"
| "encode_item (TlvBytes ty v) = tlv_item ty v"
| "encode_item (TlvText ty s) = tlv_item ty (utf8_bytes s)"

definition encodeAttributes :: "attr_item list \<Rightarrow> buffer result" where
  "encodeAttributes attrList =
     and_then (collect (map encode_item attrList)) (\<lambda>bufs. Inr (concat bufs))"

text \<open>The encoder table: \<open>None\<close> where the table has no entry of that name.\<close>

definition NAMED_ENCODERS :: "string \<Rightarrow> (string \<Rightarrow> buffer result) option" where
  "NAMED_ENCODERS name =
     (if name = ''User-Name'' then Some (\<lambda>v. Inr (encodeUserName v))
      else if name = ''Framed-IP-Address'' then Some (\<lambda>v. Inr (encodeFramedIPAddress v))
      else if name = ''Acct-Session-Id'' then Some encodeAcctSessionId
      else if name = ''Mikrotik-Rate-Limit'' then Some encodeMikrotikRateLimit
      else if name = ''Mikrotik-Address-List'' then Some encodeMikrotikAddressList
      else if name = ''Cisco-AVPair'' then Some encodeCiscoAvPair
      else if name = ''WISPr-Bandwidth-Max-Down'' then Some (encodeWisprBandwidth 7)
      else if name = ''WISPr-Bandwidth-Max-Up'' then Some (encodeWisprBandwidth 8)
      else None)"

fun encodeNamedAttributes :: "(string \<times> string) list \<Rightarrow> buffer result" where
  "encodeNamedAttributes [] = Inr []"
| "encodeNamedAttributes ((name, v) # attrDefs) =
     (case NAMED_ENCODERS name of
        None \<Rightarrow> encodeNamedAttributes attrDefs
      | Some encoder \<Rightarrow>
          and_then (encoder v) (\<lambda>b.
            and_then (encodeNamedAttributes attrDefs) (\<lambda>bs. Inr (b @ bs))))"

section \<open>Packet builders\<close>

definition buildRadiusPacket :: "nat \<Rightarrow> nat \<Rightarrow> buffer \<Rightarrow> buffer \<Rightarrow> buffer result" where
  "buildRadiusPacket cod identifier authenticator attributesBuffer =
     (let totalLength = 20 + length attributesBuffer in
      if totalLength > 65535 then Inl ''ERR_OUT_OF_RANGE''
      else let packet0 = [of_nat cod, of_nat identifier] @ be16 totalLength
                         @ replicate (totalLength - 4) 0;
               packet1 = buf_copy authenticator packet0 4
           in Inr (buf_copy attributesBuffer packet1 20))"

definition computeRequestAuthenticator ::
  "(buffer \<Rightarrow> buffer) \<Rightarrow> buffer \<Rightarrow> string \<Rightarrow> buffer result" where
  "computeRequestAuthenticator md5 packet secret =
     and_then (buf_fill0 packet 4 20) (\<lambda>zeroed. Inr (md5 (zeroed @ utf8_bytes secret)))"

section \<open>Vendor attribute sets of a plan\<close>

datatype vendor = Mikrotik | Cisco | Juniper

record plan =
  plan_id :: nat
  download_speed_mbps :: nat
  upload_speed_mbps :: nat
  burst_download_mbps :: "nat option"
  burst_upload_mbps :: "nat option"
  burst_threshold_mbps :: "nat option"
  burst_time_seconds :: "nat option"
  radius_vendor :: "vendor option"
  plan_priority :: "nat option"

text \<open>An attribute value before \<open>String(...)\<close>: text, an array of texts, or a number.\<close>

datatype attr_val = AText string | AList "string list" | ANum nat

text \<open>\<open>x || d\<close> on a nullable unsigned column: 0 counts as absent.\<close>

definition or_default :: "nat option \<Rightarrow> nat \<Rightarrow> nat" where
  "or_default x d = (case x of None \<Rightarrow> d | Some n \<Rightarrow> if n = 0 then d else n)"

definition generateMikrotikAttributes ::
  "nat \<Rightarrow> nat \<Rightarrow> nat \<Rightarrow> nat \<Rightarrow> nat \<Rightarrow> nat \<Rightarrow> nat \<Rightarrow> nat option \<Rightarrow> (string \<times> attr_val) list" where
  "generateMikrotikAttributes dl ul burstDl burstUl burstThreshDl burstThreshUl burstTime priority =
     (let rateLimit = show_nat dl @ ''M/'' @ show_nat ul @ ''M '' @ show_nat burstDl @ ''M/''
            @ show_nat burstUl @ ''M '' @ show_nat burstThreshDl @ ''M/'' @ show_nat burstThreshUl
            @ ''M '' @ show_nat burstTime;
          suffix = (case priority of None \<Rightarrow> [] | Some p \<Rightarrow> '' '' @ show_nat p)
      in [(''Mikrotik-Rate-Limit'', AText (rateLimit @ suffix))])"

definition generateCiscoAttributes :: "nat \<Rightarrow> nat \<Rightarrow> (string \<times> attr_val) list" where
  "generateCiscoAttributes dl ul =
     [(''Cisco-AVPair'',
       AList [''sub-qos-policy-in=ISP_DL_'' @ show_nat dl @ ''M'',
              ''sub-qos-policy-out=ISP_UL_'' @ show_nat ul @ ''M''])]"

definition generateJuniperAttributes :: "nat \<Rightarrow> nat \<Rightarrow> (string \<times> attr_val) list" where
  "generateJuniperAttributes dl ul =
     [(''ERX-Qos-Profile-Name'', AText (''ISP_'' @ show_nat dl @ ''M_'' @ show_nat ul @ ''M'')),
      (''ERX-Input-Gigapkts'', AText (show_nat dl))]"

definition generateGenericAttributes :: "nat \<Rightarrow> nat \<Rightarrow> (string \<times> attr_val) list" where
  "generateGenericAttributes dl ul =
     [(''WISPr-Bandwidth-Max-Down'', ANum (dl * 1000000)),
      (''WISPr-Bandwidth-Max-Up'', ANum (ul * 1000000))]"

definition generateAttributes :: "plan \<Rightarrow> (string \<times> attr_val) list" where
  "generateAttributes p =
     (let dl = download_speed_mbps p; ul = upload_speed_mbps p;
          burstDl = or_default (burst_download_mbps p) (dl * 2);
          burstUl = or_default (burst_upload_mbps p) (ul * 2);
          burstThreshDl = or_default (burst_threshold_mbps p) dl;
          burstThreshUl = or_default (burst_threshold_mbps p) ul;
          burstTime = or_default (burst_time_seconds p) 8
      in case radius_vendor p of
           Some Mikrotik \<Rightarrow> generateMikrotikAttributes dl ul burstDl burstUl burstThreshDl
                              burstThreshUl burstTime (plan_priority p)
         | Some Cisco \<Rightarrow> generateCiscoAttributes dl ul
         | Some Juniper \<Rightarrow> generateJuniperAttributes dl ul
         | None \<Rightarrow> generateGenericAttributes dl ul)"

text \<open>One \<open>(name, value)\<close> row per value, an array contributing a row per element.\<close>

fun expand_value :: "string \<times> attr_val \<Rightarrow> (string \<times> string) list" where
  "expand_value (name, AText s) = [(name, s)]"
| "expand_value (name, AList ss) = map (\<lambda>s. (name, s)) ss"
| "expand_value (name, ANum n) = [(name, show_nat n)]"

definition expandRows :: "(string \<times> attr_val) list \<Rightarrow> (string \<times> string) list" where
  "expandRows attrMap = concat (map expand_value attrMap)"

section \<open>The attribute encoding is a framing\<close>

definition tlv_enc :: "rad_attr \<Rightarrow> buffer" where
  "tlv_enc a = [of_nat (attr_type a), of_nat (2 + length (attr_value a))] @ attr_value a"

definition tlv_ok :: "rad_attr \<Rightarrow> bool" where
  "tlv_ok a \<longleftrightarrow> attr_type a < 256 \<and> length (attr_value a) \<le> 253"

fun tlv_dec :: "buffer \<Rightarrow> (rad_attr \<times> buffer) option" where
  "tlv_dec (t # l # rest) =
     (let alen = unat l in
      if alen < 2 \<or> length rest < alen - 2 then None
      else Some (\<lparr>attr_type = unat t, attr_value = take (alen - 2) rest\<rparr>, drop (alen - 2) rest))"
| "tlv_dec _ = None"

lemma tlv_dec_cons:
  "unat l = 2 + length v \<Longrightarrow>
   tlv_dec (t # l # v @ rest) = Some (\<lparr>attr_type = unat t, attr_value = v\<rparr>, rest)"
  by simp

lemma unat_length_byte: "n \<le> 253 \<Longrightarrow> unat (of_nat (2 + n) :: byte) = 2 + n"
  by (subst unat_of_nat_byte) simp

interpretation radius_tlv: framing tlv_enc tlv_dec tlv_ok
proof
  fix x :: rad_attr and rest :: buffer
  assume "tlv_ok x"
  then have "unat (of_nat (attr_type x) :: byte) = attr_type x"
    and "unat (of_nat (2 + length (attr_value x)) :: byte) = 2 + length (attr_value x)"
    by (simp_all only: tlv_ok_def unat_length_byte) (simp add: unat_of_nat_byte)
  then show "tlv_dec (tlv_enc x @ rest) = Some (x, rest)"
    using tlv_dec_cons [of "of_nat (2 + length (attr_value x))" "attr_value x"
        "of_nat (attr_type x)" rest]
    by (simp only: tlv_enc_def append.simps) simp
next
  fix bs x and rest :: buffer
  assume "tlv_dec bs = Some (x, rest)"
  then show "length rest < length bs"
    by (cases bs rule: tlv_dec.cases) (auto simp: Let_def split: if_splits)
qed

lemma encode_item_tlv:
  "attr_type a < 256 \<Longrightarrow> length (attr_value a) \<le> 253 \<Longrightarrow>
   encode_item (TlvBytes (attr_type a) (attr_value a)) = Inr (tlv_enc a)"
  by (simp add: tlv_enc_def tlv_item_def)

text \<open>The loop over offsets of \<open>decodePacket\<close> is the framing's stream decoder on the suffix.\<close>

lemma decode_attrs_stream:
  assumes "off \<le> len" and "len \<le> length buf" and "len - off \<le> n"
  shows "decode_attrs buf len off = fst (decode_all tlv_dec n (drop off (take len buf)))"
  using assms
proof (induction n arbitrary: off)
  case 0
  then show ?case by (subst decode_attrs.simps) simp
next
  case (Suc n)
  show ?case
  proof (cases "off + 2 \<le> len")
    case False
    then have "length (drop off (take len buf)) < 2" using Suc.prems by simp
    then have "tlv_dec (drop off (take len buf)) = None"
      by (cases "drop off (take len buf)" rule: tlv_dec.cases) auto
    with False show ?thesis by (simp add: decode_attrs.simps [of buf len off])
  next
    case True
    let ?l = "unat (buf ! (off + 1))"
    have split: "drop off (take len buf) =
        buf ! off # buf ! (off + 1) # drop (off + 2) (take len buf)"
      using True Suc.prems by (simp add: Cons_nth_drop_Suc [symmetric])
    show ?thesis
    proof (cases "?l < 2 \<or> off + ?l > len")
      case True
      then have "tlv_dec (drop off (take len buf)) = None"
        using \<open>off + 2 \<le> len\<close> Suc.prems by (auto simp: split Let_def)
      with True show ?thesis by (simp add: decode_attrs.simps [of buf len off])
    next
      case False
      then have more: "drop (?l - 2) (drop (off + 2) (take len buf)) = drop (off + ?l) (take len buf)"
        by (simp only: drop_drop) (rule arg_cong [where f = "\<lambda>k. drop k (take len buf)"], linarith)
      let ?a = "\<lparr>attr_type = unat (buf ! off), attr_value = subarray buf (off + 2) (off + ?l)\<rparr>"
      have "min (?l - 2) (len - (off + 2)) = ?l - 2"
        using False by (simp add: min_def) linarith
      then have val: "subarray buf (off + 2) (off + ?l) = take (?l - 2) (drop (off + 2) (take len buf))"
        by (simp add: subarray_def drop_take)
      have "\<not> length (drop (off + 2) (take len buf)) < ?l - 2"
        using False True Suc.prems by simp linarith
      with False have step: "tlv_dec (drop off (take len buf)) = Some (?a, drop (off + ?l) (take len buf))"
        by (simp only: split tlv_dec.simps Let_def more val if_False de_Morgan_disj simp_thms)
      have "decode_attrs buf len off = ?a # decode_attrs buf len (off + ?l)"
        using True False by (subst decode_attrs.simps) (simp add: Let_def)
      also have "decode_attrs buf len (off + ?l)
          = fst (decode_all tlv_dec n (drop (off + ?l) (take len buf)))"
        using False Suc.prems by (intro Suc.IH) linarith+
      finally show ?thesis
        by (simp only: decode_all.simps step option.case prod.case)
          (simp add: case_prod_unfold Let_def)
    qed
  qed
qed

end
