(* ===== verification/RadiusWire.thy ===== *)
theory RadiusWire
  imports RadiusCoa
begin

text \<open>
  What the RADIUS encoder and decoder guarantee together: packet and password round trips,
  bounds of decoded packets, Message-Authenticator and response signatures, and the attribute
  encoder that lacks a length guard.
\<close>

section \<open>The attribute framing is exact\<close>

interpretation radius_tlv: exact_framing tlv_enc tlv_dec tlv_ok
proof
  fix bs x and rest :: buffer
  assume dec: "tlv_dec bs = Some (x, rest)"
  then obtain t l r where bs: "bs = t # l # r" by (cases bs rule: tlv_dec.cases) auto
  let ?n = "unat l - 2"
  have l: "2 \<le> unat l" and r: "?n \<le> length r"
    and x: "x = \<lparr>attr_type = unat t, attr_value = take ?n r\<rparr>" and rest: "rest = drop ?n r"
    using dec by (simp_all add: bs Let_def split: if_splits)
  have len: "length (take ?n r) = ?n" using r by simp
  have "?n \<le> 253" using unat_byte_lt [of l] by linarith
  moreover have "of_nat (2 + ?n) = l" using l by simp
  ultimately show "tlv_ok x \<and> bs = tlv_enc x @ rest"
    using len by (simp only: tlv_ok_def tlv_enc_def x bs rest rad_attr.select_convs) simp
qed

lemma decode_attrs_whole:
  assumes "20 \<le> len" and "len \<le> length buf"
  shows "decode_attrs buf len 20 = fst (decode_all tlv_dec len (drop 20 (take len buf)))"
  using assms by (intro decode_attrs_stream) simp_all

lemma encodeAttributes_tlvs:
  assumes "\<forall>a\<in>set attrs. tlv_ok a"
  shows "encodeAttributes (map (\<lambda>a. TlvBytes (attr_type a) (attr_value a)) attrs)
           = Inr (concat (map tlv_enc attrs))"
proof -
  have "map encode_item (map (\<lambda>a. TlvBytes (attr_type a) (attr_value a)) attrs)
          = map Inr (map tlv_enc attrs)"
    using assms by (auto simp: tlv_ok_def tlv_item_def tlv_enc_def)
  then show ?thesis
    by (simp only: encodeAttributes_def collect_Ok and_then_simps)
qed

lemma buildRadiusPacket_shape:
  assumes "length auth = 16" and "length attrs \<le> 65515"
  shows "buildRadiusPacket cod ident auth attrs
           = Inr ([of_nat cod, of_nat ident] @ be16 (20 + length attrs) @ auth @ attrs)"
proof -
  let ?hd = "[of_nat cod, of_nat ident] @ be16 (20 + length attrs)"
  have "replicate (20 + length attrs - 4) (0 :: byte) = replicate 16 0 @ replicate (length attrs) 0"
    by (simp add: replicate_add [symmetric])
  then have "buf_copy auth (?hd @ replicate (20 + length attrs - 4) 0) 4
      = ?hd @ auth @ replicate (length attrs) 0"
    using assms by (simp only:) (rule buf_copy_exact, simp_all)
  moreover have "buf_copy attrs ((?hd @ auth) @ replicate (length attrs) 0 @ []) 20
      = (?hd @ auth) @ attrs @ []"
    using assms by (intro buf_copy_exact) simp_all
  ultimately show ?thesis
    using assms by (simp add: buildRadiusPacket_def Let_def)
qed

lemma decodePacket_shape:
  assumes "cod < 256" and "ident < 256" and "length auth = 16"
    and "\<forall>a\<in>set attrs. tlv_ok a" and "length (concat (map tlv_enc attrs)) \<le> 65515"
  defines "body \<equiv> concat (map tlv_enc attrs)"
  defines "packet \<equiv> [of_nat cod, of_nat ident] @ be16 (20 + length body) @ auth @ body"
  shows "decodePacket packet =
     Inr \<lparr>pkt_code = cod, pkt_identifier = ident, pkt_length = 20 + length body,
          pkt_authenticator = auth, pkt_attributes = attrs, pkt_raw = packet\<rparr>"
proof -
  have len: "length packet = 20 + length body"
    using assms(3) by (simp add: packet_def)
  have "readUInt16BE ([of_nat cod, of_nat ident] @ be16 (20 + length body) @ auth @ body) 2
          = 20 + length body"
    using assms(5) by (intro readUInt16BE_be16) (simp_all add: body_def)
  then have rd: "readUInt16BE packet 2 = 20 + length body" by (simp only: packet_def)
  have "drop 20 (take (20 + length body) packet) = body"
    using assms(3) by (simp add: len packet_def be16_def)
  then have "decode_attrs packet (20 + length body) 20
      = fst (decode_all tlv_dec (20 + length body) (concat (map tlv_enc attrs) @ []))"
    using decode_attrs_whole [of "20 + length body" packet] len by (simp add: body_def)
  also have "\<dots> = attrs"
    using radius_tlv.stream_roundtrip [of attrs "[]" "20 + length body"] assms(4)
      radius_tlv.items_le_bytes [OF assms(4)]
    by (simp add: body_def)
  finally have "decode_attrs packet (20 + length body) 20 = attrs" .
  moreover have "subarray packet 4 20 = auth" and "subarray packet 0 (20 + length body) = packet"
    using assms(3) len by (simp_all add: packet_def subarray_def be16_def)
  moreover have "unat (packet ! 0) = cod" and "unat (packet ! 1) = ident"
    using assms(1,2) by (simp_all add: packet_def)
  ultimately show ?thesis
    using rd len by (simp add: decodePacket_def Let_def)
qed

text \<open>
  C17. Packets round trip. Encoding a list of attributes, each of at most 253 bytes, building a
  packet around them and decoding it gives back the code, the identifier, the authenticator and
  exactly the attributes, in order.
\<close>

theorem packet_roundtrip:
  assumes "cod < 256" and "ident < 256" and "length auth = 16"
    and "\<forall>a\<in>set attrs. attr_type a < 256 \<and> length (attr_value a) \<le> 253"
    and "length (concat (map tlv_enc attrs)) \<le> 65515"
  shows "\<exists>packet.
     and_then (encodeAttributes (map (\<lambda>a. TlvBytes (attr_type a) (attr_value a)) attrs))
       (buildRadiusPacket cod ident auth) = Inr packet
     \<and> decodePacket packet =
       Inr \<lparr>pkt_code = cod, pkt_identifier = ident, pkt_length = length packet,
            pkt_authenticator = auth, pkt_attributes = attrs, pkt_raw = packet\<rparr>"
proof -
  have ok: "\<forall>a\<in>set attrs. tlv_ok a" using assms(4) by (simp add: tlv_ok_def)
  show ?thesis
    using decodePacket_shape [OF assms(1,2,3) ok assms(5)] assms(3,5)
    by (simp add: encodeAttributes_tlvs [OF ok] buildRadiusPacket_shape)
qed

theorem packet_roundtrip_witness:
  "\<exists>packet.
     and_then (encodeAttributes [TlvBytes 1 [97, 98], TlvBytes 80 []])
       (buildRadiusPacket 1 7 (replicate 16 3)) = Inr packet
     \<and> decodePacket packet =
       Inr \<lparr>pkt_code = 1, pkt_identifier = 7, pkt_length = length packet,
            pkt_authenticator = replicate 16 3,
            pkt_attributes = [\<lparr>attr_type = 1, attr_value = [97, 98]\<rparr>,
                              \<lparr>attr_type = 80, attr_value = []\<rparr>], pkt_raw = packet\<rparr>"
  using packet_roundtrip [of 1 7 "replicate 16 3"
      "[\<lparr>attr_type = 1, attr_value = [97, 98]\<rparr>, \<lparr>attr_type = 80, attr_value = []\<rparr>]"]
  by (simp add: tlv_enc_def)

lemma decodePacket_Ok:
  assumes "decodePacket buf = Inr p"
  shows "20 \<le> readUInt16BE buf 2" and "readUInt16BE buf 2 \<le> length buf"
    and "p = \<lparr>pkt_code = unat (buf ! 0), pkt_identifier = unat (buf ! 1),
              pkt_length = readUInt16BE buf 2, pkt_authenticator = subarray buf 4 20,
              pkt_attributes = decode_attrs buf (readUInt16BE buf 2) 20,
              pkt_raw = subarray buf 0 (readUInt16BE buf 2)\<rparr>"
  using assms by (auto simp: decodePacket_def Let_def split: if_splits)

text \<open>
  A decoded packet is within bounds and nothing in it is invented: its length field is
  between 20 and the datagram length, its raw bytes are that prefix of the datagram, and its
  attributes, re-encoded, are a prefix of the attribute area.
\<close>

theorem decodePacket_exact:
  assumes "decodePacket buf = Inr p"
  shows "20 \<le> pkt_length p \<and> pkt_length p \<le> length buf \<and> pkt_raw p = take (pkt_length p) buf
     \<and> length (pkt_authenticator p) = 16
     \<and> (\<forall>a\<in>set (pkt_attributes p). attr_type a < 256 \<and> length (attr_value a) \<le> 253)
     \<and> (\<exists>rest. drop 20 (pkt_raw p) = concat (map tlv_enc (pkt_attributes p)) @ rest)"
proof -
  let ?len = "readUInt16BE buf 2"
  note len = decodePacket_Ok(1,2) [OF assms] and p = decodePacket_Ok(3) [OF assms]
  obtain xs rest where all: "decode_all tlv_dec ?len (drop 20 (take ?len buf)) = (xs, rest)"
    by force
  then have "decode_attrs buf ?len 20 = xs"
    using decode_attrs_whole [OF len] by simp
  moreover have "(\<forall>a\<in>set xs. tlv_ok a) \<and> drop 20 (take ?len buf) = concat (map tlv_enc xs) @ rest"
    by (rule radius_tlv.stream_exact [OF all])
  ultimately show ?thesis
    using len by (auto simp: p tlv_ok_def subarray_def)
qed

theorem decodePacket_exact_witness:
  "20 \<le> (20 :: nat) \<and> (\<exists>p. decodePacket ([1, 9, 0, 20] @ replicate 16 5 @ [1]) = Inr p
     \<and> pkt_raw p = take (pkt_length p) ([1, 9, 0, 20] @ replicate 16 5 @ [1]))"
proof -
  have "\<exists>p. decodePacket ([1, 9, 0, 20] @ replicate 16 5 @ [1]) = Inr p"
    by (simp add: decodePacket_def readUInt16BE_def)
  then show ?thesis using decodePacket_exact by blast
qed

section \<open>PAP passwords\<close>

lemma block_list_induct [consumes 1, case_names Nil Block]:
  assumes "length xs mod 16 = 0" and "P []"
    and "\<And>b xs. length b = 16 \<Longrightarrow> length xs mod 16 = 0 \<Longrightarrow> P xs \<Longrightarrow> P (b @ xs)"
  shows "P xs"
  using assms(1)
proof (induction xs rule: length_induct)
  case (1 xs)
  show ?case
  proof (cases "xs = []")
    case True
    then show ?thesis using assms(2) by simp
  next
    case False
    then have "16 \<le> length xs" using "1.prems" by (cases "length xs < 16") auto
    then have "length (take 16 xs) = 16" and "length (drop 16 xs) mod 16 = 0"
      using "1.prems" by (simp_all add: le_mod_geq [symmetric])
    moreover have "P (drop 16 xs)"
      using "1.IH" \<open>16 \<le> length xs\<close> calculation(2) by simp
    ultimately show ?thesis
      using assms(3) [of "take 16 xs" "drop 16 xs"] by simp
  qed
qed

lemma pap_encode_Cons:
  "length b = 16 \<Longrightarrow> pap_encode_blocks md5 s prev (b @ padded) =
     (let c = xor_bytes b (md5 (s @ prev)) in c @ pap_encode_blocks md5 s c padded)"
  by (subst pap_encode_blocks.simps) auto

lemma pap_decode_Cons:
  "length b = 16 \<Longrightarrow> pap_decode_blocks md5 s prev (b @ enc) =
     xor_bytes b (md5 (s @ prev)) @ pap_decode_blocks md5 s b enc"
  by (subst pap_decode_blocks.simps) auto

lemma pap_blocks_inverse:
  assumes digest: "\<And>x. length (md5 x) = 16" and "length padded mod 16 = 0"
  shows "pap_decode_blocks md5 s prev (pap_encode_blocks md5 s prev padded) = padded
     \<and> length (pap_encode_blocks md5 s prev padded) = length padded"
  using assms(2)
proof (induction padded arbitrary: prev rule: block_list_induct)
  case Nil
  then show ?case by (simp add: pap_encode_blocks.simps pap_decode_blocks.simps)
next
  case (Block b padded)
  let ?d = "md5 (s @ prev)"
  have "length (xor_bytes b ?d) = 16" and "xor_bytes (xor_bytes b ?d) ?d = b"
    using Block digest by (simp_all add: xor_bytes_cancel)
  with Block show ?case
    by (simp add: pap_encode_Cons pap_decode_Cons Let_def)
qed

lemma strip_nuls_padded:
  "src = [] \<or> last src \<noteq> 0 \<Longrightarrow> strip_nuls (src @ replicate k 0) = src"
  by (cases src rule: rev_cases) (auto simp: strip_nuls_def dropWhile_append)

lemma buf_copy_padded:
  "length src \<le> n \<Longrightarrow> buf_copy src (replicate n 0) 0 = src @ replicate (n - length src) 0"
  by (simp add: buf_copy_def)

lemma byte_of_char_0: "byte_of_char c = 0 \<longleftrightarrow> c = CHR 0x00"
proof
  assume "byte_of_char c = 0"
  then have "char_of_byte (byte_of_char c) = char_of_byte 0" by simp
  then have "c = char_of_byte 0" by (simp only: byte_char_inverse)
  then show "c = CHR 0x00" by (simp add: char_of_byte_def char_of_def)
qed (simp add: byte_of_char_def code_def)

text \<open>
  PAP passwords round trip: for a password that is well-formed text and does not end in NUL,
  decrypting what was encrypted with the same secret and Request Authenticator gives the
  password back, for any 16-byte digest function.
\<close>

theorem pap_roundtrip:
  assumes "\<forall>x. length (md5 x) = 16" and "valid_text pw" and "pw = [] \<or> last pw \<noteq> CHR 0x00"
  shows "decodePapPassword md5 (encodePapPassword md5 pw secret ra) secret ra = Some pw"
proof -
  let ?src = "utf8_bytes pw"
  let ?n = "max 16 ((length ?src + 15) div 16 * 16)"
  let ?padded = "buf_copy ?src (replicate ?n 0) 0"
  let ?enc = "pap_encode_blocks md5 (utf8_bytes secret) ra ?padded"
  have n: "?n mod 16 = 0" "0 < ?n" "length ?src \<le> ?n"
    by (auto simp: max_def)
  then have inv: "pap_decode_blocks md5 (utf8_bytes secret) ra ?enc = ?padded \<and> length ?enc = ?n"
    using pap_blocks_inverse [of md5 ?padded] assms(1) by simp
  have "?src = [] \<or> last ?src \<noteq> 0"
    using assms(3) by (auto simp: utf8_bytes_def last_map byte_of_char_0)
  then have "strip_nuls ?padded = ?src"
    using n(3) by (simp only: buf_copy_padded strip_nuls_padded)
  then show ?thesis
    using inv n assms(2)
    by (simp only: encodePapPassword_def decodePapPassword_def Let_def) simp
qed

theorem pap_roundtrip_witness:
  "(\<forall>x :: buffer. length ((\<lambda>_. replicate 16 (7 :: byte)) x) = 16) \<and> valid_text ''secret''
   \<and> decodePapPassword (\<lambda>_. replicate 16 7)
       (encodePapPassword (\<lambda>_. replicate 16 7) ''secret'' ''shared'' (replicate 16 1))
       ''shared'' (replicate 16 1) = Some ''secret''"
proof -
  have "valid_text ''secret''" by (rule ascii_valid_text) (simp add: code_def)
  then show ?thesis
    using pap_roundtrip [of "\<lambda>_. replicate 16 7" "''secret''" "''shared''" "replicate 16 1"]
    by simp
qed

section \<open>Message-Authenticator\<close>

lemma ma_offset_of_attr:
  "getAttr (decode_attrs buf (length buf) off) 80 = Some ma \<Longrightarrow> length ma = 16 \<Longrightarrow>
   \<exists>j. ma_offset buf off = Some j \<and> off \<le> j \<and> j + 18 \<le> length buf \<and> subarray buf (j + 2) (j + 18) = ma"
proof (induction buf "length buf" off rule: decode_attrs.induct)
  case (1 buf off)
  let ?l = "unat (buf ! (off + 1))"
  show ?case
  proof (cases "off + 2 \<le> length buf \<and> \<not> (?l < 2 \<or> off + ?l > length buf)")
    case False
    then have "decode_attrs buf (length buf) off = []"
      by (subst decode_attrs.simps) (auto simp: Let_def)
    with "1.prems" show ?thesis by (simp add: getAttr_def)
  next
    case True
    let ?v = "subarray buf (off + 2) (off + ?l)"
    have attrs: "decode_attrs buf (length buf) off =
        \<lparr>attr_type = unat (buf ! off), attr_value = ?v\<rparr> # decode_attrs buf (length buf) (off + ?l)"
      using True by (subst decode_attrs.simps) (simp add: Let_def)
    show ?thesis
    proof (cases "unat (buf ! off) = 80")
      case ty: True
      then have "?v = ma" using "1.prems" by (simp add: attrs getAttr_def)
      moreover from this have "?l = 18" using "1.prems" True by (auto simp: subarray_def)
      moreover have "ma_offset buf off = Some off"
        using True ty \<open>?l = 18\<close> by (subst ma_offset.simps) simp
      ultimately show ?thesis using True by auto
    next
      case ty: False
      have "ma_offset buf off = ma_offset buf (off + ?l)"
        using True ty by (subst ma_offset.simps) (simp add: Let_def)
      moreover have "getAttr (decode_attrs buf (length buf) (off + ?l)) 80 = Some ma"
        using "1.prems" ty by (simp add: attrs getAttr_def)
      ultimately show ?thesis
        using "1.hyps" [OF _ refl] True "1.prems" by fastforce
    qed
  qed
qed

lemma decode_attrs_take:
  assumes "20 \<le> len" and "len \<le> length buf"
  shows "decode_attrs buf len 20 = decode_attrs (take len buf) len 20"
  using assms by (simp add: decode_attrs_whole)

definition zeroed_ma :: "buffer \<Rightarrow> nat \<Rightarrow> buffer" where
  "zeroed_ma packet off = take (off + 2) packet @ replicate 16 0 @ drop (off + 18) packet"

text \<open>
  Message-Authenticator verification of a received packet never throws, and it accepts
  exactly the packets without the attribute and those whose first Message-Authenticator has 16
  bytes and is the HMAC of the packet with those bytes zeroed.
\<close>

theorem verifyMessageAuthenticator_decides:
  assumes "decodePacket buf = Inr p"
  shows "\<exists>valid. verifyMessageAuthenticator hmac (pkt_raw p) (pkt_attributes p) secret = Inr valid
     \<and> (valid \<longleftrightarrow> (case getAttr (pkt_attributes p) (ATTR MESSAGE_AUTHENTICATOR) of
          None \<Rightarrow> True
        | Some ma \<Rightarrow> length ma = 16
            \<and> (\<exists>off. ma_offset (pkt_raw p) 20 = Some off
                 \<and> subarray (pkt_raw p) (off + 2) (off + 18) = ma
                 \<and> hmac (utf8_bytes secret) (zeroed_ma (pkt_raw p) off) = ma)))"
proof (cases "getAttr (pkt_attributes p) 80")
  case None
  then show ?thesis by (auto simp: verifyMessageAuthenticator_def)
next
  case (Some ma)
  show ?thesis
  proof (cases "length ma = 16")
    case False
    with Some show ?thesis by (auto simp: verifyMessageAuthenticator_def)
  next
    case True
    note len = decodePacket_Ok(1,2) [OF assms] and p = decodePacket_Ok(3) [OF assms]
    have raw: "pkt_attributes p = decode_attrs (pkt_raw p) (length (pkt_raw p)) 20"
      using decode_attrs_take [OF len] len by (subst p, subst p, subst p) (simp add: subarray_def)
    obtain off where off: "ma_offset (pkt_raw p) 20 = Some off" "off + 18 \<le> length (pkt_raw p)"
      "subarray (pkt_raw p) (off + 2) (off + 18) = ma"
      using ma_offset_of_attr [of "pkt_raw p" 20 ma] Some True raw by auto
    then have "buf_fill0 (pkt_raw p) (off + 2) (off + 18) = Inr (zeroed_ma (pkt_raw p) off)"
      by (simp add: buf_fill0_Ok zeroed_ma_def)
    moreover have "(length c = length ma \<and> c = ma) = (c = ma)" for c by auto
    ultimately show ?thesis
      using off Some True by (simp add: verifyMessageAuthenticator_def Let_def del: length_subarray)
  qed
qed

theorem verifyMessageAuthenticator_decides_witness:
  "\<exists>p valid. decodePacket ([1, 9, 0, 20] @ replicate 16 5) = Inr p
     \<and> verifyMessageAuthenticator (\<lambda>k m. m) (pkt_raw p) (pkt_attributes p) ''s'' = Inr valid"
proof -
  have "\<exists>p. decodePacket ([1, 9, 0, 20] @ replicate 16 5) = Inr p"
    by (simp add: decodePacket_def readUInt16BE_def)
  then show ?thesis using verifyMessageAuthenticator_decides by blast
qed

lemma ma_offset_skip:
  assumes "\<forall>a\<in>set attrs. tlv_ok a \<and> attr_type a \<noteq> 80"
  shows "ma_offset (pre @ concat (map tlv_enc attrs) @ rest) (length pre)
       = ma_offset (pre @ concat (map tlv_enc attrs) @ rest)
           (length pre + length (concat (map tlv_enc attrs)))"
  using assms
proof (induction attrs arbitrary: pre)
  case Nil
  then show ?case by simp
next
  case (Cons a attrs)
  let ?buf = "pre @ tlv_enc a @ concat (map tlv_enc attrs) @ rest"
  have ok: "attr_type a < 256" "length (attr_value a) \<le> 253" "attr_type a \<noteq> 80"
    using Cons.prems by (simp_all add: tlv_ok_def)
  have "unat (?buf ! (length pre + 1)) = 2 + length (attr_value a)"
    using ok(2) unat_length_byte [of "length (attr_value a)"]
    by (simp add: tlv_enc_def nth_append del: unat_of_nat_byte)
  moreover have "unat (?buf ! length pre) = attr_type a"
    using ok(1) by (simp add: tlv_enc_def nth_append)
  moreover have "length (tlv_enc a) = 2 + length (attr_value a)"
    by (simp add: tlv_enc_def)
  ultimately have "ma_offset ?buf (length pre) = ma_offset ?buf (length (pre @ tlv_enc a))"
    using ok(3) by (subst ma_offset.simps) simp
  also have "\<dots> = ma_offset ?buf (length (pre @ tlv_enc a) + length (concat (map tlv_enc attrs)))"
    using Cons.IH [of "pre @ tlv_enc a"] Cons.prems by simp
  finally show ?case by (simp add: add.assoc)
qed

section \<open>Signed replies\<close>

lemma getAttr_append_new:
  "\<forall>a\<in>set attrs. attr_type a \<noteq> ty \<Longrightarrow>
   getAttr (attrs @ [\<lparr>attr_type = ty, attr_value = v\<rparr>]) ty = Some v"
  by (induction attrs) (auto simp: getAttr_def)

lemma signed_reply:
  assumes md5: "\<forall>x. length (md5 x) = 16" and hmac: "\<forall>k x. length (hmac k x) = 16"
    and ids: "cod < 256" "ident < 256" and ra: "length ra = 16"
    and attrs: "\<forall>a\<in>set attrs. attr_type a < 256 \<and> length (attr_value a) \<le> 253 \<and> attr_type a \<noteq> 80"
    and fits: "length (concat (map tlv_enc attrs)) \<le> 65497"
  shows "\<exists>packet signed mac p.
     buildRadiusPacket cod ident (replicate 16 0)
       (concat (map tlv_enc attrs) @ messageAuthenticatorPlaceholder) = Inr packet
     \<and> signResponse md5 hmac packet ra secret True = Inr signed
     \<and> decodePacket signed = Inr p \<and> pkt_code p = cod \<and> pkt_identifier p = ident
     \<and> pkt_attributes p = attrs @ [\<lparr>attr_type = 80, attr_value = mac\<rparr>]
     \<and> pkt_authenticator p = md5 (buf_copy ra signed 4 @ utf8_bytes secret)
     \<and> verifyMessageAuthenticator hmac (buf_copy ra signed 4) (pkt_attributes p) secret = Inr True"
proof -
  let ?body = "concat (map tlv_enc attrs)"
  let ?tail = "[80, 18] :: buffer"
  let ?n = "20 + (length ?body + 18)"
  let ?hd = "[of_nat cod, of_nat ident] @ be16 ?n"
  let ?z = "replicate 16 0 :: buffer"
  let ?p1 = "?hd @ ra @ ?body @ ?tail @ ?z"
  let ?mac = "hmac (utf8_bytes secret) ?p1"
  let ?p2 = "?hd @ ra @ ?body @ ?tail @ ?mac"
  let ?auth = "md5 (?p2 @ utf8_bytes secret)"
  let ?signed = "?hd @ ?auth @ ?body @ ?tail @ ?mac"
  let ?off = "20 + length ?body"
  have ok: "\<forall>a\<in>set attrs. tlv_ok a \<and> attr_type a \<noteq> 80"
    using attrs by (simp add: tlv_ok_def)
  have build: "buildRadiusPacket cod ident ?z (?body @ messageAuthenticatorPlaceholder)
      = Inr (?hd @ ?z @ ?body @ ?tail @ ?z)"
    using buildRadiusPacket_shape [of ?z "?body @ messageAuthenticatorPlaceholder" cod ident] fits
    by (simp add: messageAuthenticatorPlaceholder_def)
  have at4: "buf_copy b (?hd @ a @ rest) 4 = ?hd @ b @ rest"
    if "length a = 16" "length b = 16" for a b rest
    using that by (intro buf_copy_exact) simp_all
  have off: "ma_offset (?hd @ ra @ ?body @ ?tail @ m) 20 = Some ?off" if "length m = 16" for m
  proof -
    have "ma_offset ((?hd @ ra) @ ?body @ ?tail @ m) (length (?hd @ ra))
        = ma_offset ((?hd @ ra) @ ?body @ ?tail @ m) (length (?hd @ ra) + length ?body)"
      by (rule ma_offset_skip [OF ok])
    also have "\<dots> = Some ?off"
      using ra that by (subst ma_offset.simps) (simp add: nth_append)
    finally show ?thesis using ra by simp
  qed
  have zero: "buf_fill0 (?hd @ ra @ ?body @ ?tail @ m) (?off + 2) (?off + 18) = Inr ?p1"
    if "length m = 16" for m
    using that ra buf_fill0_mid [of "?hd @ ra @ ?body @ ?tail" "?off + 2" "?off + 18" m "[]"]
    by simp
  have mac_copy: "buf_copy ?mac ?p1 (?off + 2) = ?p2"
    using ra hmac buf_copy_exact [of "?hd @ ra @ ?body @ ?tail" "?off + 2" ?z ?mac "[]"]
    by simp
  have sign: "signResponse md5 hmac (?hd @ ?z @ ?body @ ?tail @ ?z) ra secret True = Inr ?signed"
    using off [of ?z] zero [of ?z] mac_copy at4 [of ?z ra] at4 [of ra ?auth] ra md5
    by (simp add: signResponse_def Let_def)
  have "tlv_enc \<lparr>attr_type = 80, attr_value = ?mac\<rparr> = ?tail @ ?mac"
    using hmac by (simp add: tlv_enc_def)
  then have dec: "decodePacket ?signed =
     Inr \<lparr>pkt_code = cod, pkt_identifier = ident, pkt_length = ?n, pkt_authenticator = ?auth,
          pkt_attributes = attrs @ [\<lparr>attr_type = 80, attr_value = ?mac\<rparr>], pkt_raw = ?signed\<rparr>"
    using decodePacket_shape [OF ids, of ?auth "attrs @ [\<lparr>attr_type = 80, attr_value = ?mac\<rparr>]"]
      md5 hmac ok fits
    by (simp add: tlv_ok_def)
  have restored: "buf_copy ra ?signed 4 = ?p2"
    using at4 md5 ra by simp
  have "getAttr (attrs @ [\<lparr>attr_type = 80, attr_value = ?mac\<rparr>]) 80 = Some ?mac"
    using ok by (intro getAttr_append_new) simp
  then have "verifyMessageAuthenticator hmac ?p2
      (attrs @ [\<lparr>attr_type = 80, attr_value = ?mac\<rparr>]) secret = Inr True"
    using off [of ?mac] zero [of ?mac] hmac
    by (simp add: verifyMessageAuthenticator_def)
  with build sign dec restored show ?thesis by simp
qed

end
