(* ===== verification/RadiusAttrs.thy ===== *)
theory RadiusAttrs
  imports RadiusWire
begin

text \<open>
  The typed attribute encoders of \<open>radiusCoaEncoder.js\<close> against the typed getters of
  \<open>radiusServerCodec.js\<close>: addresses, vendor-specific attributes, user names (whose encoder has no
  length guard), and the acceptance condition of Framed-IPv6-Prefix.
\<close>

section \<open>Addresses\<close>

lemma split_dotted: "os \<noteq> [] \<Longrightarrow> js_split CHR ''.'' (dotted os) = map show_nat os"
  by (simp add: dotted_def js_split_join)

lemma byte_of_int_of_nat [simp]: "byte_of_int (int n) = of_nat n"
  by (simp add: byte_of_int_def)

lemma length_4_cases:
  assumes "length os = 4" obtains a b c d where "os = [a, b, c, d]"
  using assms by (auto simp: numeral_eq_Suc length_Suc_conv)

text \<open>
  Framed-IP-Address round trips: the encoder's bytes for a dotted address decode, wherever
  they stand in an attribute area, to one attribute of type 8 whose address reads back as the
  same text.
\<close>

theorem framed_ip_roundtrip:
  assumes "length os = 4" and "\<forall>o'\<in>set os. o' < 256"
  shows "\<exists>a. tlv_dec (encodeFramedIPAddress (dotted os) @ rest) = Some (a, rest)
     \<and> attr_type a = ATTR FRAMED_IP_ADDRESS
     \<and> getIp (a # others) (ATTR FRAMED_IP_ADDRESS) = Some (dotted os)"
proof -
  obtain a b c d where os: "os = [a, b, c, d]" using assms(1) by (rule length_4_cases)
  then show ?thesis
    using assms(2)
    by (simp add: encodeFramedIPAddress_def split_dotted octet_cell_def getIp_def getAttr_def)
qed

theorem framed_ip_roundtrip_witness:
  "\<exists>a. tlv_dec (encodeFramedIPAddress (dotted [10, 0, 255, 1]) @ [6, 6]) = Some (a, [6, 6])
     \<and> getIp [a] 8 = Some (dotted [10, 0, 255, 1])"
  using framed_ip_roundtrip [of "[10, 0, 255, 1]" "[6, 6]" "[]"] by auto

section \<open>Vendor-specific attributes\<close>

text \<open>
  A vendor-specific attribute is refused exactly when its value exceeds 247 bytes;
  otherwise it decodes to one attribute of type 26 whose content is the four-byte vendor id,
  the vendor type, the vendor length and the value.
\<close>

theorem vsa_roundtrip:
  assumes "vendorId < 4294967296" and "vendorType < 256"
  shows "(case encodeVSA vendorId vendorType v of
       Inl _ \<Rightarrow> 247 < length v
     | Inr b \<Rightarrow> length v \<le> 247
         \<and> (\<exists>a. tlv_dec (b @ rest) = Some (a, rest) \<and> attr_type a = ATTR VENDOR_SPECIFIC
              \<and> readUInt32BE (attr_value a) 0 = vendorId
              \<and> unat (attr_value a ! 4) = vendorType
              \<and> unat (attr_value a ! 5) = 2 + length v
              \<and> drop 6 (attr_value a) = v))"
proof (cases "247 < length v")
  case True
  then show ?thesis by (simp add: encodeVSA_def)
next
  case False
  let ?vs = "be32 vendorId @ [of_nat vendorType, of_nat (2 + length v)] @ v"
  let ?b = "of_nat 26 # of_nat (8 + length v) # ?vs"
  have enc: "encodeVSA vendorId vendorType v = Inr ?b"
    using False by (simp add: encodeVSA_def Let_def)
  have "unat (of_nat (8 + length v) :: byte) = 2 + length ?vs"
    using False by (subst unat_of_nat_byte) simp
  then have dec: "tlv_dec (?b @ rest)
      = Some (\<lparr>attr_type = unat (of_nat 26 :: byte), attr_value = ?vs\<rparr>, rest)"
    using tlv_dec_cons [of "of_nat (8 + length v)" ?vs "of_nat 26" rest]
    by (simp only: append_Cons)
  have vid: "readUInt32BE ?vs 0 = vendorId"
    using readUInt32BE_be32 [of vendorId "[]" 0] assms(1) by simp
  have cells: "?vs ! 4 = of_nat vendorType" "?vs ! 5 = of_nat (2 + length v)" "drop 6 ?vs = v"
    by (simp_all add: nth_append)
  have "unat (of_nat (2 + length v) :: byte) = 2 + length v"
    using False by (intro unat_length_byte) simp
  with dec vid cells False enc assms(2) show ?thesis
    by (simp only: enc sum.case) (simp del: of_nat_add add: unat_of_nat_byte)
qed

theorem vsa_roundtrip_witness:
  "\<exists>b a. encodeVSA 14988 8 [49, 48, 77] = Inr b \<and> tlv_dec b = Some (a, [])
     \<and> readUInt32BE (attr_value a) 0 = 14988 \<and> drop 6 (attr_value a) = [49, 48, 77]"
  using vsa_roundtrip [of 14988 8 "[49, 48, 77]" "[]"]
  by (cases "encodeVSA 14988 8 [49, 48, 77]") auto

section \<open>User names\<close>

lemma User_Name_dec:
  assumes "length u mod 256 = k" and "k \<le> 253" and "k \<le> length u"
  shows "tlv_dec (encodeUserName u @ rest) =
     Some (\<lparr>attr_type = 1, attr_value = take k (utf8_bytes u)\<rparr>, drop k (utf8_bytes u) @ rest)"
proof -
  have "(2 + length u) mod 256 = 2 + k"
    using assms mod_add_right_eq [of 2 "length u" 256] by simp
  then have len: "unat (of_nat (2 + length u) :: byte) = 2 + k"
    by (simp only: unat_of_nat_byte)
  have "encodeUserName u @ rest
      = 1 # of_nat (2 + length u) # take k (utf8_bytes u) @ drop k (utf8_bytes u) @ rest"
    by (simp add: encodeUserName_def Let_def)
  moreover have "length (take k (utf8_bytes u)) = k" using assms(3) by simp
  ultimately show ?thesis
    using tlv_dec_cons [of "of_nat (2 + length u)" "take k (utf8_bytes u)" 1] len by simp
qed

text \<open>
  The User-Name encoder is exact only up to 253 bytes: the attribute it writes decodes to a
  User-Name carrying the name, with nothing left over, if and only if the name's UTF-8 text has
  at most 253 bytes. The length byte of a longer name wraps around.
\<close>

theorem userName_exact_iff_short:
  "tlv_dec (encodeUserName u @ rest)
     = Some (\<lparr>attr_type = ATTR USER_NAME, attr_value = utf8_bytes u\<rparr>, rest)
   \<longleftrightarrow> length (utf8_bytes u) \<le> 253"
proof
  assume "length (utf8_bytes u) \<le> 253"
  then show "tlv_dec (encodeUserName u @ rest)
      = Some (\<lparr>attr_type = ATTR USER_NAME, attr_value = utf8_bytes u\<rparr>, rest)"
    using User_Name_dec [of u "length u" rest] by simp
next
  assume dec: "tlv_dec (encodeUserName u @ rest)
      = Some (\<lparr>attr_type = ATTR USER_NAME, attr_value = utf8_bytes u\<rparr>, rest)"
  have "tlv_ok \<lparr>attr_type = ATTR USER_NAME, attr_value = utf8_bytes u\<rparr>"
    using radius_tlv.dec_exact [OF dec] by simp
  then show "length (utf8_bytes u) \<le> 253" by (simp add: tlv_ok_def)
qed

text \<open>
  A name of 256 bytes is read back as an empty User-Name followed by attributes spelled by
  the name itself: the attribute area decodes exactly as if the name's bytes had been written as
  attributes.
\<close>

theorem userName_injects_attributes:
  assumes "utf8_bytes u = concat (map tlv_enc smuggled)" and "length u = 256"
    and "\<forall>a\<in>set (smuggled @ attrs). tlv_ok a"
  shows "fst (decode_all tlv_dec (Suc (length smuggled + length attrs))
           (encodeUserName u @ concat (map tlv_enc attrs)))
       = \<lparr>attr_type = ATTR USER_NAME, attr_value = []\<rparr> # smuggled @ attrs"
proof -
  have "decode_all tlv_dec (length smuggled + length attrs)
      (concat (map tlv_enc (smuggled @ attrs)) @ []) = (smuggled @ attrs, [])"
    using assms(3) by (intro radius_tlv.stream_roundtrip) simp_all
  then show ?thesis
    using User_Name_dec [of u 0 "concat (map tlv_enc attrs)"] assms(1,2) by simp
qed

theorem userName_injects_attributes_witness:
  "\<exists>u. length u = 256 \<and> fst (decode_all tlv_dec 5 (encodeUserName u @ concat (map tlv_enc [])))
     = \<lparr>attr_type = ATTR USER_NAME, attr_value = []\<rparr>
       # replicate 4 \<lparr>attr_type = 65, attr_value = replicate 62 97\<rparr>"
proof -
  let ?a = "\<lparr>attr_type = 65, attr_value = replicate 62 97\<rparr> :: rad_attr"
  let ?u = "map char_of_byte (concat (map tlv_enc (replicate 4 ?a)))"
  have "utf8_bytes ?u = concat (map tlv_enc (replicate 4 ?a))"
    by (simp add: utf8_bytes_def comp_def)
  moreover have "length ?u = 256" by (simp add: tlv_enc_def numeral_eq_Suc)
  ultimately show ?thesis
    using userName_injects_attributes [of ?u "replicate 4 ?a" "[]"]
    by (intro exI [of _ ?u]) (simp add: tlv_ok_def)
qed

section \<open>Framed-IPv6-Prefix\<close>

definition prefix_bit :: "buffer \<Rightarrow> nat \<Rightarrow> bool" where
  "prefix_bit v i \<longleftrightarrow> bit (v ! (2 + i div 8)) (7 - i mod 8)"

lemma and_host_mask_eq_0:
  "k < 8 \<Longrightarrow> (x :: byte) AND (push_bit k 1 - 1) = 0 \<longleftrightarrow> (\<forall>j<k. \<not> bit x j)"
proof -
  assume k: "k < 8"
  have "push_bit k 1 - 1 = (mask k :: byte)"
    by (simp add: mask_eq_exp_minus_1 push_bit_eq_mult)
  then have "x AND (push_bit k 1 - 1) = take_bit k x"
    by (simp add: take_bit_eq_mask)
  also have "\<dots> = 0 \<longleftrightarrow> (\<forall>j<k. \<not> bit x j)"
    using k by (auto simp: bit_eq_iff bit_take_bit_iff)
  finally show ?thesis .
qed

lemma host_bits_clear:
  assumes pl: "pl = 8 * q + m" "0 < m" "m < 8" and n: "length v = 2 + (pl + 7) div 8"
  shows "(\<forall>i. pl \<le> i \<and> i < 8 * (length v - 2) \<longrightarrow> \<not> prefix_bit v i)
     \<longleftrightarrow> (\<forall>j < 8 - m. \<not> bit (v ! (length v - 1)) j)"
    (is "?L \<longleftrightarrow> ?R")
proof -
  have "(pl + 7) div 8 = q + 1"
    using pl by (intro div_nat_eqI) simp_all
  then have last: "length v - 1 = 2 + q" "8 * (length v - 2) = 8 * q + 8" using n by simp_all
  show ?thesis
  proof
    assume L: ?L
    show ?R
    proof (intro allI impI)
      fix j assume j: "j < 8 - m"
      have "\<not> prefix_bit v (8 * q + (7 - j))"
        using j pl by (intro L [rule_format]) (unfold last, linarith)
      moreover have "(8 * q + (7 - j)) div 8 = q" "(8 * q + (7 - j)) mod 8 = 7 - j" by simp_all
      moreover have "7 - (7 - j) = j" using j by simp
      ultimately show "\<not> bit (v ! (length v - 1)) j"
        by (simp only: prefix_bit_def last not_False_eq_True)
    qed
  next
    assume R: ?R
    show ?L
    proof (intro allI impI)
      fix i assume "pl \<le> i \<and> i < 8 * (length v - 2)"
      then obtain t where t: "i = 8 * q + t" "m \<le> t" "t < 8"
        using pl last(2) by (intro that [of "i - 8 * q"]) linarith+
      then have "i div 8 = q" "i mod 8 = t" by simp_all
      moreover have "7 - t < 8 - m" using t by linarith
      ultimately show "\<not> prefix_bit v i" using R last by (simp only: prefix_bit_def) simp
    qed
  qed
qed

text \<open>
  Framed-IPv6-Prefix is accepted exactly when it is well formed: a zero reserved byte, a
  prefix length of at most 128, exactly the bytes that length needs, and every bit past the
  prefix zero.
\<close>

theorem ipv6_prefix_accepts_iff:
  "(\<exists>s. decode_ipv6_prefix v = Inr s) \<longleftrightarrow>
     2 \<le> length v \<and> v ! 0 = 0 \<and> unat (v ! 1) \<le> 128 \<and> length v = 2 + (unat (v ! 1) + 7) div 8
     \<and> (\<forall>i. unat (v ! 1) \<le> i \<and> i < 8 * (length v - 2) \<longrightarrow> \<not> prefix_bit v i)"
proof (cases "2 \<le> length v \<and> v ! 0 = 0 \<and> unat (v ! 1) \<le> 128
              \<and> length v = 2 + (unat (v ! 1) + 7) div 8")
  case False
  then show ?thesis by (auto simp: decode_ipv6_prefix_def Let_def)
next
  case True
  let ?pl = "unat (v ! 1)"
  show ?thesis
  proof (cases "?pl mod 8 = 0")
    case r: True
    then have "(?pl + 7) div 8 = ?pl div 8" and "?pl = 8 * (?pl div 8)"
      by (auto elim!: dvdE simp flip: dvd_eq_mod_eq_0)
    then have "8 * (length v - 2) = ?pl" using True by linarith
    moreover from r True have "\<exists>s. decode_ipv6_prefix v = Inr s"
      by (simp add: decode_ipv6_prefix_def Let_def)
    ultimately show ?thesis using True by auto
  next
    case r: False
    then have "0 < ?pl" by (cases "?pl = 0") auto
    then have "8 * 1 \<le> ?pl + 7" by simp
    then have "1 \<le> (?pl + 7) div 8" by (simp add: less_eq_div_iff_mult_less_eq)
    then have more: "length v > 2" using True by simp
    have "(\<exists>s. decode_ipv6_prefix v = Inr s)
        \<longleftrightarrow> (v ! (length v - 1)) AND (push_bit (8 - ?pl mod 8) 1 - 1) = 0"
      using True r more by (simp only: decode_ipv6_prefix_def Let_def) simp
    also have "\<dots> \<longleftrightarrow> (\<forall>j < 8 - ?pl mod 8. \<not> bit (v ! (length v - 1)) j)"
      using r by (intro and_host_mask_eq_0) simp
    finally show ?thesis using True host_bits_clear [of ?pl "?pl div 8" "?pl mod 8" v] r by simp
  qed
qed

theorem ipv6_prefix_accepts_iff_witness:
  "(\<exists>s. decode_ipv6_prefix [0, 12, 32, 16] = Inr s) \<and> \<not> (\<exists>s. decode_ipv6_prefix [0, 12, 32, 24] = Inr s)"
proof
  have "\<not> prefix_bit [0, 12, 32, 16] i" if "12 \<le> i" "i < 16" for i
  proof -
    have "i = 12 \<or> i = 13 \<or> i = 14 \<or> i = 15" using that by linarith
    then show ?thesis by (auto simp: prefix_bit_def)
  qed
  then show "\<exists>s. decode_ipv6_prefix [0, 12, 32, 16] = Inr s"
    using ipv6_prefix_accepts_iff [of "[0, 12, 32, 16]"] by simp
  show "\<not> (\<exists>s. decode_ipv6_prefix [0, 12, 32, 24] = Inr s)"
    using ipv6_prefix_accepts_iff [of "[0, 12, 32, 24]"] 
    by (auto simp: prefix_bit_def intro!: exI [of _ 12])
qed

end
