(* ===== verification/NasResolver.thy ===== *)
theory NasResolver
  imports JsText
begin

text \<open>
  Which NAS a RADIUS packet comes from: \<open>src/services/tenantNasResolverService.js\<close>. The NAS table
  exists once in the primary database and once in each isolated tenant database; a snapshot of
  routing descriptors over all of them is cached. The SQL statements are modelled by filters on
  the rows of the tables; each query may fail. Completion order of the parallel tenant queries
  does not matter for the result and is taken to be the order of the ids.
\<close>

section \<open>Tables and descriptors\<close>

datatype scope = Primary | Isolated

record nas_row =
  row_id :: nat
  row_org :: "nat option"
  row_ip :: string
  row_secret :: "string option"
  row_active :: bool
  row_deleted :: bool

record isolation_row =
  iso_org :: nat
  iso_isolated :: bool

record organization_row =
  org_id :: nat
  org_active :: bool
  org_deleted :: bool

record nas_db =
  nas_query :: "(nas_row list \<times> isolation_row list) result"
  isolation_query :: "(isolation_row list \<times> organization_row list) result"
  tenant_query :: "nat \<Rightarrow> nas_row list result"

record descriptor =
  d_id :: nat
  d_org :: "nat option"
  d_ip :: string
  d_scope :: scope

record nas = descriptor +
  nas_secret :: "string option"

record snapshot =
  byIp :: "string \<Rightarrow> descriptor list"
  refreshedAt :: int

section \<open>The snapshot\<close>

definition row_live :: "nas_row \<Rightarrow> bool" where
  "row_live n \<longleftrightarrow> row_active n \<and> \<not> row_deleted n"

definition isolatedOrganizationIds :: "nas_db \<Rightarrow> nat list result" where
  "isolatedOrganizationIds db =
     and_then (isolation_query db) (\<lambda>(odcs, orgs).
       Inr (filter (\<lambda>i. i \<le> 9007199254740991)
         (sort [iso_org odc. odc \<leftarrow> odcs, o' \<leftarrow> orgs,
                iso_isolated odc \<and> org_id o' = iso_org odc \<and> org_active o' \<and> \<not> org_deleted o'])))"

definition to_descriptor :: "scope \<Rightarrow> nas_row \<Rightarrow> descriptor" where
  "to_descriptor databaseScope row =
     \<lparr>d_id = row_id row, d_org = row_org row, d_ip = row_ip row, d_scope = databaseScope\<rparr>"

fun addDescriptors ::
  "(string \<Rightarrow> descriptor list) \<Rightarrow> nas_row list \<Rightarrow> scope \<Rightarrow> string \<Rightarrow> descriptor list" where
  "addDescriptors m [] databaseScope = m"
| "addDescriptors m (row # rows) databaseScope =
     addDescriptors (m(row_ip row := m (row_ip row) @ [to_descriptor databaseScope row]))
       rows databaseScope"

definition primary_rows :: "nas_db \<Rightarrow> nas_row list result" where
  "primary_rows db =
     and_then (nas_query db) (\<lambda>(rows, odcs).
       Inr (filter (\<lambda>n. row_live n \<and> row_org n \<noteq> None
              \<and> \<not> list_ex (\<lambda>odc. Some (iso_org odc) = row_org n \<and> iso_isolated odc) odcs) rows))"

definition tenant_rows :: "nas_db \<Rightarrow> nat \<Rightarrow> nas_row list result" where
  "tenant_rows db organizationId =
     and_then (tenant_query db organizationId) (\<lambda>rows.
       Inr (filter (\<lambda>n. row_org n = Some organizationId \<and> row_live n) rows))"

definition buildSnapshot :: "nas_db \<Rightarrow> int \<Rightarrow> snapshot result" where
  "buildSnapshot db finished =
     and_then (primary_rows db) (\<lambda>rows.
     let byIp0 = addDescriptors (\<lambda>_. []) rows Primary in
     and_then (isolatedOrganizationIds db) (\<lambda>isolatedIds.
     and_then (collect (map (tenant_rows db) isolatedIds)) (\<lambda>tenants.
       Inr \<lparr>byIp = fold (\<lambda>rows m. addDescriptors m rows Isolated) tenants byIp0,
            refreshedAt = finished\<rparr>)))"

text \<open>\<open>CACHE_TTL_MS\<close> as a function of the environment variable.\<close>

definition CACHE_TTL_MS :: "string option \<Rightarrow> int" where
  "CACHE_TTL_MS env =
     (let text = (case env of None \<Rightarrow> ''10'' | Some s \<Rightarrow> if s = [] then ''10'' else s);
          n = (case parse_int10 text of None \<Rightarrow> 10 | Some k \<Rightarrow> if k = 0 then 10 else k)
      in min (max n 1) 60 * 1000)"

text \<open>The cached snapshot afterwards, and the snapshot to use (none when a refresh failed).\<close>

definition currentSnapshot ::
  "int \<Rightarrow> nas_db \<Rightarrow> int \<Rightarrow> int \<Rightarrow> snapshot option \<Rightarrow> snapshot option \<times> snapshot option" where
  "currentSnapshot ttl db now finished cached =
     (if (case cached of None \<Rightarrow> True | Some s \<Rightarrow> now - refreshedAt s > ttl) then
        (case buildSnapshot db finished of
           Inr next' \<Rightarrow> (Some next', Some next')
         | Inl _ \<Rightarrow> (cached, None))
      else (cached, cached))"

definition invalidateNasRoutingCache :: "snapshot option \<Rightarrow> snapshot option" where
  "invalidateNasRoutingCache cached = None"

section \<open>Resolution\<close>

definition scope_rows :: "nas_db \<Rightarrow> scope \<Rightarrow> nat option \<Rightarrow> nas_row list result" where
  "scope_rows db sc org =
     (case (sc, org) of
        (Isolated, Some i) \<Rightarrow> tenant_query db i
      | (Isolated, None) \<Rightarrow> Inl ''tenant context without organization''
      | (Primary, _) \<Rightarrow> and_then (nas_query db) (\<lambda>(rows, odcs). Inr rows))"

definition fetchSecret :: "nas_db \<Rightarrow> descriptor \<Rightarrow> nas_row option result" where
  "fetchSecret db d =
     and_then (scope_rows db (d_scope d) (d_org d)) (\<lambda>rows.
       Inr (find (\<lambda>n. row_id n = d_id d \<and> d_org d \<noteq> None \<and> row_org n = d_org d
                   \<and> row_ip n = d_ip d \<and> row_live n) rows))"

record resolution =
  res_nas :: "nas option"
  res_ambiguous :: bool
  res_matches :: nat
  res_incomplete :: bool

definition merge_nas :: "descriptor \<Rightarrow> string option \<Rightarrow> nas" where
  "merge_nas d secret =
     \<lparr>d_id = d_id d, d_org = d_org d, d_ip = d_ip d, d_scope = d_scope d, nas_secret = secret\<rparr>"

definition resolveNasByIp ::
  "int \<Rightarrow> nas_db \<Rightarrow> int \<Rightarrow> int \<Rightarrow> bool \<Rightarrow> string \<Rightarrow> snapshot option
     \<Rightarrow> snapshot option \<times> resolution result" where
  "resolveNasByIp ttl db now finished includeSecret ipAddress cached =
     (let (cached', current) = currentSnapshot ttl db now finished cached in
      (cached',
       (case current of
          None \<Rightarrow> Inr \<lparr>res_nas = None, res_ambiguous = False, res_matches = 0, res_incomplete = True\<rparr>
        | Some s \<Rightarrow>
            (case byIp s ipAddress of
               [d] \<Rightarrow>
                 (if includeSecret then
                    and_then (fetchSecret db d) (\<lambda>row.
                      Inr \<lparr>res_nas = map_option (\<lambda>n. merge_nas d (row_secret n)) row,
                           res_ambiguous = False,
                           res_matches = (if row = None then 0 else 1), res_incomplete = False\<rparr>)
                  else Inr \<lparr>res_nas = Some (merge_nas d None), res_ambiguous = False,
                            res_matches = 1, res_incomplete = False\<rparr>)
             | matches \<Rightarrow> Inr \<lparr>res_nas = None, res_ambiguous = (length matches > 1),
                               res_matches = length matches, res_incomplete = False\<rparr>))))"

section \<open>What the snapshot holds\<close>

text \<open>The specification: every live row, with the database it is in.\<close>

definition routable :: "nas_db \<Rightarrow> (scope \<times> nas_row) list result" where
  "routable db =
     and_then (primary_rows db) (\<lambda>rows.
     and_then (isolatedOrganizationIds db) (\<lambda>ids.
     and_then (collect (map (tenant_rows db) ids)) (\<lambda>tenants.
       Inr (map (Pair Primary) rows @ map (Pair Isolated) (concat tenants)))))"

definition routes_to :: "(scope \<times> nas_row) list \<Rightarrow> string \<Rightarrow> descriptor list" where
  "routes_to rs ip = map (\<lambda>(sc, n). to_descriptor sc n) (filter (\<lambda>(sc, n). row_ip n = ip) rs)"

lemma addDescriptors_lookup:
  "addDescriptors m rows sc ip
     = m ip @ map (to_descriptor sc) (filter (\<lambda>n. row_ip n = ip) rows)"
  by (induction rows arbitrary: m) auto

lemma addDescriptors_fold:
  "fold (\<lambda>rows m. addDescriptors m rows sc) tenants m ip
     = m ip @ map (to_descriptor sc) (filter (\<lambda>n. row_ip n = ip) (concat tenants))"
  by (induction tenants arbitrary: m) (auto simp: addDescriptors_lookup)

lemma snapshot_routes:
  "buildSnapshot db t = (case routable db of
      Inl e \<Rightarrow> Inl e | Inr rs \<Rightarrow> Inr \<lparr>byIp = routes_to rs, refreshedAt = t\<rparr>)"
  by (auto simp: buildSnapshot_def routable_def routes_to_def fun_eq_iff Let_def
      addDescriptors_lookup addDescriptors_fold filter_map comp_def and_then_def
      split: sum.splits prod.splits)

lemma fetchSecret_row:
  "fetchSecret db d = Inr (Some n) \<Longrightarrow>
   row_id n = d_id d \<and> row_org n = d_org d \<and> row_ip n = d_ip d \<and> row_live n
   \<and> (\<exists>rows. scope_rows db (d_scope d) (d_org d) = Inr rows \<and> n \<in> set rows)"
  by (auto simp: fetchSecret_def and_then_Ok_iff find_Some_iff)

section \<open>Resolution is unambiguous and fails closed\<close>

text \<open>A NAS as a live row of a database holds it.\<close>

definition live_nas :: "nas_db \<Rightarrow> nas \<Rightarrow> bool" where
  "live_nas db n \<longleftrightarrow>
     (\<exists>rows r. scope_rows db (d_scope n) (d_org n) = Inr rows \<and> r \<in> set rows \<and> row_live r
        \<and> row_id r = d_id n \<and> row_org r = d_org n \<and> row_ip r = d_ip n \<and> row_secret r = nas_secret n)"

lemma fetchSecret_live:
  assumes "fetchSecret db d = Inr (Some row)"
  shows "live_nas db (merge_nas d (row_secret row))"
  using fetchSecret_row [OF assms] by (force simp: live_nas_def merge_nas_def)

lemma merge_nas_ip [simp]: "d_ip (merge_nas d s) = d_ip d" "d_id (merge_nas d s) = d_id d"
  by (simp_all add: merge_nas_def)

lemma resolve_found:
  assumes "resolveNasByIp ttl db now finished True ip cached = (cached', Inr r)"
    and "res_nas r = Some n"
  obtains s d row where "currentSnapshot ttl db now finished cached = (cached', Some s)"
    and "byIp s ip = [d]" and "fetchSecret db d = Inr (Some row)"
    and "n = merge_nas d (row_secret row)"
proof -
  obtain c current where cur: "currentSnapshot ttl db now finished cached = (c, current)" by force
  have c: "c = cached'" using assms(1) cur by (simp add: resolveNasByIp_def)
  obtain s where s: "current = Some s"
    using assms cur by (cases current) (auto simp: resolveNasByIp_def)
  obtain d where d: "byIp s ip = [d]"
    using assms cur s by (auto simp: resolveNasByIp_def split: list.splits)
  obtain row where row: "fetchSecret db d = Inr (Some row)" "n = merge_nas d (row_secret row)"
    using assms cur s d by (auto simp: resolveNasByIp_def and_then_Ok_iff)
  show thesis using that cur c s d row by blast
qed

text \<open>
  NAS resolution is unambiguous and fails closed. Resolved without a cached snapshot, an
  address yields a NAS only if, over the primary database and every active isolated tenant
  database, exactly one live row has that address, and the NAS returned, with its secret, is a
  live row of the database that row is in. Two such rows give the answer "ambiguous", and a
  database that cannot be queried gives "incomplete"; in both cases there is no NAS.
\<close>

theorem resolution_unambiguous:
  assumes "resolveNasByIp ttl db now finished True ip None = (cached', Inr r)"
  shows "(case routable db of
      Inl _ \<Rightarrow> res_nas r = None \<and> res_incomplete r
    | Inr rs \<Rightarrow>
        (case filter (\<lambda>(sc, row). row_ip row = ip) rs of
           [(sc, row)] \<Rightarrow> (case res_nas r of None \<Rightarrow> res_matches r = 0
               | Some n \<Rightarrow> live_nas db n \<and> d_ip n = ip \<and> d_id n = row_id row \<and> d_scope n = sc)
         | matches \<Rightarrow> res_nas r = None \<and> (res_ambiguous r \<longleftrightarrow> length matches > 1)))"
proof (cases "routable db")
  case (Inl e)
  then have "buildSnapshot db finished = Inl e" by (simp add: snapshot_routes)
  with assms Inl show ?thesis by (auto simp: resolveNasByIp_def currentSnapshot_def)
next
  case (Inr rs)
  let ?s = "\<lparr>byIp = routes_to rs, refreshedAt = finished\<rparr>"
  have cur: "currentSnapshot ttl db now finished None = (Some ?s, Some ?s)"
    using Inr by (simp add: currentSnapshot_def snapshot_routes)
  let ?ms = "filter (\<lambda>(sc, row). row_ip row = ip) rs"
  have routes: "byIp ?s ip = map (\<lambda>(sc, n). to_descriptor sc n) ?ms" by (simp add: routes_to_def)
  show ?thesis
  proof (cases "\<exists>sc row. ?ms = [(sc, row)]")
    case True
    then obtain sc row where ms: "?ms = [(sc, row)]" by blast
    then have "(sc, row) \<in> set ?ms" by simp
    then have ip: "row_ip row = ip" by auto
    have one: "routes_to rs ip = [to_descriptor sc row]" using routes ms by simp
    show ?thesis
    proof (cases "res_nas r")
      case None
      then have "res_matches r = 0"
        using assms cur one by (auto simp: resolveNasByIp_def and_then_Ok_iff)
      with None Inr ms show ?thesis by simp
    next
      case (Some n)
      from resolve_found [OF assms Some] cur one obtain row' where
        "fetchSecret db (to_descriptor sc row) = Inr (Some row')"
        "n = merge_nas (to_descriptor sc row) (row_secret row')"
        by auto
      then show ?thesis
        using fetchSecret_live [of db "to_descriptor sc row" row'] Inr ms Some ip
        by (simp add: to_descriptor_def merge_nas_def)
    qed
  next
    case False
    then have "routes_to rs ip \<noteq> [d]" for d
      using routes by (auto simp: map_eq_Cons_conv)
    then have "res_nas r = None \<and> (res_ambiguous r \<longleftrightarrow> length ?ms > 1)"
      using assms cur routes
      by (auto simp: resolveNasByIp_def split: list.splits)
    with False Inr show ?thesis
      by (auto split: list.splits)
  qed
qed

definition nas_demo_db :: nas_db where
  "nas_demo_db = \<lparr>nas_query = Inr ([\<lparr>row_id = 5, row_org = Some 3, row_ip = ''10.0.0.1'',
       row_secret = Some ''s'', row_active = True, row_deleted = False\<rparr>], []),
     isolation_query = Inr ([\<lparr>iso_org = 4, iso_isolated = True\<rparr>],
       [\<lparr>org_id = 4, org_active = True, org_deleted = False\<rparr>]),
     tenant_query = (\<lambda>i. if i = 4 then Inr [\<lparr>row_id = 1, row_org = Some 4, row_ip = ''10.0.0.2'',
       row_secret = Some ''t'', row_active = True, row_deleted = False\<rparr>] else Inl ''unreachable'')\<rparr>"

lemma demo_routable:
  "routable nas_demo_db = Inr [(Primary, \<lparr>row_id = 5, row_org = Some 3, row_ip = ''10.0.0.1'',
       row_secret = Some ''s'', row_active = True, row_deleted = False\<rparr>),
     (Isolated, \<lparr>row_id = 1, row_org = Some 4, row_ip = ''10.0.0.2'',
       row_secret = Some ''t'', row_active = True, row_deleted = False\<rparr>)]"
  by (simp add: routable_def primary_rows_def isolatedOrganizationIds_def tenant_rows_def
      nas_demo_db_def row_live_def)

lemma demo_scope_rows:
  "scope_rows nas_demo_db Primary org = Inr [\<lparr>row_id = 5, row_org = Some 3, row_ip = ''10.0.0.1'',
       row_secret = Some ''s'', row_active = True, row_deleted = False\<rparr>]"
  by (simp add: scope_rows_def nas_demo_db_def)

theorem resolution_unambiguous_witness:
  "\<exists>c r n. resolveNasByIp 10000 nas_demo_db 0 1 True ''10.0.0.1'' None = (c, Inr r)
     \<and> res_nas r = Some n \<and> d_id n = 5 \<and> d_scope n = Primary"
proof -
  obtain c r n where run: "resolveNasByIp 10000 nas_demo_db 0 1 True ''10.0.0.1'' None = (c, Inr r)"
    and n: "res_nas r = Some n"
    by (simp add: resolveNasByIp_def currentSnapshot_def snapshot_routes demo_routable routes_to_def
        to_descriptor_def fetchSecret_def demo_scope_rows row_live_def)
  from resolution_unambiguous [OF run] n show ?thesis
    using run by (simp add: demo_routable)
qed

text \<open>
  The cache never serves an old map: the snapshot a resolution uses is either built in that
  call or at most a minute old, for every setting of the environment variable.
\<close>

theorem snapshot_fresh:
  assumes "currentSnapshot (CACHE_TTL_MS env) db now finished cached = (cached', Some s)"
  shows "(cached = Some s \<and> now - refreshedAt s \<le> 60000)
     \<or> (\<exists>rs. routable db = Inr rs \<and> s = \<lparr>byIp = routes_to rs, refreshedAt = finished\<rparr> \<and> cached' = Some s)"
proof -
  have "CACHE_TTL_MS env \<le> 60000" by (simp add: CACHE_TTL_MS_def Let_def)
  with assms show ?thesis
    by (auto simp: currentSnapshot_def snapshot_routes split: option.splits sum.splits if_splits)
qed

theorem snapshot_fresh_witness:
  "\<exists>s. currentSnapshot (CACHE_TTL_MS (Some ''600'')) nas_demo_db 0 1 None = (Some s, Some s)
     \<and> refreshedAt s = 1"
proof -
  obtain s where run: "currentSnapshot (CACHE_TTL_MS (Some ''600'')) nas_demo_db 0 1 None = (Some s, Some s)"
    by (simp add: currentSnapshot_def snapshot_routes demo_routable)
  from snapshot_fresh [OF run] run show ?thesis by auto
qed

section \<open>The directory as an interface\<close>

text \<open>
  What the RADIUS server needs of a NAS directory: an invariant of its state, and that a NAS it
  returns has the address asked for and is registered.
\<close>

locale nas_directory =
  fixes lookup :: "'s \<Rightarrow> string \<Rightarrow> 's \<times> nas option result"
    and dir_inv :: "'s \<Rightarrow> bool"
    and registered :: "nas \<Rightarrow> bool"
  assumes lookup_inv: "dir_inv s \<Longrightarrow> lookup s ip = (s', r) \<Longrightarrow> dir_inv s'"
    and lookup_found: "dir_inv s \<Longrightarrow> lookup s ip = (s', Inr (Some n)) \<Longrightarrow> d_ip n = ip \<and> registered n"

text \<open>The resolver as a directory: its state is the cached snapshot and the number of lookups
  made; the databases and the clock are those of the moment of each lookup.\<close>

definition resolver_lookup ::
  "int \<Rightarrow> (nat \<Rightarrow> nas_db) \<Rightarrow> (nat \<Rightarrow> int) \<Rightarrow> snapshot option \<times> nat \<Rightarrow> string
     \<Rightarrow> (snapshot option \<times> nat) \<times> nas option result" where
  "resolver_lookup ttl db clock s ip =
     (let (cached, k) = s;
          (cached', r) = resolveNasByIp ttl (db k) (clock (2 * k)) (clock (2 * k + 1)) True ip cached
      in ((cached', k + 1), and_then r (\<lambda>res. Inr (res_nas res))))"

definition snapshot_ok :: "snapshot option \<times> nat \<Rightarrow> bool" where
  "snapshot_ok s \<longleftrightarrow> (case fst s of None \<Rightarrow> True | Some m \<Rightarrow> (\<forall>ip. \<forall>d\<in>set (byIp m ip). d_ip d = ip))"

lemma currentSnapshot_ok:
  assumes "currentSnapshot ttl db now finished cached = (cached', current)" and "snapshot_ok (cached, k)"
  shows "snapshot_ok (cached', k') \<and> snapshot_ok (current, k')"
  using assms
  by (auto simp: currentSnapshot_def snapshot_routes routes_to_def to_descriptor_def snapshot_ok_def
      split: if_splits sum.splits option.splits)

interpretation resolver: nas_directory "resolver_lookup ttl db clock" snapshot_ok
  "\<lambda>n. \<exists>k. live_nas (db k) n" for ttl db clock
proof
  fix s s' ip and r :: "nas option result"
  assume "snapshot_ok s" and "resolver_lookup ttl db clock s ip = (s', r)"
  then show "snapshot_ok s'"
    by (auto simp: resolver_lookup_def resolveNasByIp_def Let_def dest: currentSnapshot_ok
        split: prod.splits)
next
  fix s s' ip n
  assume ok: "snapshot_ok s" and run: "resolver_lookup ttl db clock s ip = (s', Inr (Some n))"
  obtain cached k where s: "s = (cached, k)" by force
  obtain cached' res where
    res: "resolveNasByIp ttl (db k) (clock (2 * k)) (clock (2 * k + 1)) True ip cached = (cached', Inr res)"
    and n: "res_nas res = Some n"
    using run by (auto simp: s resolver_lookup_def and_then_Ok_iff split: prod.splits)
  from resolve_found [OF res n] obtain m d row where
    m: "currentSnapshot ttl (db k) (clock (2 * k)) (clock (2 * k + 1)) cached = (cached', Some m)"
    and d: "byIp m ip = [d]" and row: "fetchSecret (db k) d = Inr (Some row)"
    and "n = merge_nas d (row_secret row)" .
  moreover have "d_ip d = ip"
    using currentSnapshot_ok [OF m] ok d by (auto simp: s snapshot_ok_def)
  ultimately show "d_ip n = ip \<and> (\<exists>k. live_nas (db k) n)"
    using fetchSecret_live [OF row] by auto
qed

end
