(* ===== verification/SpeedWindows.thy ===== *)
theory SpeedWindows
  imports RadiusCoa "HOL-Library.Product_Lexorder" "HOL-Library.List_Lexorder"
    "HOL-Library.Char_ord" "HOL-Library.Multiset"
begin

text \<open>
  Time-based plan policy: \<open>src/services/speedWindowService.js\<close> (which window is in force, the
  plan with the window's speeds, the comparison of reply rows) and
  \<open>src/services/radiusLoginTimeService.js\<close> (the Login-Time attribute). The clock is an argument:
  the weekday (0 is Sunday) and the second of the day, in server-local time.
\<close>

section \<open>Speed windows\<close>

record speed_window =
  win_id :: nat
  win_plan_id :: nat
  win_day_mask :: nat
  win_start :: nat
  win_end :: nat
  win_download :: nat
  win_upload :: nat
  win_priority :: nat
  win_active :: bool
  win_deleted :: bool

definition window_matches :: "nat \<Rightarrow> nat \<Rightarrow> nat \<Rightarrow> speed_window \<Rightarrow> bool" where
  "window_matches planId day currentTime w \<longleftrightarrow>
     win_plan_id w = planId \<and> win_active w \<and> \<not> win_deleted w
     \<and> (win_day_mask w AND push_bit day 1) > 0
     \<and> win_start w \<le> currentTime \<and> win_end w > currentTime"

definition window_rank :: "speed_window \<Rightarrow> nat \<times> nat" where
  "window_rank w = (win_priority w, win_id w)"

definition getActiveWindow :: "speed_window list \<Rightarrow> nat \<Rightarrow> nat \<Rightarrow> nat \<Rightarrow> speed_window option" where
  "getActiveWindow rows planId day currentTime =
     (case sort_key window_rank (filter (window_matches planId day currentTime) rows) of
        [] \<Rightarrow> None | w # _ \<Rightarrow> Some w)"

definition windowEffectivePlan :: "plan \<Rightarrow> speed_window \<Rightarrow> plan" where
  "windowEffectivePlan p w =
     p\<lparr>download_speed_mbps := win_download w, upload_speed_mbps := win_upload w,
       burst_download_mbps := None, burst_upload_mbps := None, burst_threshold_mbps := None\<rparr>"

text \<open>The two sorted lists of keys agree position by position. The order of JavaScript's \<open>sort\<close>
  (UTF-16 code units) and that of the UTF-8 bytes differ, which an equality test does not see.\<close>

definition row_key :: "string \<times> string \<Rightarrow> string" where
  "row_key r = fst r @ [CHR 0x09] @ snd r"

definition sameAttrRows :: "(string \<times> string) list \<Rightarrow> (string \<times> string) list \<Rightarrow> bool" where
  "sameAttrRows a b =
     (if length a \<noteq> length b then False
      else let as' = sort (map row_key a); bs = sort (map row_key b)
        in list_all2 (=) as' bs)"

section \<open>Login-Time\<close>

definition DAY_CODES :: "string list" where
  "DAY_CODES = [''Su'', ''Mo'', ''Tu'', ''We'', ''Th'', ''Fr'', ''Sa'']"

definition WK_MASK :: nat where "WK_MASK = 62"
definition AL_MASK :: nat where "AL_MASK = 127"

definition formatTime :: "string \<Rightarrow> string" where
  "formatTime timeStr =
     (let parts = js_split CHR '':'' timeStr;
          hh = pad_start 2 CHR ''0'' (parts ! 0);
          mm = (if 1 < length parts \<and> parts ! 1 \<noteq> [] then parts ! 1 else ''00'')
      in hh @ pad_start 2 CHR ''0'' mm)"

definition dayMaskToDaySpec :: "nat \<Rightarrow> string" where
  "dayMaskToDaySpec dayMask =
     (let m = dayMask AND AL_MASK in
      if m = AL_MASK then ''Al''
      else if m = WK_MASK then ''Wk''
      else concat (map (\<lambda>i. if m AND push_bit i 1 \<noteq> 0 then DAY_CODES ! i else []) [0..<7]))"

record access_window =
  aw_day_mask :: "nat option"
  aw_start :: string
  aw_end :: string
  aw_status :: "string option"
  aw_deleted :: bool

definition access_window_active :: "access_window \<Rightarrow> bool" where
  "access_window_active w \<longleftrightarrow>
     (aw_status w = None \<or> aw_status w = Some [] \<or> aw_status w = Some ''active'') \<and> \<not> aw_deleted w"

definition login_segment :: "access_window \<Rightarrow> string" where
  "login_segment w =
     dayMaskToDaySpec (case aw_day_mask w of None \<Rightarrow> 127 | Some m \<Rightarrow> m)
     @ formatTime (aw_start w) @ ''-'' @ formatTime (aw_end w)"

definition serializeLoginTime :: "access_window list \<Rightarrow> string option" where
  "serializeLoginTime windows =
     (let active = filter access_window_active windows in
      if active = [] then None else Some (js_join '','' (map login_segment active)))"

section \<open>Lemmas\<close>

lemma getActiveWindow_None:
  "getActiveWindow rows p day t = None \<longleftrightarrow> (\<forall>w\<in>set rows. \<not> window_matches p day t w)"
proof -
  let ?ws = "sort_key window_rank (filter (window_matches p day t) rows)"
  have "set ?ws = {w \<in> set rows. window_matches p day t w}" by simp
  then show ?thesis
    by (cases ?ws) (auto simp: getActiveWindow_def)
qed

lemma getActiveWindow_Some:
  assumes "getActiveWindow rows p day t = Some w"
  shows "w \<in> set rows" and "window_matches p day t w"
    and "\<And>v. v \<in> set rows \<Longrightarrow> window_matches p day t v \<Longrightarrow> window_rank w \<le> window_rank v"
proof -
  let ?ws = "sort_key window_rank (filter (window_matches p day t) rows)"
  obtain ws where ws: "?ws = w # ws"
    using assms by (auto simp: getActiveWindow_def split: list.splits)
  have members: "set ?ws = {w \<in> set rows. window_matches p day t w}" by simp
  then show "w \<in> set rows" and "window_matches p day t w" by (simp_all add: ws) blast+
  have "sorted (map window_rank (w # ws))" using sorted_sort_key [of window_rank] ws by metis
  then show "window_rank w \<le> window_rank v" if "v \<in> set rows" "window_matches p day t v" for v
    using that members ws by auto
qed

text \<open>
  The window in force: none exactly when no active, undeleted window of the plan covers the
  weekday and the time of day; otherwise one that does, and of least \<open>(priority, id)\<close> among all
  that do.
\<close>

theorem active_window_is_best:
  "(case getActiveWindow rows planId day t of
      None \<Rightarrow> \<not> list_ex (window_matches planId day t) rows
    | Some w \<Rightarrow> w \<in> set rows \<and> window_matches planId day t w
        \<and> (\<forall>v\<in>set rows. window_matches planId day t v \<longrightarrow> window_rank w \<le> window_rank v))"
  using getActiveWindow_None [of rows planId day t] getActiveWindow_Some [of rows planId day t]
  by (auto simp: list_ex_iff split: option.split)

theorem active_window_is_best_witness:
  "\<exists>w. getActiveWindow
      [\<lparr>win_id = 4, win_plan_id = 7, win_day_mask = 62, win_start = 100, win_end = 200,
        win_download = 20, win_upload = 5, win_priority = 10, win_active = True, win_deleted = False\<rparr>]
      7 1 150 = Some w \<and> window_matches 7 1 150 w"
  using active_window_is_best [where rows = "[\<lparr>win_id = 4, win_plan_id = 7, win_day_mask = 62, win_start = 100,
     win_end = 200, win_download = 20, win_upload = 5, win_priority = 10, win_active = True,
     win_deleted = False\<rparr>]" and planId = 7 and day = 1 and t = 150]
  by (auto simp: window_matches_def split: option.splits)

text \<open>
  A window that wraps past midnight (its end is not after its start) is never in force, on
  any day and at any time.
\<close>

theorem overnight_window_never_active:
  assumes "win_end w \<le> win_start w"
  shows "getActiveWindow rows planId day t \<noteq> Some w"
  using getActiveWindow_Some(2) [of rows planId day t w] assms
  by (auto simp: window_matches_def)

theorem overnight_window_never_active_witness:
  "\<exists>w. win_start w = 79200 \<and> win_end w = 21600 \<and> getActiveWindow [w] 7 1 80000 \<noteq> Some w"
proof -
  let ?w = "\<lparr>win_id = 4, win_plan_id = 7, win_day_mask = 127, win_start = 79200, win_end = 21600,
     win_download = 20, win_upload = 5, win_priority = 10, win_active = True, win_deleted = False\<rparr>"
  have "getActiveWindow [?w] 7 1 80000 \<noteq> Some ?w"
    by (rule overnight_window_never_active) simp
  then show ?thesis by (intro exI [of _ ?w]) simp
qed

section \<open>Row comparison\<close>

lemma row_key_inj:
  assumes "CHR 0x09 \<notin> set (fst r)" and "CHR 0x09 \<notin> set (fst q)" and "row_key r = row_key q"
  shows "r = q"
proof -
  have "js_split CHR 0x09 (row_key r) = js_split CHR 0x09 (row_key q)" using assms(3) by simp
  then have "fst r = fst q" using assms(1,2) by (simp add: row_key_def js_split_append)
  with assms(3) show ?thesis by (cases r, cases q) (simp add: row_key_def)
qed

text \<open>
  The transition detector compares rows as multisets: where no attribute name contains a
  tab, two row lists count as the same exactly when each row occurs in both equally often,
  whatever the order.
\<close>

theorem sameAttrRows_iff:
  assumes "\<forall>r\<in>set (a @ b). CHR 0x09 \<notin> set (fst r)"
  shows "sameAttrRows a b \<longleftrightarrow> mset a = mset b"
proof -
  have inj: "inj_on row_key (set a \<union> set b)"
  proof (rule inj_onI)
    fix r q assume "r \<in> set a \<union> set b" and "q \<in> set a \<union> set b" and "row_key r = row_key q"
    then show "r = q" using assms by (intro row_key_inj) auto
  qed
  have "sameAttrRows a b \<longleftrightarrow> mset (map row_key a) = mset (map row_key b)"
  proof
    assume "sameAttrRows a b"
    then have "sort (map row_key a) = sort (map row_key b)"
      by (auto simp: sameAttrRows_def Let_def list.rel_eq split: if_splits)
    then show "mset (map row_key a) = mset (map row_key b)" by (metis mset_sort)
  next
    assume eq: "mset (map row_key a) = mset (map row_key b)"
    then have "sort (map row_key a) = sort (map row_key b)"
      by (metis properties_for_sort sorted_sort mset_sort)
    moreover have "length a = length b" using eq by (metis length_map mset_eq_length)
    ultimately show "sameAttrRows a b" by (simp add: sameAttrRows_def Let_def list.rel_eq)
  qed
  also have "\<dots> \<longleftrightarrow> mset a = mset b"
  proof
    let ?g = "the_inv_into (set a \<union> set b) row_key"
    have inverse: "image_mset ?g (image_mset row_key (mset c)) = mset c"
      if "set c \<subseteq> set a \<union> set b" for c
      using that the_inv_into_f_f [OF inj]
      by (simp add: multiset.map_comp comp_def) (intro multiset.map_ident_strong, auto)
    assume "mset (map row_key a) = mset (map row_key b)"
    then have "image_mset ?g (image_mset row_key (mset a)) = image_mset ?g (image_mset row_key (mset b))"
      by simp
    then show "mset a = mset b" using inverse [of a] inverse [of b] by simp
  qed simp
  finally show ?thesis .
qed

theorem sameAttrRows_iff_witness:
  "sameAttrRows [(''Cisco-AVPair'', ''in''), (''Cisco-AVPair'', ''out'')]
     [(''Cisco-AVPair'', ''out''), (''Cisco-AVPair'', ''in'')]"
  using sameAttrRows_iff [of "[(''Cisco-AVPair'', ''in''), (''Cisco-AVPair'', ''out'')]"
     "[(''Cisco-AVPair'', ''out''), (''Cisco-AVPair'', ''in'')]"]
  by simp

section \<open>Login-Time lemmas\<close>

definition day_bits :: "nat \<Rightarrow> bool list" where
  "day_bits m = map (bit m) [0..<7]"

definition spec_of_bits :: "bool list \<Rightarrow> string" where
  "spec_of_bits bs =
     (if bs = replicate 7 True then ''Al''
      else if bs = [False, True, True, True, True, True, False] then ''Wk''
      else concat (map (\<lambda>i. if bs ! i then DAY_CODES ! i else []) [0..<7]))"

fun two_char_codes :: "string \<Rightarrow> string list" where
  "two_char_codes (c # d # s) = [c, d] # two_char_codes s"
| "two_char_codes _ = []"

definition bits_of_spec :: "string \<Rightarrow> bool list" where
  "bits_of_spec s =
     (if s = ''Al'' then replicate 7 True
      else if s = ''Wk'' then [False, True, True, True, True, True, False]
      else map (\<lambda>d. d \<in> set (two_char_codes s)) DAY_CODES)"

lemma spec_bits_inverse:
  assumes "length bs = 7" shows "bits_of_spec (spec_of_bits bs) = bs"
proof -
  obtain a b c d e f g where "bs = [a, b, c, d, e, f, g]"
    using assms by (auto simp: numeral_eq_Suc length_Suc_conv)
  then show ?thesis
    by (cases a; cases b; cases c; cases d; cases e; cases f; cases g)
      (simp_all add: spec_of_bits_def bits_of_spec_def DAY_CODES_def upt_rec)
qed

lemma and_pow_iff: "(0 < (m :: nat) AND 2 ^ i) = bit m i"
  using and_exp_eq_0_iff_not_bit [of m i] by auto

lemma day_bits_eq: "day_bits m = day_bits n \<longleftrightarrow> m mod 128 = n mod 128"
proof -
  have "day_bits m = day_bits n \<longleftrightarrow> (\<forall>i<7. bit m i = bit n i)"
    by (auto simp: day_bits_def)
  also have "\<dots> \<longleftrightarrow> take_bit 7 m = take_bit 7 n"
    unfolding bit_eq_iff [of "take_bit 7 m"] bit_take_bit_iff by (simp, blast)
  finally show ?thesis by (simp add: take_bit_eq_mod)
qed

lemma day_bits_127: "day_bits 127 = replicate 7 True"
  by code_simp

lemma day_bits_62: "day_bits 62 = [False, True, True, True, True, True, False]"
  by code_simp

lemma low_bits_nth: "i < 7 \<Longrightarrow> day_bits m ! i = bit m i"
  by (simp add: day_bits_def)

lemma daySpec_bits: "dayMaskToDaySpec m = spec_of_bits (day_bits m)"
proof -
  have low: "m AND 127 = m mod 128"
    using take_bit_eq_mask [of 7 m] by (simp add: mask_eq_exp_minus_1 take_bit_eq_mod)
  have all: "m AND 127 = 127 \<longleftrightarrow> day_bits m = replicate 7 True"
    using day_bits_eq [of m 127] by (simp add: low day_bits_127)
  have wk: "m AND 127 = 62 \<longleftrightarrow> day_bits m = [False, True, True, True, True, True, False]"
    using day_bits_eq [of m 62] by (simp add: low day_bits_62)
  have "bit (m AND 127) i = bit m i" if "i < 7" for i
    using that by (simp add: low flip: take_bit_eq_mod [of 7 m, simplified])
      (simp add: bit_take_bit_iff)
  then show ?thesis
    using all wk
    by (auto simp: dayMaskToDaySpec_def spec_of_bits_def AL_MASK_def WK_MASK_def and_pow_iff
        and_exp_eq_0_iff_not_bit low_bits_nth Let_def intro!: arg_cong [where f = concat])
qed

text \<open>
  The day specification determines the days: two masks give the same text exactly when
  their low seven bits agree.
\<close>

theorem daySpec_determines_days:
  "dayMaskToDaySpec m = dayMaskToDaySpec n \<longleftrightarrow> m mod 128 = n mod 128"
proof -
  have "length (day_bits k) = 7" for k by (simp add: day_bits_def)
  then have "dayMaskToDaySpec m = dayMaskToDaySpec n \<longleftrightarrow> day_bits m = day_bits n"
    by (metis daySpec_bits spec_bits_inverse)
  then show ?thesis by (simp only: day_bits_eq)
qed

end
