(* ===== verification/RadiusServer.thy ===== *)
theory RadiusServer
  imports RadiusAttrs NasResolver SpeedWindows
begin

text \<open>
  The embedded RADIUS server, \<open>src/services/radiusServerService.js\<close>. A handler takes a datagram
  with its source address, the state of the NAS directory and the counters, and returns the new
  state and what happened: the datagram was dropped, a reply was handed to the socket, or an
  error was thrown (which the dispatcher logs, sending nothing). The tables a query reads, MD5,
  HMAC-MD5, the collation of \<open>radius.username\<close>, the clock and the accounting ingest are fields of
  the environment; a query is given the tenant context it runs in (\<open>None\<close> is the primary
  database) and may fail.
\<close>

section \<open>State, tables and environment\<close>

record counters =
  authRequests :: nat
  accepts :: nat
  rejects :: nat
  authDropped :: nat
  acctRequests :: nat
  acctIngested :: nat
  acctDropped :: nat

datatype auth_reason =
  ACCEPTED | MISSING_USERNAME | UNKNOWN_OR_INACTIVE_USER | PASSWORD_NOT_CONFIGURED
| UNSUPPORTED_AUTH_METHOD | BAD_PASSWORD

fun AUTH_REASON :: "auth_reason \<Rightarrow> string" where
  "AUTH_REASON ACCEPTED = ''accepted''"
| "AUTH_REASON MISSING_USERNAME = ''missing_username''"
| "AUTH_REASON UNKNOWN_OR_INACTIVE_USER = ''unknown_or_inactive_user''"
| "AUTH_REASON PASSWORD_NOT_CONFIGURED = ''password_not_configured''"
| "AUTH_REASON UNSUPPORTED_AUTH_METHOD = ''unsupported_auth_method''"
| "AUTH_REASON BAD_PASSWORD = ''bad_password''"

record contract_row =
  ct_plan :: "nat option"
  ct_status :: string
  ct_cleanup_pending :: bool
  ct_test_expires :: "int option"

text \<open>A row of \<open>radius LEFT JOIN contracts\<close>.\<close>

record radius_row =
  rr_username :: string
  rr_password :: "string option"
  rr_ip :: "string option"
  rr_org :: "nat option"
  rr_status :: string
  rr_deleted :: bool
  rr_contract :: "contract_row option"

record subscriber =
  sub_username :: string
  sub_password :: "string option"
  sub_ip :: "string option"
  sub_plan :: "nat option"
  sub_contract_status :: "string option"
  sub_seconds_remaining :: "int option"

type_synonym context_id = "nat option"

record acct_request =
  acctStatusType :: string
  userName :: "string option"
  acctSessionId :: "string option"
  nasIpAddress :: string
  nasPortId :: "string option"
  calledStationId :: "string option"
  callingStationId :: "string option"
  framedIpAddress :: "string option"
  framedIpv6Prefix :: "string option"
  acctInputOctets :: "nat option"
  acctOutputOctets :: "nat option"
  acctInputGigawords :: "nat option"
  acctOutputGigawords :: "nat option"
  acctInputPackets :: "nat option"
  acctOutputPackets :: "nat option"
  acctSessionTime :: "nat option"
  acctTerminateCause :: "nat option"
  eventTimestamp :: "nat option"
  acctDelayTime :: "nat option"
  organizationId :: "nat option"
  nasId :: nat
  sourceIp :: string

record server_env =
  env_md5 :: "buffer \<Rightarrow> buffer"
  env_hmac :: "buffer \<Rightarrow> buffer \<Rightarrow> buffer"
  server_secret :: "string option"
  collation_eq :: "string \<Rightarrow> string \<Rightarrow> bool"
  now_seconds :: int
  week_day :: nat
  day_second :: nat
  radius_query :: "context_id \<Rightarrow> radius_row list result"
  plan_query :: "context_id \<Rightarrow> plan list result"
  window_query :: "context_id \<Rightarrow> speed_window list result"
  ingestAccounting :: "context_id \<Rightarrow> acct_request \<Rightarrow> unit result"
  recordInfrastructureAccounting :: "context_id \<Rightarrow> nat option \<times> nat \<times> string \<times> string \<Rightarrow> unit result"

section \<open>Lookups\<close>

definition tenant_of :: "nas \<Rightarrow> context_id" where
  "tenant_of n = (if d_org n = Some 0 then None else d_org n)"

definition may_authenticate :: "int \<Rightarrow> radius_row \<Rightarrow> bool" where
  "may_authenticate now r \<longleftrightarrow>
     (case rr_contract r of
        None \<Rightarrow> True
      | Some c \<Rightarrow> ct_status c = ''active''
          \<or> (ct_status c = ''pending'' \<and> \<not> ct_cleanup_pending c
             \<and> (case ct_test_expires c of None \<Rightarrow> False | Some t \<Rightarrow> t > now)))"

definition to_subscriber :: "int \<Rightarrow> radius_row \<Rightarrow> subscriber" where
  "to_subscriber now r =
     \<lparr>sub_username = rr_username r, sub_password = rr_password r, sub_ip = rr_ip r,
      sub_plan = (case rr_contract r of None \<Rightarrow> None | Some c \<Rightarrow> ct_plan c),
      sub_contract_status = map_option ct_status (rr_contract r),
      sub_seconds_remaining =
        (case rr_contract r of
           None \<Rightarrow> None
         | Some c \<Rightarrow> if ct_status c = ''pending''
             then map_option (\<lambda>t. max (t - now) 1) (ct_test_expires c) else None)\<rparr>"

definition findSubscriber ::
  "server_env \<Rightarrow> context_id \<Rightarrow> string \<Rightarrow> nat option \<Rightarrow> subscriber option result" where
  "findSubscriber env ctx username org =
     and_then (radius_query env ctx) (\<lambda>rows.
       Inr (map_option (to_subscriber (now_seconds env))
         (find (\<lambda>r. collation_eq env (rr_username r) username \<and> rr_org r = org
                    \<and> \<not> rr_deleted r \<and> rr_status r = ''active''
                    \<and> may_authenticate (now_seconds env) r) rows)))"

definition findPlan :: "server_env \<Rightarrow> context_id \<Rightarrow> nat option \<Rightarrow> plan option result" where
  "findPlan env ctx planId =
     (case planId of
        None \<Rightarrow> Inr None
      | Some i \<Rightarrow> if i = 0 then Inr None
          else and_then (plan_query env ctx) (\<lambda>rows. Inr (find (\<lambda>p. plan_id p = i) rows)))"

definition non_empty :: "string option \<Rightarrow> string option" where
  "non_empty s = (if s = Some [] then None else s)"

definition secretFor :: "string option \<Rightarrow> nas option \<Rightarrow> string option" where
  "secretFor configured n =
     (case n of
        None \<Rightarrow> None
      | Some m \<Rightarrow> (case non_empty (nas_secret m) of
                      Some s \<Rightarrow> Some s | None \<Rightarrow> non_empty configured))"

definition timingSafeStrEqual :: "string \<Rightarrow> string \<Rightarrow> bool" where
  "timingSafeStrEqual a b =
     (let ab = utf8_bytes a; bb = utf8_bytes b in
      if length ab \<noteq> length bb then False else ab = bb)"

definition isIpv4 :: "string option \<Rightarrow> bool" where
  "isIpv4 value =
     (case value of
        None \<Rightarrow> False
      | Some s \<Rightarrow>
          let parts = js_split CHR ''.'' s in
          length parts = 4
          \<and> list_all (\<lambda>p. 1 \<le> length p \<and> length p \<le> 3 \<and> list_all is_digit p
                          \<and> digits_val p \<le> 255) parts)"

section \<open>Reply attributes\<close>

definition buildAcceptAttributes :: "subscriber \<Rightarrow> plan option \<Rightarrow> bool \<Rightarrow> buffer result" where
  "buildAcceptAttributes s p withMessageAuth =
     (let base = encodeIntAttr (ATTR SERVICE_TYPE) 2 @ encodeIntAttr (ATTR FRAMED_PROTOCOL) 1;
          framed = (if isIpv4 (sub_ip s) then encodeFramedIPAddress (the (sub_ip s)) else []);
          timeout = (if sub_contract_status s = Some ''pending'' then
                       (case sub_seconds_remaining s of
                          None \<Rightarrow> []
                        | Some remaining \<Rightarrow>
                            if remaining > 0 \<and> remaining \<le> 9007199254740991
                            then encodeIntAttr (ATTR SESSION_TIMEOUT) (nat remaining) else [])
                     else []);
          ma = (if withMessageAuth then messageAuthenticatorPlaceholder else [])
      in and_then
           (case p of
              None \<Rightarrow> Inr []
            | Some pl \<Rightarrow> encodeNamedAttributes (expandRows (generateAttributes pl)))
           (\<lambda>policy. Inr (base @ framed @ timeout @ policy @ ma)))"

section \<open>Access-Request\<close>

record auth_log =
  log_org :: "nat option"
  log_nas :: nat
  log_username :: string
  log_accept :: bool
  log_nas_ip :: string
  log_calling :: "string option"
  log_reason :: auth_reason

definition persistAuthOutcome ::
  "nas \<Rightarrow> string option \<Rightarrow> string \<Rightarrow> string option \<Rightarrow> bool \<Rightarrow> auth_reason \<Rightarrow> auth_log" where
  "persistAuthOutcome n username ip calling accept reason =
     \<lparr>log_org = d_org n, log_nas = d_id n,
      log_username = (case username of None \<Rightarrow> [] | Some u \<Rightarrow> js_take 64 u),
      log_accept = accept, log_nas_ip = js_take 45 ip,
      log_calling = map_option (js_take 100) calling, log_reason = reason\<rparr>"

datatype 'l handled = Dropped | Replied buffer 'l | Failed string

definition check_password :: "server_env \<Rightarrow> string \<Rightarrow> rad_packet \<Rightarrow> string \<Rightarrow> bool \<times> auth_reason" where
  "check_password env secret pkt password =
     (let verdict = (\<lambda>accept. (accept, if accept then ACCEPTED else BAD_PASSWORD)) in
      case getAttr (pkt_attributes pkt) (ATTR USER_PASSWORD) of
        Some userPw \<Rightarrow>
          verdict (case decodePapPassword (env_md5 env) userPw secret (pkt_authenticator pkt) of
                     None \<Rightarrow> False | Some plain \<Rightarrow> timingSafeStrEqual plain password)
      | None \<Rightarrow>
          (case getAttr (pkt_attributes pkt) (ATTR CHAP_PASSWORD) of
             Some chapPw \<Rightarrow>
               (let challenge = (case getAttr (pkt_attributes pkt) (ATTR CHAP_CHALLENGE) of
                                   Some ch \<Rightarrow> ch | None \<Rightarrow> pkt_authenticator pkt)
                in verdict (verifyChap (env_md5 env) chapPw challenge password))
           | None \<Rightarrow> (False, UNSUPPORTED_AUTH_METHOD)))"

definition check_credentials ::
  "server_env \<Rightarrow> nas \<Rightarrow> string \<Rightarrow> rad_packet \<Rightarrow> (subscriber option \<times> bool \<times> auth_reason) result" where
  "check_credentials env n secret pkt =
     (case non_empty (getString (pkt_attributes pkt) (ATTR USER_NAME)) of
        None \<Rightarrow> Inr (None, False, MISSING_USERNAME)
      | Some username \<Rightarrow>
          and_then (findSubscriber env (tenant_of n) username (d_org n)) (\<lambda>found.
            case found of
              None \<Rightarrow> Inr (None, False, UNKNOWN_OR_INACTIVE_USER)
            | Some s \<Rightarrow>
                (case non_empty (sub_password s) of
                   None \<Rightarrow> Inr (Some s, False, PASSWORD_NOT_CONFIGURED)
                 | Some password \<Rightarrow> Inr (Some s, check_password env secret pkt password))))"

text \<open>The plan in force: the window lookup runs outside the NAS's tenant context, and its
  failure leaves the plan as it is.\<close>

definition effective_plan :: "server_env \<Rightarrow> plan option \<Rightarrow> plan option" where
  "effective_plan env p =
     (case p of
        None \<Rightarrow> None
      | Some pl \<Rightarrow>
          (case window_query env None of
             Inl _ \<Rightarrow> Some pl
           | Inr rows \<Rightarrow>
               (case getActiveWindow rows (plan_id pl) (week_day env) (day_second env) of
                  None \<Rightarrow> Some pl | Some w \<Rightarrow> Some (windowEffectivePlan pl w))))"

definition accept_attributes :: "server_env \<Rightarrow> nas \<Rightarrow> subscriber \<Rightarrow> bool \<Rightarrow> buffer result" where
  "accept_attributes env n s withMessageAuth =
     and_then (findPlan env (tenant_of n) (sub_plan s)) (\<lambda>p.
       buildAcceptAttributes s (effective_plan env p) withMessageAuth)"

definition reject_attributes :: "bool \<Rightarrow> buffer result" where
  "reject_attributes withMessageAuth =
     and_then (encodeAttributes [TlvText (ATTR REPLY_MESSAGE) ''Access denied'']) (\<lambda>part.
       Inr (part @ (if withMessageAuth then messageAuthenticatorPlaceholder else [])))"

definition signed_packet ::
  "server_env \<Rightarrow> nat \<Rightarrow> rad_packet \<Rightarrow> string \<Rightarrow> bool \<Rightarrow> buffer \<Rightarrow> buffer result" where
  "signed_packet env cod pkt secret withMessageAuth attrsBuf =
     and_then (buildRadiusPacket cod (pkt_identifier pkt) (replicate 16 0) attrsBuf) (\<lambda>packet.
       signResponse (env_md5 env) (env_hmac env) packet (pkt_authenticator pkt) secret withMessageAuth)"

definition answer_auth ::
  "server_env \<Rightarrow> string \<Rightarrow> nas \<Rightarrow> string \<Rightarrow> rad_packet \<Rightarrow> counters \<Rightarrow> counters \<times> auth_log handled" where
  "answer_auth env address n secret pkt c =
     (let withMessageAuth = (getAttr (pkt_attributes pkt) (ATTR MESSAGE_AUTHENTICATOR) \<noteq> None);
          username = getString (pkt_attributes pkt) (ATTR USER_NAME);
          nasIp = (case getIp (pkt_attributes pkt) (ATTR NAS_IP_ADDRESS) of Some ip \<Rightarrow> ip | None \<Rightarrow> address);
          calling = getString (pkt_attributes pkt) (ATTR CALLING_STATION_ID)
      in case check_credentials env n secret pkt of
           Inl e \<Rightarrow> (c, Failed e)
         | Inr (s, accept, reason) \<Rightarrow>
             (let c' = (if accept then c\<lparr>accepts := accepts c + 1\<rparr> else c\<lparr>rejects := rejects c + 1\<rparr>);
                  reply =
                    (if accept
                     then and_then (accept_attributes env n (the s) withMessageAuth)
                            (signed_packet env ACCESS_ACCEPT pkt secret withMessageAuth)
                     else and_then (reject_attributes withMessageAuth)
                            (signed_packet env ACCESS_REJECT pkt secret withMessageAuth))
              in case reply of
                   Inl e \<Rightarrow> (c', Failed e)
                 | Inr packet \<Rightarrow>
                     (c', Replied packet (persistAuthOutcome n username nasIp calling accept reason))))"

definition handleAuth ::
  "('s \<Rightarrow> string \<Rightarrow> 's \<times> nas option result) \<Rightarrow> server_env \<Rightarrow> buffer \<Rightarrow> string
     \<Rightarrow> 's \<times> counters \<Rightarrow> ('s \<times> counters) \<times> auth_log handled" where
  "handleAuth findNasByIp env msg address sc =
     (let (s, c0) = sc; c = c0\<lparr>authRequests := authRequests c0 + 1\<rparr>;
          dropped = c\<lparr>authDropped := authDropped c + 1\<rparr>
      in case decodePacket msg of
           Inl _ \<Rightarrow> ((s, dropped), Dropped)
         | Inr pkt \<Rightarrow>
             if pkt_code pkt \<noteq> ACCESS_REQUEST then ((s, dropped), Dropped)
             else let (s', found) = findNasByIp s address in
               (case found of
                  Inl e \<Rightarrow> ((s', c), Failed e)
                | Inr nas \<Rightarrow>
                    (case secretFor (server_secret env) nas of
                       None \<Rightarrow> ((s', dropped), Dropped)
                     | Some secret \<Rightarrow>
                         (case verifyMessageAuthenticator (env_hmac env) (pkt_raw pkt)
                                 (pkt_attributes pkt) secret of
                            Inl e \<Rightarrow> ((s', c), Failed e)
                          | Inr False \<Rightarrow> ((s', dropped), Dropped)
                          | Inr True \<Rightarrow>
                              (let (c', r) = answer_auth env address (the nas) secret pkt c
                               in ((s', c'), r))))))"

section \<open>Accounting-Request\<close>

definition acct_fields :: "string \<Rightarrow> nas \<Rightarrow> rad_packet \<Rightarrow> string \<Rightarrow> acct_request result" where
  "acct_fields address n pkt status =
     (let attrs = pkt_attributes pkt; int = (\<lambda>a. getInt attrs (ATTR a)); str = (\<lambda>a. getString attrs (ATTR a)) in
      and_then (getIpv6Prefix attrs) (\<lambda>prefix.
        Inr \<lparr>acctStatusType = status, userName = str USER_NAME, acctSessionId = str ACCT_SESSION_ID,
             nasIpAddress = (case getIp attrs (ATTR NAS_IP_ADDRESS) of Some ip \<Rightarrow> ip | None \<Rightarrow> address),
             nasPortId = str NAS_PORT_ID, calledStationId = str CALLED_STATION_ID,
             callingStationId = str CALLING_STATION_ID,
             framedIpAddress = getIp attrs (ATTR FRAMED_IP_ADDRESS), framedIpv6Prefix = prefix,
             acctInputOctets = int ACCT_INPUT_OCTETS, acctOutputOctets = int ACCT_OUTPUT_OCTETS,
             acctInputGigawords = int ACCT_INPUT_GIGAWORDS,
             acctOutputGigawords = int ACCT_OUTPUT_GIGAWORDS,
             acctInputPackets = int ACCT_INPUT_PACKETS, acctOutputPackets = int ACCT_OUTPUT_PACKETS,
             acctSessionTime = int ACCT_SESSION_TIME,
             acctTerminateCause = int ACCT_TERMINATE_CAUSE, eventTimestamp = int EVENT_TIMESTAMP,
             acctDelayTime = int ACCT_DELAY_TIME, organizationId = d_org n, nasId = d_id n,
             sourceIp = address\<rparr>))"

definition ingest :: "server_env \<Rightarrow> string \<Rightarrow> nas \<Rightarrow> rad_packet \<Rightarrow> string \<Rightarrow> unit result" where
  "ingest env address n pkt status =
     (if \<not> (status = ''Accounting-On'' \<or> status = ''Accounting-Off'')
      then and_then (acct_fields address n pkt status) (ingestAccounting env (tenant_of n))
      else recordInfrastructureAccounting env (tenant_of n) (d_org n, d_id n, status, address))"

definition handleAcct ::
  "('s \<Rightarrow> string \<Rightarrow> 's \<times> nas option result) \<Rightarrow> server_env \<Rightarrow> buffer \<Rightarrow> string
     \<Rightarrow> 's \<times> counters \<Rightarrow> ('s \<times> counters) \<times> unit handled" where
  "handleAcct findNasByIp env msg address sc =
     (let (s, c0) = sc; c = c0\<lparr>acctRequests := acctRequests c0 + 1\<rparr>;
          dropped = c\<lparr>acctDropped := acctDropped c + 1\<rparr>;
          ingested = c\<lparr>acctIngested := acctIngested c + 1\<rparr>
      in case decodePacket msg of
           Inl _ \<Rightarrow> ((s, dropped), Dropped)
         | Inr pkt \<Rightarrow>
             if pkt_code pkt \<noteq> ACCOUNTING_REQUEST then ((s, dropped), Dropped)
             else let (s', found) = findNasByIp s address in
               (case found of
                  Inl e \<Rightarrow> ((s', c), Failed e)
                | Inr nas \<Rightarrow>
                    (case secretFor (server_secret env) nas of
                       None \<Rightarrow> ((s', dropped), Dropped)
                     | Some secret \<Rightarrow>
                         (case computeRequestAuthenticator (env_md5 env) (pkt_raw pkt) secret of
                            Inl e \<Rightarrow> ((s', c), Failed e)
                          | Inr expected \<Rightarrow>
                              if expected \<noteq> pkt_authenticator pkt then ((s', dropped), Dropped)
                              else
                                (case Option.bind (getInt (pkt_attributes pkt) (ATTR ACCT_STATUS_TYPE))
                                        ACCT_STATUS of
                                   None \<Rightarrow> ((s', dropped), Dropped)
                                 | Some status \<Rightarrow>
                                     (case ingest env address (the nas) pkt status of
                                        Inl _ \<Rightarrow> ((s', dropped), Dropped)
                                      | Inr _ \<Rightarrow>
                                          (case signed_packet env ACCOUNTING_RESPONSE pkt secret False [] of
                                             Inl e \<Rightarrow> ((s', ingested), Failed e)
                                           | Inr packet \<Rightarrow> ((s', ingested), Replied packet ()))))))))"

end
