(* ===== verification/RadiusReplies.thy ===== *)
theory RadiusReplies
  imports RadiusServer
begin

text \<open>
  The lemmas behind the properties of the embedded RADIUS server: the attributes of its replies as
  streams, the signatures of its packets, inversion of an answered request, and the conditions
  under which no step of an answer can throw.
\<close>

section \<open>Streams of attributes\<close>

definition no_ma :: "rad_attr list \<Rightarrow> bool" where
  "no_ma attrs \<longleftrightarrow> (\<forall>a\<in>set attrs. tlv_ok a \<and> attr_type a \<noteq> 80)"

lemma no_ma_append [simp]: "no_ma (as @ bs) \<longleftrightarrow> no_ma as \<and> no_ma bs"
  by (auto simp: no_ma_def)

lemma no_ma_simps [simp]:
  "no_ma []" "no_ma (a # as) \<longleftrightarrow> tlv_ok a \<and> attr_type a \<noteq> 80 \<and> no_ma as"
  by (auto simp: no_ma_def)

lemma encodeIntAttr_tlv:
  "encodeIntAttr ty value = tlv_enc \<lparr>attr_type = ty, attr_value = be32 (value mod 4294967296)\<rparr>"
  by (simp add: encodeIntAttr_def tlv_enc_def)

definition framed_attr :: "string \<Rightarrow> rad_attr" where
  "framed_attr s = \<lparr>attr_type = 8, attr_value = drop 2 (encodeFramedIPAddress s)\<rparr>"

lemma encodeFramedIPAddress_tlv: "encodeFramedIPAddress s = tlv_enc (framed_attr s)"
  by (simp add: framed_attr_def encodeFramedIPAddress_def Let_def tlv_enc_def)

lemma encodeVSA_tlv:
  assumes "encodeVSA vid vt v = Inr b"
  shows "b = tlv_enc \<lparr>attr_type = 26, attr_value = drop 2 b\<rparr>" and "length b = 8 + length v"
    and "length v \<le> 247"
  using assms by (auto simp: encodeVSA_def Let_def tlv_enc_def split: if_splits)

section \<open>The policy attributes of a plan\<close>

definition policy_names :: "string set" where
  "policy_names = {''Mikrotik-Rate-Limit'', ''Cisco-AVPair'', ''ERX-Qos-Profile-Name'',
     ''ERX-Input-Gigapkts'', ''WISPr-Bandwidth-Max-Down'', ''WISPr-Bandwidth-Max-Up''}"

definition vsa_only :: "rad_attr list \<Rightarrow> bool" where
  "vsa_only attrs \<longleftrightarrow> (\<forall>a\<in>set attrs. tlv_ok a \<and> attr_type a = 26)"

lemma vsa_no_ma: "vsa_only attrs \<Longrightarrow> no_ma attrs"
  by (auto simp: vsa_only_def no_ma_def)

lemma policy_encoder_tlv:
  assumes "name \<in> policy_names" and "NAMED_ENCODERS name = Some enc" and "enc v = Inr b"
  shows "\<exists>a. b = tlv_enc a \<and> tlv_ok a \<and> attr_type a = 26"
proof -
  have "\<exists>vid vt w. encodeVSA vid vt w = Inr b"
    using assms
    by (auto simp: policy_names_def NAMED_ENCODERS_def encodeMikrotikRateLimit_def
        encodeCiscoAvPair_def encodeWisprBandwidth_def) blast+
  then obtain vid vt w where "encodeVSA vid vt w = Inr b" by blast
  from encodeVSA_tlv [OF this] show ?thesis
    by (intro exI [of _ "\<lparr>attr_type = 26, attr_value = drop 2 b\<rparr>"]) (simp add: tlv_ok_def)
qed

lemma named_attributes_tlv:
  assumes "encodeNamedAttributes rows = Inr b" and "\<forall>(name, v)\<in>set rows. name \<in> policy_names"
  shows "\<exists>attrs. b = concat (map tlv_enc attrs) \<and> vsa_only attrs \<and> length attrs \<le> length rows"
  using assms
proof (induction rows arbitrary: b)
  case Nil
  then show ?case by (auto simp: vsa_only_def)
next
  case (Cons row rows)
  obtain name v where row: "row = (name, v)" by force
  show ?case
  proof (cases "NAMED_ENCODERS name")
    case None
    with Cons obtain attrs where "b = concat (map tlv_enc attrs)" "vsa_only attrs"
      "length attrs \<le> length rows"
      by (auto simp: row)
    then show ?thesis by auto
  next
    case (Some enc)
    then obtain b1 b2 where b: "enc v = Inr b1" "encodeNamedAttributes rows = Inr b2" "b = b1 @ b2"
      using Cons.prems(1) by (auto simp: row and_then_Ok_iff)
    obtain a where "b1 = tlv_enc a" "tlv_ok a" "attr_type a = 26"
      using policy_encoder_tlv [OF _ Some b(1)] Cons.prems(2) by (auto simp: row)
    moreover obtain attrs where "b2 = concat (map tlv_enc attrs)" "vsa_only attrs"
      "length attrs \<le> length rows"
      using Cons.IH [OF b(2)] Cons.prems(2) by auto
    ultimately show ?thesis
      by (intro exI [of _ "a # attrs"]) (simp add: b vsa_only_def)
  qed
qed

lemma policy_rows:
  "(\<forall>(name, v)\<in>set (expandRows (generateAttributes p)). name \<in> policy_names)
   \<and> length (expandRows (generateAttributes p)) \<le> 2"
  by (auto simp: expandRows_def generateAttributes_def Let_def policy_names_def
      generateMikrotikAttributes_def generateCiscoAttributes_def generateJuniperAttributes_def
      generateGenericAttributes_def split: option.splits vendor.splits)

lemma tlv_enc_length: "tlv_ok a \<Longrightarrow> length (tlv_enc a) \<le> 255"
  by (simp add: tlv_enc_def tlv_ok_def)

lemma stream_length: "no_ma attrs \<Longrightarrow> length (concat (map tlv_enc attrs)) \<le> 255 * length attrs"
proof (induction attrs)
  case (Cons a attrs)
  then show ?case using tlv_enc_length [of a] by simp
qed simp

section \<open>The attributes of an Access-Accept\<close>

definition timeout_attrs :: "subscriber \<Rightarrow> rad_attr list" where
  "timeout_attrs s =
     (if sub_contract_status s = Some ''pending'' then
        (case sub_seconds_remaining s of
           None \<Rightarrow> []
         | Some remaining \<Rightarrow>
             if remaining > 0 \<and> remaining \<le> 9007199254740991
             then [\<lparr>attr_type = 27, attr_value = be32 (nat remaining mod 4294967296)\<rparr>] else [])
      else [])"

definition accept_prefix :: "subscriber \<Rightarrow> rad_attr list" where
  "accept_prefix s =
     [\<lparr>attr_type = 6, attr_value = be32 2\<rparr>, \<lparr>attr_type = 7, attr_value = be32 1\<rparr>]
     @ (if isIpv4 (sub_ip s) then [framed_attr (the (sub_ip s))] else []) @ timeout_attrs s"

lemma timeout_attrs_ok: "no_ma (timeout_attrs s) \<and> length (timeout_attrs s) \<le> 1"
  by (simp add: timeout_attrs_def tlv_ok_def split: option.split)

lemma framed_attr_ok: "tlv_ok (framed_attr s)" "attr_type (framed_attr s) = 8"
  by (simp_all add: framed_attr_def tlv_ok_def encodeFramedIPAddress_def Let_def)

lemma accept_prefix_ok: "no_ma (accept_prefix s)" "length (accept_prefix s) \<le> 4"
  using timeout_attrs_ok [of s]
  by (simp_all add: accept_prefix_def framed_attr_ok) (simp add: tlv_ok_def)

lemma timeout_attrs_enc:
  "concat (map tlv_enc (timeout_attrs s)) =
     (if sub_contract_status s = Some ''pending'' then
        (case sub_seconds_remaining s of
           None \<Rightarrow> []
         | Some remaining \<Rightarrow>
             if remaining > 0 \<and> remaining \<le> 9007199254740991
             then encodeIntAttr 27 (nat remaining) else [])
      else [])"
  by (cases "sub_seconds_remaining s") (auto simp: timeout_attrs_def encodeIntAttr_tlv)

lemma buildAcceptAttributes_eq:
  "buildAcceptAttributes s p withMA =
     and_then
       (case p of None \<Rightarrow> Inr []
        | Some pl \<Rightarrow> encodeNamedAttributes (expandRows (generateAttributes pl)))
       (\<lambda>policy. Inr (concat (map tlv_enc (accept_prefix s)) @ policy
          @ (if withMA then messageAuthenticatorPlaceholder else [])))"
  by (cases "sub_seconds_remaining s")
    (simp_all add: buildAcceptAttributes_def accept_prefix_def timeout_attrs_enc Let_def
      encodeIntAttr_tlv encodeFramedIPAddress_tlv)

lemma accept_attributes_shape:
  assumes "buildAcceptAttributes s p withMA = Inr b"
  shows "\<exists>policy. vsa_only policy \<and> length policy \<le> 2
     \<and> b = concat (map tlv_enc (accept_prefix s @ policy))
           @ (if withMA then messageAuthenticatorPlaceholder else [])"
proof (cases p)
  case None
  with assms show ?thesis
    by (intro exI [of _ "[]"]) (simp add: buildAcceptAttributes_eq vsa_only_def)
next
  case (Some pl)
  then obtain bs where bs: "encodeNamedAttributes (expandRows (generateAttributes pl)) = Inr bs"
    and b: "b = concat (map tlv_enc (accept_prefix s)) @ bs
                @ (if withMA then messageAuthenticatorPlaceholder else [])"
    using assms by (auto simp: buildAcceptAttributes_eq and_then_Ok_iff)
  obtain policy where "bs = concat (map tlv_enc policy)" "vsa_only policy" "length policy \<le> 2"
    using named_attributes_tlv [OF bs] policy_rows [of pl] by fastforce
  then show ?thesis by (intro exI [of _ policy]) (simp add: b)
qed

section \<open>Signed packets\<close>

lemma plain_reply_signed:
  assumes md5: "\<forall>x. length (md5 x) = 16"
    and ids: "cod < 256" "ident < 256" and ra: "length ra = 16"
    and attrs: "\<forall>a\<in>set attrs. tlv_ok a" and fits: "length (concat (map tlv_enc attrs)) \<le> 65515"
  shows "\<exists>packet signed p.
     buildRadiusPacket cod ident (replicate 16 0) (concat (map tlv_enc attrs)) = Inr packet
     \<and> signResponse md5 hmac packet ra secret False = Inr signed
     \<and> decodePacket signed = Inr p \<and> pkt_code p = cod \<and> pkt_identifier p = ident
     \<and> pkt_attributes p = attrs
     \<and> pkt_authenticator p = md5 (buf_copy ra signed 4 @ utf8_bytes secret)"
proof -
  let ?body = "concat (map tlv_enc attrs)"
  let ?hd = "[of_nat cod, of_nat ident] @ be16 (20 + length ?body)"
  let ?z = "replicate 16 0 :: buffer"
  let ?auth = "md5 ((?hd @ ra @ ?body) @ utf8_bytes secret)"
  have at4: "buf_copy b (?hd @ a @ ?body) 4 = ?hd @ b @ ?body" if "length a = 16" "length b = 16" for a b
    using that by (intro buf_copy_exact) simp_all
  have "buildRadiusPacket cod ident ?z ?body = Inr (?hd @ ?z @ ?body)"
    using fits buildRadiusPacket_shape [of ?z ?body cod ident] by simp
  moreover have "signResponse md5 hmac (?hd @ ?z @ ?body) ra secret False = Inr (?hd @ ?auth @ ?body)"
    using at4 [of ?z ra] at4 [of ra ?auth] ra md5 by (simp add: signResponse_def Let_def)
  moreover have "buf_copy ra (?hd @ ?auth @ ?body) 4 = ?hd @ ra @ ?body"
    using at4 ra md5 by simp
  ultimately show ?thesis
    using decodePacket_shape [OF ids, of ?auth attrs] md5 attrs fits by simp
qed

text \<open>What a NAS can check of a reply: it decodes, it echoes the identifier, its authenticators
  are those of RFC 2865 and RFC 2869 for the request's authenticator.\<close>

definition reply_checks ::
  "(buffer \<Rightarrow> buffer) \<Rightarrow> (buffer \<Rightarrow> buffer \<Rightarrow> buffer) \<Rightarrow> rad_packet \<Rightarrow> string \<Rightarrow> buffer \<Rightarrow> rad_packet \<Rightarrow> bool" where
  "reply_checks md5 hmac request secret reply p \<longleftrightarrow>
     decodePacket reply = Inr p \<and> pkt_identifier p = pkt_identifier request
     \<and> pkt_authenticator p = md5 (buf_copy (pkt_authenticator request) reply 4 @ utf8_bytes secret)
     \<and> (getAttr (pkt_attributes request) 80 = None
        \<or> getAttr (pkt_attributes p) 80 \<noteq> None
          \<and> verifyMessageAuthenticator hmac (buf_copy (pkt_authenticator request) reply 4)
               (pkt_attributes p) secret = Inr True)"

lemma signed_packet_checks:
  assumes digests: "\<forall>x. length (env_md5 env x) = 16" "\<forall>k x. length (env_hmac env k x) = 16"
    and req: "decodePacket msg = Inr req" and cod: "cod < 256"
    and attrs: "no_ma attrs" and few: "length attrs \<le> 6"
    and ma: "withMA \<longleftrightarrow> getAttr (pkt_attributes req) 80 \<noteq> None"
  shows "\<exists>reply p attrs'.
     signed_packet env cod req secret withMA
       (concat (map tlv_enc attrs) @ (if withMA then messageAuthenticatorPlaceholder else [])) = Inr reply
     \<and> reply_checks (env_md5 env) (env_hmac env) req secret reply p
     \<and> pkt_code p = cod \<and> pkt_attributes p = attrs @ attrs' \<and> (\<forall>a\<in>set attrs'. attr_type a = 80)"
proof -
  note p = decodePacket_Ok [OF req]
  have "20 \<le> length msg" using p(1,2) by simp
  then have ra: "length (pkt_authenticator req) = 16" and ident: "pkt_identifier req < 256"
    using p(3) by simp_all
  have ok: "\<forall>a\<in>set attrs. tlv_ok a" using attrs by (simp add: no_ma_def)
  have small: "length (concat (map tlv_enc attrs)) \<le> 1530"
    using stream_length [OF attrs] few by simp
  show ?thesis
  proof (cases withMA)
    case True
    have bounds: "\<forall>a\<in>set attrs. attr_type a < 256 \<and> length (attr_value a) \<le> 253 \<and> attr_type a \<noteq> 80"
      using attrs by (auto simp: no_ma_def tlv_ok_def)
    obtain packet signed mac p where
      "buildRadiusPacket cod (pkt_identifier req) (replicate 16 0)
         (concat (map tlv_enc attrs) @ messageAuthenticatorPlaceholder) = Inr packet"
      "signResponse (env_md5 env) (env_hmac env) packet (pkt_authenticator req) secret True = Inr signed"
      "decodePacket signed = Inr p" "pkt_code p = cod" "pkt_identifier p = pkt_identifier req"
      "pkt_attributes p = attrs @ [\<lparr>attr_type = 80, attr_value = mac\<rparr>]"
      "pkt_authenticator p = env_md5 env (buf_copy (pkt_authenticator req) signed 4 @ utf8_bytes secret)"
      "verifyMessageAuthenticator (env_hmac env) (buf_copy (pkt_authenticator req) signed 4)
         (pkt_attributes p) secret = Inr True"
      using signed_reply [OF digests cod ident ra bounds] small by force
    moreover have "getAttr (attrs @ [\<lparr>attr_type = 80, attr_value = mac\<rparr>]) 80 = Some mac"
      using bounds by (intro getAttr_append_new) simp
    ultimately show ?thesis
      using True by (intro exI) (auto simp: signed_packet_def reply_checks_def)
  next
    case False
    obtain packet signed p where
      "buildRadiusPacket cod (pkt_identifier req) (replicate 16 0) (concat (map tlv_enc attrs)) = Inr packet"
      "signResponse (env_md5 env) (env_hmac env) packet (pkt_authenticator req) secret False = Inr signed"
      "decodePacket signed = Inr p" "pkt_code p = cod" "pkt_identifier p = pkt_identifier req"
      "pkt_attributes p = attrs"
      "pkt_authenticator p = env_md5 env (buf_copy (pkt_authenticator req) signed 4 @ utf8_bytes secret)"
      using plain_reply_signed [OF digests(1) cod ident ra ok, of "env_hmac env"] small by force
    then show ?thesis
      using False ma by (intro exI [of _ signed] exI [of _ p] exI [of _ "[]"])
        (auto simp: signed_packet_def reply_checks_def)
  qed
qed
section \<open>Who is accepted\<close>

definition pap_matches :: "server_env \<Rightarrow> string \<Rightarrow> rad_packet \<Rightarrow> buffer \<Rightarrow> string \<Rightarrow> bool" where
  "pap_matches env secret req enc password \<longleftrightarrow>
     enc \<noteq> [] \<and> length enc mod 16 = 0
     \<and> utf8_text (strip_nuls (pap_decode_blocks (env_md5 env) (utf8_bytes secret)
           (pkt_authenticator req) enc)) = password"

definition chap_matches :: "server_env \<Rightarrow> rad_packet \<Rightarrow> buffer \<Rightarrow> string \<Rightarrow> bool" where
  "chap_matches env req chap password \<longleftrightarrow>
     17 \<le> length chap
     \<and> subarray chap 1 17 = env_md5 env (chap ! 0 # utf8_bytes password
         @ (case getAttr (pkt_attributes req) 60 of Some ch \<Rightarrow> ch | None \<Rightarrow> pkt_authenticator req))"

definition credentials_match :: "server_env \<Rightarrow> string \<Rightarrow> rad_packet \<Rightarrow> string \<Rightarrow> bool" where
  "credentials_match env secret req password \<longleftrightarrow>
     (case (getAttr (pkt_attributes req) 2, getAttr (pkt_attributes req) 3) of
        (Some enc, _) \<Rightarrow> pap_matches env secret req enc password
      | (None, Some chap) \<Rightarrow> chap_matches env req chap password
      | (None, None) \<Rightarrow> False)"

lemma timingSafeStrEqual_iff [simp]: "timingSafeStrEqual a b \<longleftrightarrow> a = b"
  by (auto simp: timingSafeStrEqual_def Let_def)

lemma check_password_iff: "fst (check_password env secret req password) \<longleftrightarrow> credentials_match env secret req password"
  by (auto simp: check_password_def credentials_match_def pap_matches_def chap_matches_def
      decodePapPassword_def verifyChap_def Let_def simp del: length_subarray split: option.splits)

lemma check_password_reason: "snd (check_password env secret req password) = ACCEPTED
    \<longleftrightarrow> credentials_match env secret req password"
  by (auto simp: check_password_iff [symmetric] check_password_def Let_def split: option.splits)

lemma secretFor_Some:
  "secretFor configured found = Some secret \<Longrightarrow> secret \<noteq> [] \<and> (\<exists>n. found = Some n)"
  by (auto simp: secretFor_def non_empty_def split: option.splits if_splits)

text \<open>The subscriber row an authenticated request was matched with.\<close>

definition row_matches :: "server_env \<Rightarrow> nas \<Rightarrow> string \<Rightarrow> radius_row \<Rightarrow> bool" where
  "row_matches env n user r \<longleftrightarrow>
     collation_eq env (rr_username r) user \<and> rr_org r = d_org n \<and> \<not> rr_deleted r
     \<and> rr_status r = ''active'' \<and> may_authenticate (now_seconds env) r
     \<and> (\<exists>rows. radius_query env (tenant_of n) = Inr rows \<and> r \<in> set rows)"

lemma findSubscriber_row:
  "findSubscriber env (tenant_of n) user (d_org n) = Inr (Some s) \<Longrightarrow>
   \<exists>r. row_matches env n user r \<and> s = to_subscriber (now_seconds env) r"
  by (auto simp: findSubscriber_def row_matches_def and_then_Ok_iff find_Some_iff)

lemma check_credentials_accept:
  assumes "check_credentials env n secret req = Inr (s, True, reason)"
  shows "reason = ACCEPTED \<and> (\<exists>user r pw.
      getString (pkt_attributes req) 1 = Some user \<and> user \<noteq> []
      \<and> row_matches env n user r \<and> s = Some (to_subscriber (now_seconds env) r)
      \<and> rr_password r = Some pw \<and> pw \<noteq> [] \<and> credentials_match env secret req pw)"
proof -
  obtain user where user: "non_empty (getString (pkt_attributes req) 1) = Some user"
    using assms by (auto simp: check_credentials_def split: option.splits)
  obtain sub pw where found: "findSubscriber env (tenant_of n) user (d_org n) = Inr (Some sub)"
    and pw: "non_empty (sub_password sub) = Some pw"
    and chk: "check_password env secret req pw = (True, reason)" and s: "s = Some sub"
    using assms user
    by (auto simp: check_credentials_def and_then_Ok_iff split: option.splits)
  obtain r where r: "row_matches env n user r" "sub = to_subscriber (now_seconds env) r"
    using findSubscriber_row [OF found] by blast
  have "credentials_match env secret req pw"
    using chk check_password_iff [of env secret req pw] by simp
  moreover have "reason = ACCEPTED"
    using chk check_password_reason [of env secret req pw] \<open>credentials_match env secret req pw\<close> by simp
  ultimately show ?thesis
    using user pw r s by (auto simp: non_empty_def to_subscriber_def split: if_splits)
qed

lemma handleAuth_Replied:
  assumes "handleAuth dir env msg addr (s, c) = ((s', c'), Replied reply entry)"
  obtains req n secret where "decodePacket msg = Inr req" and "pkt_code req = ACCESS_REQUEST"
    and "dir s addr = (s', Inr (Some n))" and "secretFor (server_secret env) (Some n) = Some secret"
    and "verifyMessageAuthenticator (env_hmac env) (pkt_raw req) (pkt_attributes req) secret = Inr True"
    and "answer_auth env addr n secret req (c\<lparr>authRequests := authRequests c + 1\<rparr>) = (c', Replied reply entry)"
proof -
  obtain req where req: "decodePacket msg = Inr req" "pkt_code req = ACCESS_REQUEST"
    using assms by (auto simp: handleAuth_def Let_def split: sum.splits if_splits)
  obtain t found where f: "dir s addr = (t, found)" by force
  obtain m where m: "found = Inr m"
    using assms req f by (cases found) (auto simp: handleAuth_def Let_def)
  obtain secret where secret: "secretFor (server_secret env) m = Some secret"
    using assms req f m by (cases "secretFor (server_secret env) m") (auto simp: handleAuth_def Let_def)
  then obtain n where n: "m = Some n" using secretFor_Some by blast
  let ?v = "verifyMessageAuthenticator (env_hmac env) (pkt_raw req) (pkt_attributes req) secret"
  have v: "?v = Inr True"
    using assms req f m secret
    by (cases ?v) (auto simp: handleAuth_def Let_def split: bool.splits)
  show thesis
    using assms req f m secret n v that
    by (auto simp: handleAuth_def Let_def split: prod.splits)
qed

lemma answer_auth_Replied:
  assumes "answer_auth env addr n secret req c = (c', Replied reply entry)"
  obtains s accept reason attrs where "check_credentials env n secret req = Inr (s, accept, reason)"
    and "log_accept entry = accept" and "log_reason entry = reason" and "log_nas entry = d_id n"
    and "(if accept then accept_attributes env n (the s) (getAttr (pkt_attributes req) 80 \<noteq> None)
          else reject_attributes (getAttr (pkt_attributes req) 80 \<noteq> None)) = Inr attrs"
    and "signed_packet env (if accept then ACCESS_ACCEPT else ACCESS_REJECT) req secret
           (getAttr (pkt_attributes req) 80 \<noteq> None) attrs = Inr reply"
    and "c' = (if accept then c\<lparr>accepts := accepts c + 1\<rparr> else c\<lparr>rejects := rejects c + 1\<rparr>)"
proof -
  obtain s accept reason where a: "check_credentials env n secret req = Inr (s, accept, reason)"
    using assms by (cases "check_credentials env n secret req") (auto simp: answer_auth_def Let_def)
  then show thesis
    using assms that
    by (cases accept)
      (auto simp: answer_auth_def Let_def persistAuthOutcome_def and_then_Ok_iff split: sum.splits)
qed

section \<open>Replies can be checked\<close>

lemma access_deny_part:
  "reject_attributes withMA = Inr (concat (map tlv_enc
       [\<lparr>attr_type = 18, attr_value = utf8_bytes ''Access denied''\<rparr>])
     @ (if withMA then messageAuthenticatorPlaceholder else []))"
  by (simp add: reject_attributes_def encodeAttributes_def tlv_item_def tlv_enc_def)

lemma reply_attributes_shape:
  assumes "(if accept then accept_attributes env n s withMA else reject_attributes withMA) = Inr attrs"
  shows "\<exists>as. no_ma as \<and> length as \<le> 6
     \<and> attrs = concat (map tlv_enc as) @ (if withMA then messageAuthenticatorPlaceholder else [])
     \<and> (accept \<longrightarrow> (\<exists>policy. as = accept_prefix s @ policy \<and> vsa_only policy))"
proof (cases accept)
  case True
  then obtain p where "buildAcceptAttributes s p withMA = Inr attrs"
    using assms by (auto simp: accept_attributes_def and_then_Ok_iff)
  from accept_attributes_shape [OF this] obtain policy where
    policy: "vsa_only policy" "length policy \<le> 2"
      "attrs = concat (map tlv_enc (accept_prefix s @ policy))
           @ (if withMA then messageAuthenticatorPlaceholder else [])"
    by blast
  then show ?thesis
    using accept_prefix_ok [of s] vsa_no_ma [OF policy(1)]
    by (intro exI [of _ "accept_prefix s @ policy"]) auto
next
  case False
  then show ?thesis
    using assms
    by (intro exI [of _ "[\<lparr>attr_type = 18, attr_value = utf8_bytes ''Access denied''\<rparr>]"])
      (simp add: access_deny_part tlv_ok_def)
qed

lemma reply_signs:
  assumes digests: "\<forall>x. length (env_md5 env x) = 16" "\<forall>k x. length (env_hmac env k x) = 16"
    and req: "decodePacket msg = Inr req"
    and attrs: "(if accept then accept_attributes env n s (getAttr (pkt_attributes req) 80 \<noteq> None)
          else reject_attributes (getAttr (pkt_attributes req) 80 \<noteq> None)) = Inr attrs"
  shows "\<exists>reply p. signed_packet env (if accept then ACCESS_ACCEPT else ACCESS_REJECT) req secret
           (getAttr (pkt_attributes req) 80 \<noteq> None) attrs = Inr reply
     \<and> reply_checks (env_md5 env) (env_hmac env) req secret reply p
     \<and> pkt_code p = (if accept then ACCESS_ACCEPT else ACCESS_REJECT)
     \<and> (accept \<longrightarrow> (\<exists>others. pkt_attributes p = accept_prefix s @ others
          \<and> (\<forall>a\<in>set others. attr_type a = 26 \<or> attr_type a = 80)))"
proof -
  obtain as where as: "no_ma as" "length as \<le> 6"
    "attrs = concat (map tlv_enc as) @ (if getAttr (pkt_attributes req) 80 \<noteq> None
        then messageAuthenticatorPlaceholder else [])"
    "accept \<longrightarrow> (\<exists>policy. as = accept_prefix s @ policy \<and> vsa_only policy)"
    using reply_attributes_shape [OF attrs] by blast
  have "(if accept then ACCESS_ACCEPT else ACCESS_REJECT) < 256"
    by (simp add: code_defs)
  from signed_packet_checks [OF digests req this as(1,2) refl, of secret] as(3,4)
  show ?thesis by (fastforce simp: vsa_only_def)
qed

section \<open>Every request is answered\<close>

definition plan_bounded :: "plan \<Rightarrow> bool" where
  "plan_bounded p \<longleftrightarrow>
     download_speed_mbps p < 4294967296 \<and> upload_speed_mbps p < 4294967296
     \<and> pred_option (\<lambda>n. n < 4294967296) (burst_download_mbps p)
     \<and> pred_option (\<lambda>n. n < 4294967296) (burst_upload_mbps p)
     \<and> pred_option (\<lambda>n. n < 4294967296) (burst_threshold_mbps p)
     \<and> pred_option (\<lambda>n. n < 4294967296) (burst_time_seconds p)
     \<and> pred_option (\<lambda>n. n < 4294967296) (plan_priority p)"

definition window_bounded :: "speed_window \<Rightarrow> bool" where
  "window_bounded w \<longleftrightarrow> win_download w < 4294967296 \<and> win_upload w < 4294967296"

lemma show_nat_length: "n < 10 ^ Suc k \<Longrightarrow> length (show_nat n) \<le> Suc k"
proof (induction k arbitrary: n)
  case 0
  then show ?case by (simp add: show_nat_small)
next
  case (Suc k)
  show ?case
  proof (cases "n < 10")
    case True
    then show ?thesis by (simp add: show_nat_small)
  next
    case False
    have "n div 10 < 10 ^ Suc k" using Suc.prems by (simp add: div_less_iff_less_mult mult.commute)
    then show ?thesis using Suc.IH [of "n div 10"] False by (simp add: show_nat_big)
  qed
qed

lemma show_nat_10: "n < 8589934592 \<Longrightarrow> length (show_nat n) \<le> 10"
  using show_nat_length [of n 9] by simp

lemma encodeVSA_fits: "length v \<le> 247 \<Longrightarrow> \<exists>b. encodeVSA vid vt v = Inr b"
  by (simp add: encodeVSA_def Let_def)

lemma or_default_bound:
  "pred_option (\<lambda>n. n < 4294967296) x \<Longrightarrow> d < 8589934592 \<Longrightarrow> or_default x d < 8589934592"
  by (cases x) (auto simp: or_default_def)

lemma policy_encodes:
  assumes "plan_bounded p"
  shows "\<exists>b. encodeNamedAttributes (expandRows (generateAttributes p)) = Inr b"
proof -
  have dl: "download_speed_mbps p < 4294967296" and ul: "upload_speed_mbps p < 4294967296"
    using assms by (simp_all add: plan_bounded_def)
  have short: "length (show_nat (or_default x d)) \<le> 10"
    if "pred_option (\<lambda>n. n < 4294967296) x" "d < 8589934592" for x d
    using or_default_bound [OF that] by (rule show_nat_10)
  have small: "length (show_nat m) \<le> 10" if "m < 4294967296" for m
    using that show_nat_10 [of m] by simp
  have time: "length (show_nat (or_default (burst_time_seconds p) 8)) \<le> 10"
    using assms by (intro short) (simp_all add: plan_bounded_def)
  have prio: "length (case plan_priority p of None \<Rightarrow> [] | Some q \<Rightarrow> '' '' @ show_nat q) \<le> 11"
    using assms small by (cases "plan_priority p") (auto simp: plan_bounded_def)
  consider "radius_vendor p = Some Mikrotik" | "radius_vendor p = Some Cisco"
    | "radius_vendor p = Some Juniper" | "radius_vendor p = None"
    by (metis option.exhaust vendor.exhaust)
  then show ?thesis
  proof cases
    case 1
    let ?s = "\<lambda>x d. length (show_nat (or_default x d))"
    have "?s (burst_download_mbps p) (download_speed_mbps p * 2) \<le> 10"
      "?s (burst_upload_mbps p) (upload_speed_mbps p * 2) \<le> 10"
      "?s (burst_threshold_mbps p) (download_speed_mbps p) \<le> 10"
      "?s (burst_threshold_mbps p) (upload_speed_mbps p) \<le> 10"
      using assms dl ul by (intro short; simp add: plan_bounded_def)+
    then show ?thesis
      using 1 small [OF dl] small [OF ul] time prio
      by (auto simp: generateAttributes_def generateMikrotikAttributes_def expandRows_def Let_def
          NAMED_ENCODERS_def encodeMikrotikRateLimit_def encodeVSA_def)
  next
    case 2
    then show ?thesis
      using small [OF dl] small [OF ul]
      by (auto simp: generateAttributes_def generateCiscoAttributes_def expandRows_def Let_def
          NAMED_ENCODERS_def encodeCiscoAvPair_def encodeVSA_def)
  next
    case 3
    then show ?thesis
      by (auto simp: generateAttributes_def generateJuniperAttributes_def expandRows_def Let_def
          NAMED_ENCODERS_def)
  next
    case 4
    then show ?thesis
      by (auto simp: generateAttributes_def generateGenericAttributes_def expandRows_def Let_def
          NAMED_ENCODERS_def encodeWisprBandwidth_def encodeVSA_def)
  qed
qed

lemma windowed_plan_bounded:
  "plan_bounded p \<Longrightarrow> window_bounded w \<Longrightarrow> plan_bounded (windowEffectivePlan p w)"
  by (simp add: plan_bounded_def window_bounded_def windowEffectivePlan_def)

definition tables_bounded :: "server_env \<Rightarrow> context_id \<Rightarrow> bool" where
  "tables_bounded env ctx \<longleftrightarrow>
     (\<exists>rows. radius_query env ctx = Inr rows)
     \<and> (\<exists>plans. plan_query env ctx = Inr plans \<and> list_all plan_bounded plans)
     \<and> (case window_query env None of Inl _ \<Rightarrow> True | Inr ws \<Rightarrow> list_all window_bounded ws)"

lemma effective_plan_bounded:
  assumes "tables_bounded env ctx" and "findPlan env ctx i = Inr (Some p)"
  shows "\<exists>q. effective_plan env (Some p) = Some q \<and> plan_bounded q"
proof -
  have "plan_bounded p"
    using assms by (auto simp: tables_bounded_def findPlan_def and_then_Ok_iff find_Some_iff list_all_iff
        split: option.splits if_splits)
  then show ?thesis
    using assms(1) windowed_plan_bounded [of p]
    by (auto simp: effective_plan_def tables_bounded_def list_all_iff split: sum.split option.split
        dest!: getActiveWindow_Some(1))
qed

lemma findPlan_Ok: "tables_bounded env ctx \<Longrightarrow> \<exists>p. findPlan env ctx i = Inr p"
  by (cases i) (auto simp: tables_bounded_def findPlan_def)

lemma accept_attributes_Ok:
  assumes "tables_bounded env (tenant_of n)"
  shows "\<exists>b. accept_attributes env n s withMA = Inr b"
proof -
  obtain p where p: "findPlan env (tenant_of n) (sub_plan s) = Inr p"
    using findPlan_Ok [OF assms] by blast
  show ?thesis
  proof (cases p)
    case None
    with p show ?thesis
      by (simp add: accept_attributes_def effective_plan_def buildAcceptAttributes_eq)
  next
    case (Some pl)
    with effective_plan_bounded [OF assms] p obtain q where
      q: "effective_plan env (Some pl) = Some q" "plan_bounded q" by blast
    with policy_encodes [OF q(2)] p Some show ?thesis
      by (auto simp: accept_attributes_def buildAcceptAttributes_eq)
  qed
qed

lemma findSubscriber_Ok:
  "tables_bounded env ctx \<Longrightarrow> \<exists>s. findSubscriber env ctx u org = Inr s"
  by (auto simp: tables_bounded_def findSubscriber_def)

lemma check_credentials_Ok:
  assumes "tables_bounded env (tenant_of n)"
  obtains s accept reason where "check_credentials env n secret req = Inr (s, accept, reason)"
proof (cases "non_empty (getString (pkt_attributes req) 1)")
  case None
  then show thesis using that [of None False] by (simp add: check_credentials_def)
next
  case (Some u)
  obtain f where f: "findSubscriber env (tenant_of n) u (d_org n) = Inr f"
    using findSubscriber_Ok [OF assms] by blast
  show thesis
  proof (cases f)
    case None
    then show thesis using that [of None False] Some f by (simp add: check_credentials_def)
  next
    case (Some s)
    then show thesis
      using that that [of "Some s" False] \<open>non_empty _ = Some u\<close> f
      by (cases "non_empty (sub_password s)"; cases "check_password env secret req (the (non_empty (sub_password s)))")
        (simp_all add: check_credentials_def)
  qed
qed

lemma answer_auth_Ok:
  assumes digests: "\<forall>x. length (env_md5 env x) = 16" "\<forall>k x. length (env_hmac env k x) = 16"
    and req: "decodePacket msg = Inr req" and tables: "tables_bounded env (tenant_of n)"
  shows "\<exists>s accept reason c' reply entry. check_credentials env n secret req = Inr (s, accept, reason)
     \<and> answer_auth env addr n secret req c = (c', Replied reply entry) \<and> log_accept entry = accept"
proof -
  let ?ma = "getAttr (pkt_attributes req) 80 \<noteq> None"
  obtain s accept reason where a: "check_credentials env n secret req = Inr (s, accept, reason)"
    using check_credentials_Ok [OF tables] .
  have "\<exists>attrs. (if accept then accept_attributes env n (the s) ma else reject_attributes ma) = Inr attrs"
    for ma
    using accept_attributes_Ok [OF tables, of "the s" ma]
    by (cases accept) (simp_all only: access_deny_part, simp_all)
  then obtain attrs where attrs: "(if accept then accept_attributes env n (the s) ?ma
      else reject_attributes ?ma) = Inr attrs" by blast
  obtain reply where "signed_packet env (if accept then ACCESS_ACCEPT else ACCESS_REJECT) req secret ?ma attrs
      = Inr reply"
    using reply_signs [OF digests req attrs] by blast
  then show ?thesis
    using a attrs
    by (cases accept) (auto simp: answer_auth_def Let_def persistAuthOutcome_def)
qed

end
