(* ===== verification/RadiusServerProps.thy ===== *)
theory RadiusServerProps
  imports RadiusReplies
begin

text \<open>
  What the embedded RADIUS server guarantees: who is accepted, that replies decode and verify at
  the NAS, that every request of a known NAS is answered, that accounting is acknowledged only
  after it is stored, and the balance of the counters. The interface to the NAS directory is the
  locale \<open>nas_directory\<close>, interpreted on the resolver of theory NasResolver.
\<close>

section \<open>A concrete server\<close>

definition demo_nas :: nas where
  "demo_nas = \<lparr>d_id = 5, d_org = Some 3, d_ip = ''10.0.0.1'', d_scope = Primary, nas_secret = Some ''s''\<rparr>"

definition demo_row :: radius_row where
  "demo_row = \<lparr>rr_username = ''a'', rr_password = Some ''p'', rr_ip = Some ''10.0.0.7'',
     rr_org = Some 3, rr_status = ''active'', rr_deleted = False,
     rr_contract = Some \<lparr>ct_plan = None, ct_status = ''pending'', ct_cleanup_pending = False,
        ct_test_expires = Some 1600\<rparr>\<rparr>"

definition demo_env :: server_env where
  "demo_env = \<lparr>env_md5 = (\<lambda>_. replicate 16 0), env_hmac = (\<lambda>_ _. replicate 16 0),
     server_secret = None, collation_eq = (=), now_seconds = 1000, week_day = 1, day_second = 100,
     radius_query = (\<lambda>_. Inr [demo_row]), plan_query = (\<lambda>_. Inr []), window_query = (\<lambda>_. Inr []),
     ingestAccounting = (\<lambda>_ _. Inr ()), recordInfrastructureAccounting = (\<lambda>_ _. Inr ())\<rparr>"

definition demo_dir :: "unit \<Rightarrow> string \<Rightarrow> unit \<times> nas option result" where
  "demo_dir s ip = (s, Inr (if ip = ''10.0.0.1'' then Some demo_nas else None))"

definition demo_counters :: counters where
  "demo_counters = \<lparr>authRequests = 0, accepts = 0, rejects = 0, authDropped = 0,
     acctRequests = 0, acctIngested = 0, acctDropped = 0\<rparr>"

definition demo_attrs :: "rad_attr list" where
  "demo_attrs = [\<lparr>attr_type = 1, attr_value = [97]\<rparr>,
     \<lparr>attr_type = 2, attr_value = [112] @ replicate 15 0\<rparr>]"

definition demo_login :: buffer where
  "demo_login = [1, 9] @ be16 41 @ replicate 16 4 @ concat (map tlv_enc demo_attrs)"

definition demo_req :: rad_packet where
  "demo_req = \<lparr>pkt_code = 1, pkt_identifier = 9, pkt_length = 41, pkt_authenticator = replicate 16 4,
     pkt_attributes = demo_attrs, pkt_raw = demo_login\<rparr>"

lemmas demo_defs = demo_nas_def demo_row_def demo_env_def demo_dir_def demo_counters_def

lemma demo_login_decodes: "decodePacket demo_login = Inr demo_req"
  using decodePacket_shape [of 1 9 "replicate 16 4" demo_attrs]
  by (simp add: demo_attrs_def demo_login_def demo_req_def tlv_ok_def tlv_enc_def)

lemma demo_text: "utf8_text [97] = ''a''" "utf8_text [112] = ''p''"
  by code_simp+

lemma demo_pap: "decodePapPassword (\<lambda>_. replicate 16 0) ([112] @ replicate 15 0) secret ra = Some ''p''"
proof -
  have "pap_decode_blocks (\<lambda>_. replicate 16 0) s ra (([112] @ replicate 15 0) @ [])
      = xor_bytes ([112] @ replicate 15 0) (replicate 16 0)
        @ pap_decode_blocks (\<lambda>_. replicate 16 0) s ([112] @ replicate 15 0) []" for s ra
    by (rule pap_decode_Cons) simp
  then have "pap_decode_blocks (\<lambda>_. replicate 16 0) s ra ([112] @ replicate 15 0)
      = [112] @ replicate 15 0" for s ra
    by (simp add: pap_decode_blocks.simps [of _ _ _ "[]"] xor_bytes_def numeral_eq_Suc)
  then show ?thesis
    using strip_nuls_padded [of "[112]" 15]
    by (simp add: decodePapPassword_def demo_text)
qed

lemma demo_authenticated:
  "check_credentials demo_env demo_nas ''s'' demo_req
     = Inr (Some (to_subscriber 1000 demo_row), True, ACCEPTED)"
  using demo_pap [of "''s''" "replicate 16 4"]
  by (simp add: check_credentials_def demo_req_def demo_attrs_def getString_def getAttr_def demo_text
      non_empty_def findSubscriber_def may_authenticate_def to_subscriber_def check_password_def
      timingSafeStrEqual_def demo_defs)

lemma demo_facts:
  "length (env_md5 demo_env x) = 16" "length (env_hmac demo_env k x) = 16"
  "pkt_code demo_req = ACCESS_REQUEST" "demo_dir () ''10.0.0.1'' = ((), Inr (Some demo_nas))"
  "secretFor (server_secret demo_env) (Some demo_nas) = Some ''s''"
  "verifyMessageAuthenticator (env_hmac demo_env) (pkt_raw demo_req) (pkt_attributes demo_req) secret = Inr True"
  "tables_bounded demo_env ctx"
  by (simp_all add: demo_defs demo_req_def demo_attrs_def code_defs secretFor_def non_empty_def
      verifyMessageAuthenticator_def getAttr_def tables_bounded_def)

lemma demo_accepted:
  "\<exists>c' reply entry. handleAuth demo_dir demo_env demo_login ''10.0.0.1'' ((), demo_counters)
       = (((), c'), Replied reply entry) \<and> log_accept entry"
  using answer_auth_Ok [of demo_env demo_login demo_req demo_nas "''s''" "''10.0.0.1''"
      "demo_counters\<lparr>authRequests := authRequests demo_counters + 1\<rparr>"]
    demo_facts demo_login_decodes demo_authenticated
  by (fastforce simp: handleAuth_def Let_def)

section \<open>Authentication\<close>

text \<open>
  C9. Nobody is accepted without credentials. When the server answers a datagram with an
  Access-Accept, the datagram is an Access-Request from a registered NAS with a non-empty shared
  secret, its Message-Authenticator (if present) is valid, and there is an active, undeleted
  RADIUS account of the NAS's organization with the given user name, whose contract (if any) is
  active or inside its test window, with a non-empty stored password that the PAP or CHAP
  response of the request proves.
\<close>

theorem access_accept_sound:
  assumes "handleAuth dir env msg addr (s, c) = ((s', c'), Replied reply entry)" and "log_accept entry"
  shows "\<exists>req n secret user r pw.
     decodePacket msg = Inr req \<and> pkt_code req = ACCESS_REQUEST
     \<and> dir s addr = (s', Inr (Some n))
     \<and> secretFor (server_secret env) (Some n) = Some secret \<and> secret \<noteq> []
     \<and> verifyMessageAuthenticator (env_hmac env) (pkt_raw req) (pkt_attributes req) secret = Inr True
     \<and> getString (pkt_attributes req) (ATTR USER_NAME) = Some user \<and> user \<noteq> []
     \<and> row_matches env n user r \<and> rr_password r = Some pw \<and> pw \<noteq> []
     \<and> credentials_match env secret req pw \<and> log_reason entry = ACCEPTED"
  using assms(1)
proof (cases rule: handleAuth_Replied)
  case (1 req n secret)
  from 1(6) show ?thesis
  proof (cases rule: answer_auth_Replied)
    case (1 t accept reason attrs)
    then have "check_credentials env n secret req = Inr (t, True, reason)" using assms(2) by simp
    from check_credentials_accept [OF this] show ?thesis
      using 1 \<open>decodePacket msg = _\<close> \<open>pkt_code req = _\<close> \<open>dir s addr = _\<close>
        \<open>secretFor _ _ = _\<close> \<open>verifyMessageAuthenticator _ _ _ _ = _\<close> secretFor_Some
      by (metis ATTR.simps(1))
  qed
qed


theorem access_accept_sound_witness:
  "\<exists>req user r pw. decodePacket demo_login = Inr req
     \<and> getString (pkt_attributes req) (ATTR USER_NAME) = Some user
     \<and> row_matches demo_env demo_nas user r \<and> rr_password r = Some pw
     \<and> credentials_match demo_env ''s'' req pw"
proof -
  obtain c' reply entry where run: "handleAuth demo_dir demo_env demo_login ''10.0.0.1'' ((), demo_counters)
       = (((), c'), Replied reply entry)" and "log_accept entry"
    using demo_accepted by blast
  from access_accept_sound [OF run this(2)] show ?thesis
    by (auto simp: demo_facts(4) demo_facts(5))
qed

text \<open>
  Replies verify at the NAS. Every reply decodes to a packet with the request's identifier,
  the Response Authenticator of RFC 2865 and, when the request carried a Message-Authenticator, a
  Message-Authenticator that verifies; its code is Access-Accept exactly when the logged outcome
  is acceptance, and Access-Reject otherwise.
\<close>

theorem auth_reply_verifies:
  assumes "handleAuth dir env msg addr (s, c) = ((s', c'), Replied reply entry)"
    and "\<forall>x. length (env_md5 env x) = 16" and "\<forall>k x. length (env_hmac env k x) = 16"
  shows "\<exists>req n secret p. decodePacket msg = Inr req \<and> dir s addr = (s', Inr (Some n))
     \<and> secretFor (server_secret env) (Some n) = Some secret
     \<and> reply_checks (env_md5 env) (env_hmac env) req secret reply p
     \<and> pkt_code p = (if log_accept entry then ACCESS_ACCEPT else ACCESS_REJECT)"
  using assms(1)
proof (cases rule: handleAuth_Replied)
  case (1 req n secret)
  note outer = this
  from 1(6) show ?thesis
  proof (cases rule: answer_auth_Replied)
    case (1 t accept reason attrs)
    from reply_signs [OF assms(2,3) outer(1) 1(5), of secret] 1(6) outer 1(2)
    show ?thesis by fastforce
  qed
qed

theorem auth_reply_verifies_witness:
  "\<exists>reply req p. decodePacket demo_login = Inr req
     \<and> reply_checks (env_md5 demo_env) (env_hmac demo_env) req ''s'' reply p \<and> pkt_code p = ACCESS_ACCEPT"
proof -
  obtain c' reply entry where run: "handleAuth demo_dir demo_env demo_login ''10.0.0.1'' ((), demo_counters)
       = (((), c'), Replied reply entry)" and acc: "log_accept entry"
    using demo_accepted by blast
  from auth_reply_verifies [OF run] acc show ?thesis
    by (auto simp: demo_facts)
qed

text \<open>
  C25. Every request is answered. An Access-Request of a known NAS with a valid (or absent)
  Message-Authenticator gets a reply whenever the account and plan queries succeed and the
  plan speeds fit their 32-bit columns; a failing speed-window query does not prevent it. The
  reply is an Access-Accept exactly when authentication succeeded.
\<close>

theorem auth_request_answered:
  assumes "\<forall>x. length (env_md5 env x) = 16" and "\<forall>k x. length (env_hmac env k x) = 16"
    and "decodePacket msg = Inr req" and "pkt_code req = ACCESS_REQUEST"
    and "dir s addr = (s', Inr (Some n))" and "secretFor (server_secret env) (Some n) = Some secret"
    and "verifyMessageAuthenticator (env_hmac env) (pkt_raw req) (pkt_attributes req) secret = Inr True"
    and "tables_bounded env (tenant_of n)"
  shows "\<exists>t accept reason c' reply entry. check_credentials env n secret req = Inr (t, accept, reason)
     \<and> handleAuth dir env msg addr (s, c) = ((s', c'), Replied reply entry)
     \<and> log_accept entry = accept"
  using answer_auth_Ok [OF assms(1,2,3,8), of secret addr "c\<lparr>authRequests := authRequests c + 1\<rparr>"]
    assms(3-7)
  by (fastforce simp: handleAuth_def Let_def)

theorem auth_request_answered_witness:
  "\<exists>c' reply entry. handleAuth demo_dir demo_env demo_login ''10.0.0.1'' ((), demo_counters)
       = (((), c'), Replied reply entry)"
  using auth_request_answered [of demo_env demo_login demo_req demo_dir "()" "''10.0.0.1''" "()" demo_nas
      "''s''" demo_counters] demo_facts demo_login_decodes
  by fastforce

section \<open>Silence\<close>

text \<open>
  Unknown clients get no answer. A datagram whose source resolves to no NAS is dropped,
  whatever it contains and even when a global fallback secret is configured, and only the drop
  counter moves.
\<close>

theorem unknown_nas_dropped:
  assumes "dir s addr = (s', Inr None)" and "decodePacket msg = Inr req" and "pkt_code req = ACCESS_REQUEST"
  shows "handleAuth dir env msg addr (s, c)
       = ((s', c\<lparr>authRequests := authRequests c + 1, authDropped := authDropped c + 1\<rparr>), Dropped)"
  using assms by (simp add: handleAuth_def secretFor_def Let_def)

theorem unknown_nas_dropped_witness:
  "handleAuth demo_dir (demo_env\<lparr>server_secret := Some ''global''\<rparr>) demo_login ''10.9.9.9'' ((), demo_counters)
     = (((), demo_counters\<lparr>authRequests := 1, authDropped := 1\<rparr>), Dropped)"
  using unknown_nas_dropped [of demo_dir "()" "''10.9.9.9''" "()" demo_login demo_req
      "demo_env\<lparr>server_secret := Some ''global''\<rparr>" demo_counters]
  by (simp add: demo_login_decodes demo_req_def code_defs demo_defs)

section \<open>Counters\<close>

fun run_auth ::
  "('s \<Rightarrow> string \<Rightarrow> 's \<times> nas option result) \<Rightarrow> (server_env \<times> buffer \<times> string) list
     \<Rightarrow> 's \<times> counters \<Rightarrow> ('s \<times> counters) \<times> auth_log handled list" where
  "run_auth dir [] sc = (sc, [])"
| "run_auth dir ((env, msg, addr) # ds) sc =
     (let (sc', r) = handleAuth dir env msg addr sc; (sc'', rs) = run_auth dir ds sc' in (sc'', r # rs))"

definition count_where :: "('a \<Rightarrow> bool) \<Rightarrow> 'a list \<Rightarrow> nat" where
  "count_where P xs = length (filter P xs)"

fun is_dropped :: "'l handled \<Rightarrow> bool" where
  "is_dropped Dropped = True" | "is_dropped _ = False"

fun is_failed :: "'l handled \<Rightarrow> bool" where
  "is_failed (Failed e) = True" | "is_failed _ = False"

lemma answer_auth_counts:
  assumes "answer_auth env addr n secret req c = (c', r)"
  shows "authRequests c' = authRequests c \<and> authDropped c' = authDropped c \<and> \<not> is_dropped r
     \<and> (is_failed r \<and> accepts c' + rejects c' = accepts c + rejects c
        \<or> accepts c' + rejects c' = accepts c + rejects c + 1)"
  using assms by (auto simp: answer_auth_def Let_def split: sum.splits if_splits)

lemma handleAuth_counts:
  assumes "handleAuth dir env msg addr (s, c) = ((s', c'), r)"
  shows "authRequests c' = authRequests c + 1
     \<and> authDropped c' = authDropped c + (if is_dropped r then 1 else 0)
     \<and> accepts c + rejects c + (if is_dropped r \<or> is_failed r then 0 else 1) \<le> accepts c' + rejects c'
     \<and> accepts c' + rejects c' \<le> accepts c + rejects c + (if is_dropped r then 0 else 1)"
  using assms
  by (auto simp: handleAuth_def Let_def split: sum.splits if_splits prod.splits option.splits bool.splits
      dest!: answer_auth_counts)

text \<open>
  The counters balance. Over any sequence of datagrams, each is counted once as a request;
  drops are counted exactly; accepts and rejects count at least every reply sent and at most the
  datagrams that were neither dropped nor replied to in addition. So while no handler throws,
  requests = accepts + rejects + drops.
\<close>

theorem auth_counters_balance:
  assumes "run_auth dir ds (s, c) = ((s', c'), rs)"
  shows "length rs = length ds
     \<and> authRequests c' = authRequests c + length ds
     \<and> authDropped c' = authDropped c + count_where is_dropped rs
     \<and> accepts c + rejects c + count_where (\<lambda>r. \<not> is_dropped r \<and> \<not> is_failed r) rs
         \<le> accepts c' + rejects c'
     \<and> accepts c' + rejects c' \<le> accepts c + rejects c + count_where (\<lambda>r. \<not> is_dropped r) rs"
  using assms
proof (induction ds arbitrary: s c rs)
  case Nil
  then show ?case by (simp add: count_where_def)
next
  case (Cons d ds)
  obtain env msg addr where d: "d = (env, msg, addr)" by (cases d)
  obtain s1 c1 r where step: "handleAuth dir env msg addr (s, c) = ((s1, c1), r)"
    by (metis surj_pair)
  obtain rest where tail: "run_auth dir ds (s1, c1) = ((s', c'), rest)" and rs: "rs = r # rest"
    using Cons.prems step by (auto simp: d split: prod.splits)
  from Cons.IH [OF tail] handleAuth_counts [OF step] show ?case
    by (simp add: rs count_where_def split: if_splits)
qed

theorem auth_counters_balance_witness:
  "\<exists>s' c' rs. run_auth demo_dir [(demo_env, [1, 2], ''10.0.0.1'')] ((), demo_counters) = ((s', c'), rs)
     \<and> authRequests c' = 1 \<and> authDropped c' = count_where is_dropped rs"
proof -
  obtain s' c' rs where run:
    "run_auth demo_dir [(demo_env, [1, 2], ''10.0.0.1'')] ((), demo_counters) = ((s', c'), rs)"
    by (metis surj_pair)
  from auth_counters_balance [OF run] run show ?thesis by (auto simp: demo_counters_def)
qed

section \<open>Test windows and speed windows\<close>

lemma getAttr_append:
  "getAttr (xs @ ys) ty = (case getAttr xs ty of None \<Rightarrow> getAttr ys ty | Some v \<Rightarrow> Some v)"
  by (induction xs) (auto simp: getAttr_def)

lemma getAttr_Cons: "getAttr (a # xs) ty = (if attr_type a = ty then Some (attr_value a) else getAttr xs ty)"
  by (simp add: getAttr_def)

lemma getAttr_Nil [simp]: "getAttr [] ty = None"
  by (simp add: getAttr_def)

lemma getAttr_none: "\<forall>a\<in>set xs. attr_type a \<noteq> ty \<Longrightarrow> getAttr xs ty = None"
  by (auto simp: getAttr_def find_None_iff split: option.splits)

lemma timeout_value:
  "getAttr (timeout_attrs s) 27 =
     (if sub_contract_status s = Some ''pending'' then
        (case sub_seconds_remaining s of
           None \<Rightarrow> None
         | Some t \<Rightarrow> if t > 0 \<and> t \<le> 9007199254740991 then Some (be32 (nat t mod 4294967296)) else None)
      else None)"
  by (cases "sub_seconds_remaining s") (simp_all add: timeout_attrs_def getAttr_Cons)

lemma read_be32: "k < 4294967296 \<Longrightarrow> readUInt32BE (be32 k) 0 = k"
  using readUInt32BE_be32 [of k "[]" 0 "[]"] by simp

lemma session_timeout_of_prefix:
  assumes "\<forall>a\<in>set others. attr_type a = 26 \<or> attr_type a = 80"
  shows "getInt (accept_prefix s @ others) 27 =
     (if sub_contract_status s = Some ''pending'' then
        (case sub_seconds_remaining s of
           None \<Rightarrow> None
         | Some t \<Rightarrow> if t > 0 \<and> t \<le> 9007199254740991 then Some (nat t mod 4294967296) else None)
      else None)"
proof -
  have "getAttr others 27 = None" using assms by (intro getAttr_none) auto
  then have "getAttr (accept_prefix s @ others) 27 = getAttr (timeout_attrs s) 27"
    by (simp add: accept_prefix_def getAttr_append getAttr_Cons framed_attr_ok split: option.split)
  then show ?thesis
    by (cases "sub_seconds_remaining s") (simp_all add: getInt_def timeout_value read_be32)
qed

text \<open>
  A pending line is accepted only for the rest of its test window: the account an accepted
  request matched either has no pending contract, or its test window has not expired, no cleanup
  is pending, and the Access-Accept carries a Session-Timeout of exactly the seconds left.
\<close>

theorem pending_gets_session_timeout:
  assumes "handleAuth dir env msg addr (s, c) = ((s', c'), Replied reply entry)" and "log_accept entry"
    and "\<forall>x. length (env_md5 env x) = 16" and "\<forall>k x. length (env_hmac env k x) = 16"
  shows "\<exists>n user r p. row_matches env n user r \<and> decodePacket reply = Inr p
     \<and> (case rr_contract r of None \<Rightarrow> True | Some ct \<Rightarrow>
          if ct_status ct \<noteq> ''pending'' then getInt (pkt_attributes p) (ATTR SESSION_TIMEOUT) = None
          else \<not> ct_cleanup_pending ct \<and>
            (\<exists>t. ct_test_expires ct = Some t \<and> now_seconds env < t
               \<and> (t - now_seconds env < 4294967296 \<longrightarrow>
                   getInt (pkt_attributes p) (ATTR SESSION_TIMEOUT) = Some (nat (t - now_seconds env)))))"
  using assms(1)
proof (cases rule: handleAuth_Replied)
  case outer: (1 req n secret)
  from outer(6) show ?thesis
  proof (cases rule: answer_auth_Replied)
    case (1 t accept reason attrs)
    then have "check_credentials env n secret req = Inr (t, True, reason)" using assms(2) by simp
    from check_credentials_accept [OF this] obtain user r where
      r: "row_matches env n user r" and t: "t = Some (to_subscriber (now_seconds env) r)"
      by blast
    from reply_signs [OF assms(3,4) outer(1) 1(5), of secret] 1(2,6) assms(2)
    obtain p others where p: "decodePacket reply = Inr p"
      "pkt_attributes p = accept_prefix (the t) @ others"
      "\<forall>a\<in>set others. attr_type a = 26 \<or> attr_type a = 80"
      by (auto simp: reply_checks_def)
    have "getInt (pkt_attributes p) 27 = (case rr_contract r of None \<Rightarrow> None | Some ct \<Rightarrow>
          if ct_status ct \<noteq> ''pending'' then None
          else (case ct_test_expires ct of None \<Rightarrow> None | Some e \<Rightarrow>
             if max (e - now_seconds env) 1 \<le> 9007199254740991
             then Some (nat (max (e - now_seconds env) 1) mod 4294967296) else None))"
      using session_timeout_of_prefix [OF p(3), of "the t"]
      by (simp add: p(2) t to_subscriber_def less_max_iff_disj split: option.split)
    moreover have "may_authenticate (now_seconds env) r" using r by (simp add: row_matches_def)
    ultimately show ?thesis
      using r p(1)
      by (intro exI [of _ n] exI [of _ user] exI [of _ r] exI [of _ p])
        (auto simp: may_authenticate_def nat_less_iff split: option.splits)
  qed
qed

theorem pending_gets_session_timeout_witness:
  "\<exists>n user r p reply. row_matches demo_env n user r \<and> decodePacket reply = Inr p
     \<and> getInt (pkt_attributes p) (ATTR SESSION_TIMEOUT) = Some 600"
proof -
  obtain c' reply entry where run: "handleAuth demo_dir demo_env demo_login ''10.0.0.1'' ((), demo_counters)
       = (((), c'), Replied reply entry)" and acc: "log_accept entry"
    using demo_accepted by blast
  have row: "r = demo_row" if "row_matches demo_env n user r" for n user r
    using that by (simp add: row_matches_def demo_env_def)
  from pending_gets_session_timeout [OF run acc] demo_facts(1,2) obtain n user r p where
    *: "row_matches demo_env n user r" "decodePacket reply = Inr p"
    "getInt (pkt_attributes p) 27 = Some 600"
    using row by (fastforce simp: demo_row_def demo_env_def)
  then show ?thesis by auto
qed

text \<open>
  Speed windows of isolated tenants are never read: whatever the tenant databases hold in
  \<open>plan_speed_windows\<close>, the handler behaves the same, since its window lookup always runs
  against the primary database.
\<close>

theorem tenant_windows_ignored:
  "handleAuth dir (env\<lparr>window_query := (\<lambda>ctx. if ctx = None then window_query env None else other ctx)\<rparr>)
       msg addr sc
   = handleAuth dir env msg addr sc"
proof -
  let ?env = "env\<lparr>window_query := (\<lambda>ctx. if ctx = None then window_query env None else other ctx)\<rparr>"
  have fields: "env_md5 ?env = env_md5 env" "radius_query ?env = radius_query env"
    "collation_eq ?env = collation_eq env" "now_seconds ?env = now_seconds env"
    "plan_query ?env = plan_query env" "window_query ?env None = window_query env None"
    "server_secret ?env = server_secret env" "env_hmac ?env = env_hmac env"
    "week_day ?env = week_day env" "day_second ?env = day_second env" by simp_all
  have finds: "findSubscriber ?env = findSubscriber env"
    unfolding fun_eq_iff findSubscriber_def fields by simp
  have checks: "check_password ?env = check_password env"
    unfolding fun_eq_iff check_password_def fields by simp
  have auths: "check_credentials ?env = check_credentials env"
    unfolding fun_eq_iff check_credentials_def finds checks by simp
  have attrs: "accept_attributes ?env = accept_attributes env"
    unfolding fun_eq_iff accept_attributes_def findPlan_def effective_plan_def fields by simp
  have signs: "signed_packet ?env = signed_packet env"
    unfolding fun_eq_iff signed_packet_def fields by simp
  have answers: "answer_auth ?env = answer_auth env"
    unfolding fun_eq_iff answer_auth_def auths attrs signs by simp
  show ?thesis
    unfolding handleAuth_def answers fields by simp
qed

section \<open>Replies go to registered NAS devices only\<close>

text \<open>Every reply of a run, with the address it answers: logged against a registered NAS there.\<close>

definition replies_registered ::
  "(nas \<Rightarrow> bool) \<Rightarrow> (server_env \<times> buffer \<times> string) list \<Rightarrow> auth_log handled list \<Rightarrow> bool" where
  "replies_registered registered ds rs \<longleftrightarrow>
     list_all2 (\<lambda>(env, msg, addr) r. case r of
        Replied reply entry \<Rightarrow> (\<exists>n. registered n \<and> d_ip n = addr \<and> d_id n = log_nas entry)
      | _ \<Rightarrow> True) ds rs"

lemma handleAuth_state:
  assumes "handleAuth dir env msg addr (s, c) = ((s', c'), r)"
  shows "s' = s \<or> (\<exists>found. dir s addr = (s', found))"
  using assms
  by (auto simp: handleAuth_def Let_def split: sum.splits if_splits prod.splits option.splits bool.splits)

context nas_directory
begin

lemma reply_registered:
  assumes "dir_inv s" and "handleAuth lookup env msg addr (s, c) = ((s', c'), Replied reply entry)"
  shows "\<exists>n. registered n \<and> d_ip n = addr \<and> d_id n = log_nas entry"
  using assms(2)
proof (cases rule: handleAuth_Replied)
  case outer: (1 req n secret)
  from outer(6) have "log_nas entry = d_id n" by (cases rule: answer_auth_Replied) simp
  then show ?thesis using lookup_found [OF assms(1) outer(3)] by auto
qed

lemma run_registered:
  assumes "dir_inv s" and "run_auth lookup ds (s, c) = (sc, rs)"
  shows "dir_inv (fst sc) \<and> replies_registered registered ds rs"
  using assms
proof (induction ds arbitrary: s c rs)
  case Nil
  then show ?case by (auto simp: replies_registered_def)
next
  case (Cons d ds)
  obtain env msg addr where d: "d = (env, msg, addr)" by (cases d)
  obtain s1 c1 r where step: "handleAuth lookup env msg addr (s, c) = ((s1, c1), r)"
    by (metis surj_pair)
  obtain rest where tail: "run_auth lookup ds (s1, c1) = (sc, rest)" and rs: "rs = r # rest"
    using Cons.prems(2) step by (auto simp: d split: prod.splits)
  have "dir_inv s1"
    using handleAuth_state [OF step] Cons.prems(1) lookup_inv by auto
  from Cons.IH [OF this tail] show ?case
    using reply_registered [OF Cons.prems(1)] step
    by (auto simp: rs d replies_registered_def split: handled.split)
qed

end

text \<open>
  With the cached resolver as its directory, starting from an empty cache, the server
  replies only to addresses at which one of the databases held a live NAS at some lookup, and
  logs the outcome against that NAS; the cached snapshot stays consistent throughout.
\<close>

theorem server_replies_registered:
  "case run_auth (resolver_lookup ttl db clock) ds ((None, 0), c) of ((s', c'), rs) \<Rightarrow>
     snapshot_ok s' \<and> replies_registered (\<lambda>n. \<exists>k. live_nas (db k) n) ds rs"
  using resolver.run_registered [of "(None, 0)" ttl db clock ds c]
  by (auto simp: snapshot_ok_def split: prod.split)

section \<open>Accounting\<close>

definition acct_authentic :: "server_env \<Rightarrow> string \<Rightarrow> rad_packet \<Rightarrow> bool" where
  "acct_authentic env secret req \<longleftrightarrow>
     pkt_authenticator req
       = env_md5 env (take 4 (pkt_raw req) @ replicate 16 0 @ drop 20 (pkt_raw req) @ utf8_bytes secret)"

lemma acct_authenticator:
  assumes "decodePacket msg = Inr req"
  shows "computeRequestAuthenticator md5 (pkt_raw req) secret
     = Inr (md5 (take 4 (pkt_raw req) @ replicate 16 0 @ drop 20 (pkt_raw req) @ utf8_bytes secret))"
proof -
  have "20 \<le> length (pkt_raw req)"
    using decodePacket_Ok [OF assms] by (simp add: subarray_def)
  then show ?thesis by (simp add: computeRequestAuthenticator_def buf_fill0_Ok)
qed

lemma acct_response_signs:
  assumes digest: "\<forall>x. length (env_md5 env x) = 16" and req: "decodePacket msg = Inr req"
  shows "\<exists>reply p. signed_packet env ACCOUNTING_RESPONSE req secret False [] = Inr reply
     \<and> decodePacket reply = Inr p \<and> pkt_code p = ACCOUNTING_RESPONSE
     \<and> pkt_identifier p = pkt_identifier req \<and> pkt_attributes p = []
     \<and> pkt_authenticator p = env_md5 env (buf_copy (pkt_authenticator req) reply 4 @ utf8_bytes secret)"
proof -
  note p = decodePacket_Ok [OF req]
  have "20 \<le> length msg" using p(1,2) by simp
  then have ra: "length (pkt_authenticator req) = 16" and ident: "pkt_identifier req < 256"
    using p(3) by simp_all
  have "ACCOUNTING_RESPONSE < 256" by (simp add: code_defs)
  from plain_reply_signed [OF digest this ident ra, of "[]" "env_hmac env" secret]
  show ?thesis by (fastforce simp: signed_packet_def)
qed

lemma handleAcct_authentic:
  assumes "decodePacket msg = Inr req" and "pkt_code req = ACCOUNTING_REQUEST"
    and "dir s addr = (s', Inr (Some n))" and "secretFor (server_secret env) (Some n) = Some secret"
    and "acct_authentic env secret req"
    and "Option.bind (getInt (pkt_attributes req) (ATTR ACCT_STATUS_TYPE)) ACCT_STATUS = Some status"
  shows "handleAcct dir env msg addr (s, c) =
     (let c' = c\<lparr>acctRequests := acctRequests c + 1\<rparr> in
      case ingest env addr n req status of
        Inl _ \<Rightarrow> ((s', c'\<lparr>acctDropped := acctDropped c + 1\<rparr>), Dropped)
      | Inr _ \<Rightarrow> (case signed_packet env ACCOUNTING_RESPONSE req secret False [] of
          Inl e \<Rightarrow> ((s', c'\<lparr>acctIngested := acctIngested c + 1\<rparr>), Failed e)
        | Inr packet \<Rightarrow> ((s', c'\<lparr>acctIngested := acctIngested c + 1\<rparr>), Replied packet ())))"
proof -
  have "computeRequestAuthenticator (env_md5 env) (pkt_raw req) secret = Inr (pkt_authenticator req)"
    using acct_authenticator [OF assms(1)] assms(5) by (simp add: acct_authentic_def)
  then show ?thesis
    using assms(1-4,6) by (simp add: handleAcct_def Let_def del: ATTR.simps split: sum.split)
qed

text \<open>
  C24. Accounting is acknowledged exactly when stored. An Accounting-Request of a known NAS with
  a supported status whose Request Authenticator is the RFC 2866 digest is answered by a signed
  Accounting-Response with its identifier if the ingest succeeds; if it fails (including on a
  malformed prefix attribute) nothing is sent, so the NAS retries, and only the drop counter
  moves.
\<close>

theorem acct_ack_iff_stored:
  assumes "\<forall>x. length (env_md5 env x) = 16"
    and "decodePacket msg = Inr req" and "pkt_code req = ACCOUNTING_REQUEST"
    and "dir s addr = (s', Inr (Some n))" and "secretFor (server_secret env) (Some n) = Some secret"
    and "acct_authentic env secret req"
    and "Option.bind (getInt (pkt_attributes req) (ATTR ACCT_STATUS_TYPE)) ACCT_STATUS = Some status"
  shows "(case ingest env addr n req status of
      Inl _ \<Rightarrow> handleAcct dir env msg addr (s, c)
        = ((s', c\<lparr>acctRequests := acctRequests c + 1, acctDropped := acctDropped c + 1\<rparr>), Dropped)
    | Inr _ \<Rightarrow> \<exists>reply p. handleAcct dir env msg addr (s, c)
        = ((s', c\<lparr>acctRequests := acctRequests c + 1, acctIngested := acctIngested c + 1\<rparr>), Replied reply ())
        \<and> decodePacket reply = Inr p \<and> pkt_code p = ACCOUNTING_RESPONSE
        \<and> pkt_identifier p = pkt_identifier req
        \<and> pkt_authenticator p = env_md5 env (buf_copy (pkt_authenticator req) reply 4 @ utf8_bytes secret))"
proof -
  from acct_response_signs [OF assms(1,2), of secret] show ?thesis
    unfolding handleAcct_authentic [where dir = dir and s = s and addr = addr and c = c, OF assms(2-7)] Let_def by (fastforce split: sum.split)
qed

text \<open>
  No acknowledgement without authentication and storage: whenever a datagram is answered on
  the accounting port, it came from a NAS with a secret, its Request Authenticator is the digest
  under that secret, and the ingest of its status succeeded.
\<close>

theorem acct_ack_sound:
  assumes "handleAcct dir env msg addr (s, c) = ((s', c'), Replied reply u)"
  shows "\<exists>req n secret status. decodePacket msg = Inr req \<and> pkt_code req = ACCOUNTING_REQUEST
     \<and> dir s addr = (s', Inr (Some n)) \<and> secretFor (server_secret env) (Some n) = Some secret
     \<and> acct_authentic env secret req
     \<and> Option.bind (getInt (pkt_attributes req) (ATTR ACCT_STATUS_TYPE)) ACCT_STATUS = Some status
     \<and> ingest env addr n req status = Inr ()
     \<and> acctIngested c' = acctIngested c + 1 \<and> acctDropped c' = acctDropped c"
proof -
  obtain req where req: "decodePacket msg = Inr req" "pkt_code req = ACCOUNTING_REQUEST"
    using assms by (auto simp: handleAcct_def Let_def split: sum.splits if_splits)
  obtain t found where f: "dir s addr = (t, found)" by force
  obtain m where m: "found = Inr m"
    using assms req f by (cases found) (auto simp: handleAcct_def Let_def)
  obtain secret where secret: "secretFor (server_secret env) m = Some secret"
    using assms req f m by (cases "secretFor (server_secret env) m") (auto simp: handleAcct_def Let_def)
  then obtain n where n: "m = Some n" using secretFor_Some by blast
  have auth: "acct_authentic env secret req"
    using assms req f m secret acct_authenticator [OF req(1), of "env_md5 env" secret]
    by (auto simp: handleAcct_def Let_def acct_authentic_def split: if_splits)
  obtain status where st:
    "Option.bind (getInt (pkt_attributes req) (ATTR ACCT_STATUS_TYPE)) ACCT_STATUS = Some status"
    using assms req f m secret acct_authenticator [OF req(1), of "env_md5 env" secret]
    by (cases "Option.bind (getInt (pkt_attributes req) (ATTR ACCT_STATUS_TYPE)) ACCT_STATUS")
      (auto simp: handleAcct_def Let_def simp del: ATTR.simps split: if_splits)
  note handleAcct_authentic [where dir = dir and s = s and addr = addr and c = c,
      OF req f [unfolded m n] secret [unfolded n] auth st]
  then show ?thesis
    using assms req f m n secret auth st by (auto simp: Let_def split: sum.splits)
qed

definition demo_acct_attrs :: "rad_attr list" where
  "demo_acct_attrs = [\<lparr>attr_type = 40, attr_value = [0, 0, 0, 1]\<rparr>]"

definition demo_acct :: buffer where
  "demo_acct = [4, 9] @ be16 26 @ replicate 16 0 @ concat (map tlv_enc demo_acct_attrs)"

definition demo_acct_req :: rad_packet where
  "demo_acct_req = \<lparr>pkt_code = 4, pkt_identifier = 9, pkt_length = 26, pkt_authenticator = replicate 16 0,
     pkt_attributes = demo_acct_attrs, pkt_raw = demo_acct\<rparr>"

lemma demo_acct_facts:
  "decodePacket demo_acct = Inr demo_acct_req" "pkt_code demo_acct_req = ACCOUNTING_REQUEST"
  "acct_authentic demo_env ''s'' demo_acct_req"
  "Option.bind (getInt (pkt_attributes demo_acct_req) 40) ACCT_STATUS = Some ''Start''"
proof -
  show "decodePacket demo_acct = Inr demo_acct_req"
    using decodePacket_shape [of 4 9 "replicate 16 0" demo_acct_attrs]
    by (simp add: demo_acct_attrs_def demo_acct_def demo_acct_req_def tlv_ok_def tlv_enc_def)
qed (simp_all add: demo_acct_req_def code_defs acct_authentic_def demo_env_def demo_acct_attrs_def
       getInt_def getAttr_def readUInt32BE_def)

lemma demo_ingest: "ingest demo_env addr n demo_acct_req ''Start'' = Inr ()"
  by (simp add: ingest_def acct_fields_def demo_acct_req_def demo_acct_attrs_def getIpv6Prefix_def
      getAttr_def demo_env_def Let_def)

theorem acct_ack_iff_stored_witness:
  "\<exists>c' reply. handleAcct demo_dir demo_env demo_acct ''10.0.0.1'' ((), demo_counters)
       = (((), c'), Replied reply ()) \<and> acctIngested c' = 1"
  using acct_ack_iff_stored [of demo_env demo_acct demo_acct_req demo_dir "()" "''10.0.0.1''" "()" demo_nas
      "''s''" "''Start''" demo_counters] demo_facts demo_acct_facts demo_ingest
  by (auto simp: demo_counters_def)

theorem acct_ack_sound_witness:
  "\<exists>n secret. secretFor (server_secret demo_env) (Some n) = Some secret
     \<and> acct_authentic demo_env secret demo_acct_req"
proof -
  have "handleAcct demo_dir demo_env demo_acct ''10.0.0.1'' ((), demo_counters) =
      (case signed_packet demo_env ACCOUNTING_RESPONSE demo_acct_req ''s'' False [] of
          Inl e \<Rightarrow> (((), demo_counters\<lparr>acctRequests := 1, acctIngested := 1\<rparr>), Failed e)
        | Inr packet \<Rightarrow> (((), demo_counters\<lparr>acctRequests := 1, acctIngested := 1\<rparr>), Replied packet ()))"
    using handleAcct_authentic [of demo_acct demo_acct_req demo_dir "()" "''10.0.0.1''" "()" demo_nas
        demo_env "''s''" "''Start''" demo_counters] demo_facts demo_acct_facts
    by (simp add: demo_ingest demo_counters_def split: sum.split)
  moreover obtain reply where "signed_packet demo_env ACCOUNTING_RESPONSE demo_acct_req ''s'' False [] = Inr reply"
    using acct_response_signs [of demo_env demo_acct demo_acct_req "''s''"] demo_facts(1) demo_acct_facts(1)
    by auto
  ultimately have run: "handleAcct demo_dir demo_env demo_acct ''10.0.0.1'' ((), demo_counters) =
      (((), demo_counters\<lparr>acctRequests := 1, acctIngested := 1\<rparr>), Replied reply ())"
    by simp
  from acct_ack_sound [OF run] demo_acct_facts(1) show ?thesis by auto
qed

end
