(* ===== verification/CivilDate.thy ===== *)
theory CivilDate
  imports Prelude
begin

text \<open>
  The calendar arithmetic of the \<open>Date\<close> objects of ECMAScript, at midnight UTC: a date is its number
  of days since 1970-01-01, and the setters carry an excess of days or months over as MakeDay of the
  language specification does. Months count from 0.
\<close>

section \<open>Days, months and years\<close>

definition leap_year :: "int \<Rightarrow> bool" where
  "leap_year y \<longleftrightarrow> y mod 4 = 0 \<and> (y mod 100 \<noteq> 0 \<or> y mod 400 = 0)"

definition year_days :: "int \<Rightarrow> int" where
  "year_days y = (if leap_year y then 366 else 365)"

definition month_lengths :: "int \<Rightarrow> int list" where
  "month_lengths y = [31, if leap_year y then 29 else 28, 31, 30, 31, 30, 31, 31, 30, 31, 30, 31]"

definition month_days :: "int \<Rightarrow> nat \<Rightarrow> int" where
  "month_days y m = month_lengths y ! m"

definition month_offset :: "int \<Rightarrow> nat \<Rightarrow> int" where
  "month_offset y m = sum_list (take m (month_lengths y))"

definition day_from_year :: "int \<Rightarrow> int" where
  "day_from_year y = 365 * (y - 1970) + (y - 1969) div 4 - (y - 1901) div 100 + (y - 1601) div 400"

definition make_day :: "int \<Rightarrow> int \<Rightarrow> int \<Rightarrow> int" where
  "make_day y m d = (let y' = y + m div 12 in day_from_year y' + month_offset y' (nat (m mod 12)) + d - 1)"

definition year_of :: "int \<Rightarrow> int" where
  "year_of t = (let y = 1970 + (400 * t) div 146097 in
     if t < day_from_year y then y - 1 else if day_from_year (y + 1) \<le> t then y + 1 else y)"

definition month_of :: "int \<Rightarrow> nat" where
  "month_of t = (let y = year_of t in length (takeWhile (\<lambda>m. month_offset y (Suc m) \<le> t - day_from_year y) [0..<11]))"

definition date_of :: "int \<Rightarrow> int" where
  "date_of t = t - day_from_year (year_of t) - month_offset (year_of t) (month_of t) + 1"

definition set_date :: "int \<Rightarrow> int \<Rightarrow> int" where
  "set_date t d = make_day (year_of t) (int (month_of t)) d"

definition set_month :: "int \<Rightarrow> int \<Rightarrow> int" where
  "set_month t m = make_day (year_of t) m (date_of t)"

section \<open>Years follow each other\<close>

lemma div_succ: "0 < k \<Longrightarrow> (x + 1) div k = x div k + (if (x + 1) mod k = 0 then 1 else 0)" for x k :: int
proof -
  assume k: "0 < k"
  have x: "x = k * (x div k) + x mod k" "0 \<le> x mod k" "x mod k < k"
    using k by simp_all
  show ?thesis
  proof (cases "x mod k = k - 1")
    case True
    then have "x + 1 = k * (x div k + 1) + 0"
      using x(1) by (simp only: distrib_left mult_1_right add_0_right)
    then have "(x + 1) div k = x div k + 1" "(x + 1) mod k = 0"
      using int_div_pos_eq [of "x + 1" k "x div k + 1" 0] int_mod_pos_eq [of "x + 1" k "x div k + 1" 0] k by simp_all
    then show ?thesis by simp
  next
    case False
    then have e: "x + 1 = k * (x div k) + (x mod k + 1)" "x mod k + 1 < k"
      using x by linarith+
    then have "(x + 1) div k = x div k" "(x + 1) mod k = x mod k + 1"
      using int_div_pos_eq [of "x + 1" k "x div k" "x mod k + 1"] int_mod_pos_eq [of "x + 1" k "x div k" "x mod k + 1"] x(2) by simp_all
    then show ?thesis
      using x(2) by simp
  qed
qed

lemma day_from_next_year: "day_from_year (y + 1) = day_from_year y + year_days y"
proof -
  have dvd: "(y - c) mod k = 0 \<longleftrightarrow> y mod k = 0" if "k dvd c" for c k :: int
    using dvd_add_left_iff [OF that, of "y - c"] by (simp add: mod_eq_0_iff_dvd)
  have "(y - 1968) mod 4 = 0 \<longleftrightarrow> y mod 4 = 0" "(y - 1900) mod 100 = 0 \<longleftrightarrow> y mod 100 = 0" "(y - 1600) mod 400 = 0 \<longleftrightarrow> y mod 400 = 0"
    by (rule dvd, simp)+
  moreover have "y mod 400 = 0 \<Longrightarrow> y mod 100 = 0" "y mod 100 = 0 \<Longrightarrow> y mod 4 = 0"
    using dvd_trans [of 100 400 y] dvd_trans [of 4 100 y] by (simp_all add: mod_eq_0_iff_dvd)
  moreover have "(if p \<and> (\<not> q \<or> r) then 366 else 365 :: int) = 365 + (if p then 1 else 0) - (if q then 1 else 0) + (if r then 1 else 0)"
    if "r \<Longrightarrow> q" "q \<Longrightarrow> p" for p q r
    using that by (cases p; cases q; cases r) simp_all
  ultimately have d: "year_days y = 365 + (if (y - 1968) mod 4 = 0 then 1 else 0)
      - (if (y - 1900) mod 100 = 0 then 1 else 0) + (if (y - 1600) mod 400 = 0 then 1 else 0)"
    unfolding year_days_def leap_year_def by (simp only:)
  have step: "365 * (y + 1 - 1970) + (a + p) - (b + q) + (c + r) = 365 * (y - 1970) + a - b + c + (365 + p - q + r)" for a b c p q r :: int
    by simp
  have e: "y + 1 - 1969 = y - 1969 + 1" "y + 1 - 1901 = y - 1901 + 1" "y + 1 - 1601 = y - 1601 + 1"
    "y - 1969 + 1 = y - 1968" "y - 1901 + 1 = y - 1900" "y - 1601 + 1 = y - 1600"
    by simp_all
  have f: "(y + 1 - 1969) div 4 = (y - 1969) div 4 + (if (y - 1968) mod 4 = 0 then 1 else 0)"
    "(y + 1 - 1901) div 100 = (y - 1901) div 100 + (if (y - 1900) mod 100 = 0 then 1 else 0)"
    "(y + 1 - 1601) div 400 = (y - 1601) div 400 + (if (y - 1600) mod 400 = 0 then 1 else 0)"
    unfolding e(1-3) by (rule div_succ [THEN trans]; simp only: e)+
  show ?thesis
    unfolding day_from_year_def d f by (rule step)
qed

lemma year_of_bounds: "day_from_year (year_of t) \<le> t \<and> t < day_from_year (year_of t + 1)"
proof -
  define y where "y = 1970 + (400 * t) div 146097"
  have div: "k * (x div k) \<le> x" "x < k * (x div k) + k" if "0 < k" for x k :: int
    using mult_div_mod_eq [of k x] pos_mod_sign [OF that, of x] pos_mod_bound [OF that, of x] by linarith+
  have y: "146097 * (y - 1970) \<le> 400 * t" "400 * t < 146097 * (y - 1970) + 146097"
    using div [of 146097 "400 * t"] by (simp_all add: y_def)
  have lo: "365 * (y - 1 - 1970) + a - b + c \<le> t"
    if "4 * a \<le> y - 1 - 1969" "y - 1 - 1901 < 100 * b + 100" "400 * c \<le> y - 1 - 1601" for a b c
    using that y by (simp add: algebra_simps)
  have hi: "t < 365 * (y + 2 - 1970) + a - b + c"
    if "y + 2 - 1969 < 4 * a + 4" "100 * b \<le> y + 2 - 1901" "y + 2 - 1601 < 400 * c + 400" for a b c
    using that y by (simp add: algebra_simps)
  have "day_from_year (y - 1) \<le> t" "t < day_from_year (y + 2)"
    unfolding day_from_year_def by (rule lo hi; rule div; simp)+
  moreover have "y - 1 + 1 = y" "y + 1 + 1 = y + 2"
    by simp_all
  ultimately show ?thesis
    unfolding year_of_def Let_def y_def [symmetric] by (auto simp only: not_less not_le split: if_split)
qed

section \<open>Months\<close>

lemma length_month_lengths [simp]: "length (month_lengths y) = 12"
  by (simp add: month_lengths_def)

lemma month_offset_Suc: "m < 12 \<Longrightarrow> month_offset y (Suc m) = month_offset y m + month_days y m"
  by (simp add: month_offset_def month_days_def take_Suc_conv_app_nth)

lemma month_offset_year: "month_offset y 12 = year_days y"
  by (simp add: month_offset_def month_lengths_def year_days_def)

lemma month_of_less: "month_of t < 12"
  using length_takeWhile_le [of "\<lambda>m. month_offset (year_of t) (Suc m) \<le> t - day_from_year (year_of t)" "[0..<11]"]
  by (simp add: month_of_def Let_def)

lemma month_days_bounds: "m < 12 \<Longrightarrow> 28 \<le> month_days y m \<and> month_days y m \<le> 31"
  unfolding month_days_def month_lengths_def by (auto simp: less_Suc_eq numeral_eq_Suc)

lemma month_of_bounds:
  "month_offset (year_of t) (month_of t) \<le> t - day_from_year (year_of t)
   \<and> t - day_from_year (year_of t) < month_offset (year_of t) (Suc (month_of t))"
proof -
  let ?y = "year_of t" and ?r = "t - day_from_year (year_of t)"
  let ?P = "\<lambda>m. month_offset ?y (Suc m) \<le> ?r"
  have r: "0 \<le> ?r" "?r < year_days ?y"
    using year_of_bounds [of t] day_from_next_year [of ?y] by simp_all
  have m: "month_of t = length (takeWhile ?P [0..<11])"
    by (simp add: month_of_def Let_def)
  have lower: "month_offset ?y (month_of t) \<le> ?r"
  proof (cases "month_of t")
    case 0
    then show ?thesis using r by (simp add: month_offset_def)
  next
    case (Suc k)
    then have "k < length (takeWhile ?P [0..<11])"
      using m by simp
    then have "?P k"
      using nth_mem set_takeWhileD takeWhile_nth
      by (metis (no_types, lifting) add_0 length_takeWhile_le length_upt less_le_trans minus_nat.diff_0 nth_upt)
    then show ?thesis using Suc by simp
  qed
  have upper: "?r < month_offset ?y (Suc (month_of t))"
  proof (cases "month_of t < 11")
    case True
    then show ?thesis
      using nth_length_takeWhile [of ?P "[0..<11]"] m by simp
  next
    case False
    then have "month_of t = 11"
      using month_of_less [of t] by simp
    then show ?thesis
      using r month_offset_year [of ?y] by simp
  qed
  show ?thesis using lower upper by simp
qed

lemma date_of_bounds: "1 \<le> date_of t \<and> date_of t \<le> month_days (year_of t) (month_of t)"
  using month_of_bounds [of t] month_offset_Suc [OF month_of_less, of "year_of t" t] by (simp add: date_of_def)

text \<open>The fields of a date give the date back, and adding a month adds the days of the month.\<close>

lemma make_day_fields: "make_day (year_of t) (int (month_of t)) (date_of t) = t"
  using month_of_less [of t] by (simp add: make_day_def Let_def date_of_def)

lemma make_day_next_month:
  assumes "m < 12"
  shows "make_day y (int m + 1) d = make_day y (int m) d + month_days y m"
proof (cases "m = 11")
  case True
  then show ?thesis
    using day_from_next_year [of y] month_offset_Suc [of 11 y] month_offset_year [of y]
    by (simp add: make_day_def month_offset_def [of _ 0])
next
  case False
  have "(int m + 1) div 12 = 0" "(int m + 1) mod 12 = int m + 1" "nat (int m + 1) = Suc m"
    using False assms by simp_all
  then show ?thesis
    using assms month_offset_Suc [of m y] by (simp add: make_day_def)
qed

lemma set_month_next: "set_month t (int (month_of t) + 1) = t + month_days (year_of t) (month_of t)"
  using make_day_next_month [OF month_of_less, of "year_of t" t "date_of t"] make_day_fields [of t]
  by (simp add: set_month_def)

lemma set_date_shift: "set_date t (date_of t + k) = t + k"
  using make_day_fields [of t] by (simp add: set_date_def make_day_def Let_def)

section \<open>Fields of a day that is built from valid fields\<close>

lemma day_from_year_mono: "y \<le> z \<Longrightarrow> day_from_year y \<le> day_from_year z"
proof (induction z rule: int_ge_induct)
  case (step z)
  then show ?case
    using day_from_next_year [of z] by (simp add: year_days_def split: if_splits)
qed simp

lemma month_offset_mono: "m \<le> n \<Longrightarrow> n \<le> 12 \<Longrightarrow> month_offset y m \<le> month_offset y n"
proof (induction n)
  case (Suc n)
  then show ?case
    using month_offset_Suc [of n y] month_days_bounds [of n y] by (cases "m = Suc n") auto
qed simp

lemma year_of_unique: "day_from_year y \<le> t \<Longrightarrow> t < day_from_year (y + 1) \<Longrightarrow> year_of t = y"
  using year_of_bounds [of t] day_from_year_mono [of "y + 1" "year_of t"] day_from_year_mono [of "year_of t + 1" y]
  by linarith

lemma month_of_unique:
  assumes "m < 12" "month_offset (year_of t) m \<le> t - day_from_year (year_of t)" "t - day_from_year (year_of t) < month_offset (year_of t) (Suc m)"
  shows "month_of t = m"
proof -
  have "\<not> m < month_of t"
    using month_offset_mono [of "Suc m" "month_of t" "year_of t"] month_of_less [of t] month_of_bounds [of t] assms by fastforce
  moreover have "\<not> month_of t < m"
    using month_offset_mono [of "Suc (month_of t)" m "year_of t"] month_of_bounds [of t] assms by fastforce
  ultimately show ?thesis by simp
qed

lemma make_day_valid:
  assumes "m < 12" "1 \<le> d" "d \<le> month_days y m"
  shows "year_of (make_day y (int m) d) = y" and "month_of (make_day y (int m) d) = m" and "date_of (make_day y (int m) d) = d"
proof -
  have e: "make_day y (int m) d = day_from_year y + month_offset y m + d - 1"
    using assms(1) by (simp add: make_day_def)
  have "0 \<le> month_offset y m" "month_offset y (Suc m) \<le> year_days y"
    using month_offset_mono [of 0 m y] month_offset_mono [of "Suc m" 12 y] month_offset_year [of y] assms(1)
    by (simp_all add: month_offset_def)
  then show y: "year_of (make_day y (int m) d) = y"
    using e assms month_offset_Suc [of m y] day_from_next_year [of y] by (intro year_of_unique) simp_all
  show m: "month_of (make_day y (int m) d) = m"
    using e assms y month_offset_Suc [of m y] by (intro month_of_unique) simp_all
  show "date_of (make_day y (int m) d) = d"
    using e y m by (simp add: date_of_def)
qed

text \<open>A day of the month up to 28 stays when a month is added.\<close>

lemma next_month_same_day:
  assumes "date_of t \<le> 28"
  shows "date_of (set_month t (int (month_of t) + 1)) = date_of t"
proof (cases "month_of t = 11")
  case True
  have "make_day (year_of t) 12 (date_of t) = make_day (year_of t + 1) (int 0) (date_of t)"
    by (simp add: make_day_def)
  then show ?thesis
    using make_day_valid(3) [of 0 "date_of t" "year_of t + 1"] date_of_bounds [of t] month_days_bounds [of 0 "year_of t + 1"] assms True
    by (simp add: set_month_def)
next
  case False
  have m: "Suc (month_of t) < 12"
    using month_of_less [of t] False by simp
  then show ?thesis
    using make_day_valid(3) [OF m, of "date_of t" "year_of t"] date_of_bounds [of t] month_days_bounds [OF m, of "year_of t"] assms
    by (simp add: set_month_def add.commute)
qed

end
