(* ===== verification/UsageDelta.thy ===== *)
theory UsageDelta
  imports JsText CivilDate
begin

text \<open>
  The counter arithmetic of \<open>src/services/radiusAccountingService.js\<close>: combination of octets and
  gigawords, normalisation of timestamps and causes, and the usage an accepted accounting record
  adds. Instants are milliseconds since 1970, counters unsigned integers or NULL. A text supplied as
  Event-Timestamp is represented by what it denotes: its number when it is all digits, the instant of
  a timezone-qualified ISO 8601 text, or neither.
\<close>

section \<open>Counters and timestamps\<close>

definition MAX_SAFE :: int where
  "MAX_SAFE = 9007199254740991"

definition combineOctetsGigawords :: "nat option \<Rightarrow> nat option \<Rightarrow> nat result" where
  "combineOctetsGigawords octets gigawords =
     (let octs = (case octets of Some n \<Rightarrow> n | None \<Rightarrow> 0);
          g = (case gigawords of Some n \<Rightarrow> n | None \<Rightarrow> 0);
          sum = octs + g * 4294967296 in
      if MAX_SAFE < int octs \<or> MAX_SAFE < int g
      then Err ''RADIUS counters must be non-negative safe integers''
      else if MAX_SAFE < int sum
      then Err ''Combined RADIUS octet counter exceeds the supported safe-integer range''
      else Ok sum)"

datatype stack_type = StackV4 | StackV6 | StackDual

text \<open>A string that is neither null nor empty.\<close>

fun supplied :: "string option \<Rightarrow> bool" where
  "supplied None = False"
| "supplied (Some s) = (s \<noteq> [])"

definition deriveStackType :: "string option \<Rightarrow> string option \<Rightarrow> stack_type option" where
  "deriveStackType framedIp framedIpv6 =
     (if supplied framedIp \<and> supplied framedIpv6 then Some StackDual
      else if supplied framedIpv6 then Some StackV6
      else if supplied framedIp then Some StackV4 else None)"

datatype stamp = NoStamp | StampNumber int | StampIso int | StampOther

definition MAX_TIMESTAMP :: int where
  "MAX_TIMESTAMP = 2147483647000"

text \<open>The configured skew, \<open>None\<close> when the variable is not a number.\<close>

definition future_skew :: "int option \<Rightarrow> int" where
  "future_skew configured =
     (let v = (case configured of Some n \<Rightarrow> if n = 0 then 300 else n | None \<Rightarrow> 300) in min (max v 0) 3600)"

definition normalizeEventTimestamp :: "int option \<Rightarrow> int \<Rightarrow> stamp \<Rightarrow> int result" where
  "normalizeEventTimestamp skew now value =
     (let invalid = Err ''Invalid accounting event timestamp'';
          ranged = (\<lambda>t. if t < 0 \<or> MAX_TIMESTAMP < t \<or> now + future_skew skew * 1000 < t then invalid else Ok t) in
      case value of
        NoStamp \<Rightarrow> Ok now
      | StampNumber n \<Rightarrow> if n < - MAX_SAFE \<or> MAX_SAFE < n then invalid
                        else ranged (if n < 100000000000 then n * 1000 else n)
      | StampIso t \<Rightarrow> ranged t
      | StampOther \<Rightarrow> invalid)"

datatype cause = NoCause | CauseNumber int | CauseText string

definition TERMINATE_CAUSES :: "string list" where
  "TERMINATE_CAUSES =
     [''User-Request'', ''Lost-Carrier'', ''Lost-Service'', ''Idle-Timeout'', ''Session-Timeout'',
      ''Admin-Reset'', ''Admin-Reboot'', ''Port-Error'', ''NAS-Error'', ''NAS-Request'', ''NAS-Reboot'',
      ''Port-Unneeded'', ''Port-Preempted'', ''Port-Suspended'', ''Service-Unavailable'', ''Callback'',
      ''User-Error'', ''Host-Request'']"

text \<open>A text whose trimmed form is the decimal form of an integer counts as that number, as the source
  tests it by \<open>String(numeric)\<close>; such a text is supplied as \<open>CauseNumber\<close>.\<close>

definition normalizeTerminateCause :: "cause \<Rightarrow> string option result" where
  "normalizeTerminateCause value =
     (case value of
        NoCause \<Rightarrow> Ok None
      | CauseNumber n \<Rightarrow>
          if 1 \<le> n \<and> n \<le> 18 then Ok (Some (TERMINATE_CAUSES ! nat (n - 1)))
          else Ok (Some (''Code-'' @ show_int n))
      | CauseText s \<Rightarrow>
          if s = [] then Ok None
          else let t = js_trim s in
            if t = [] \<or> 64 < js_length t then Err ''Invalid Acct-Terminate-Cause'' else Ok (Some t))"

section \<open>The usage of one observation\<close>

datatype usage_field = BytesIn | BytesOut | PacketsIn | PacketsOut | Duration

definition USAGE_FIELDS :: "usage_field list" where
  "USAGE_FIELDS = [BytesIn, BytesOut, PacketsIn, PacketsOut, Duration]"

type_synonym readings = "usage_field \<Rightarrow> nat option"

datatype usage_anomaly =
  Nonzero_Start_Baseline | Missing_Start_Baseline | Counter_Reset | Utc_Month_Boundary_Estimate
| Utc_Daily_Allocation_Estimate

definition DAY_MS :: int where
  "DAY_MS = 86400000"

definition utcDate :: "int \<Rightarrow> int" where
  "utcDate t = t div DAY_MS"

definition utcMonth :: "int \<Rightarrow> int \<times> nat" where
  "utcMonth t = (year_of (utcDate t), month_of (utcDate t))"

text \<open>The delta of one field and whether it is a reset of the counter.\<close>

definition field_delta :: "bool \<Rightarrow> usage_field \<Rightarrow> nat option \<Rightarrow> nat option \<Rightarrow> nat \<times> bool" where
  "field_delta initializeBaseline f prior following =
     (case following of
        None \<Rightarrow> (0, False)
      | Some n \<Rightarrow>
          if initializeBaseline then (0, False)
          else case prior of
            None \<Rightarrow> (0, f = BytesIn \<or> f = BytesOut)
          | Some p \<Rightarrow> if n < p then (0, True) else (n - p, False))"

record usage_delta =
  ud_deltas :: "usage_field \<Rightarrow> nat"
  ud_nextSessionComplete :: bool
  ud_rowComplete :: bool
  ud_anomaly :: "usage_anomaly option"
  ud_sessionAnomalies :: nat
  ud_crossesMonth :: bool
  ud_previousEventAt :: "int option"

definition calculateUsageDelta ::
  "readings \<Rightarrow> readings \<Rightarrow> int option \<Rightarrow> int \<Rightarrow> bool \<Rightarrow> usage_anomaly option \<Rightarrow> bool \<Rightarrow> usage_delta" where
  "calculateUsageDelta previous current previousEventAt eventAt priorComplete baselineReason initializeBaseline =
     (let fd = (\<lambda>f. field_delta initializeBaseline f (previous f) (current f));
          counterReset = list_ex (\<lambda>f. snd (fd f)) USAGE_FIELDS;
          crossesDay = (case previousEventAt of Some p \<Rightarrow> utcDate p \<noteq> utcDate eventAt | None \<Rightarrow> False);
          crossesMonth = (case previousEventAt of Some p \<Rightarrow> utcMonth p \<noteq> utcMonth eventAt | None \<Rightarrow> False);
          complete = (priorComplete \<and> baselineReason = None \<and> \<not> counterReset);
          anomaly = (case baselineReason of Some r \<Rightarrow> Some r
            | None \<Rightarrow> if counterReset then Some Counter_Reset
                      else if crossesMonth then Some Utc_Month_Boundary_Estimate
                      else if crossesDay then Some Utc_Daily_Allocation_Estimate else None) in
      \<lparr>ud_deltas = (\<lambda>f. fst (fd f)), ud_nextSessionComplete = complete,
       ud_rowComplete = (complete \<and> \<not> crossesMonth), ud_anomaly = anomaly,
       ud_sessionAnomalies = (if baselineReason \<noteq> None \<or> counterReset then 1 else 0),
       ud_crossesMonth = crossesMonth, ud_previousEventAt = previousEventAt\<rparr>)"

end
