(* ===== verification/IpPools.thy ===== *)
theory IpPools
  imports JsText
begin

text \<open>
  Address pools: \<open>src/services/poolAssignmentService.js\<close> (address arithmetic, pool ranges,
  exclusions, overlap, assignment of the next free address or prefix) and the capacity and
  alerting of \<open>src/services/poolUtilizationService.js\<close>. Addresses are integers; IPv4 masks are
  computed on 32-bit words, as JavaScript's bit operators do (shift counts modulo 32), IPv6 ones
  on unbounded integers, as BigInt does. \<open>None\<close> is NaN for numbers and a thrown error for BigInt
  conversions. The two tables are lists of rows; \<open>INSERT\<close> enforces the unique key
  \<open>(ip_address, active_flag)\<close> of \<open>ip_assignments\<close> in \<open>database/schema.sql\<close>.
\<close>

section \<open>Rows\<close>

record pool =
  pool_id :: nat
  pool_org :: "nat option"
  pool_name :: string
  pool_v6 :: bool
  pool_network :: "string option"
  pool_mask :: "string option"
  pool_gateway :: "string option"
  pool_excluded :: "string option"
  pool_prefix_len :: nat
  pool_active :: bool
  pool_deleted :: bool
  pool_alerted :: "nat option"

record assignment =
  as_id :: nat
  as_pool :: nat
  as_org :: "nat option"
  as_ip :: string
  as_contract :: "nat option"
  as_client :: "nat option"
  as_type :: string
  as_status :: string
  as_deleted :: bool

record ip_db =
  pools :: "pool list"
  assignments :: "assignment list"
  next_id :: nat

record ip_range =
  lo :: int
  hi :: int
  plen :: "int option"

section \<open>IPv4\<close>

definition octet_step :: "int option \<Rightarrow> string \<Rightarrow> int option" where
  "octet_step acc octet =
     (case (acc, parse_int10 octet) of (Some a, Some v) \<Rightarrow> Some (a * 256 + v) | _ \<Rightarrow> None)"

definition ipv4ToInt :: "string \<Rightarrow> int" where
  "ipv4ToInt ip =
     (case foldl octet_step (Some 0) (js_split CHR ''.'' ip) of
        None \<Rightarrow> 0 | Some z \<Rightarrow> z mod 4294967296)"

definition intToIpv4 :: "int \<Rightarrow> string" where
  "intToIpv4 n =
     (let w = word_of_int n :: 32 word in
      js_join ''.'' (map (\<lambda>k. show_nat (unat (drop_bit k w AND 255))) [24, 16, 8, 0]))"

function count_bits :: "nat \<Rightarrow> nat \<Rightarrow> nat" where
  "count_bits m c = (if m = 0 then c else count_bits (m div 2) (c + m mod 2))"
  by pat_completeness auto
termination by (relation "measure fst") auto

declare count_bits.simps [simp del]

definition parseCidrPrefixLen :: "string option \<Rightarrow> int option" where
  "parseCidrPrefixLen subnetMask =
     (case subnetMask of
        None \<Rightarrow> Some 32
      | Some s \<Rightarrow>
          if s = [] then Some 32
          else let t = js_trim s in
            if starts_with t ''/'' then parse_int10 (drop 1 t)
            else if (length t = 1 \<or> length t = 2) \<and> list_all is_digit t then parse_int10 t
            else Some (int (count_bits (nat (ipv4ToInt t)) 0)))"

text \<open>\<open>(0xffffffff << hostBits) >>> 0\<close>, with the special case of 32 host bits.\<close>

definition shift_count :: "int option \<Rightarrow> nat" where
  "shift_count n = (case n of None \<Rightarrow> 0 | Some k \<Rightarrow> nat (k mod 32))"

definition ipv4_mask :: "int option \<Rightarrow> 32 word" where
  "ipv4_mask prefixLen =
     (let hostBits = map_option (\<lambda>p. 32 - p) prefixLen in
      if hostBits = Some 32 then 0 else push_bit (shift_count hostBits) (- 1))"

definition ipv4_range :: "string \<Rightarrow> int option \<Rightarrow> ip_range" where
  "ipv4_range addr prefixLen =
     (let mask = ipv4_mask prefixLen;
          network = (word_of_int (ipv4ToInt addr) :: 32 word) AND mask
      in \<lparr>lo = uint network, hi = uint (network OR NOT mask), plen = prefixLen\<rparr>)"

definition parseIpv4Pool :: "pool \<Rightarrow> ip_range option" where
  "parseIpv4Pool p =
     (case pool_network p of
        None \<Rightarrow> None
      | Some net \<Rightarrow>
          if CHR ''/'' \<in> set net
          then (let parts = js_split CHR ''/'' net
                in Some (ipv4_range (js_trim (parts ! 0)) (parse_int10 (parts ! 1))))
          else Some (ipv4_range net (parseCidrPrefixLen (pool_mask p))))"

text \<open>\<open>split(/[\n,]+/)\<close>, trimmed, empty entries dropped.\<close>

definition excluded_entries :: "string option \<Rightarrow> string list" where
  "excluded_entries ranges =
     (case ranges of
        None \<Rightarrow> []
      | Some s \<Rightarrow> filter (\<lambda>e. e \<noteq> [])
          (map js_trim (js_split CHR '','' (map (\<lambda>c. if c = CHR 0x0A then CHR '','' else c) s))))"

definition ipv4_entry_covers :: "int \<Rightarrow> string \<Rightarrow> bool" where
  "ipv4_entry_covers ipInt entry =
     (if CHR ''/'' \<in> set entry
      then (let parts = js_split CHR ''/'' entry;
                r = ipv4_range (js_trim (parts ! 0)) (parse_int10 (parts ! 1))
            in lo r \<le> ipInt \<and> ipInt \<le> hi r)
      else ipv4ToInt entry = ipInt)"

definition isIpv4Excluded :: "int \<Rightarrow> string option \<Rightarrow> bool" where
  "isIpv4Excluded ipInt ranges \<longleftrightarrow> list_ex (ipv4_entry_covers ipInt) (excluded_entries ranges)"

section \<open>IPv6\<close>

text \<open>\<open>Array(missing)\<close> throws on a negative length, \<open>BigInt(NaN)\<close> throws.\<close>

definition expand_halves :: "string \<Rightarrow> string list option" where
  "expand_halves ip =
     (if \<not> has_colons ip then Some (js_split CHR '':'' ip)
      else let halves = split_colons ip;
               part = (\<lambda>h. if h = [] then [] else js_split CHR '':'' h);
               left = part (halves ! 0); right = part (halves ! 1);
               missing = 8 - int (length left) - int (length right)
        in if missing < 0 then None
           else Some (js_split CHR '':''
                  (js_join '':'' (left @ replicate (nat missing) ''0000'' @ right))))"

definition group_step :: "int option \<Rightarrow> string \<Rightarrow> int option" where
  "group_step acc g =
     (case (acc, parse_int16 (if g = [] then ''0'' else g)) of
        (Some a, Some v) \<Rightarrow> Some (push_bit 16 a OR v) | _ \<Rightarrow> None)"

definition ipv6ToBigInt :: "string \<Rightarrow> int option" where
  "ipv6ToBigInt ip =
     (case expand_halves ip of None \<Rightarrow> None | Some groups \<Rightarrow> foldl group_step (Some 0) groups)"

definition bigIntToIpv6 :: "int \<Rightarrow> string" where
  "bigIntToIpv6 n =
     js_join '':'' (map (\<lambda>k. pad_start 4 CHR ''0''
       (show_hex (nat (drop_bit (16 * k) n AND 65535)))) [7, 6, 5, 4, 3, 2, 1, 0])"

text \<open>\<open>1n << BigInt(h)\<close>: a negative count shifts right, to 0.\<close>

definition one_shl :: "int \<Rightarrow> int" where
  "one_shl h = (if 0 \<le> h then push_bit (nat h) 1 else 0)"

definition ipv6_mask :: "int \<Rightarrow> int" where
  "ipv6_mask prefixLen =
     (let hostBits = 128 - prefixLen in
      if hostBits = 128 then 0 else NOT (one_shl hostBits - 1) AND (one_shl 128 - 1))"

definition ipv6_range :: "string \<Rightarrow> int option \<Rightarrow> ip_range option" where
  "ipv6_range addr prefixLen =
     (case (ipv6ToBigInt addr, prefixLen) of
        (Some a, Some p) \<Rightarrow>
          (let network = a AND ipv6_mask p
           in Some \<lparr>lo = network, hi = network OR (one_shl (128 - p) - 1), plen = prefixLen\<rparr>)
      | _ \<Rightarrow> None)"

definition parseIpv6Pool :: "pool \<Rightarrow> ip_range option" where
  "parseIpv6Pool p =
     (case pool_network p of
        None \<Rightarrow> None
      | Some net \<Rightarrow>
          if CHR ''/'' \<notin> set net then None
          else (let parts = js_split CHR ''/'' net
                in ipv6_range (js_trim (parts ! 0)) (parse_int10 (parts ! 1))))"

definition ipv6_entry_covers :: "int \<Rightarrow> string \<Rightarrow> bool" where
  "ipv6_entry_covers ipBig entry =
     (if CHR ''/'' \<in> set entry
      then (let parts = js_split CHR ''/'' entry in
            case ipv6_range (js_trim (parts ! 0)) (parse_int10 (parts ! 1)) of
              None \<Rightarrow> False | Some r \<Rightarrow> lo r \<le> ipBig \<and> ipBig \<le> hi r)
      else ipv6ToBigInt entry = Some ipBig)"

definition isIpv6Excluded :: "int \<Rightarrow> string option \<Rightarrow> bool" where
  "isIpv6Excluded ipBig ranges \<longleftrightarrow> list_ex (ipv6_entry_covers ipBig) (excluded_entries ranges)"

section \<open>Overlap\<close>

definition pool_range :: "bool \<Rightarrow> pool \<Rightarrow> ip_range option" where
  "pool_range v6 p = (if v6 then parseIpv6Pool p else parseIpv4Pool p)"

definition overlaps_peer :: "pool \<Rightarrow> pool \<Rightarrow> bool" where
  "overlaps_peer p peer =
     (case (pool_range (pool_v6 p) p, pool_range (pool_v6 p) peer) of
        (Some a, Some b) \<Rightarrow> lo a \<le> hi b \<and> hi a \<ge> lo b | _ \<Rightarrow> False)"

definition peers_of :: "ip_db \<Rightarrow> pool \<Rightarrow> nat option \<Rightarrow> pool list" where
  "peers_of db p excludePoolId =
     filter (\<lambda>q. \<not> pool_deleted q \<and> pool_v6 q = pool_v6 p
               \<and> pool_org p \<noteq> None \<and> pool_org q = pool_org p
               \<and> (case excludePoolId of None \<Rightarrow> True | Some i \<Rightarrow> i = 0 \<or> pool_id q \<noteq> i)) (pools db)"

definition detectOverlap :: "ip_db \<Rightarrow> pool \<Rightarrow> nat option \<Rightarrow> pool option" where
  "detectOverlap db p excludePoolId = find (overlaps_peer p) (peers_of db p excludePoolId)"

datatype ip_error = Http nat string | Dup_Entry

definition assertNoOverlap :: "ip_db \<Rightarrow> pool \<Rightarrow> nat option \<Rightarrow> ip_error + unit" where
  "assertNoOverlap db p excludePoolId =
     (case detectOverlap db p excludePoolId of
        None \<Rightarrow> Inr ()
      | Some c \<Rightarrow> Inl (Http 409 (''Pool overlaps with existing pool \"'' @ pool_name c @ ''\" (''
                            @ (case pool_network c of None \<Rightarrow> ''null'' | Some s \<Rightarrow> s) @ '')'')))"

section \<open>Assignment\<close>

record assign_opts =
  opt_contract :: "nat option"
  opt_client :: "nat option"
  opt_type :: string

definition taken_in :: "ip_db \<Rightarrow> nat \<Rightarrow> string \<Rightarrow> bool" where
  "taken_in db poolId ip \<longleftrightarrow>
     list_ex (\<lambda>a. as_pool a = poolId \<and> \<not> as_deleted a \<and> as_status a \<noteq> ''expired'' \<and> as_ip a = ip)
       (assignments db)"

definition or_null :: "nat option \<Rightarrow> nat option" where
  "or_null x = (if x = Some 0 then None else x)"

definition insert_assignment ::
  "ip_db \<Rightarrow> pool \<Rightarrow> string \<Rightarrow> assign_opts \<Rightarrow> ip_error + (ip_db \<times> assignment)" where
  "insert_assignment db p candidate opts =
     (if list_ex (\<lambda>a. \<not> as_deleted a \<and> as_ip a = candidate) (assignments db) then Inl Dup_Entry
      else let row = \<lparr>as_id = next_id db, as_pool = pool_id p, as_org = pool_org p, as_ip = candidate,
                      as_contract = or_null (opt_contract opts), as_client = or_null (opt_client opts),
                      as_type = opt_type opts, as_status = ''active'', as_deleted = False\<rparr>
        in Inr (db\<lparr>assignments := assignments db @ [row], next_id := next_id db + 1\<rparr>, row))"

text \<open>
  The search loops: candidates \<open>i\<close>, \<open>i + step\<close>, ... while the block starting there ends at or
  before \<open>last\<close>. \<open>None\<close> is a loop that does not return, \<open>Some None\<close> an exhausted range. The IPv4
  loop \<open>i < broadcast\<close> is the case of step 1 and last address \<open>broadcast - 1\<close>.
\<close>

partial_function (option) scan ::
  "(int \<Rightarrow> bool) \<Rightarrow> int \<Rightarrow> int \<Rightarrow> int \<Rightarrow> int option option" where
  "scan skip step last' i =
     (if i + step - 1 \<le> last' then
        (if skip i then scan skip step last' (i + step) else Some (Some i))
      else Some None)"

definition skip_ipv4 :: "ip_db \<Rightarrow> pool \<Rightarrow> int \<Rightarrow> bool" where
  "skip_ipv4 db p i \<longleftrightarrow>
     (case pool_gateway p of None \<Rightarrow> False | Some g \<Rightarrow> g \<noteq> [] \<and> i = ipv4ToInt g)
     \<or> isIpv4Excluded i (pool_excluded p)
     \<or> taken_in db (pool_id p) (intToIpv4 i)"

definition assignNextFreeIpv4 ::
  "ip_db \<Rightarrow> pool \<Rightarrow> assign_opts \<Rightarrow> (ip_error + (ip_db \<times> assignment)) option" where
  "assignNextFreeIpv4 db p opts =
     (case parseIpv4Pool p of
        None \<Rightarrow> Some (Inl (Http 422 ''Unable to parse IPv4 pool''))
      | Some r \<Rightarrow>
          (case scan (skip_ipv4 db p) 1 (hi r - 1) (lo r + 1) of
             None \<Rightarrow> None
           | Some None \<Rightarrow> Some (Inl (Http 422 ''No free IPv4 addresses available in pool''))
           | Some (Some i) \<Rightarrow> Some (insert_assignment db p (intToIpv4 i) opts)))"

definition prefix_text :: "pool \<Rightarrow> int \<Rightarrow> string" where
  "prefix_text p i = bigIntToIpv6 i @ ''/'' @ show_nat (pool_prefix_len p)"

definition skip_ipv6 :: "ip_db \<Rightarrow> pool \<Rightarrow> int \<Rightarrow> bool" where
  "skip_ipv6 db p i \<longleftrightarrow>
     isIpv6Excluded i (pool_excluded p)
     \<or> taken_in db (pool_id p) (prefix_text p i) \<or> taken_in db (pool_id p) (bigIntToIpv6 i)"

definition block_size :: "pool \<Rightarrow> int" where
  "block_size p = one_shl (128 - int (pool_prefix_len p))"

definition assignNextFreeIpv6Prefix ::
  "ip_db \<Rightarrow> pool \<Rightarrow> assign_opts \<Rightarrow> (ip_error + (ip_db \<times> assignment)) option" where
  "assignNextFreeIpv6Prefix db p opts =
     (case parseIpv6Pool p of
        None \<Rightarrow> Some (Inl (Http 422 ''Unable to parse IPv6 pool''))
      | Some r \<Rightarrow>
          if pool_prefix_len p = 0
          then Some (Inl (Http 422 ''Pool missing default_prefix_len for IPv6 prefix delegation''))
          else (case scan (skip_ipv6 db p) (block_size p) (hi r) (lo r) of
                  None \<Rightarrow> None
                | Some None \<Rightarrow> Some (Inl (Http 422 ''No free IPv6 prefixes available in pool''))
                | Some (Some i) \<Rightarrow> Some (insert_assignment db p (prefix_text p i) opts)))"

definition assignNextFreeIp ::
  "ip_db \<Rightarrow> nat \<Rightarrow> assign_opts \<Rightarrow> (ip_error + (ip_db \<times> assignment)) option" where
  "assignNextFreeIp db poolId opts =
     (case find (\<lambda>p. pool_id p = poolId \<and> \<not> pool_deleted p) (pools db) of
        None \<Rightarrow> Some (Inl (Http 404 ''Pool not found''))
      | Some p \<Rightarrow> if pool_v6 p then assignNextFreeIpv6Prefix db p opts
                 else assignNextFreeIpv4 db p opts)"

section \<open>Capacity and alerts\<close>

text \<open>\<open>None\<close> is the RangeError of a BigInt division by zero (a prefix length beyond 128).\<close>

definition computeUsableCount :: "pool \<Rightarrow> int option" where
  "computeUsableCount p =
     (if pool_v6 p then
        (if pool_prefix_len p = 0 then Some 0
         else (case parseIpv6Pool p of
                 None \<Rightarrow> Some 0
               | Some r \<Rightarrow>
                   if block_size p = 0 then None
                   else Some (min ((hi r - lo r + 1) div block_size p) 9007199254740991)))
      else (case parseIpv4Pool p of None \<Rightarrow> Some 0 | Some r \<Rightarrow> Some (max 0 (hi r - lo r - 1))))"

record threshold_event =
  ev_org :: "nat option"
  ev_pool :: nat
  ev_percent :: int
  ev_threshold :: nat
  ev_assigned :: nat
  ev_usable :: int

text \<open>\<open>Math.round((assigned / usable) * 100)\<close> on exact quotients.\<close>

definition percent_used :: "nat \<Rightarrow> int \<Rightarrow> int" where
  "percent_used assigned usable = (200 * int assigned + usable) div (2 * usable)"

definition threshold_for :: "int \<Rightarrow> nat option" where
  "threshold_for percent = (if percent \<ge> 90 then Some 90 else if percent \<ge> 75 then Some 75 else None)"

definition assigned_count :: "ip_db \<Rightarrow> nat \<Rightarrow> nat" where
  "assigned_count db poolId =
     length (filter (\<lambda>a. as_pool a = poolId \<and> \<not> as_deleted a \<and> as_status a \<noteq> ''expired'') (assignments db))"

definition check_pool :: "ip_db \<Rightarrow> pool \<Rightarrow> pool \<times> threshold_event list" where
  "check_pool db p =
     (let assigned = assigned_count db (pool_id p) in
      case computeUsableCount p of
        None \<Rightarrow> (p, [])
      | Some usable \<Rightarrow>
          if usable = 0 then (p, [])
          else let percent = percent_used assigned usable; threshold = threshold_for percent in
            (case threshold of
               Some t \<Rightarrow>
                 if threshold \<noteq> pool_alerted p
                 then (p\<lparr>pool_alerted := Some t\<rparr>,
                       [\<lparr>ev_org = pool_org p, ev_pool = pool_id p, ev_percent = percent,
                         ev_threshold = t, ev_assigned = assigned, ev_usable = usable\<rparr>])
                 else (p, [])
             | None \<Rightarrow>
                 if pool_alerted p \<noteq> None then (p\<lparr>pool_alerted := None\<rparr>, []) else (p, [])))"

definition checkAllPoolUtilization :: "ip_db \<Rightarrow> ip_db \<times> threshold_event list \<times> nat" where
  "checkAllPoolUtilization db =
     (let checked = filter (\<lambda>p. \<not> pool_deleted p \<and> pool_active p) (pools db);
          results = map (\<lambda>p. if \<not> pool_deleted p \<and> pool_active p then check_pool db p else (p, []))
                      (pools db)
      in (db\<lparr>pools := map fst results\<rparr>, concat (map snd results), length checked))"

end
