(* ===== verification/AddressText.thy ===== *)
theory AddressText
  imports IpPools
begin

text \<open>
  The texts of IPv4 and IPv6 addresses round trip with their numbers. The locale states what the
  allocation needs of an address text; it is interpreted on the two conversions of
  \<open>poolAssignmentService.js\<close>.
\<close>

section \<open>Address texts\<close>

text \<open>A numbering of addresses with a text for each: reading back what was shown gives the number.\<close>

locale address_text =
  fixes size' :: int
    and show_addr :: "int \<Rightarrow> string"
    and read_addr :: "string \<Rightarrow> int option"
  assumes read_show: "0 \<le> n \<Longrightarrow> n < size' \<Longrightarrow> read_addr (show_addr n) = Some n"
begin

lemma show_inj:
  assumes "0 \<le> m" "m < size'" "0 \<le> n" "n < size'" and "show_addr m = show_addr n"
  shows "m = n"
proof -
  have "Some m = read_addr (show_addr m)" using read_show [OF assms(1,2)] by (rule sym)
  also have "\<dots> = Some n" unfolding assms(5) by (rule read_show [OF assms(3,4)])
  finally show ?thesis by (rule option.inject [THEN iffD1])
qed

end

lemma byte_of_word:
  "unat (drop_bit k (w :: 32 word) AND 255) = unat w div 2 ^ k mod 256"
proof -
  have "drop_bit k w AND 255 = take_bit 8 (drop_bit k w)"
    by (simp add: take_bit_eq_mask mask_eq_exp_minus_1)
  then have "unat (drop_bit k w AND 255) = take_bit 8 (drop_bit k (take_bit 32 (unat w)))"
    by (simp only: unsigned_take_bit_eq unsigned_drop_bit_eq) simp
  also have "take_bit 32 (unat w) = unat w"
  proof -
    have "unat w < 4294967296" using unsigned_less [of w] by simp
    then show ?thesis by (simp add: take_bit_eq_mod)
  qed
  finally show ?thesis by (simp add: drop_bit_eq_div take_bit_eq_mod)
qed

lemma ipv4ToInt_octets:
  assumes "\<forall>o'\<in>set os. o' < 256" and "length os = 4"
  shows "ipv4ToInt (js_join ''.'' (map show_nat os))
     = ((int (os ! 0) * 256 + int (os ! 1)) * 256 + int (os ! 2)) * 256 + int (os ! 3)"
proof -
  obtain a b c d where os: "os = [a, b, c, d]"
    using assms(2) by (auto simp: numeral_eq_Suc length_Suc_conv)
  have split: "js_split CHR ''.'' (js_join ''.'' (map show_nat os)) = map show_nat os"
    by (intro js_split_join) (simp_all add: os)
  have "a < 256" "b < 256" "c < 256" "d < 256" using assms(1) os by auto
  then show ?thesis
    unfolding ipv4ToInt_def split by (simp add: os octet_step_def)
qed

lemma ipv4_text_roundtrip:
  assumes "0 \<le> n" and "n < 4294967296"
  shows "ipv4ToInt (intToIpv4 n) = n"
proof -
  let ?k = "unat (word_of_int n :: 32 word)"
  have k: "int ?k = n" using assms by (simp add: uint_word_of_int flip: uint_nat) 
  let ?os = "map (\<lambda>j. ?k div 2 ^ j mod 256) [24, 16, 8, 0]"
  have "intToIpv4 n = js_join ''.'' (map show_nat ?os)"
    by (simp add: intToIpv4_def Let_def byte_of_word)
  then have "ipv4ToInt (intToIpv4 n) = int (((?k div 2 ^ 24 mod 256 * 256 + ?k div 2 ^ 16 mod 256) * 256
      + ?k div 2 ^ 8 mod 256) * 256 + ?k mod 256)"
    using ipv4ToInt_octets [of ?os] by simp
  also have "((?k div 2 ^ 24 mod 256 * 256 + ?k div 2 ^ 16 mod 256) * 256
      + ?k div 2 ^ 8 mod 256) * 256 + ?k mod 256 = ?k"
  proof -
    have "?k < 2 ^ 32" using unsigned_less [of "word_of_int n :: 32 word"] by simp
    then show ?thesis using bytes4_value [of ?k] by simp
  qed
  finally show ?thesis using k by simp
qed

interpretation ipv4: address_text 4294967296 intToIpv4 "\<lambda>s. Some (ipv4ToInt s)"
  by unfold_locales (simp add: ipv4_text_roundtrip)

section \<open>IPv6 texts\<close>

lemma foldl_digits:
  "foldl (\<lambda>a v. a * B + v) acc (map (\<lambda>k. n div B ^ k mod B) (rev [0..<m])) = acc * B ^ m + n mod B ^ m"
  if "0 < B" for B n acc :: int
proof (induction m arbitrary: acc)
  case 0
  then show ?case by simp
next
  case (Suc m)
  have "n mod (B ^ m * B) = B ^ m * (n div B ^ m mod B) + n mod B ^ m"
    using that by (intro zmod_zmult2_eq) simp
  then show ?case
    using Suc [of "acc * B + n div B ^ m mod B"] by (simp add: algebra_simps)
qed

lemma or_low_bits:
  assumes "0 \<le> v" and "v < 65536"
  shows "push_bit 16 a OR v = a * 65536 + (v :: int)"
proof -
  have "v = take_bit 16 v" using assms by (simp add: take_bit_eq_mod)
  then have "\<not> bit (push_bit 16 a) k \<or> \<not> bit v k" for k
    by (metis bit_push_bit_iff bit_take_bit_iff linorder_not_le)
  then show ?thesis
    by (subst disjunctive_add_eq_or [symmetric]) (auto simp: push_bit_eq_mult bit_eq_iff bit_simps)
qed

lemma hexes_val_zeros: "hexes_val (replicate k CHR ''0'' @ s) = hexes_val s"
  by (induction k) (simp_all add: hexes_val_def hex_val_def code_def)

lemma hex_no_space: "is_hex c \<Longrightarrow> no_space_start (c # cs)"
  by (auto simp: is_hex_def is_digit_def no_space_start_def)

lemma parse_int16_hexes:
  assumes "ds \<noteq> []" and "\<forall>c\<in>set ds. is_hex c"
  shows "parse_int16 ds = Some (int (hexes_val ds))"
proof -
  obtain c cs where ds: "ds = c # cs" and c: "is_hex c" using assms by (cases ds) auto
  have "js_trim_left ds = ds" using hex_no_space [OF c] by (simp add: ds)
  moreover have "take_sign ds = (1, ds)"
    using c by (auto simp: ds take_sign_def is_hex_def is_digit_def code_def)
  moreover have "take 2 ds \<noteq> [CHR ''0'', x]" if "\<not> is_hex x" for x
    using assms(2) that by (cases cs) (auto simp: ds)
  moreover have "\<not> is_hex CHR ''x''" "\<not> is_hex CHR ''X''"
    by (simp_all add: is_hex_def is_digit_def code_def)
  moreover have tw: "takeWhile is_hex ds = ds"
    using assms(2) by (simp only: takeWhile_eq_all_conv)
  ultimately show ?thesis using assms(1) by (simp add: parse_int16_def Let_def tw)
qed

definition hex_group :: "int \<Rightarrow> string" where
  "hex_group v = pad_start 4 CHR ''0'' (show_hex (nat v))"

lemma zero_is_hex [simp]: "is_hex CHR ''0''"
  by (simp add: is_hex_def is_digit_def code_def)

lemma hex_group_hexes: "hex_group v \<noteq> []" "\<forall>c\<in>set (hex_group v). is_hex c"
  using show_hex_hexes [of "nat v"] by (auto simp: hex_group_def pad_start_def)

lemma hex_group_parse: "0 \<le> v \<Longrightarrow> parse_int16 (hex_group v) = Some v"
  using parse_int16_hexes [OF hex_group_hexes, of v] by (simp add: hex_group_def pad_start_def hexes_val_zeros)

lemma hex_group_no_colon: "CHR '':'' \<notin> set (hex_group v)"
  using hex_group_hexes(2) [of v] by (auto simp: is_hex_def is_digit_def code_def)

lemma has_colons_append:
  "w \<noteq> [] \<Longrightarrow> CHR '':'' \<notin> set w \<Longrightarrow> has_colons (w @ rest) = has_colons (last w # rest)"
  by (induction w rule: has_colons.induct) auto

lemma has_colons_word: "CHR '':'' \<notin> set w \<Longrightarrow> \<not> has_colons w"
  by (induction w rule: has_colons.induct) auto

lemma no_colons_join:
  "\<forall>w\<in>set ws. w \<noteq> [] \<and> CHR '':'' \<notin> set w \<Longrightarrow> \<not> has_colons (js_join '':'' ws)"
proof (induction "'':''" ws rule: js_join.induct)
  case 1
  then show ?case by simp
next
  case (2 w)
  then show ?case by (simp add: has_colons_word)
next
  case (3 w v ws)
  have "last w \<noteq> CHR '':''" using "3.prems" last_in_set [of w] by fastforce
  moreover obtain c cs where "js_join '':'' (v # ws) = c # cs" "c \<noteq> CHR '':''"
    using "3.prems" by (cases v; cases ws) auto
  ultimately show ?case using 3 by (simp add: has_colons_append)
qed

lemma group_foldl:
  "\<forall>v\<in>set vs. 0 \<le> v \<and> v < 65536 \<Longrightarrow>
   foldl group_step (Some a) (map hex_group vs) = Some (foldl (\<lambda>a v. a * 65536 + v) a vs)"
proof (induction vs arbitrary: a)
  case (Cons v vs)
  then show ?case
    using hex_group_hexes(1) [of v]
    by (simp add: group_step_def hex_group_parse or_low_bits)
qed simp

lemma ipv6_text_roundtrip:
  assumes "0 \<le> n" and "n < 2 ^ 128"
  shows "ipv6ToBigInt (bigIntToIpv6 n) = Some n"
proof -
  let ?vs = "map (\<lambda>k. n div 65536 ^ k mod 65536) (rev [0..<8])"
  have part: "drop_bit (16 * k) n AND 65535 = n div 65536 ^ k mod 65536" for k
    using take_bit_eq_mask [of 16 "drop_bit (16 * k) n"]
    by (simp add: mask_eq_exp_minus_1 take_bit_eq_mod drop_bit_eq_div power_mult)
  have eights: "rev [0..<8] = [7, 6, 5, 4, 3, 2, 1, 0 :: nat]" by (simp add: upt_rec)
  have shown: "bigIntToIpv6 n = js_join '':'' (map hex_group ?vs)"
    unfolding bigIntToIpv6_def part eights hex_group_def by simp
  have groups: "expand_halves (bigIntToIpv6 n) = Some (map hex_group ?vs)"
    unfolding shown expand_halves_def
    using no_colons_join [of "map hex_group ?vs"] hex_group_hexes(1) hex_group_no_colon
      js_split_join [of "map hex_group ?vs" "CHR '':''"]
    by auto
  have "foldl (\<lambda>a v. a * 65536 + v) 0 ?vs = 0 * 65536 ^ 8 + n mod 65536 ^ 8"
    by (rule foldl_digits) simp
  also have "\<dots> = n" using assms by simp
  finally show ?thesis
    using group_foldl [of ?vs 0] groups by (simp add: ipv6ToBigInt_def)
qed

interpretation ipv6: address_text "2 ^ 128" bigIntToIpv6 ipv6ToBigInt
  by unfold_locales (rule ipv6_text_roundtrip)

end
