(* ===== verification/IpAllowlist.thy ===== *)
theory IpAllowlist
  imports AddressText
begin

text \<open>
  The admin IP allowlist, \<open>src/middleware/ipAllowlist.js\<close>: strict dotted-quad parsing, the
  normalisation of client addresses, entries and lists, the test and the middleware. Addresses,
  networks and masks are 32-bit words: every intermediate value of the source is either below
  $2^{32}$ or passed through \<open>>>> 0\<close>. \<open>None\<close> is the source's \<open>null\<close>.
\<close>

section \<open>Addresses\<close>

type_synonym addr32 = "32 word"

definition strict_octet :: "string \<Rightarrow> addr32 option" where
  "strict_octet part =
     (case parse_int10 part of
        None \<Rightarrow> None
      | Some n \<Rightarrow> if n < 0 \<or> n > 255 \<or> show_int n \<noteq> part then None else Some (word_of_int n))"

fun strict_octets :: "addr32 \<Rightarrow> string list \<Rightarrow> addr32 option" where
  "strict_octets result [] = Some result"
| "strict_octets result (part # parts) =
     (case strict_octet part of
        None \<Rightarrow> None
      | Some n \<Rightarrow> strict_octets (result * 256 + n) parts)"

definition strict_ipv4ToInt :: "string \<Rightarrow> addr32 option" where
  "strict_ipv4ToInt ip =
     (let parts = js_split CHR ''.'' ip in
      if length parts \<noteq> 4 then None else strict_octets 0 parts)"

text \<open>The two regular expressions of \<open>normalizeIp\<close>, on what follows \<open>::ffff:\<close>.\<close>

definition has_mapped_prefix :: "string \<Rightarrow> bool" where
  "has_mapped_prefix s \<longleftrightarrow> take 2 s = ''::'' \<and> length (take 4 (drop 2 s)) = 4
     \<and> (\<forall>c\<in>set (take 4 (drop 2 s)). c = CHR ''f'' \<or> c = CHR ''F'') \<and> take 1 (drop 6 s) = '':''"

definition mapped_dotted :: "string \<Rightarrow> bool" where
  "mapped_dotted r \<longleftrightarrow> length (js_split CHR ''.'' r) = 4
     \<and> (\<forall>p\<in>set (js_split CHR ''.'' r). 1 \<le> length p \<and> length p \<le> 3 \<and> (\<forall>c\<in>set p. is_digit c))"

definition mapped_hex :: "string \<Rightarrow> bool" where
  "mapped_hex r \<longleftrightarrow> length (js_split CHR '':'' r) = 2
     \<and> (\<forall>p\<in>set (js_split CHR '':'' r). 1 \<le> length p \<and> length p \<le> 4 \<and> (\<forall>c\<in>set p. is_hex c))"

definition hex_pair_text :: "nat \<Rightarrow> nat \<Rightarrow> string" where
  "hex_pair_text h l = js_join ''.'' (map show_nat
     [drop_bit 8 h AND 255, h AND 255, drop_bit 8 l AND 255, l AND 255])"

definition normalizeIp :: "string \<Rightarrow> string option" where
  "normalizeIp ip =
     (if ip = [] then None
      else let stripped = takeWhile (\<lambda>c. c \<noteq> CHR ''%'') ip; r = drop 7 stripped in
        if has_mapped_prefix stripped \<and> mapped_dotted r then Some r
        else if has_mapped_prefix stripped \<and> mapped_hex r
        then (let ps = js_split CHR '':'' r in
              Some (hex_pair_text (hexes_val (ps ! 0)) (hexes_val (ps ! 1))))
        else Some stripped)"

section \<open>Entries and lists\<close>

record acl_entry =
  acl_network :: addr32
  acl_mask :: addr32

definition acl_prefix_mask :: "int \<Rightarrow> addr32" where
  "acl_prefix_mask p = (if p = 0 then 0 else push_bit (nat (32 - p)) (- 1))"

definition parseEntry :: "string \<Rightarrow> acl_entry option" where
  "parseEntry entry =
     (let trimmed = js_trim entry in
      if trimmed = [] then None
      else if js_includes trimmed CHR ''/'' then
        (let ipPart = js_trim (takeWhile (\<lambda>c. c \<noteq> CHR ''/'') trimmed);
             prefixStr = js_trim (tl (dropWhile (\<lambda>c. c \<noteq> CHR ''/'') trimmed)) in
         case parse_int10 prefixStr of
           None \<Rightarrow> None
         | Some p \<Rightarrow>
             if p < 0 \<or> p > 32 then None
             else (case strict_ipv4ToInt ipPart of
                     None \<Rightarrow> None
                   | Some a \<Rightarrow> Some \<lparr>acl_network = a AND acl_prefix_mask p, acl_mask = acl_prefix_mask p\<rparr>))
      else (case strict_ipv4ToInt trimmed of
              None \<Rightarrow> None
            | Some a \<Rightarrow> Some \<lparr>acl_network = a, acl_mask = - 1\<rparr>))"

definition parseAllowlist :: "string option \<Rightarrow> acl_entry list option" where
  "parseAllowlist raw =
     (case raw of
        None \<Rightarrow> None
      | Some s \<Rightarrow>
          if js_trim s = [] then None
          else let es = List.map_filter parseEntry (js_split CHR '','' s) in
               if es = [] then None else Some es)"

definition acl_matches :: "addr32 \<Rightarrow> acl_entry \<Rightarrow> bool" where
  "acl_matches a e \<longleftrightarrow> a AND acl_mask e = acl_network e"

definition isAllowed :: "string \<Rightarrow> acl_entry list option \<Rightarrow> bool" where
  "isAllowed ip allowlist =
     (case allowlist of
        None \<Rightarrow> True
      | Some es \<Rightarrow>
          (case normalizeIp ip of
             None \<Rightarrow> False
           | Some nrm \<Rightarrow>
               if nrm = [] then False
               else (case strict_ipv4ToInt nrm of
                       None \<Rightarrow> False
                     | Some a \<Rightarrow> list_ex (acl_matches a) es)))"

text \<open>The middleware: \<open>Ok ()\<close> is \<open>next()\<close>, \<open>Err\<close> a \<open>ForbiddenError\<close> passed to \<open>next\<close>. A missing
  \<open>req.ip\<close> falls back to the socket's address, then to the empty string.\<close>

definition client_ip :: "string option \<Rightarrow> string option \<Rightarrow> string" where
  "client_ip req_ip remote =
     (case req_ip of
        Some (c # cs) \<Rightarrow> c # cs
      | _ \<Rightarrow> (case remote of Some r \<Rightarrow> r | None \<Rightarrow> []))"

definition createIpAllowlist ::
    "acl_entry list option \<Rightarrow> bool \<Rightarrow> string option \<Rightarrow> string option \<Rightarrow> unit result" where
  "createIpAllowlist allowlist required req_ip remote =
     (case allowlist of
        None \<Rightarrow>
          if required
          then Err ''Access denied: ADMIN_IP_ALLOWLIST must be configured for production admin endpoints''
          else Ok ()
      | Some es \<Rightarrow>
          if isAllowed (client_ip req_ip remote) allowlist then Ok ()
          else Err ''Access denied: your IP address is not permitted to access this endpoint'')"

section \<open>Texts of addresses and blocks\<close>

definition ip_text :: "addr32 \<Rightarrow> string" where
  "ip_text x = js_join ''.'' (map show_nat
     [unat x div 16777216 mod 256, unat x div 65536 mod 256, unat x div 256 mod 256, unat x mod 256])"

definition mapped_hex_text :: "addr32 \<Rightarrow> string" where
  "mapped_hex_text x = ''::ffff:'' @ show_hex (unat x div 65536) @ '':'' @ show_hex (unat x mod 65536)"

definition client_texts :: "addr32 \<Rightarrow> string set" where
  "client_texts x = {ip_text x, ''::ffff:'' @ ip_text x, ''::FFFF:'' @ ip_text x, mapped_hex_text x}"

definition cidr_text :: "addr32 \<times> nat \<Rightarrow> string" where
  "cidr_text b = ip_text (fst b) @ ''/'' @ show_nat (snd b)"

definition in_block :: "addr32 \<Rightarrow> addr32 \<times> nat \<Rightarrow> bool" where
  "in_block x b \<longleftrightarrow> drop_bit (32 - snd b) x = drop_bit (32 - snd b) (fst b)"

lemma ip_text_split: "js_split CHR ''.'' (ip_text x) = map show_nat
     [unat x div 16777216 mod 256, unat x div 65536 mod 256, unat x div 256 mod 256, unat x mod 256]"
  unfolding ip_text_def by (rule js_split_join) simp_all

lemma strict_octet_show: "n < 256 \<Longrightarrow> strict_octet (show_nat n) = Some (of_nat n)"
  by (simp add: strict_octet_def show_int_def)

lemma strict_ip_text [simp]: "strict_ipv4ToInt (ip_text x) = Some x"
proof -
  have "unat x < 4294967296" using unsigned_less [of x] by simp
  then have top: "unat x div 16777216 < 256" by simp
  have "of_nat (16777216 * (unat x div 16777216) + 65536 * (unat x div 65536 mod 256)
     + 256 * (unat x div 256 mod 256) + unat x mod 256) = x"
    by (simp only: bytes4_value) simp
  then show ?thesis
    by (simp add: strict_ipv4ToInt_def ip_text_split strict_octet_show top algebra_simps del: of_nat_div)
qed

lemma visible_ip_text [simp]: "visible (ip_text x)"
  unfolding ip_text_def by (rule visible_join) (simp_all add: code_def)

lemma ip_text_not_Nil [simp]: "ip_text x \<noteq> []"
  by (simp add: ip_text_def)

lemma ip_text_chars: "c \<in> set (ip_text x) \<Longrightarrow> is_digit c \<or> c = CHR ''.''"
  using show_nat_digits by (auto simp: ip_text_def)

lemma ip_text_no [simp]: "\<not> is_digit c \<Longrightarrow> c \<noteq> CHR ''.'' \<Longrightarrow> c \<notin> set (ip_text x)"
  using ip_text_chars [of c x] by auto

lemma and_prefix_mask: "x AND acl_prefix_mask (int p) = n AND acl_prefix_mask (int p)
   \<longleftrightarrow> drop_bit (32 - p) x = drop_bit (32 - p) n" if "p \<le> 32"
proof -
  have "nat (32 - int p) = 32 - p" by arith
  then have "acl_prefix_mask (int p) = push_bit (32 - p) (- 1)"
    by (intro bit_word_eqI) (auto simp: acl_prefix_mask_def bit_simps)
  moreover have "x AND push_bit (32 - p) (- 1) = push_bit (32 - p) (drop_bit (32 - p) x)" for x :: addr32
    by (auto simp: bit_eq_iff bit_simps)
  moreover have "push_bit (32 - p) (drop_bit (32 - p) x) = push_bit (32 - p) (drop_bit (32 - p) n)
     \<longleftrightarrow> drop_bit (32 - p) x = drop_bit (32 - p) n"
  proof -
    have "drop_bit (32 - p) (push_bit (32 - p) (drop_bit (32 - p) w)) = drop_bit (32 - p) w" for w :: addr32
      by (rule bit_word_eqI) (auto simp: bit_simps dest: bit_imp_le_length)
    then show ?thesis by metis
  qed
  ultimately show ?thesis by simp
qed

lemma parseEntry_cidr:
  assumes "snd b \<le> 32"
  shows "parseEntry (cidr_text b)
    = Some \<lparr>acl_network = fst b AND acl_prefix_mask (int (snd b)), acl_mask = acl_prefix_mask (int (snd b))\<rparr>"
proof -
  have "visible (cidr_text b)" "cidr_text b \<noteq> []" "CHR ''/'' \<in> set (cidr_text b)"
    by (simp_all add: cidr_text_def code_def)
  moreover have "takeWhile (\<lambda>c. c \<noteq> CHR ''/'') (cidr_text b) = ip_text (fst b)"
    "tl (dropWhile (\<lambda>c. c \<noteq> CHR ''/'') (cidr_text b)) = show_nat (snd b)"
    by (simp_all add: cidr_text_def takeWhile_until dropWhile_until)
  ultimately show ?thesis using assms
    by (simp add: parseEntry_def js_includes_def Let_def)
qed

definition acl_text :: "(addr32 \<times> nat) list \<Rightarrow> string" where
  "acl_text bs = js_join '','' (map cidr_text bs)"

definition parsed_block :: "addr32 \<times> nat \<Rightarrow> acl_entry" where
  "parsed_block b = \<lparr>acl_network = fst b AND acl_prefix_mask (int (snd b)),
     acl_mask = acl_prefix_mask (int (snd b))\<rparr>"

lemma cidr_text_no_comma: "CHR '','' \<notin> set (cidr_text b)"
  using show_nat_digits [of "snd b"] by (auto simp: cidr_text_def)

lemma parseAllowlist_text:
  assumes "bs \<noteq> []" and "\<forall>b\<in>set bs. snd b \<le> 32"
  shows "parseAllowlist (Some (acl_text bs)) = Some (map parsed_block bs)"
proof -
  have split: "js_split CHR '','' (acl_text bs) = map cidr_text bs"
    unfolding acl_text_def using assms(1)
    by (intro js_split_join) (auto simp: cidr_text_no_comma)
  have "visible (acl_text bs)"
    unfolding acl_text_def by (rule visible_join) (auto simp: cidr_text_def code_def)
  moreover have "acl_text bs \<noteq> []"
  proof
    assume "acl_text bs = []"
    then have "js_split CHR '','' (acl_text bs) = [[]]" by simp
    then show False using split assms(1) by (cases bs) (auto simp: cidr_text_def)
  qed
  moreover have "List.map_filter parseEntry (map cidr_text bs) = map parsed_block bs"
    using assms(2) by (induction bs) (simp_all add: parseEntry_cidr parsed_block_def)
  ultimately show ?thesis using assms(1) split
    by (simp add: parseAllowlist_def Let_def)
qed

lemma normalize_plain: "normalizeIp (ip_text x) = Some (ip_text x)"
proof -
  have "\<not> has_mapped_prefix (ip_text x)"
  proof
    assume "has_mapped_prefix (ip_text x)"
    then have "CHR '':'' \<in> set (take 2 (ip_text x))" by (simp add: has_mapped_prefix_def)
    then show False by (auto dest: in_set_takeD)
  qed
  then show ?thesis by (simp add: normalizeIp_def takeWhile_none Let_def)
qed

lemma show_nat_len3: "n < 256 \<Longrightarrow> length (show_nat n) \<le> 3"
  by (cases "n < 10"; cases "n div 10 < 10") (simp_all add: show_nat_small show_nat_big)

lemma length_pos_show [simp]: "Suc 0 \<le> length (show_nat n)" "Suc 0 \<le> length (show_hex n)"
  by (simp_all add: Suc_le_eq)

lemma mapped_dotted_ip: "mapped_dotted (ip_text x)"
  using show_nat_digits by (auto simp: mapped_dotted_def ip_text_split show_nat_len3)

lemma normalize_mapped:
  assumes "f \<in> {CHR ''f'', CHR ''F''}"
  shows "normalizeIp (''::'' @ [f, f, f, f] @ '':'' @ ip_text x) = Some (ip_text x)"
proof -
  let ?s = "''::'' @ [f, f, f, f] @ '':'' @ ip_text x"
  have "CHR ''%'' \<notin> set ?s" using assms by auto
  then have "takeWhile (\<lambda>c. c \<noteq> CHR ''%'') ?s = ?s" by (auto simp only: takeWhile_eq_all_conv)
  moreover have "has_mapped_prefix ?s" using assms by (auto simp: has_mapped_prefix_def)
  moreover have "drop 7 ?s = ip_text x" by simp
  ultimately show ?thesis using mapped_dotted_ip by (simp add: normalizeIp_def)
qed

lemma show_hex_len4: "n < 65536 \<Longrightarrow> length (show_hex n) \<le> 4"
  by (cases "n < 16"; cases "n div 16 < 16"; cases "n div 256 < 16")
     (simp_all add: show_hex_small show_hex_big div_mult2_eq [symmetric])

lemma hex_pair_ip: "hex_pair_text (unat x div 65536) (unat x mod 65536) = ip_text x"
proof -
  have b: "m AND 255 = m mod 256" for m :: nat
    using take_bit_eq_mask [of 8 m] by (simp add: mask_eq_exp_minus_1 take_bit_eq_mod)
  have "unat x mod 65536 div 256 = unat x div 256 mod 256"
    using mod_mult2_eq [of "unat x" 256 256] by simp
  moreover have "unat x mod 65536 mod 256 = unat x mod 256"
    by (simp add: mod_mod_cancel)
  ultimately show ?thesis
    by (simp add: hex_pair_text_def ip_text_def b drop_bit_eq_div div_mult2_eq [symmetric])
qed

lemma normalize_mapped_hex: "normalizeIp (mapped_hex_text x) = Some (ip_text x)"
proof -
  let ?h = "show_hex (unat x div 65536)" and ?l = "show_hex (unat x mod 65536)"
  have "unat x < 4294967296" using unsigned_less [of x] by simp
  then have small: "unat x div 65536 < 65536" by simp
  have r: "drop 7 (mapped_hex_text x) = ?h @ CHR '':'' # ?l" by (simp add: mapped_hex_text_def)
  have split: "js_split CHR '':'' (?h @ CHR '':'' # ?l) = [?h, ?l]"
    by (simp add: js_split_append js_split_no_sep)
  have "CHR ''%'' \<notin> set (mapped_hex_text x)" by (simp add: mapped_hex_text_def)
  moreover have "has_mapped_prefix (mapped_hex_text x)"
    by (simp add: has_mapped_prefix_def mapped_hex_text_def)
  moreover have "mapped_hex (?h @ CHR '':'' # ?l)"
    using small show_hex_hexes by (simp add: mapped_hex_def split show_hex_len4)
  moreover have "\<not> mapped_dotted (?h @ CHR '':'' # ?l)"
    by (simp add: mapped_dotted_def js_split_no_sep)
  moreover have "mapped_hex_text x \<noteq> []" by (simp add: mapped_hex_text_def)
  ultimately show ?thesis
    by (simp add: normalizeIp_def takeWhile_none Let_def r split hex_pair_ip)
qed

lemma normalize_client: "c \<in> client_texts x \<Longrightarrow> normalizeIp c = Some (ip_text x)"
  using normalize_mapped [of "CHR ''f''" x] normalize_mapped [of "CHR ''F''" x]
  by (auto simp: client_texts_def normalize_plain normalize_mapped_hex)

lemma matches_parsed: "snd b \<le> 32 \<Longrightarrow> acl_matches x (parsed_block b) \<longleftrightarrow> in_block x b"
  by (simp add: acl_matches_def parsed_block_def in_block_def and_prefix_mask)

section \<open>The list decides by blocks\<close>

text \<open>
  For every list of IPv4 blocks written as \<open>address/prefix\<close> texts, and a client address in any
  of the forms Node reports (dotted quad, IPv4-mapped IPv6 in dotted or hexadecimal form, either
  case), the middleware lets the request through exactly when the address lies in one of the
  blocks, that is agrees with a listed address in its leading prefix bits.
\<close>

theorem allowlist_exact:
  assumes "bs \<noteq> []" and "\<forall>b\<in>set bs. snd b \<le> 32" and "client \<in> client_texts x"
  shows "createIpAllowlist (parseAllowlist (Some (acl_text bs))) required (Some client) remote = Ok ()
    \<longleftrightarrow> (\<exists>b\<in>set bs. in_block x b)"
proof -
  have "client \<noteq> []"
    using assms(3) by (auto simp: client_texts_def mapped_hex_text_def eq_commute [of "[]"])
  then have "client_ip (Some client) remote = client"
    by (cases client) (simp_all add: client_ip_def)
  moreover have "list_ex (acl_matches x) (map parsed_block bs) \<longleftrightarrow> (\<exists>b\<in>set bs. in_block x b)"
    using assms(2) by (auto simp: list_ex_iff matches_parsed)
  ultimately show ?thesis
    using normalize_client [OF assms(3)]
    by (simp add: createIpAllowlist_def parseAllowlist_text [OF assms(1,2)] isAllowed_def)
qed

theorem allowlist_exact_witness:
  "createIpAllowlist (parseAllowlist (Some (acl_text [(0x0A000000, 8), (0xC0A80105, 32)]))) True
     (Some (mapped_hex_text 0x0A010203)) None = Ok ()
   \<longleftrightarrow> (\<exists>b\<in>set [(0x0A000000, 8), (0xC0A80105, 32)]. in_block 0x0A010203 b)"
  by (rule allowlist_exact) (simp_all add: client_texts_def)

lemma colon_not_ipv4: "strict_ipv4ToInt (CHR '':'' # s) = None"
proof -
  have "no_space_start (CHR '':'' # w)" for w by (simp add: no_space_start_def code_def)
  then have "strict_octet (CHR '':'' # w) = None" for w
    by (simp add: strict_octet_def parse_int10_def take_sign_def)
  moreover obtain w ws where "js_split CHR ''.'' (CHR '':'' # s) = (CHR '':'' # w) # ws"
    by (cases "js_split CHR ''.'' s") auto
  ultimately show ?thesis by (simp add: strict_ipv4ToInt_def)
qed

text \<open>
  A configured list fails open when none of its entries parses: the parsed list is \<open>null\<close>,
  which the middleware reads as "feature disabled", so every client passes unless \<open>required\<close> is
  set. An IPv4-mapped entry, a form the file's header documents as supported, is such an entry.
\<close>

theorem unparsable_list_allows_all:
  "parseAllowlist (Some (''::ffff:'' @ ip_text x)) = None
   \<and> createIpAllowlist (parseAllowlist (Some (''::ffff:'' @ ip_text x))) False req_ip remote = Ok ()
   \<and> createIpAllowlist (parseAllowlist (Some (''::ffff:'' @ ip_text x))) True req_ip remote \<noteq> Ok ()"
proof -
  let ?e = "''::ffff:'' @ ip_text x"
  have v: "visible ?e" by (simp add: code_def)
  have "strict_ipv4ToInt ?e = None" by (simp add: colon_not_ipv4)
  moreover have "CHR ''/'' \<notin> set ?e" "CHR '','' \<notin> set ?e" by simp_all
  ultimately have "parseAllowlist (Some ?e) = None"
    using v by (simp add: parseAllowlist_def parseEntry_def js_includes_def js_split_no_sep List.map_filter_simps del: append.simps)
  then show ?thesis by (simp add: createIpAllowlist_def)
qed

end
