(* ===== verification/OutboundGuard.thy ===== *)
theory OutboundGuard
  imports IpAllowlist
begin

text \<open>
  The guard on tenant-configurable outbound destinations, \<open>src/utils/safeOutboundUrl.js\<close>: which
  addresses are blocked, how a URL or a bare host is checked and resolved, and the lookup function
  that pins the connection to the addresses that were checked. The URL parser, \<open>domainToASCII\<close>
  and the resolver are parameters (\<open>outbound_env\<close>); \<open>net.isIP\<close> is the grammar of Node's
  regular expressions. An IPv6 address is the list of its eight 16-bit words.
\<close>

section \<open>Address literals\<close>

definition is_ipv4_lit :: "string \<Rightarrow> bool" where
  "is_ipv4_lit s \<longleftrightarrow> (let ps = js_split CHR ''.'' s in length ps = 4
     \<and> list_all (\<lambda>p. p \<noteq> [] \<and> list_all is_digit p \<and> digits_val p < 256 \<and> show_nat (digits_val p) = p) ps)"

definition is_hex_group :: "string \<Rightarrow> bool" where
  "is_hex_group p \<longleftrightarrow> p \<noteq> [] \<and> length p \<le> 4 \<and> list_all is_hex p"

text \<open>The number of 16-bit groups a colon-separated side of an address stands for; a dotted quad is
  two groups and may only come last in the address.\<close>

definition side_groups :: "bool \<Rightarrow> string \<Rightarrow> nat option" where
  "side_groups quad_ok s =
     (if s = [] then Some 0
      else let ps = js_split CHR '':'' s in
        if list_all is_hex_group ps then Some (length ps)
        else if quad_ok \<and> list_all is_hex_group (butlast ps) \<and> is_ipv4_lit (last ps)
        then Some (length ps + 1) else None)"

definition is_zone_char :: "char \<Rightarrow> bool" where
  "is_zone_char c \<longleftrightarrow> is_digit c \<or> 65 \<le> code c \<and> code c \<le> 90 \<or> 97 \<le> code c \<and> code c \<le> 122
     \<or> c = CHR ''-'' \<or> c = CHR ''.'' \<or> c = CHR '':''"

definition is_ipv6_lit :: "string \<Rightarrow> bool" where
  "is_ipv6_lit s \<longleftrightarrow>
     (let body = takeWhile (\<lambda>c. c \<noteq> CHR ''%'') s; zone = dropWhile (\<lambda>c. c \<noteq> CHR ''%'') s in
      (zone = [] \<or> length zone \<ge> 2 \<and> list_all is_zone_char (tl zone))
      \<and> (case split_colons body of
           [whole] \<Rightarrow> whole \<noteq> [] \<and> side_groups True whole = Some 8
         | [l, r] \<Rightarrow> (case (side_groups False l, side_groups True r) of
                       (Some m, Some n) \<Rightarrow> m + n \<le> 7 | _ \<Rightarrow> False)
         | _ \<Rightarrow> False))"

definition isIP :: "string \<Rightarrow> nat" where
  "isIP s = (if is_ipv4_lit s then 4 else if is_ipv6_lit s then 6 else 0)"

section \<open>Parsing\<close>

definition num_octet :: "string \<Rightarrow> nat option" where
  "num_octet s =
     (case js_number s of
        None \<Rightarrow> None
      | Some q \<Rightarrow> if of_int \<lfloor>q\<rfloor> = q \<and> 0 \<le> q \<and> q \<le> 255 then Some (nat \<lfloor>q\<rfloor>) else None)"

definition parseIpv4 :: "string \<Rightarrow> nat list option" where
  "parseIpv4 ip =
     (if isIP ip \<noteq> 4 then None
      else let octets = map num_octet (js_split CHR ''.'' ip) in
        if length octets \<noteq> 4 \<or> None \<in> set octets then None else Some (map the octets))"

definition lower_char :: "char \<Rightarrow> char" where
  "lower_char c = (if 65 \<le> code c \<and> code c \<le> 90 then char_of (code c + 32) else c)"

definition to_lower :: "string \<Rightarrow> string" where
  "to_lower s = map lower_char s"

text \<open>\<open>value.match(/(\\d{1,3}(?:\\.\\d{1,3}){3})$/)\<close>: the leftmost suffix that is a dotted quad, with
  what precedes it.\<close>

fun dotted_suffix :: "string \<Rightarrow> (string \<times> string) option" where
  "dotted_suffix [] = None"
| "dotted_suffix (c # cs) =
     (if mapped_dotted (c # cs) then Some ([], c # cs)
      else map_option (\<lambda>(p, m). (c # p, m)) (dotted_suffix cs))"

definition inline_quad :: "string \<Rightarrow> string option" where
  "inline_quad v =
     (case dotted_suffix v of
        None \<Rightarrow> Some v
      | Some (before, quad) \<Rightarrow>
          (case parseIpv4 quad of
             Some [a, b, c, d] \<Rightarrow>
               Some (before @ show_hex (push_bit 8 a OR b) @ '':'' @ show_hex (push_bit 8 c OR d))
           | _ \<Rightarrow> None))"

definition nonempty_groups :: "string \<Rightarrow> string list" where
  "nonempty_groups s = (if s = [] then [] else filter (\<lambda>w. w \<noteq> []) (js_split CHR '':'' s))"

definition group_value :: "string \<Rightarrow> nat option" where
  "group_value w =
     (case parse_int16 (if w = [] then ''0'' else w) of
        None \<Rightarrow> None
      | Some n \<Rightarrow> if n < 0 \<or> n > 65535 then None else Some (nat n))"

definition expand_words :: "string \<Rightarrow> nat list option" where
  "expand_words v =
     (let halves = split_colons v in
      if length halves > 2 then None
      else let left = nonempty_groups (halves ! 0);
               right = (if length halves = 2 then nonempty_groups (halves ! 1) else []);
               missing = 8 - int (length left) - int (length right) in
        if length halves = 1 \<and> missing \<noteq> 0 \<or> length halves = 2 \<and> missing < 1 then None
        else let words = map group_value (left @ replicate (nat missing) ''0'' @ right) in
          if length words \<noteq> 8 \<or> None \<in> set words then None else Some (map the words))"

definition parseIpv6 :: "string \<Rightarrow> nat list option" where
  "parseIpv6 ip =
     (if isIP ip \<noteq> 6 then None
      else case inline_quad (takeWhile (\<lambda>c. c \<noteq> CHR ''%'') (to_lower ip)) of
             None \<Rightarrow> None | Some v \<Rightarrow> expand_words v)"

section \<open>Blocked addresses\<close>

definition word_octets :: "nat \<Rightarrow> nat \<Rightarrow> nat list" where
  "word_octets h l = [drop_bit 8 h, h AND 255, drop_bit 8 l, l AND 255]"

definition mappedIpv4 :: "nat list \<Rightarrow> nat list option" where
  "mappedIpv4 words =
     (if length words \<noteq> 8 then None
      else if \<not> list_all (\<lambda>w. w = 0) (take 5 words) \<or> words ! 5 \<noteq> 65535 then None
      else Some (word_octets (words ! 6) (words ! 7)))"

definition isBlockedIpv4 :: "nat list \<Rightarrow> bool" where
  "isBlockedIpv4 octets =
     (let a = octets ! 0; b = octets ! 1; c = octets ! 2 in
      if a = 0 \<or> a = 10 \<or> a = 127 then True
      else if a = 100 \<and> b \<ge> 64 \<and> b \<le> 127 then True
      else if a = 169 \<and> b = 254 then True
      else if a = 172 \<and> b \<ge> 16 \<and> b \<le> 31 then True
      else if a = 192 \<and> b = 168 then True
      else if a = 192 \<and> b = 0 \<and> c = 0 then True
      else if a = 192 \<and> b = 0 \<and> c = 2 then True
      else if a = 198 \<and> (b = 18 \<or> b = 19) then True
      else if a = 198 \<and> b = 51 \<and> c = 100 then True
      else if a = 203 \<and> b = 0 \<and> c = 113 then True
      else if a \<ge> 224 then True
      else False)"

definition isBlockedIpv6 :: "nat list \<Rightarrow> bool" where
  "isBlockedIpv6 words =
     (case mappedIpv4 words of
        Some m \<Rightarrow> isBlockedIpv4 m
      | None \<Rightarrow>
          if list_all (\<lambda>w. w = 0) (take 6 words) then True
          else if list_all (\<lambda>w. w = 0) (take 4 words) \<and> words ! 4 = 0xffff \<and> words ! 5 = 0 then True
          else if words ! 0 = 0x0064 \<and> words ! 1 = 0xff9b \<and> list_all (\<lambda>w. w = 0) (take 4 (drop 2 words))
                  \<and> isBlockedIpv4 (word_octets (words ! 6) (words ! 7)) then True
          else if words ! 0 = 0x0064 \<and> words ! 1 = 0xff9b \<and> words ! 2 = 0x0001 then True
          else if words ! 0 = 0x2002 \<and> isBlockedIpv4 (word_octets (words ! 1) (words ! 2)) then True
          else if list_all (\<lambda>w. w = 0) (take 7 words) \<and> (words ! 7 = 0 \<or> words ! 7 = 1) then True
          else if words ! 0 AND 0xfe00 = 0xfc00 then True
          else if words ! 0 AND 0xffc0 = 0xfe80 then True
          else if words ! 0 AND 0xffc0 = 0xfec0 then True
          else if words ! 0 AND 0xff00 = 0xff00 then True
          else if words ! 0 = 0x2001 \<and> words ! 1 = 0x0db8 then True
          else False)"

definition isBlockedIp :: "string \<Rightarrow> bool" where
  "isBlockedIp ip =
     (let nrm = takeWhile (\<lambda>c. c \<noteq> CHR ''%'') ip in
      case parseIpv4 nrm of
        Some octets \<Rightarrow> isBlockedIpv4 octets
      | None \<Rightarrow>
          (case parseIpv6 nrm of
             None \<Rightarrow> True
           | Some words \<Rightarrow> isBlockedIpv6 words))"

section \<open>URLs and hosts\<close>

datatype out_error = AppErr string nat string | SysErr string string

fun err_code :: "out_error \<Rightarrow> string" where
  "err_code (AppErr m st c) = c"
| "err_code (SysErr m c) = c"

record url =
  url_protocol :: string
  url_username :: string
  url_password :: string
  url_hash :: string
  url_hostname :: string
  url_href :: string

datatype dns_entry = DnsText string | DnsRec "string option" "nat option"

text \<open>What the race of the resolver against the timer yields.\<close>

datatype dns_outcome = DnsOk "dns_entry list" | DnsFail string string | DnsTimeout

record outbound_env =
  parse_url :: "string \<Rightarrow> url option"
  domainToASCII :: "string \<Rightarrow> string"
  dns_lookup :: "string \<Rightarrow> dns_outcome"

record out_opts =
  unsafeCode :: "string option"
  timeoutCode :: "string option"
  allowLocalhost :: bool
  allowPrivate :: bool

record pinned_address =
  pin_address :: string
  pin_family :: nat

definition unsafe_code :: "string \<Rightarrow> out_opts \<Rightarrow> string" where
  "unsafe_code dflt opts = (case unsafeCode opts of Some (c # cs) \<Rightarrow> c # cs | _ \<Rightarrow> dflt)"

definition strip_brackets :: "string \<Rightarrow> string" where
  "strip_brackets h =
     (let h1 = (if take 1 h = ''['' then tl h else h) in
      if h1 \<noteq> [] \<and> last h1 = CHR '']'' then butlast h1 else h1)"

definition ends_with :: "string \<Rightarrow> string \<Rightarrow> bool" where
  "ends_with s w \<longleftrightarrow> length w \<le> length s \<and> drop (length s - length w) s = w"

definition is_localhost :: "string \<Rightarrow> bool" where
  "is_localhost h \<longleftrightarrow> h = ''localhost'' \<or> ends_with h ''.localhost''"

definition normalizeAndCheckUrl ::
    "outbound_env \<Rightarrow> string \<Rightarrow> string \<Rightarrow> out_error + url \<times> string" where
  "normalizeAndCheckUrl env raw field =
     (case parse_url env (js_trim raw) of
        None \<Rightarrow> Err (AppErr (field @ '' is not a valid URL.'') 422 ''UNSAFE_URL'')
      | Some u \<Rightarrow>
          if url_protocol u \<noteq> ''https:'' then Err (AppErr (field @ '' must use https.'') 422 ''UNSAFE_URL'')
          else if url_username u \<noteq> [] \<or> url_password u \<noteq> []
          then Err (AppErr (field @ '' must not include credentials.'') 422 ''UNSAFE_URL'')
          else if url_hash u \<noteq> []
          then Err (AppErr (field @ '' must not include a fragment.'') 422 ''UNSAFE_URL'')
          else let host = strip_brackets (url_hostname u) in
            if host = [] \<or> is_localhost (to_lower host)
            then Err (AppErr (field @ '' must not target a private or loopback host.'') 422 ''UNSAFE_URL'')
            else Ok (u, host))"

fun has_space :: "string \<Rightarrow> bool" where
  "has_space [] = False"
| "has_space (c # cs) \<longleftrightarrow> list_ex (\<lambda>w. take (length w) (c # cs) = w) js_spaces \<or> has_space cs"

definition host_label :: "string \<Rightarrow> bool" where
  "host_label l \<longleftrightarrow> 1 \<le> length l \<and> length l \<le> 63
     \<and> list_all (\<lambda>c. is_digit c \<or> 97 \<le> code c \<and> code c \<le> 122 \<or> c = CHR ''-'') l
     \<and> hd l \<noteq> CHR ''-'' \<and> last l \<noteq> CHR ''-''"

definition strip_dot :: "string \<Rightarrow> string" where
  "strip_dot s = (if s \<noteq> [] \<and> last s = CHR ''.'' then butlast s else s)"

definition normalizeOutboundHost ::
    "outbound_env \<Rightarrow> string \<Rightarrow> string \<Rightarrow> out_opts \<Rightarrow> out_error + string" where
  "normalizeOutboundHost env v field opts =
     (let cd = unsafe_code ''UNSAFE_HOST'' opts;
          invalid = Err (AppErr (field @ '' is not a valid host.'') 422 cd) in
      if v = [] \<or> list_ex (\<lambda>c. code c \<le> 32 \<or> code c = 127) v \<or> has_space v then invalid
      else let bracketed = (take 1 v = ''['' \<and> last v = CHR '']'');
               candidate = (if bracketed then take (length v - 2) (tl v) else v) in
        if js_includes candidate CHR ''%'' then invalid
        else if isIP candidate \<noteq> 0 then Ok (to_lower candidate)
        else if bracketed \<or> list_ex (\<lambda>c. c \<in> set [CHR 0x5C, CHR ''/'', CHR ''@'', CHR ''#'', CHR ''?'', CHR '':'']) candidate
        then invalid
        else let ascii = strip_dot (to_lower (domainToASCII env candidate));
                 labels = js_split CHR ''.'' ascii in
          if ascii = [] \<or> length ascii > 253 \<or> \<not> list_all host_label labels then invalid
          else if \<not> allowLocalhost opts \<and> is_localhost ascii
          then Err (AppErr (field @ '' must not target a private or loopback host.'') 422 cd)
          else Ok ascii)"

section \<open>Resolution\<close>

definition resolutionTimeoutError :: "string \<Rightarrow> string option \<Rightarrow> string \<Rightarrow> out_error" where
  "resolutionTimeoutError field cd unsafe =
     (if cd = Some ''ETIMEDOUT''
      then SysErr ''Forwarding destination resolution timed out'' ''ETIMEDOUT''
      else AppErr (field @ '' host resolution timed out.'') 422 unsafe)"

definition raw_addresses ::
    "outbound_env \<Rightarrow> string \<Rightarrow> string \<Rightarrow> out_opts \<Rightarrow> string \<Rightarrow> out_error + dns_entry list" where
  "raw_addresses env host field opts unsafe =
     (if isIP host \<noteq> 0 then Ok [DnsRec (Some host) (Some (isIP host))]
      else let unresolved = AppErr (field @ '' host could not be resolved.'') 422 unsafe;
               rethrow = (\<lambda>err. if err_code err = ''ETIMEDOUT'' \<or> err_code err = unsafe
                                then Err err else Err unresolved) in
        case dns_lookup env host of
          DnsOk es \<Rightarrow> Ok es
        | DnsTimeout \<Rightarrow> rethrow (resolutionTimeoutError field (timeoutCode opts) unsafe)
        | DnsFail m cd \<Rightarrow> rethrow (SysErr m cd))"

fun normalize_entry :: "dns_entry \<Rightarrow> string option \<times> nat" where
  "normalize_entry (DnsText a) = (Some a, isIP a)"
| "normalize_entry (DnsRec a f) =
     (a, case f of
           Some n \<Rightarrow> if n \<noteq> 0 then n else (case a of Some t \<Rightarrow> isIP t | None \<Rightarrow> 0)
         | None \<Rightarrow> (case a of Some t \<Rightarrow> isIP t | None \<Rightarrow> 0))"

definition usable_entry :: "dns_entry \<Rightarrow> pinned_address option" where
  "usable_entry e =
     (case normalize_entry e of
        (Some (c # cs), f) \<Rightarrow>
          if f = 4 \<or> f = 6 then Some \<lparr>pin_address = c # cs, pin_family = f\<rparr> else None
      | _ \<Rightarrow> None)"

definition resolveHost ::
    "outbound_env \<Rightarrow> string \<Rightarrow> string \<Rightarrow> out_opts \<Rightarrow> out_error + pinned_address list" where
  "resolveHost env host field opts =
     (let unsafe = unsafe_code ''UNSAFE_URL'' opts in
      and_then (raw_addresses env host field opts unsafe)
        (\<lambda>es. let addrs = List.map_filter usable_entry es in
           if addrs = [] \<or> \<not> allowPrivate opts \<and> list_ex (\<lambda>e. isBlockedIp (pin_address e)) addrs
           then Err (AppErr (field @ '' must not target a private, loopback, link-local, or metadata address.'')
                       422 unsafe)
           else Ok addrs))"

text \<open>The lookup callback handed to the transport: all matching addresses, one, or \<open>ENOTFOUND\<close>.\<close>

datatype lookup_reply = NotFound | AllOf "pinned_address list" | OneOf string nat

definition createPinnedLookup :: "pinned_address list \<Rightarrow> nat \<Rightarrow> bool \<Rightarrow> lookup_reply" where
  "createPinnedLookup safe fam all' =
     (let candidates = (if fam \<noteq> 0 then filter (\<lambda>e. pin_family e = fam) safe else safe) in
      if candidates = [] then NotFound
      else if all' then AllOf candidates
      else OneOf (pin_address (hd candidates)) (pin_family (hd candidates)))"

record 'a resolved =
  res_target :: 'a
  res_addresses :: "pinned_address list"
  res_lookup :: "nat \<Rightarrow> bool \<Rightarrow> lookup_reply"

definition with_lookup :: "'a \<Rightarrow> pinned_address list \<Rightarrow> 'a resolved" where
  "with_lookup t addrs = \<lparr>res_target = t, res_addresses = addrs, res_lookup = createPinnedLookup addrs\<rparr>"

definition resolveSafeOutboundUrl ::
    "outbound_env \<Rightarrow> string \<Rightarrow> string \<Rightarrow> out_opts \<Rightarrow> out_error + url resolved" where
  "resolveSafeOutboundUrl env raw field opts =
     and_then (normalizeAndCheckUrl env raw field)
       (\<lambda>(u, host). and_then (resolveHost env host field opts) (\<lambda>addrs. Ok (with_lookup u addrs)))"

definition resolve_bare ::
    "outbound_env \<Rightarrow> string \<Rightarrow> string \<Rightarrow> out_opts \<Rightarrow> string \<Rightarrow> bool \<Rightarrow> out_error + string resolved" where
  "resolve_bare env raw field opts cd trusted =
     and_then (normalizeOutboundHost env raw field
                 \<lparr>unsafeCode = Some cd, timeoutCode = None, allowLocalhost = trusted, allowPrivate = False\<rparr>)
       (\<lambda>hostname. and_then
          (resolveHost env hostname field (opts\<lparr>allowPrivate := trusted, unsafeCode := Some cd\<rparr>))
          (\<lambda>addrs. Ok (with_lookup hostname addrs)))"

definition resolveSafeOutboundHost ::
    "outbound_env \<Rightarrow> string \<Rightarrow> string \<Rightarrow> out_opts \<Rightarrow> out_error + string resolved" where
  "resolveSafeOutboundHost env raw field opts = resolve_bare env raw field opts ''UNSAFE_HOST'' False"

definition resolveTrustedOutboundHost ::
    "outbound_env \<Rightarrow> string \<Rightarrow> string \<Rightarrow> out_opts \<Rightarrow> out_error + string resolved" where
  "resolveTrustedOutboundHost env raw field opts = resolve_bare env raw field opts ''INVALID_HOST'' True"

definition assertSafeOutboundUrl ::
    "outbound_env \<Rightarrow> string \<Rightarrow> string \<Rightarrow> out_opts \<Rightarrow> out_error + string" where
  "assertSafeOutboundUrl env raw field opts =
     and_then (resolveSafeOutboundUrl env raw field opts) (\<lambda>r. Ok (url_href (res_target r)))"

definition blocked_blocks :: "(addr32 \<times> nat) list" where
  "blocked_blocks =
     [(0x00000000, 8), (0x0A000000, 8), (0x7F000000, 8), (0x64400000, 10), (0xA9FE0000, 16),
      (0xAC100000, 12), (0xC0A80000, 16), (0xC0000000, 24), (0xC0000200, 24), (0xC6120000, 15),
      (0xC6336400, 24), (0xCB007100, 24), (0xE0000000, 3)]"

definition octets_of :: "addr32 \<Rightarrow> nat list" where
  "octets_of x = [unat x div 16777216, unat x div 65536 mod 256, unat x div 256 mod 256, unat x mod 256]"

lemma unat_addr_lt: "unat (x :: addr32) < 4294967296"
  using unsigned_less [of x] by simp

lemma in_block_div: "in_block x b \<longleftrightarrow> unat x div 2 ^ (32 - snd b) = unat (fst b) div 2 ^ (32 - snd b)"
proof -
  have "unat (drop_bit k w) = unat w div 2 ^ k" for k and w :: addr32
    using unat_drop_bit_eq [of k w] by (simp only: drop_bit_eq_div [of k "unat w"])
  then show ?thesis unfolding in_block_def by (metis unsigned_word_eqI)
qed

lemma top_octet: "unat x div 16777216 mod 256 = unat (x :: addr32) div 16777216"
  using unat_addr_lt [of x] by simp

lemma ip_text_lit: "is_ipv4_lit (ip_text x)"
  using show_nat_digits by (simp add: is_ipv4_lit_def ip_text_split Let_def list_all_iff)

lemma num_octet_show: "n < 256 \<Longrightarrow> num_octet (show_nat n) = Some n"
  by (simp add: num_octet_def)

lemma parseIpv4_text: "parseIpv4 (ip_text x) = Some (octets_of x)"
  using top_octet [of x]
  by (simp add: parseIpv4_def isIP_def ip_text_lit ip_text_split num_octet_show octets_of_def)

lemma split256: "m = n \<longleftrightarrow> m div 256 = n div 256 \<and> m mod 256 = n mod 256" for m n :: nat
  by (metis div_mult_mod_eq)

lemma digit_unique: "q < m \<Longrightarrow> r < m \<Longrightarrow> m * a + q = m * n + r \<longleftrightarrow> a = n \<and> q = r" for m q :: nat
proof -
  assume "q < m" "r < m"
  then have "(m * a + q) div m = a" "(m * n + r) div m = n" by auto
  then show ?thesis by auto
qed

lemma blocked_octets:
  fixes v :: nat
  assumes "v < 4294967296"
  shows "isBlockedIpv4 [v div 16777216, v div 65536 mod 256, v div 256 mod 256, d]
    \<longleftrightarrow> v div 16777216 \<in> {0, 10, 127} \<or> v div 4194304 = 401 \<or> v div 65536 = 43518 \<or> v div 1048576 = 2753
       \<or> v div 65536 = 49320 \<or> v div 256 = 12582912 \<or> v div 256 = 12582914 \<or> v div 131072 = 25353
       \<or> v div 256 = 12989284 \<or> v div 256 = 13303921 \<or> v div 536870912 = 7"
proof -
  define a b c where abc: "a = v div 16777216" "b = v div 65536 mod 256" "c = v div 256 mod 256"
  have b: "b < 256" using abc by simp
  have d8: "v div 256 = 256 * n + r \<longleftrightarrow> v div 65536 = n \<and> c = r" if "r < 256" for n r
    using split256 [of "v div 256" "256 * n + r"] div_mult2_eq [of v 256 256] that by (simp add: abc(3))
  have d16: "v div 65536 = 256 * n + r \<longleftrightarrow> a = n \<and> b = r" if "r < 256" for n r
    using split256 [of "v div 65536" "256 * n + r"] div_mult2_eq [of v 65536 256] that by (simp add: abc)
  have v16: "v div 65536 = 256 * a + b"
    using div_mult2_eq [of v 65536 256] unfolding abc by simp
  have d20: "v div 1048576 = 16 * a + b div 16"
    using div_mult2_eq [of v 65536 16] v16 by simp
  have d17: "v div 131072 = 128 * a + b div 2"
    using div_mult2_eq [of v 65536 2] v16 by simp
  have d22: "v div 4194304 = 4 * a + b div 64"
    using div_mult2_eq [of v 65536 64] v16 by simp
  have d29: "v div 536870912 = a div 32"
    using div_mult2_eq [of v 16777216 32] abc by simp
  have a: "a < 256" using assms abc by simp
  have q: "b div 64 < 4" "b div 16 < 16" "b div 2 < 128" using b by auto
  have w: "b div 64 = 1 \<longleftrightarrow> 64 \<le> b \<and> b \<le> 127" "b div 16 = 1 \<longleftrightarrow> 16 \<le> b \<and> b \<le> 31"
    "b div 2 = 9 \<longleftrightarrow> b = 18 \<or> b = 19" "a div 32 = 7 \<longleftrightarrow> a \<ge> 224"
    using a by arith+
  have e: "v div 4194304 = 401 \<longleftrightarrow> a = 100 \<and> 64 \<le> b \<and> b \<le> 127"
    "v div 1048576 = 2753 \<longleftrightarrow> a = 172 \<and> 16 \<le> b \<and> b \<le> 31"
    "v div 131072 = 25353 \<longleftrightarrow> a = 198 \<and> (b = 18 \<or> b = 19)"
    "v div 536870912 = 7 \<longleftrightarrow> a \<ge> 224"
    using digit_unique [OF q(1), of 1 a 100] digit_unique [OF q(2), of 1 a 172]
      digit_unique [OF q(3), of 9 a 198] w by (simp_all add: d20 d17 d22 d29)
  show ?thesis
    using d16 [of 254 169] d16 [of 168 192] d8 [of 0 49152] d8 [of 2 49152] d8 [of 100 50739]
      d8 [of 113 51968] d16 [of 0 192] d16 [of 51 198] d16 [of 0 203]
    unfolding e abc(1,2,3) [symmetric] isBlockedIpv4_def Let_def
    by simp
qed

lemma word_octets_pair: "word_octets (unat x div 65536) (unat x mod 65536) = octets_of x"
proof -
  have b: "m AND 255 = m mod 256" for m :: nat
    using take_bit_eq_mask [of 8 m] by (simp add: mask_eq_exp_minus_1 take_bit_eq_mod)
  have "unat x mod 65536 div 256 = unat x div 256 mod 256"
    using mod_mult2_eq [of "unat x" 256 256] by simp
  moreover have "unat x mod 65536 mod 256 = unat x mod 256"
    by (simp add: mod_mod_cancel)
  ultimately show ?thesis
    by (simp add: word_octets_def octets_of_def b drop_bit_eq_div div_mult2_eq [symmetric])
qed

lemma blocked_octets_blocks: "isBlockedIpv4 (octets_of x) \<longleftrightarrow> (\<exists>b\<in>set blocked_blocks. in_block x b)"
proof -
  have "unat x < 4294967296" by (rule unat_addr_lt)
  from blocked_octets [OF this] show ?thesis
    by (simp add: octets_of_def blocked_blocks_def in_block_div)
qed

lemma blocked_ip_text: "isBlockedIp (ip_text x) \<longleftrightarrow> (\<exists>b\<in>set blocked_blocks. in_block x b)"
  by (simp add: isBlockedIp_def parseIpv4_text blocked_octets_blocks Let_def takeWhile_none)

section \<open>IPv6 texts\<close>

definition groups_text :: "nat list \<Rightarrow> string" where
  "groups_text ws = js_join '':'' (map show_hex ws)"

text \<open>The texts of eight words: all groups, or one run of zero groups left out as \<open>::\<close>.\<close>

definition ipv6_texts :: "nat list \<Rightarrow> string set" where
  "ipv6_texts ws = insert (groups_text ws)
     {groups_text l @ ''::'' @ groups_text r | l r.
        length l + length r \<le> 7 \<and> ws = l @ replicate (8 - length l - length r) 0 @ r}"

lemma ipv6_textsI: "length l + length r \<le> 7 \<Longrightarrow>
   groups_text l @ ''::'' @ groups_text r \<in> ipv6_texts (l @ replicate (8 - length l - length r) 0 @ r)"
  unfolding ipv6_texts_def by blast

lemma replicate5: "replicate 5 x = [x, x, x, x, x]"
  by (simp add: numeral_eq_Suc)

lemma show_hex_lower: "c \<in> set (show_hex n) \<Longrightarrow> lower_char c = c"
proof (induction n rule: show_hex.induct)
  case (1 n)
  have "lower_char (hex_char d) = hex_char d" if "d < 16" for d
    using that by (auto simp: lower_char_def hex_char_def)
  with 1 show ?case by (cases "n < 16") (auto simp: show_hex_small show_hex_big)
qed

lemma groups_no [simp]: "\<not> is_hex c \<Longrightarrow> c \<noteq> CHR '':'' \<Longrightarrow> c \<notin> set (groups_text ws)"
  unfolding groups_text_def by (induction ws rule: induct_list012) auto

lemma groups_lower_char: "c \<in> set (groups_text ws) \<Longrightarrow> lower_char c = c"
proof (cases "c = CHR '':''")
  case True
  then show ?thesis by (simp add: lower_char_def code_def)
next
  case False
  assume "c \<in> set (groups_text ws)"
  with False have "\<exists>n. c \<in> set (show_hex n)"
    unfolding groups_text_def by (induction ws rule: induct_list012) auto
  then show ?thesis using show_hex_lower by auto
qed

lemma groups_lower: "to_lower (groups_text ws) = groups_text ws"
  unfolding to_lower_def by (rule map_idI) (rule groups_lower_char)

lemma groups_split: "ws \<noteq> [] \<Longrightarrow> js_split CHR '':'' (groups_text ws) = map show_hex ws"
  unfolding groups_text_def by (rule js_split_join) simp_all

lemma groups_Nil: "groups_text ws = [] \<longleftrightarrow> ws = []"
  by (cases ws rule: remdups_adj.cases) (auto simp: groups_text_def)

lemma groups_single: "\<not> has_colons (groups_text ws)"
  unfolding groups_text_def by (rule no_colons_join) auto

lemma has_colons_snoc:
  "has_colons (s @ [c]) \<longleftrightarrow> has_colons s \<or> (s \<noteq> [] \<and> last s = CHR '':'' \<and> c = CHR '':'')"
  by (induction s rule: has_colons.induct) auto

lemma join_not_Nil: "ws \<noteq> [] \<Longrightarrow> last ws \<noteq> [] \<Longrightarrow> js_join sep ws \<noteq> []"
  by (induction sep ws rule: js_join.induct) auto

lemma last_join: "ws \<noteq> [] \<Longrightarrow> last ws \<noteq> [] \<Longrightarrow> last (js_join sep ws) = last (last ws)"
  using join_not_Nil by (induction sep ws rule: js_join.induct) (auto simp: last_append)

lemma groups_colon_end: "\<not> has_colons (groups_text ws @ '':'')"
proof (cases ws rule: rev_cases)
  case (snoc vs w)
  have "last (show_hex w) \<noteq> CHR '':''" using last_in_set [of "show_hex w"] by fastforce
  then have "last (groups_text ws) \<noteq> CHR '':''"
    by (simp add: groups_text_def snoc last_join)
  then show ?thesis using groups_single by (simp add: has_colons_snoc)
qed (simp add: groups_text_def)

lemma split_colons_none: "\<not> has_colons s \<Longrightarrow> split_colons s = [s]"
  by (induction s rule: split_colons.induct) (auto split: if_splits)

lemma split_colons_at: "\<not> has_colons (u @ '':'') \<Longrightarrow> split_colons (u @ ''::'' @ v) = u # split_colons v"
proof (induction u rule: has_colons.induct)
  case (1 c d cs)
  then show ?case by (auto split: if_splits)
qed auto

lemma groups_whole: "split_colons (groups_text ws) = [groups_text ws]"
  using groups_single by (rule split_colons_none)

lemma groups_halves: "split_colons (groups_text l @ ''::'' @ groups_text r) = [groups_text l, groups_text r]"
  using split_colons_at [OF groups_colon_end] by (simp add: groups_whole)

lemma no_dots:
  assumes "CHR ''.'' \<notin> set s"
  shows "\<not> is_ipv4_lit s" "dotted_suffix s = None"
proof -
  show "\<not> is_ipv4_lit s" using assms by (simp add: is_ipv4_lit_def js_split_no_sep Let_def)
  show "dotted_suffix s = None"
    using assms by (induction s) (auto simp: mapped_dotted_def js_split_no_sep)
qed

lemma hex_group_show: "n < 65536 \<Longrightarrow> is_hex_group (show_hex n)"
  using show_hex_hexes by (simp add: is_hex_group_def show_hex_len4 list_all_iff)

lemma side_groups_text: "\<forall>w\<in>set ws. w < 65536 \<Longrightarrow> side_groups q (groups_text ws) = Some (length ws)"
  by (cases "ws = []")
     (auto simp: side_groups_def groups_Nil groups_split hex_group_show list_all_iff Let_def)

lemma group_value_show: "n < 65536 \<Longrightarrow> group_value (show_hex n) = Some n"
  using parse_int16_hexes [of "show_hex n"] show_hex_hexes [of n] by (simp add: group_value_def)

lemma nonempty_groups_text: "nonempty_groups (groups_text ws) = map show_hex ws"
proof (cases "ws = []")
  case False
  have "filter (\<lambda>w. w \<noteq> []) (map show_hex ws) = map show_hex ws" by (auto simp: filter_id_conv)
  with False show ?thesis by (simp add: nonempty_groups_def groups_Nil groups_split)
qed (simp add: nonempty_groups_def groups_text_def)

lemma values_show: "\<forall>w\<in>set ws. w < 65536 \<Longrightarrow> map group_value (map show_hex ws) = map Some ws"
  by (auto simp: group_value_show)

lemma dropWhile_none: "c \<notin> set u \<Longrightarrow> dropWhile (\<lambda>x. x \<noteq> c) u = []"
  by (induction u) auto

lemma the_Some_map: "map the (map Some ws) = ws"
  by simp

lemma expand_texts:
  assumes "t \<in> ipv6_texts ws" and len: "length ws = 8" and small: "\<forall>w\<in>set ws. w < 65536"
  shows "expand_words t = Some ws \<and> is_ipv6_lit t \<and> to_lower t = t \<and> CHR ''.'' \<notin> set t \<and> CHR ''%'' \<notin> set t"
  using assms(1) unfolding ipv6_texts_def
proof (elim insertE CollectE exE conjE)
  assume t: "t = groups_text ws"
  have "ws \<noteq> []" using len by auto
  have "expand_words t = Some ws"
    unfolding expand_words_def t groups_whole
    using len values_show [OF small] by (simp add: nonempty_groups_text Let_def comp_def the_Some_map del: map_map)
  then show ?thesis
    using len small \<open>ws \<noteq> []\<close> by (simp add: t is_ipv6_lit_def groups_whole groups_lower side_groups_text
        takeWhile_none dropWhile_none groups_Nil Let_def)
next
  fix l r assume t: "t = groups_text l @ ''::'' @ groups_text r" and lr: "length l + length r \<le> 7"
    and ws: "ws = l @ replicate (8 - length l - length r) 0 @ r"
  have sm: "\<forall>w\<in>set l. w < 65536" "\<forall>w\<in>set r. w < 65536" using small ws by auto
  have no: "CHR ''%'' \<notin> set t" "CHR ''.'' \<notin> set t" unfolding t by simp_all
  have z: "group_value ''0'' = Some 0" using parse_int16_hexes [of "''0''"] by (simp add: group_value_def hexes_val_def hex_val_def code_def)
  have n: "nat (8 - int (length l) - int (length r)) = 8 - length l - length r" by arith
  have "map group_value (map show_hex l @ replicate (8 - length l - length r) ''0'' @ map show_hex r) = map Some ws"
    unfolding ws map_append values_show [OF sm(1)] values_show [OF sm(2)] by (simp add: z)
  then have e: "expand_words t = Some ws"
    unfolding expand_words_def t groups_halves using lr len by (simp add: nonempty_groups_text n Let_def comp_def)
  have "is_ipv6_lit t"
    using lr no unfolding is_ipv6_lit_def Let_def takeWhile_none [OF no(1)] dropWhile_none [OF no(1)]
    unfolding t groups_halves by (simp add: side_groups_text sm)
  moreover have "to_lower t = t"
    unfolding t using groups_lower by (simp add: to_lower_def lower_char_def code_def)
  ultimately show ?thesis using e no by simp
qed

lemma parseIpv6_texts:
  assumes "t \<in> ipv6_texts ws" and "length ws = 8" and "\<forall>w\<in>set ws. w < 65536"
  shows "parseIpv6 t = Some ws" "isBlockedIp t = isBlockedIpv6 ws"
proof -
  note e = expand_texts [OF assms]
  then have "isIP t = 6" by (simp add: isIP_def no_dots)
  with e show p: "parseIpv6 t = Some ws"
    by (simp add: parseIpv6_def inline_quad_def takeWhile_none no_dots)
  from \<open>isIP t = 6\<close> have "parseIpv4 t = None" by (simp add: parseIpv4_def)
  with e p show "isBlockedIp t = isBlockedIpv6 ws"
    by (simp add: isBlockedIp_def takeWhile_none)
qed

section \<open>What is blocked\<close>

text \<open>
  A dotted IPv4 address is blocked exactly when it lies in one of thirteen CIDR blocks: this
  network, the private ranges, shared address space, loopback, link-local, the IETF and
  documentation blocks, benchmarking, and everything from 224.0.0.0 up. An IPv4-mapped IPv6 text
  of the address, written in full or with any run of zero groups left out, is treated alike.
\<close>

theorem blocked_ipv4_exact:
  assumes "t = ip_text x \<or> t \<in> ipv6_texts [0, 0, 0, 0, 0, 65535, unat x div 65536, unat x mod 65536]"
  shows "isBlockedIp t \<longleftrightarrow> (\<exists>b\<in>set blocked_blocks. in_block x b)"
  using assms
proof
  assume t: "t \<in> ipv6_texts [0, 0, 0, 0, 0, 65535, unat x div 65536, unat x mod 65536]"
  have "isBlockedIp t = isBlockedIpv6 [0, 0, 0, 0, 0, 65535, unat x div 65536, unat x mod 65536]"
    using unat_addr_lt [of x] by (intro parseIpv6_texts(2) [OF t]) auto
  then show ?thesis
    by (simp add: isBlockedIpv6_def mappedIpv4_def word_octets_pair blocked_octets_blocks)
qed (simp only: blocked_ip_text)

theorem blocked_ipv4_exact_witness:
  "isBlockedIp ''::ffff:a00:1'' \<longleftrightarrow> (\<exists>b\<in>set blocked_blocks. in_block 0x0A000001 b)"
proof (rule blocked_ipv4_exact)
  have "''::ffff:a00:1'' = groups_text [] @ ''::'' @ groups_text [65535, 2560, 1]"
    by (simp add: groups_text_def show_hex_big show_hex_small hex_char_def char_of_def bit_Suc_0_iff)
  then show "''::ffff:a00:1'' = ip_text 0x0A000001 \<or> ''::ffff:a00:1'' \<in>
     ipv6_texts [0, 0, 0, 0, 0, 65535, unat (0x0A000001 :: addr32) div 65536, unat (0x0A000001 :: addr32) mod 65536]"
    using ipv6_textsI [of "[]" "[65535, 2560, 1]"] by (simp add: replicate5)
qed

definition embeddings :: "addr32 \<Rightarrow> nat list set" where
  "embeddings x = (let h = unat x div 65536; l = unat x mod 65536 in
     {[0x64, 0xff9b, 0, 0, 0, 0, h, l], [0, 0, 0, 0, 0, 0, h, l], [0, 0, 0, 0, 0xffff, 0, h, l],
      [0, 0, 0, 0, 0, 0xffff, h, l]}
     \<union> {[0x2002, h, l, a, b, c, d, e] | a b c d e. {a, b, c, d, e} \<subseteq> {..<65536}}
     \<union> {[0x64, 0xff9b, 1, a, b, c, h, l] | a b c. {a, b, c} \<subseteq> {..<65536}})"

lemma embedding_blocked:
  assumes "isBlockedIpv4 (word_octets h l)"
  shows "isBlockedIpv6 [0x64, 0xff9b, 0, 0, 0, 0, h, l]" "isBlockedIpv6 [0, 0, 0, 0, 0, 0, h, l]"
    "isBlockedIpv6 [0, 0, 0, 0, 0xffff, 0, h, l]" "isBlockedIpv6 [0, 0, 0, 0, 0, 0xffff, h, l]"
    "isBlockedIpv6 [0x2002, h, l, a, b, c, d, e]" "isBlockedIpv6 [0x64, 0xff9b, 1, a, b, c, h, l]"
  using assms by (simp_all add: isBlockedIpv6_def mappedIpv4_def)

text \<open>
  The IPv6 forms that carry an IPv4 destination do not open a way around: a 6to4 or
  well-known NAT64 address of a blocked IPv4 address, any local-use NAT64 address, any
  IPv4-compatible or IPv4-translatable address, and any text that is not an address literal at
  all are blocked.
\<close>

theorem embedded_private_blocked:
  assumes "ws \<in> embeddings x" and "isBlockedIp (ip_text x)" and "t \<in> ipv6_texts ws"
  shows "isBlockedIp t"
proof -
  let ?h = "unat x div 65536" and ?l = "unat x mod 65536"
  have small: "?h < 65536" "?l < 65536" using unat_addr_lt [of x] by auto
  have b: "isBlockedIpv4 (word_octets ?h ?l)"
    using assms(2) by (simp add: word_octets_pair blocked_octets_blocks blocked_ip_text)
  have "length ws = 8 \<and> (\<forall>w\<in>set ws. w < 65536)"
    using assms(1) small unfolding embeddings_def Let_def by (elim UnE insertE CollectE exE conjE emptyE) simp_all
  moreover have "isBlockedIpv6 ws"
    using assms(1) embedding_blocked [OF b] unfolding embeddings_def Let_def
    by (elim UnE insertE CollectE exE conjE emptyE) simp_all
  ultimately have "length ws = 8" "\<forall>w\<in>set ws. w < 65536" "isBlockedIpv6 ws" by simp_all
  with parseIpv6_texts(2) [OF assms(3)] show ?thesis by simp
qed

theorem embedded_private_blocked_witness: "isBlockedIp ''2002:a00:1::''"
proof (rule embedded_private_blocked [of _ "0x0A000001"])
  show "[0x2002, 2560, 1, 0, 0, 0, 0, 0] \<in> embeddings 0x0A000001"
    unfolding embeddings_def Let_def by (intro UnI1 UnI2 CollectI exI conjI) auto
  show "isBlockedIp (ip_text 0x0A000001)"
    by (simp add: blocked_ip_text blocked_blocks_def in_block_div)
  have "''2002:a00:1::'' = groups_text [0x2002, 2560, 1] @ ''::'' @ groups_text []"
    by (simp add: groups_text_def show_hex_big show_hex_small hex_char_def char_of_def bit_Suc_0_iff)
  then show "''2002:a00:1::'' \<in> ipv6_texts [0x2002, 2560, 1, 0, 0, 0, 0, 0]"
    using ipv6_textsI [of "[0x2002, 2560, 1]" "[]"] by (simp add: replicate5)
qed

section \<open>The pinned lookup\<close>

definition handed :: "lookup_reply \<Rightarrow> string set" where
  "handed r = (case r of NotFound \<Rightarrow> {} | AllOf es \<Rightarrow> pin_address ` set es | OneOf a f \<Rightarrow> {a})"

lemma handed_pinned: "handed (createPinnedLookup safe f a) \<subseteq> pin_address ` set safe"
  by (auto simp: handed_def createPinnedLookup_def Let_def hd_in_set intro!: imageI dest: hd_in_set)

lemma usable_family: "usable_entry e = Some a \<Longrightarrow> pin_family a = 4 \<or> pin_family a = 6"
  by (auto simp: usable_entry_def split: prod.splits option.splits list.splits if_splits)

lemma split_chars: "c \<in> set s \<Longrightarrow> c = sep \<or> (\<exists>p\<in>set (js_split sep s). c \<in> set p)"
  by (induction s) (auto split: list.splits if_splits)

lemma split_colons_chars: "c \<in> set s \<Longrightarrow> c = CHR '':'' \<or> (\<exists>p\<in>set (split_colons s). c \<in> set p)"
  by (induction s rule: split_colons.induct) (auto split: list.splits if_splits)

lemma ipv4_lit_chars: "is_ipv4_lit s \<Longrightarrow> c \<in> set s \<Longrightarrow> is_digit c \<or> c = CHR ''.''"
  using split_chars [of c s "CHR ''.''"] by (fastforce simp: is_ipv4_lit_def Let_def list_all_iff)

lemma side_chars:
  assumes "side_groups q s = Some n" and "c \<in> set s"
  shows "is_hex c \<or> c = CHR '':'' \<or> c = CHR ''.''"
proof -
  let ?ps = "js_split CHR '':'' s"
  from split_chars [OF assms(2), of "CHR '':''"] show ?thesis
  proof (elim disjE bexE)
    fix p assume p: "p \<in> set ?ps" "c \<in> set p"
    have "?ps = butlast ?ps @ [last ?ps]" by simp
    with p(1) have "p \<in> set (butlast ?ps) \<or> p = last ?ps" by (metis set_append UnE set_ConsD empty_iff list.set(1))
    with assms p show ?thesis
      by (auto simp: side_groups_def Let_def list_all_iff is_hex_group_def is_hex_def dest: ipv4_lit_chars split: if_splits)
  qed simp
qed

lemma literal_chars:
  assumes "isIP s \<noteq> 0" and "CHR ''%'' \<notin> set s" and "c \<in> set s"
  shows "is_hex c \<or> c = CHR '':'' \<or> c = CHR ''.''"
proof (cases "is_ipv4_lit s")
  case True
  then show ?thesis using ipv4_lit_chars assms(3) by (auto simp: is_hex_def)
next
  case False
  with assms(1) have "is_ipv6_lit s" by (simp add: isIP_def split: if_splits)
  then have "\<exists>n q. side_groups q p = Some n" if "p \<in> set (split_colons s)" for p
    using that unfolding is_ipv6_lit_def Let_def takeWhile_none [OF assms(2)]
    by (auto split: list.splits option.splits)
  then show ?thesis using split_colons_chars [OF assms(3)] side_chars by blast
qed

lemma literal_not_localhost:
  assumes "isIP s \<noteq> 0" and "CHR ''%'' \<notin> set s"
  shows "\<not> is_localhost (to_lower s)"
proof
  assume "is_localhost (to_lower s)"
  then have "CHR ''t'' \<in> set (to_lower s)"
    unfolding is_localhost_def
  proof
    assume "ends_with (to_lower s) ''.localhost''"
    then have "set ''.localhost'' \<subseteq> set (to_lower s)"
      unfolding ends_with_def by (metis set_drop_subset)
    then show ?thesis by simp
  qed simp
  then obtain c where c: "c \<in> set s" "lower_char c = CHR ''t''" by (auto simp: to_lower_def)
  have "code (lower_char c) = 116" unfolding c(2) by (simp add: code_def)
  then have "code c = 116 \<or> code c = 84" by (auto simp: lower_char_def split: if_splits)
  with literal_chars [OF assms c(1)] show False
    by (auto simp: is_hex_def is_digit_def) (simp_all add: code_def)
qed

lemma normalized_not_localhost:
  "normalizeOutboundHost env v field opts = Ok h \<Longrightarrow> \<not> allowLocalhost opts \<Longrightarrow> \<not> is_localhost h"
  by (auto simp: normalizeOutboundHost_def Let_def js_includes_def literal_not_localhost split: if_splits)

lemma resolveHost_public:
  assumes "resolveHost env host field opts = Ok addrs" and "\<not> allowPrivate opts"
  shows "addrs \<noteq> [] \<and> (\<forall>a\<in>set addrs. \<not> isBlockedIp (pin_address a) \<and> pin_family a \<in> {4, 6})"
proof -
  from assms obtain es where a: "addrs = List.map_filter usable_entry es" "addrs \<noteq> []"
    and b: "\<forall>a\<in>set addrs. \<not> isBlockedIp (pin_address a)"
    by (auto simp: resolveHost_def Let_def and_then_Ok_iff list_ex_iff split: if_splits)
  have "pin_family a \<in> {4, 6}" if "a \<in> set addrs" for a
    using that unfolding a(1)
    by (auto simp: map_filter_def dest: usable_family)
  with a(2) b show ?thesis by blast
qed

text \<open>
  C23. Whatever the resolver answers, and however the caller sets the options, the addresses that
  the lookup of a safe outbound host hands to the transport, for any family and mode, are
  addresses that were checked and are not blocked, and the host is not localhost; the same holds
  for a safe outbound URL resolved without \<open>allowPrivate\<close>, which is https, without credentials
  and fragment. The transport never gets an address that was not checked, even when a second
  resolution would answer differently.
\<close>

theorem outbound_lookup_only_public:
  "(\<forall>r. resolveSafeOutboundHost env raw field opts = Ok r \<longrightarrow>
      (\<forall>fam all' ip. ip \<in> handed (res_lookup r fam all') \<longrightarrow> \<not> isBlockedIp ip)
      \<and> \<not> is_localhost (res_target r))
   \<and> (\<forall>r. resolveSafeOutboundUrl env raw field opts = Ok r \<and> \<not> allowPrivate opts \<longrightarrow>
      (\<forall>fam all' ip. ip \<in> handed (res_lookup r fam all') \<longrightarrow> \<not> isBlockedIp ip)
      \<and> url_protocol (res_target r) = ''https:'' \<and> url_username (res_target r) = []
      \<and> url_password (res_target r) = [] \<and> url_hash (res_target r) = [])"
proof (intro conjI allI impI)
  fix r assume ok: "resolveSafeOutboundHost env raw field opts = Ok r"
  let ?o = "\<lparr>unsafeCode = Some ''UNSAFE_HOST'', timeoutCode = None, allowLocalhost = False, allowPrivate = False\<rparr>"
  from ok obtain h addrs where h: "normalizeOutboundHost env raw field ?o = Ok h"
    and a: "resolveHost env h field (opts\<lparr>allowPrivate := False, unsafeCode := Some ''UNSAFE_HOST''\<rparr>) = Ok addrs"
    and r: "r = with_lookup h addrs"
    by (auto simp: resolveSafeOutboundHost_def resolve_bare_def and_then_Ok_iff)
  from resolveHost_public [OF a] have pub: "\<forall>a\<in>set addrs. \<not> isBlockedIp (pin_address a)" by simp
  show "\<not> isBlockedIp ip" if "ip \<in> handed (res_lookup r fam all')" for fam all' ip
    using that handed_pinned pub unfolding r with_lookup_def by fastforce
  show "\<not> is_localhost (res_target r)"
    using normalized_not_localhost [OF h] by (simp add: r with_lookup_def)
next
  fix r assume ok: "resolveSafeOutboundUrl env raw field opts = Ok r \<and> \<not> allowPrivate opts"
  then obtain u h addrs where u: "normalizeAndCheckUrl env raw field = Ok (u, h)"
    and a: "resolveHost env h field opts = Ok addrs" and r: "r = with_lookup u addrs"
    by (auto simp: resolveSafeOutboundUrl_def and_then_Ok_iff)
  from resolveHost_public [OF a] ok have pub: "\<forall>a\<in>set addrs. \<not> isBlockedIp (pin_address a)" by simp
  show "\<not> isBlockedIp ip" if "ip \<in> handed (res_lookup r fam all')" for fam all' ip
    using that handed_pinned pub unfolding r with_lookup_def by fastforce
  show "url_protocol (res_target r) = ''https:''" "url_username (res_target r) = []"
    "url_password (res_target r) = []" "url_hash (res_target r) = []"
    using u by (auto simp: r with_lookup_def normalizeAndCheckUrl_def Let_def split: option.splits if_splits)
qed

definition sample_env :: outbound_env where
  "sample_env = \<lparr>parse_url = \<lambda>_. None, domainToASCII = \<lambda>s. s, dns_lookup = \<lambda>_. DnsOk [DnsText ''8.8.8.8'']\<rparr>"

definition sample_opts :: out_opts where
  "sample_opts = \<lparr>unsafeCode = None, timeoutCode = None, allowLocalhost = True, allowPrivate = True\<rparr>"

lemma visible_no_space: "visible s \<Longrightarrow> \<not> has_space s"
proof (induction s)
  case (Cons c s)
  then have "no_space_start (c # s)" by (simp add: no_space_start_def)
  with Cons show ?case by (auto simp: list_ex_iff dest: no_space_head)
qed simp

lemma digit_lower: "is_digit c \<or> c = CHR ''.'' \<Longrightarrow> lower_char c = c"
  by (auto simp: is_digit_def lower_char_def) (simp_all add: code_def)

lemma literal_host: "normalizeOutboundHost env (ip_text x) field opts = Ok (ip_text x)"
proof -
  have "\<not> list_ex (\<lambda>c. code c \<le> 32 \<or> code c = 127) (ip_text x)"
    using ip_text_chars [of _ x] by (fastforce simp: list_ex_iff is_digit_def code_def)
  moreover have "take 1 (ip_text x) \<noteq> ''[''"
  proof
    assume "take 1 (ip_text x) = ''[''"
    then have "CHR ''['' \<in> set (ip_text x)" by (cases "ip_text x") auto
    then show False using ip_text_chars [of "CHR ''[''" x] by (auto simp: is_digit_def code_def)
  qed
  moreover have "to_lower (ip_text x) = ip_text x"
    unfolding to_lower_def by (rule map_idI) (rule digit_lower, rule ip_text_chars)
  ultimately show ?thesis
    by (simp add: normalizeOutboundHost_def Let_def visible_no_space js_includes_def isIP_def ip_text_lit)
qed

theorem outbound_lookup_only_public_witness:
  "\<exists>r. resolveSafeOutboundHost sample_env (ip_text 0x08080808) ''host'' sample_opts = Ok r
     \<and> handed (res_lookup r 4 False) = {ip_text 0x08080808} \<and> \<not> isBlockedIp (ip_text 0x08080808)"
proof -
  let ?p = "\<lparr>pin_address = ip_text 0x08080808, pin_family = 4\<rparr>"
  have pub: "\<not> isBlockedIp (ip_text 0x08080808)"
    by (simp add: blocked_ip_text blocked_blocks_def in_block_div)
  have ip: "isIP (ip_text 0x08080808) = 4" by (simp add: isIP_def ip_text_lit)
  obtain c cs where t: "ip_text 0x08080808 = c # cs" using ip_text_not_Nil by (cases "ip_text 0x08080808") auto
  have u: "usable_entry (DnsRec (Some (ip_text 0x08080808)) (Some 4)) = Some ?p"
    unfolding t by (simp add: usable_entry_def)
  have "resolveHost sample_env (ip_text 0x08080808) ''host''
      (sample_opts\<lparr>allowPrivate := False, unsafeCode := Some ''UNSAFE_HOST''\<rparr>) = Ok [?p]"
    by (simp add: resolveHost_def raw_addresses_def ip u List.map_filter_simps pub)
  then have r: "resolveSafeOutboundHost sample_env (ip_text 0x08080808) ''host'' sample_opts
      = Ok (with_lookup (ip_text 0x08080808) [?p])"
    by (simp add: resolveSafeOutboundHost_def resolve_bare_def literal_host)
  have h: "handed (res_lookup (with_lookup (ip_text 0x08080808) [?p]) 4 False) = {ip_text 0x08080808}"
    by (simp add: with_lookup_def createPinnedLookup_def handed_def)
  have "ip_text 0x08080808 \<in> handed (res_lookup (with_lookup (ip_text 0x08080808) [?p]) 4 False)"
    unfolding h by (rule singletonI)
  then have "\<not> isBlockedIp (ip_text 0x08080808)"
    by (rule outbound_lookup_only_public [THEN conjunct1, THEN spec, THEN mp, OF r, THEN conjunct1,
        THEN spec [where x = 4], THEN spec [where x = False], THEN spec, THEN mp])
  with r h show ?thesis by (intro exI conjI)
qed

end
