(* ===== verification/RadiusAccounting.thy ===== *)
theory RadiusAccounting
  imports UsageDelta NasResolver OutboundGuard
begin

text \<open>
  The accounting store of \<open>src/services/radiusAccountingService.js\<close>: \<open>ingestAccounting\<close> with its tables
  \<open>connection_logs\<close> (one row per session lifecycle), \<open>radius_accounting_usage_daily\<close>,
  \<open>mac_move_events\<close> and \<open>collector_ingest_receipts\<close>. The subscriber lock runs the ingests of a
  subscriber one after another, each in a transaction: an ingest is a function of the tables, an error
  leaves them as they were. SQL compares strings by the collation of the tables, \<open>coll\<close> being the key of
  a string; JavaScript compares them exactly. \<open>event_at\<close> is a \<open>TIMESTAMP\<close> without fraction, to which
  MySQL rounds. The UUID a call may draw (it keeps at most one), the clock and the WHATWG form of an
  IPv6 host are arguments.
  The evidence triggers append to another table and are left out, as is the metadata of a receipt.
\<close>

section \<open>Tables\<close>

datatype acct_kind = Start | Interim | Stop

record log_row =
  lr_id :: nat
  lr_org :: nat
  lr_contract :: nat
  lr_client :: nat
  lr_nas :: "nat option"
  lr_nas_ip :: string
  lr_user :: string
  lr_acct_session :: "string option"
  lr_session :: "string option"
  lr_instance :: "string option"
  lr_port :: "string option"
  lr_called :: "string option"
  lr_calling :: "string option"
  lr_framed4 :: "string option"
  lr_framed6 :: "string option"
  lr_kind :: acct_kind
  lr_event_at :: int
  lr_last_at :: "int option"
  lr_counts :: readings
  lr_usage_last :: readings
  lr_v6_in :: "nat option"
  lr_v6_out :: "nat option"
  lr_stack :: "stack_type option"
  lr_cause :: "string option"
  lr_delay :: "nat option"
  lr_evidence_complete :: bool
  lr_evidence_anomaly :: "string option"
  lr_usage_complete :: bool
  lr_anomalies :: nat

record daily_row =
  dy_org :: nat
  dy_date :: int
  dy_instance :: string
  dy_log :: nat
  dy_contract :: "nat option"
  dy_client :: "nat option"
  dy_nas :: "nat option"
  dy_user :: string
  dy_delta :: "usage_field \<Rightarrow> nat"
  dy_complete :: bool
  dy_anomalies :: nat
  dy_reason :: "usage_anomaly option"
  dy_first :: int
  dy_last :: int

record mac_move =
  mm_org :: nat
  mm_user :: string
  mm_old_mac :: "string option"
  mm_new_mac :: "string option"
  mm_old_nas :: "nat option"
  mm_new_nas :: nat

datatype ingest_action = Inserted | Updated | Noop

record receipt =
  rc_org :: nat
  rc_source :: string
  rc_token :: nat
  rc_nas :: nat
  rc_kind :: acct_kind
  rc_action :: ingest_action
  rc_bucket :: int
  rc_received :: nat
  rc_inserted :: nat
  rc_replayed :: nat

record acct_db =
  ad_logs :: "log_row list"
  ad_next :: nat
  ad_daily :: "daily_row list"
  ad_moves :: "mac_move list"
  ad_receipts :: "receipt list"

text \<open>The accounts of \<open>radius\<close> and the owners the insert trigger looks up.\<close>

record account_row =
  ac_user :: string
  ac_org :: "nat option"
  ac_contract :: "nat option"
  ac_client :: nat
  ac_deleted :: bool

record acct_env =
  ae_coll :: "string \<Rightarrow> string"
  ae_nas :: "nas_row list"
  ae_accounts :: "account_row list"
  ae_contract_org :: "nat \<Rightarrow> nat option"
  ae_client_org :: "nat \<Rightarrow> nat option"
  ae_canon6 :: "string \<Rightarrow> string"
  ae_skew :: "int option"
  ae_liveness :: "int option"

section \<open>The event an ingest works on\<close>

record acct_event =
  av_org :: nat
  av_nas :: nat
  av_contract :: "nat option"
  av_client :: nat
  av_user :: string
  av_session :: string
  av_nas_ip :: string
  av_port :: "string option"
  av_called :: "string option"
  av_calling :: "string option"
  av_framed4 :: "string option"
  av_framed6 :: "string option"
  av_counts :: readings
  av_v6_in :: "nat option"
  av_v6_out :: "nat option"
  av_cause :: "string option"
  av_kind :: acct_kind
  av_at :: int
  av_explicit :: bool
  av_delay :: nat
  av_source :: string
  av_token :: nat

definition to_second :: "int \<Rightarrow> int" where
  "to_second t = (t + 500) div 1000 * 1000"

definition last_at :: "log_row \<Rightarrow> int" where
  "last_at r = (case lr_last_at r of Some t \<Rightarrow> t | None \<Rightarrow> lr_event_at r)"

text \<open>The row with the greatest key, the greatest id among equals.\<close>

fun latest :: "(log_row \<Rightarrow> int) \<Rightarrow> log_row list \<Rightarrow> log_row option" where
  "latest key [] = None"
| "latest key (r # rs) =
     (case latest key rs of
        None \<Rightarrow> Some r
      | Some s \<Rightarrow> if key s < key r \<or> key s = key r \<and> lr_id s < lr_id r then Some r else Some s)"

definition same_subscriber :: "acct_env \<Rightarrow> acct_event \<Rightarrow> log_row \<Rightarrow> bool" where
  "same_subscriber env e r \<longleftrightarrow> lr_org r = av_org e \<and> lr_nas r = Some (av_nas e) \<and>
     ae_coll env (lr_user r) = ae_coll env (av_user e)"

definition same_text :: "acct_env \<Rightarrow> string \<Rightarrow> string option \<Rightarrow> bool" where
  "same_text env s v = (case v of Some t \<Rightarrow> ae_coll env t = ae_coll env s | None \<Rightarrow> False)"

definition current_session :: "acct_env \<Rightarrow> acct_event \<Rightarrow> log_row list \<Rightarrow> log_row option" where
  "current_session env e logs =
     (case latest last_at (filter (\<lambda>r. same_subscriber env e r \<and> same_text env (av_session e) (lr_acct_session r)) logs) of
        Some r \<Rightarrow> Some r
      | None \<Rightarrow> latest lr_event_at (filter (\<lambda>r. same_subscriber env e r \<and> lr_acct_session r = None
                   \<and> same_text env (av_session e) (lr_session r)) logs))"

section \<open>Statements\<close>

definition update_log :: "(log_row \<Rightarrow> bool) \<Rightarrow> (log_row \<Rightarrow> log_row) \<Rightarrow> acct_db \<Rightarrow> acct_db" where
  "update_log p f db = db\<lparr>ad_logs := map (\<lambda>r. if p r then f r else r) (ad_logs db)\<rparr>"

definition sql_coalesce :: "'a option \<Rightarrow> 'a option \<Rightarrow> 'a option" where
  "sql_coalesce a b = (case a of None \<Rightarrow> b | Some x \<Rightarrow> Some x)"

definition reading :: "nat option \<Rightarrow> nat" where
  "reading v = (case v of Some n \<Rightarrow> n | None \<Rightarrow> 0)"

text \<open>\<open>CASE WHEN ? IS NULL THEN c ELSE GREATEST(COALESCE(c, 0), ?) END\<close>\<close>

definition greatest :: "readings \<Rightarrow> readings \<Rightarrow> readings" where
  "greatest old new = (\<lambda>f. case new f of None \<Rightarrow> old f | Some n \<Rightarrow> Some (max (reading (old f)) n))"

definition latest_readings :: "readings \<Rightarrow> readings \<Rightarrow> readings" where
  "latest_readings old new = (\<lambda>f. sql_coalesce (new f) (old f))"

definition daily_key :: "nat \<Rightarrow> int \<Rightarrow> string \<Rightarrow> daily_row \<Rightarrow> bool" where
  "daily_key org date inst d \<longleftrightarrow> dy_org d = org \<and> dy_date d = date \<and> dy_instance d = inst"

definition merge_daily :: "daily_row \<Rightarrow> daily_row \<Rightarrow> daily_row" where
  "merge_daily v d = d\<lparr>dy_log := dy_log v, dy_contract := sql_coalesce (dy_contract v) (dy_contract d),
     dy_client := sql_coalesce (dy_client v) (dy_client d), dy_nas := sql_coalesce (dy_nas v) (dy_nas d),
     dy_delta := (\<lambda>f. dy_delta d f + dy_delta v f), dy_complete := (dy_complete d \<and> dy_complete v),
     dy_anomalies := dy_anomalies d + dy_anomalies v, dy_reason := sql_coalesce (dy_reason v) (dy_reason d),
     dy_first := min (dy_first d) (dy_first v), dy_last := max (dy_last d) (dy_last v)\<rparr>"

definition upsert_daily :: "daily_row \<Rightarrow> daily_row list \<Rightarrow> daily_row list" where
  "upsert_daily v ds =
     (let hit = daily_key (dy_org v) (dy_date v) (dy_instance v) in
      if list_ex hit ds then map (\<lambda>d. if hit d then merge_daily v d else d) ds else ds @ [v])"

definition zero_null :: "nat \<Rightarrow> nat option" where
  "zero_null n = (if n = 0 then None else Some n)"

definition delta_row ::
  "log_row \<Rightarrow> string \<Rightarrow> int \<Rightarrow> (usage_field \<Rightarrow> nat) \<Rightarrow> bool \<Rightarrow> usage_anomaly option \<Rightarrow> daily_row" where
  "delta_row r uuid t deltas whole reason =
     \<lparr>dy_org = lr_org r, dy_date = utcDate t, dy_instance = uuid, dy_log = lr_id r,
      dy_contract = zero_null (lr_contract r), dy_client = zero_null (lr_client r), dy_nas = lr_nas r,
      dy_user = lr_user r, dy_delta = deltas, dy_complete = whole,
      dy_anomalies = (if reason = None then 0 else 1), dy_reason = reason, dy_first = t, dy_last = t\<rparr>"

text \<open>The day before a month boundary is flagged, too.\<close>

definition flag_month :: "log_row \<Rightarrow> string \<Rightarrow> usage_delta \<Rightarrow> daily_row list \<Rightarrow> daily_row list" where
  "flag_month r uuid u ds =
     (case ud_previousEventAt u of
        Some p \<Rightarrow> if ud_crossesMonth u
                  then upsert_daily (delta_row r uuid p (\<lambda>f. 0) False (Some Utc_Month_Boundary_Estimate)) ds else ds
      | None \<Rightarrow> ds)"

definition recordUsageDelta :: "log_row \<Rightarrow> int \<Rightarrow> usage_delta \<Rightarrow> acct_db \<Rightarrow> acct_db" where
  "recordUsageDelta r eventAt u db =
     (case lr_instance r of
        None \<Rightarrow> db
      | Some uuid \<Rightarrow>
          if list_all (\<lambda>f. ud_deltas u f = 0) USAGE_FIELDS \<and> ud_anomaly u = None then db
          else db\<lparr>ad_daily := upsert_daily (delta_row r uuid eventAt (ud_deltas u) (ud_rowComplete u) (ud_anomaly u))
                 (flag_month r uuid u (ad_daily db))\<rparr>)"

definition receipt_key :: "receipt \<Rightarrow> nat \<times> string \<times> nat \<times> nat \<times> acct_kind \<times> ingest_action \<times> int" where
  "receipt_key c = (rc_org c, rc_source c, rc_token c, rc_nas c, rc_kind c, rc_action c, rc_bucket c)"

definition recordReceipt :: "int \<Rightarrow> acct_event \<Rightarrow> ingest_action \<Rightarrow> acct_db \<Rightarrow> acct_db" where
  "recordReceipt now e action db =
     (let v = \<lparr>rc_org = av_org e, rc_source = av_source e, rc_token = av_token e, rc_nas = av_nas e,
               rc_kind = av_kind e, rc_action = action, rc_bucket = now div 60000, rc_received = 1,
               rc_inserted = (if action = Inserted then 1 else 0), rc_replayed = (if action = Noop then 1 else 0)\<rparr>;
          hit = (\<lambda>c. receipt_key c = receipt_key v) in
      db\<lparr>ad_receipts :=
        (if list_ex hit (ad_receipts db)
         then map (\<lambda>c. if hit c then c\<lparr>rc_received := rc_received c + 1, rc_inserted := rc_inserted c + rc_inserted v,
                       rc_replayed := rc_replayed c + rc_replayed v\<rparr> else c) (ad_receipts db)
         else ad_receipts db @ [v])\<rparr>)"

text \<open>\<open>trg_connection_logs_before_insert_org\<close>: the owners of the row's NAS, contract and client, and
  the one owner of its NAS address, agree with the organization of the row.\<close>

definition nas_ip_org :: "acct_env \<Rightarrow> string \<Rightarrow> nat option" where
  "nas_ip_org env ip =
     (case remdups (List.map_filter row_org (filter (\<lambda>n. ae_coll env (row_ip n) = ae_coll env ip \<and> \<not> row_deleted n) (ae_nas env))) of
        [org] \<Rightarrow> Some org | _ \<Rightarrow> None)"

definition anchors_agree :: "acct_env \<Rightarrow> log_row \<Rightarrow> bool" where
  "anchors_agree env r =
     (let nas_org = (case lr_nas r of Some n \<Rightarrow> (case find (\<lambda>x. row_id x = n) (ae_nas env) of
                       Some x \<Rightarrow> row_org x | None \<Rightarrow> None) | None \<Rightarrow> None);
          contract_org = (if lr_contract r = 0 then None else ae_contract_org env (lr_contract r));
          client_org = (if lr_client r = 0 then None else ae_client_org env (lr_client r)) in
      list_all (\<lambda>v. v = None \<or> v = Some (lr_org r)) [nas_org, contract_org, client_org, nas_ip_org env (lr_nas_ip r)])"

definition insert_log :: "acct_env \<Rightarrow> log_row \<Rightarrow> acct_db \<Rightarrow> acct_db result" where
  "insert_log env r db =
     (if anchors_agree env r then Ok (db\<lparr>ad_logs := ad_logs db @ [r], ad_next := ad_next db + 1\<rparr>)
      else Err ''Connection log tenant anchors disagree'')"

text \<open>The columns both INSERT statements share. \<open>contract_id\<close> is \<open>NOT NULL\<close>.\<close>

definition new_row :: "string \<Rightarrow> acct_event \<Rightarrow> nat \<Rightarrow> acct_db \<Rightarrow> log_row" where
  "new_row uuid e contract db =
     \<lparr>lr_id = ad_next db, lr_org = av_org e, lr_contract = contract, lr_client = av_client e,
      lr_nas = Some (av_nas e), lr_nas_ip = av_nas_ip e, lr_user = av_user e,
      lr_acct_session = Some (av_session e), lr_session = Some (av_session e), lr_instance = Some uuid,
      lr_port = av_port e, lr_called = av_called e, lr_calling = av_calling e,
      lr_framed4 = av_framed4 e, lr_framed6 = av_framed6 e, lr_kind = av_kind e,
      lr_event_at = to_second (av_at e), lr_last_at = Some (av_at e),
      lr_counts = av_counts e, lr_usage_last = av_counts e, lr_v6_in = av_v6_in e, lr_v6_out = av_v6_out e,
      lr_stack = deriveStackType (av_framed4 e) (av_framed6 e), lr_cause = av_cause e,
      lr_delay = Some (av_delay e), lr_evidence_complete = True, lr_evidence_anomaly = None,
      lr_usage_complete = True, lr_anomalies = 0\<rparr>"

record ingest_reply =
  ir_action :: ingest_action
  ir_id :: nat
  ir_move :: bool
  ir_instance :: "string option"


section \<open>Accounting-Start\<close>

definition opened :: "log_row \<Rightarrow> bool" where
  "opened r \<longleftrightarrow> lr_kind r \<noteq> Stop"

definition differs :: "string option \<Rightarrow> string option \<Rightarrow> bool" where
  "differs a b \<longleftrightarrow> supplied a \<and> supplied b \<and> a \<noteq> b"

definition identity_changed :: "acct_event \<Rightarrow> log_row \<Rightarrow> bool" where
  "identity_changed e d \<longleftrightarrow> opened d \<and> (differs (lr_framed4 d) (av_framed4 e)
     \<or> differs (lr_framed6 d) (av_framed6 e) \<or> differs (lr_calling d) (av_calling e))"

definition identity_enriched :: "acct_event \<Rightarrow> log_row \<Rightarrow> bool" where
  "identity_enriched e d \<longleftrightarrow> opened d \<and> (\<not> supplied (lr_framed4 d) \<and> supplied (av_framed4 e)
     \<or> \<not> supplied (lr_framed6 d) \<and> supplied (av_framed6 e) \<or> \<not> supplied (lr_calling d) \<and> supplied (av_calling e))"

definition livenessMinutes :: "int option \<Rightarrow> int" where
  "livenessMinutes configured =
     (let v = (case configured of Some n \<Rightarrow> if n = 0 then 60 else n | None \<Rightarrow> 60) in min (max v 1) 1440)"

definition stale_open :: "acct_env \<Rightarrow> acct_event \<Rightarrow> log_row \<Rightarrow> bool" where
  "stale_open env e d \<longleftrightarrow> opened d \<and> last_at d + livenessMinutes (ae_liveness env) * 60 * 1000 < av_at e"

definition later_start :: "acct_event \<Rightarrow> log_row \<Rightarrow> bool" where
  "later_start e d \<longleftrightarrow> opened d \<and> av_explicit e \<and> lr_event_at d < av_at e \<and> last_at d \<le> av_at e"

definition start_replay :: "acct_env \<Rightarrow> acct_event \<Rightarrow> log_row \<Rightarrow> bool" where
  "start_replay env e d \<longleftrightarrow>
     opened d \<and> \<not> stale_open env e d \<and> \<not> (identity_changed e d \<or> later_start e d)
     \<or> lr_kind d = Stop \<and> av_at e \<le> last_at d"

definition close_log :: "string \<Rightarrow> int \<Rightarrow> log_row \<Rightarrow> log_row" where
  "close_log reason t r = r\<lparr>lr_kind := Stop, lr_cause := Some reason, lr_last_at := Some t\<rparr>"

definition enrich :: "acct_event \<Rightarrow> log_row \<Rightarrow> log_row" where
  "enrich e r = r\<lparr>lr_framed4 := sql_coalesce (lr_framed4 r) (av_framed4 e),
     lr_framed6 := sql_coalesce (lr_framed6 r) (av_framed6 e),
     lr_calling := sql_coalesce (lr_calling r) (av_calling e), lr_last_at := Some (av_at e)\<rparr>"

text \<open>The open session of another Acct-Session-Id that began last.\<close>

definition other_open :: "acct_env \<Rightarrow> acct_event \<Rightarrow> log_row list \<Rightarrow> log_row option" where
  "other_open env e logs = latest lr_event_at (filter (\<lambda>r. ae_coll env (lr_user r) = ae_coll env (av_user e)
     \<and> lr_org r = av_org e \<and> opened r \<and> \<not> same_text env (av_session e) (lr_acct_session r)) logs)"

definition moved_from :: "acct_event \<Rightarrow> log_row \<Rightarrow> bool" where
  "moved_from e r \<longleftrightarrow> av_calling e \<noteq> None \<and> lr_calling r \<noteq> None \<and> lr_calling r \<noteq> av_calling e
     \<or> lr_nas r \<noteq> None \<and> lr_nas r \<noteq> Some (av_nas e)"

text \<open>\<open>mac_move_events.old_mac\<close> and \<open>new_mac\<close> are \<open>VARCHAR(17)\<close>; a longer value is an error under
  MySQL's strict mode. Characters are counted, not bytes.\<close>

definition char_length :: "string \<Rightarrow> nat" where
  "char_length s = length (filter (\<lambda>c. \<not> (128 \<le> code c \<and> code c < 192)) s)"

definition mac_fits :: "string option \<Rightarrow> bool" where
  "mac_fits m = (case m of Some s \<Rightarrow> char_length s \<le> 17 | None \<Rightarrow> True)"

definition detect_move :: "acct_env \<Rightarrow> acct_event \<Rightarrow> bool \<Rightarrow> acct_db \<Rightarrow> (bool \<times> acct_db) result" where
  "detect_move env e moved db =
     (case other_open env e (ad_logs db) of
        None \<Rightarrow> Ok (moved, db)
      | Some r \<Rightarrow>
          if \<not> moved_from e r then Ok (moved, db)
          else if mac_fits (lr_calling r) \<and> mac_fits (av_calling e)
          then Ok (True, (update_log (\<lambda>x. lr_id x = lr_id r \<and> lr_org x = av_org e)
                     (close_log ''Session-Moved'' (av_at e)) db)
                   \<lparr>ad_moves := ad_moves db @ [\<lparr>mm_org = av_org e, mm_user = av_user e, mm_old_mac = lr_calling r,
                      mm_new_mac = av_calling e, mm_old_nas = lr_nas r, mm_new_nas = av_nas e\<rparr>]\<rparr>)
          else Err ''Data too long for column'')"

definition cumulative :: "readings \<Rightarrow> bool" where
  "cumulative c = list_ex (\<lambda>f. 0 < reading (c f)) USAGE_FIELDS"

definition start_usage :: "acct_event \<Rightarrow> usage_delta" where
  "start_usage e = calculateUsageDelta (\<lambda>f. None) (av_counts e) None (av_at e) (\<not> cumulative (av_counts e))
     (if cumulative (av_counts e) then Some Nonzero_Start_Baseline else None) True"

definition start_row :: "string \<Rightarrow> acct_event \<Rightarrow> nat \<Rightarrow> acct_db \<Rightarrow> log_row" where
  "start_row uuid e contract db = (new_row uuid e contract db)\<lparr>
     lr_usage_complete := ud_nextSessionComplete (start_usage e),
     lr_anomalies := (if ud_anomaly (start_usage e) = None then 0 else 1)\<rparr>"

definition open_session ::
  "string \<Rightarrow> int \<Rightarrow> acct_env \<Rightarrow> acct_event \<Rightarrow> bool \<Rightarrow> acct_db \<Rightarrow> (acct_db \<times> ingest_reply) result" where
  "open_session uuid now env e moved db =
     and_then (detect_move env e moved db) (\<lambda>(moved, db).
       case av_contract e of
         None \<Rightarrow> Err ''Column contract_id cannot be null''
       | Some contract \<Rightarrow>
           (let r = start_row uuid e contract db in
            and_then (insert_log env r db) (\<lambda>db.
              Ok (recordReceipt now e Inserted (recordUsageDelta r (av_at e) (start_usage e) db),
                  \<lparr>ir_action = Inserted, ir_id = lr_id r, ir_move = moved, ir_instance = Some uuid\<rparr>))))"

definition noop :: "int \<Rightarrow> acct_event \<Rightarrow> log_row \<Rightarrow> string option \<Rightarrow> acct_db \<Rightarrow> (acct_db \<times> ingest_reply) result" where
  "noop now e d inst db =
     Ok (recordReceipt now e Noop db, \<lparr>ir_action = Noop, ir_id = lr_id d, ir_move = False, ir_instance = inst\<rparr>)"

definition updated :: "int \<Rightarrow> acct_event \<Rightarrow> log_row \<Rightarrow> string option \<Rightarrow> acct_db \<Rightarrow> (acct_db \<times> ingest_reply) result" where
  "updated now e d inst db =
     Ok (recordReceipt now e Updated db, \<lparr>ir_action = Updated, ir_id = lr_id d, ir_move = False, ir_instance = inst\<rparr>)"

definition open_row_of :: "acct_event \<Rightarrow> log_row \<Rightarrow> log_row \<Rightarrow> bool" where
  "open_row_of e d r \<longleftrightarrow> lr_id r = lr_id d \<and> lr_org r = av_org e \<and> opened r"

definition ingest_start ::
  "string \<Rightarrow> int \<Rightarrow> acct_env \<Rightarrow> acct_event \<Rightarrow> acct_db \<Rightarrow> (acct_db \<times> ingest_reply) result" where
  "ingest_start uuid now env e db =
     (case current_session env e (ad_logs db) of
        None \<Rightarrow> open_session uuid now env e False db
      | Some d \<Rightarrow>
          if identity_changed e d \<and> av_explicit e \<and> av_at e < last_at d
          then Err ''Conflicting Accounting-Start predates the current session evidence''
          else if start_replay env e d
          then (if \<not> identity_enriched e d then noop now e d (lr_instance d) db
                else if av_at e < last_at d
                then Err ''Accounting-Start enrichment predates the current session evidence''
                else if \<not> list_ex (open_row_of e d) (ad_logs db)
                then Err ''Accounting-Start enrichment lost its locked session''
                else updated now e d (lr_instance d) (update_log (open_row_of e d) (enrich e) db))
          else if stale_open env e d \<or> identity_changed e d \<or> later_start e d
          then open_session uuid now env e (opened d \<and> differs (lr_calling d) (av_calling e))
                 (update_log (open_row_of e d) (close_log
                    (if identity_changed e d then ''Session-Identity-Changed'' else ''Session-Restarted'') (av_at e)) db)
          else open_session uuid now env e False db)"

section \<open>Interim-Update and Stop\<close>

definition same_count :: "nat option \<Rightarrow> nat option \<Rightarrow> bool" where
  "same_count incoming persisted = (case incoming of None \<Rightarrow> True | Some n \<Rightarrow> n = reading persisted)"

definition same_string :: "string option \<Rightarrow> string option \<Rightarrow> bool" where
  "same_string incoming persisted =
     (case incoming of None \<Rightarrow> True
      | Some s \<Rightarrow> s = (case persisted of None \<Rightarrow> ''null'' | Some t \<Rightarrow> t))"

definition same_stop :: "acct_event \<Rightarrow> log_row \<Rightarrow> bool" where
  "same_stop e d \<longleftrightarrow> av_kind e = Stop
     \<and> list_all (\<lambda>f. same_count (av_counts e f) (lr_usage_last d f)) USAGE_FIELDS
     \<and> same_string (av_cause e) (lr_cause d) \<and> same_string (av_framed4 e) (lr_framed4 d)
     \<and> same_string (av_framed6 e) (lr_framed6 d)"

definition estimated_start :: "acct_event \<Rightarrow> int" where
  "estimated_start e = av_at e - int (reading (av_counts e Duration)) * 1000"

definition later_reuse :: "acct_event \<Rightarrow> log_row \<Rightarrow> bool" where
  "later_reuse e d \<longleftrightarrow> lr_kind d = Stop \<and> av_explicit e \<and> \<not> same_stop e d
     \<and> last_at d < av_at e \<and> last_at d \<le> estimated_start e"

definition exceeds :: "nat option \<Rightarrow> nat option \<Rightarrow> bool" where
  "exceeds incoming persisted = (case incoming of None \<Rightarrow> False | Some n \<Rightarrow> reading persisted < n)"

definition corrects_stop :: "acct_event \<Rightarrow> log_row \<Rightarrow> bool" where
  "corrects_stop e d \<longleftrightarrow> av_kind e = Stop
     \<and> (list_ex (\<lambda>f. exceeds (av_counts e f) (lr_usage_last d f)) USAGE_FIELDS
        \<or> supplied (av_cause e) \<and> av_cause e \<noteq> lr_cause d)"

text \<open>The usage of an event against the session it continues.\<close>

definition session_usage :: "acct_event \<Rightarrow> log_row \<Rightarrow> usage_delta" where
  "session_usage e d = calculateUsageDelta (lr_usage_last d) (av_counts e) (Some (last_at d)) (av_at e)
     (lr_usage_complete d) None False"

definition count_usage :: "acct_event \<Rightarrow> log_row \<Rightarrow> log_row \<Rightarrow> log_row" where
  "count_usage e d r = r\<lparr>lr_counts := greatest (lr_counts r) (av_counts e), lr_delay := Some (av_delay e),
     lr_usage_complete := ud_nextSessionComplete (session_usage e d),
     lr_anomalies := lr_anomalies r + ud_sessionAnomalies (session_usage e d),
     lr_usage_last := latest_readings (lr_usage_last r) (av_counts e)\<rparr>"

definition with_instance :: "string \<Rightarrow> log_row \<Rightarrow> log_row" where
  "with_instance uuid r = r\<lparr>lr_instance := sql_coalesce (lr_instance r) (Some uuid)\<rparr>"

definition correct_stop :: "string \<Rightarrow> acct_event \<Rightarrow> log_row \<Rightarrow> log_row \<Rightarrow> log_row" where
  "correct_stop uuid e d r = (with_instance uuid (count_usage e d r))\<lparr>
     lr_cause := sql_coalesce (av_cause e) (lr_cause r), lr_last_at := Some (last_at d)\<rparr>"

definition fault_stop :: "acct_event \<Rightarrow> log_row \<Rightarrow> log_row" where
  "fault_stop e r = r\<lparr>lr_kind := Stop, lr_cause := sql_coalesce (av_cause e) (lr_cause r), lr_last_at := Some (av_at e),
     lr_delay := Some (av_delay e), lr_evidence_complete := False, lr_evidence_anomaly := Some ''out_of_order_stop'',
     lr_usage_complete := False, lr_anomalies := lr_anomalies r + 1\<rparr>"

definition continue_log :: "string \<Rightarrow> acct_event \<Rightarrow> log_row \<Rightarrow> log_row \<Rightarrow> log_row" where
  "continue_log uuid e d r = (with_instance uuid (count_usage e d r))\<lparr>
     lr_kind := av_kind e, lr_cause := av_cause e, lr_framed4 := sql_coalesce (av_framed4 e) (lr_framed4 r),
     lr_framed6 := sql_coalesce (av_framed6 e) (lr_framed6 r), lr_v6_in := sql_coalesce (av_v6_in e) (lr_v6_in r),
     lr_v6_out := sql_coalesce (av_v6_out e) (lr_v6_out r),
     lr_stack := sql_coalesce (deriveStackType (av_framed4 e) (av_framed6 e)) (lr_stack r), lr_last_at := Some (av_at e)\<rparr>"

definition exact_replay :: "acct_event \<Rightarrow> log_row \<Rightarrow> bool" where
  "exact_replay e d \<longleftrightarrow> av_at e = last_at d \<and> lr_kind d = av_kind e
     \<and> list_all (\<lambda>f. same_count (av_counts e f) (lr_usage_last d f)) USAGE_FIELDS
     \<and> (if supplied (lr_cause d) then lr_cause d else None) = av_cause e
     \<and> (supplied (av_framed4 e) \<longrightarrow> lr_framed4 d = av_framed4 e) \<and> (supplied (av_framed6 e) \<longrightarrow> lr_framed6 d = av_framed6 e)"

text \<open>The row an UPDATE of the lifecycle addresses, open or stopped.\<close>

definition addressed :: "acct_event \<Rightarrow> log_row \<Rightarrow> bool \<Rightarrow> log_row \<Rightarrow> bool" where
  "addressed e d stopped r \<longleftrightarrow> lr_id r = lr_id d \<and> lr_org r = av_org e \<and> lr_nas r = Some (av_nas e)
     \<and> (lr_kind r = Stop) = stopped"

definition late_usage :: "acct_event \<Rightarrow> usage_delta" where
  "late_usage e = calculateUsageDelta (\<lambda>f. None) (av_counts e) None (av_at e) False (Some Missing_Start_Baseline) True"

definition late_row :: "string \<Rightarrow> acct_event \<Rightarrow> nat \<Rightarrow> acct_db \<Rightarrow> log_row" where
  "late_row uuid e contract db = (new_row uuid e contract db)\<lparr>lr_event_at := to_second (estimated_start e),
     lr_evidence_complete := False, lr_evidence_anomaly := Some ''missing_start'',
     lr_usage_complete := False, lr_anomalies := ud_sessionAnomalies (late_usage e)\<rparr>"

definition ingest_late ::
  "string \<Rightarrow> int \<Rightarrow> acct_env \<Rightarrow> acct_event \<Rightarrow> acct_db \<Rightarrow> (acct_db \<times> ingest_reply) result" where
  "ingest_late uuid now env e db =
     (case av_contract e of
        None \<Rightarrow> Err ''Column contract_id cannot be null''
      | Some contract \<Rightarrow>
          (let r = late_row uuid e contract db in
           and_then (insert_log env r db) (\<lambda>db.
             Ok (recordReceipt now e Inserted (recordUsageDelta r (av_at e) (late_usage e) db),
                 \<lparr>ir_action = Inserted, ir_id = lr_id r, ir_move = False, ir_instance = Some uuid\<rparr>))))"

definition ingest_update ::
  "string \<Rightarrow> int \<Rightarrow> acct_env \<Rightarrow> acct_event \<Rightarrow> acct_db \<Rightarrow> (acct_db \<times> ingest_reply) result" where
  "ingest_update uuid now env e db =
     (case current_session env e (ad_logs db) of
        None \<Rightarrow> ingest_late uuid now env e db
      | Some d \<Rightarrow>
          (let inst = sql_coalesce (lr_instance d) (Some uuid); counted = with_instance uuid d in
           if later_reuse e d then ingest_late uuid now env e db
           else if lr_kind d = Stop then
             (if corrects_stop e d \<and> (\<not> av_explicit e \<or> last_at d \<le> av_at e)
              then updated now e d inst (recordUsageDelta counted (av_at e) (session_usage e d)
                     (update_log (addressed e d True) (correct_stop uuid e d) db))
              else noop now e d inst db)
           else if av_at e < last_at d then
             (if av_kind e = Stop then updated now e d inst (update_log (addressed e d False) (fault_stop e) db)
              else noop now e d inst db)
           else if differs (av_framed4 e) (lr_framed4 d)
           then Err ''Framed-IP-Address changed within one access-session lifecycle; start a new accounting session instead''
           else if differs (av_framed6 e) (lr_framed6 d)
           then Err ''Framed-IPv6-Prefix changed within one access-session lifecycle; start a new accounting session instead''
           else if exact_replay e d then noop now e d inst db
           else updated now e d inst (recordUsageDelta counted (av_at e) (session_usage e d)
                  (update_log (addressed e d False) (continue_log uuid e d) db))))"

end
