(* ===== verification/AcctIngest.thy ===== *)
theory AcctIngest
  imports RadiusAccounting RadiusServer
begin

text \<open>
  \<open>ingestAccounting\<close> and \<open>recordInfrastructureAccounting\<close> of
  \<open>src/services/radiusAccountingService.js\<close>: the attributes are checked, the NAS and the subscriber are
  looked up within the organization, and the event that results is applied to the store of theory
  RadiusAccounting. Attributes come as the callers pass them: strings and integers or null.
\<close>

section \<open>Attributes\<close>

record acct_attrs =
  aa_status :: string
  aa_user :: "string option"
  aa_session :: "string option"
  aa_nas_ip :: "string option"
  aa_port :: "string option"
  aa_called :: "string option"
  aa_calling :: "string option"
  aa_framed4 :: "string option"
  aa_framed6 :: "string option"
  aa_in_octets :: "int option"
  aa_out_octets :: "int option"
  aa_in_gigawords :: "int option"
  aa_out_gigawords :: "int option"
  aa_session_time :: "int option"
  aa_cause :: cause
  aa_v6_in :: "int option"
  aa_v6_out :: "int option"
  aa_in_packets :: "int option"
  aa_out_packets :: "int option"
  aa_stamp :: stamp
  aa_delay :: "int option"
  aa_org :: "int option"
  aa_nas :: "nat option"
  aa_source :: "string option"
  aa_token :: "int option"

definition canonicalIpv6Prefix :: "(string \<Rightarrow> string) \<Rightarrow> string \<Rightarrow> string option" where
  "canonicalIpv6Prefix canon6 v =
     (let t = js_trim v; digits = rev (takeWhile (\<lambda>c. c \<noteq> CHR ''/'') (rev t));
          host = take (length t - length digits - 1) t in
      if length digits = length t \<or> host = [] then None
      else if digits = [] \<or> 3 < length digits \<or> \<not> list_all is_digit digits then None
      else if 128 < digits_val digits \<or> isIP host \<noteq> 6 then None
      else Some (canon6 host @ ''/'' @ show_nat (digits_val digits)))"

definition required :: "string \<Rightarrow> nat \<Rightarrow> string option \<Rightarrow> string result" where
  "required field maximum v =
     (case v of None \<Rightarrow> Err (''Invalid '' @ field)
      | Some s \<Rightarrow> if js_trim s = [] \<or> maximum < js_length s then Err (''Invalid '' @ field) else Ok s)"

definition short :: "nat \<Rightarrow> string option \<Rightarrow> bool" where
  "short maximum v = (case v of None \<Rightarrow> True | Some s \<Rightarrow> js_length s \<le> maximum)"

definition count_ok :: "int \<Rightarrow> int option \<Rightarrow> bool" where
  "count_ok maximum v = (case v of None \<Rightarrow> True | Some n \<Rightarrow> 0 \<le> n \<and> n \<le> MAX_SAFE \<and> n \<le> maximum)"

definition as_count :: "int option \<Rightarrow> nat option" where
  "as_count = map_option nat"

definition framed_prefix :: "(string \<Rightarrow> string) \<Rightarrow> string option \<Rightarrow> string option result" where
  "framed_prefix canon6 v =
     (case v of None \<Rightarrow> Ok None
      | Some s \<Rightarrow> if s = [] then Ok None
          else (case canonicalIpv6Prefix canon6 s of Some p \<Rightarrow> Ok (Some p) | None \<Rightarrow> Err ''Invalid Framed-IPv6-Prefix''))"

text \<open>The checks of the attributes that need no lookup.\<close>

definition attrs_ok :: "acct_attrs \<Rightarrow> string option \<Rightarrow> bool" where
  "attrs_ok a framed6 \<longleftrightarrow>
     short 100 (aa_port a) \<and> short 100 (aa_called a) \<and> short 100 (aa_calling a) \<and> short 64 framed6
     \<and> (case aa_framed4 a of Some ip \<Rightarrow> ip = [] \<or> isIP ip = 4 | None \<Rightarrow> True)
     \<and> list_all (count_ok MAX_SAFE) [aa_in_octets a, aa_out_octets a, aa_in_gigawords a, aa_out_gigawords a,
          aa_in_packets a, aa_out_packets a, aa_v6_in a, aa_v6_out a]
     \<and> list_all (count_ok 4294967295) [aa_session_time a, aa_delay a]"

section \<open>Lookups\<close>

text \<open>The live NAS of the organization joined with the account of the user name within it.\<close>

definition nas_matches :: "acct_env \<Rightarrow> acct_attrs \<Rightarrow> nat \<Rightarrow> string \<Rightarrow> nas_row \<Rightarrow> bool" where
  "nas_matches env a org ip n \<longleftrightarrow> row_org n = Some org \<and> row_live n
     \<and> (case aa_nas a of
          Some i \<Rightarrow> if i = 0 then ae_coll env (row_ip n) = ae_coll env ip else row_id n = i
        | None \<Rightarrow> ae_coll env (row_ip n) = ae_coll env ip)"

definition account_matches :: "acct_env \<Rightarrow> string \<Rightarrow> nat \<Rightarrow> account_row \<Rightarrow> bool" where
  "account_matches env user org r \<longleftrightarrow> ae_coll env (ac_user r) = ae_coll env user \<and> ac_org r = Some org \<and> \<not> ac_deleted r"

definition resolve_rows :: "acct_env \<Rightarrow> acct_attrs \<Rightarrow> nat \<Rightarrow> string \<Rightarrow> string \<Rightarrow> (nas_row \<times> account_row option) list" where
  "resolve_rows env a org user ip =
     (let accounts = filter (account_matches env user org) (ae_accounts env) in
      concat (map (\<lambda>n. if accounts = [] then [(n, None)] else map (\<lambda>r. (n, Some r)) accounts)
        (filter (nas_matches env a org ip) (ae_nas env))))"

definition normalizeNasIp :: "(string \<Rightarrow> string) \<Rightarrow> string \<Rightarrow> string" where
  "normalizeNasIp canon6 ip = (if isIP ip = 6 then canon6 ip else ip)"

definition octet_total :: "int option \<Rightarrow> int option \<Rightarrow> nat option result" where
  "octet_total octs gigawords =
     (if octs = None \<and> gigawords = None then Ok None
      else and_then (combineOctetsGigawords (as_count octs) (as_count gigawords)) (\<lambda>n. Ok (Some n)))"

definition acct_kind_of :: "string \<Rightarrow> acct_kind result" where
  "acct_kind_of status =
     (if status = ''Start'' then Ok Start else if status = ''Stop'' then Ok Stop
      else if status = ''Interim-Update'' then Ok Interim else Err ''Invalid Acct-Status-Type'')"

text \<open>The session would have begun before 1970.\<close>

definition before_epoch :: "acct_attrs \<Rightarrow> int \<Rightarrow> bool" where
  "before_epoch a t \<longleftrightarrow> t < 0 \<or> (case aa_session_time a of Some s \<Rightarrow> t - s * 1000 < 0 | None \<Rightarrow> False)"

definition observed_at :: "int option \<Rightarrow> int \<Rightarrow> acct_attrs \<Rightarrow> int result" where
  "observed_at skew now a =
     and_then (if aa_stamp a = NoStamp
               then Ok (now - (case aa_delay a of Some d \<Rightarrow> d | None \<Rightarrow> 0) * 1000)
               else normalizeEventTimestamp skew now (aa_stamp a)) (\<lambda>t.
       if before_epoch a t
       then Err ''Acct-Session-Time exceeds the supported event chronology'' else Ok t)"

definition the_count :: "int option \<Rightarrow> nat" where
  "the_count v = (case v of Some n \<Rightarrow> nat n | None \<Rightarrow> 0)"

definition readings_of :: "nat option \<Rightarrow> nat option \<Rightarrow> acct_attrs \<Rightarrow> readings" where
  "readings_of bytesIn bytesOut a f =
     (case f of BytesIn \<Rightarrow> bytesIn | BytesOut \<Rightarrow> bytesOut | PacketsIn \<Rightarrow> as_count (aa_in_packets a)
      | PacketsOut \<Rightarrow> as_count (aa_out_packets a) | Duration \<Rightarrow> as_count (aa_session_time a))"

text \<open>The event of checked attributes, or the error thrown.\<close>

definition build_event ::
  "int \<Rightarrow> acct_env \<Rightarrow> acct_attrs \<Rightarrow> nat \<Rightarrow> string \<Rightarrow> string \<Rightarrow> string \<Rightarrow> string option \<Rightarrow> nas_row \<Rightarrow> account_row option
     \<Rightarrow> acct_event result" where
  "build_event now env a org user session ip framed6 n account =
     and_then (octet_total (aa_in_octets a) (aa_in_gigawords a)) (\<lambda>bytesIn.
     and_then (octet_total (aa_out_octets a) (aa_out_gigawords a)) (\<lambda>bytesOut.
     and_then (observed_at (ae_skew env) now a) (\<lambda>t.
     and_then (normalizeTerminateCause (aa_cause a)) (\<lambda>reason.
     and_then (acct_kind_of (aa_status a)) (\<lambda>kind.
       Ok \<lparr>av_org = org, av_nas = row_id n,
           av_contract = (case account of Some r \<Rightarrow> ac_contract r | None \<Rightarrow> Some 0),
           av_client = (case account of Some r \<Rightarrow> ac_client r | None \<Rightarrow> 0),
           av_user = user, av_session = session, av_nas_ip = ip, av_port = aa_port a,
           av_called = aa_called a, av_calling = aa_calling a, av_framed4 = aa_framed4 a,
           av_framed6 = framed6, av_counts = readings_of bytesIn bytesOut a,
           av_v6_in = as_count (aa_v6_in a), av_v6_out = as_count (aa_v6_out a),
           av_cause = reason, av_kind = kind, av_at = t, av_explicit = (aa_stamp a \<noteq> NoStamp),
           av_delay = the_count (aa_delay a),
           av_source = js_take 32 (if supplied (aa_source a) then the (aa_source a) else ''radius_internal''),
           av_token = the_count (aa_token a)\<rparr>)))))"

definition address_disagrees :: "acct_env \<Rightarrow> acct_attrs \<Rightarrow> string \<Rightarrow> nas_row \<Rightarrow> bool" where
  "address_disagrees env a ip n \<longleftrightarrow> (case aa_nas a of Some i \<Rightarrow> i \<noteq> 0 | None \<Rightarrow> False)
     \<and> normalizeNasIp (ae_canon6 env) (row_ip n) \<noteq> normalizeNasIp (ae_canon6 env) ip"

definition resolve_event ::
  "int \<Rightarrow> acct_env \<Rightarrow> acct_attrs \<Rightarrow> nat \<Rightarrow> string \<Rightarrow> string \<Rightarrow> string \<Rightarrow> string option \<Rightarrow> acct_event result" where
  "resolve_event now env a org user session ip framed6 =
     (case resolve_rows env a org user ip of
        [(n, account)] \<Rightarrow>
          if address_disagrees env a ip n then Err ''NAS-IP-Address does not match the tenant-owned NAS''
          else build_event now env a org user session ip framed6 n account
      | _ \<Rightarrow> Err ''Unable to resolve one live NAS for accounting ingest'')"

definition owner :: "int option \<Rightarrow> nat result" where
  "owner v = (case v of
     Some org \<Rightarrow> if org \<le> 0 \<or> MAX_SAFE < org then Err ''Accounting ingest requires a tenant-owned NAS'' else Ok (nat org)
   | None \<Rightarrow> Err ''Accounting ingest requires a tenant-owned NAS'')"

definition normalize_event :: "int \<Rightarrow> acct_env \<Rightarrow> acct_attrs \<Rightarrow> acct_event result" where
  "normalize_event now env a =
     and_then (owner (aa_org a)) (\<lambda>org.
     and_then (required ''userName'' 64 (aa_user a)) (\<lambda>user.
     and_then (required ''acctSessionId'' 64 (aa_session a)) (\<lambda>session.
     and_then (required ''nasIpAddress'' 45 (aa_nas_ip a)) (\<lambda>ip.
     if isIP ip = 0 then Err ''Invalid NAS-IP-Address''
     else and_then (framed_prefix (ae_canon6 env) (aa_framed6 a)) (\<lambda>framed6.
       if attrs_ok a framed6 then resolve_event now env a org user session ip framed6 else Err ''Invalid attribute'')))))"

definition apply_event ::
  "string \<Rightarrow> int \<Rightarrow> acct_env \<Rightarrow> acct_event \<Rightarrow> acct_db \<Rightarrow> (acct_db \<times> ingest_reply) result" where
  "apply_event uuid now env e db =
     (if av_kind e = Start then ingest_start uuid now env e db else ingest_update uuid now env e db)"

definition ingest_accounting ::
  "string \<Rightarrow> int \<Rightarrow> acct_env \<Rightarrow> acct_attrs \<Rightarrow> acct_db \<Rightarrow> (acct_db \<times> ingest_reply) result" where
  "ingest_accounting uuid now env a db =
     and_then (normalize_event now env a) (\<lambda>e. apply_event uuid now env e db)"

section \<open>The embedded server as a caller\<close>

definition of_request :: "acct_request \<Rightarrow> acct_attrs" where
  "of_request q =
     (let num = map_option int in
      \<lparr>aa_status = acctStatusType q, aa_user = userName q, aa_session = acctSessionId q,
       aa_nas_ip = Some (nasIpAddress q), aa_port = nasPortId q, aa_called = calledStationId q,
       aa_calling = callingStationId q, aa_framed4 = framedIpAddress q, aa_framed6 = framedIpv6Prefix q,
       aa_in_octets = num (acctInputOctets q), aa_out_octets = num (acctOutputOctets q),
       aa_in_gigawords = num (acctInputGigawords q), aa_out_gigawords = num (acctOutputGigawords q),
       aa_session_time = num (acctSessionTime q),
       aa_cause = (case acctTerminateCause q of Some n \<Rightarrow> CauseNumber (int n) | None \<Rightarrow> NoCause),
       aa_v6_in = None, aa_v6_out = None,
       aa_in_packets = num (acctInputPackets q), aa_out_packets = num (acctOutputPackets q),
       aa_stamp = (case eventTimestamp q of Some n \<Rightarrow> StampNumber (int n) | None \<Rightarrow> NoStamp),
       aa_delay = num (acctDelayTime q), aa_org = num (organizationId q), aa_nas = Some (nasId q),
       aa_source = Some ''radius_embedded'', aa_token = None\<rparr>)"

end
