(* ===== verification/AccountingBooks.thy ===== *)
theory AccountingBooks
  imports AcctIngest
begin

text \<open>
  The usage that the accounting store bills: what every statement and every ingest keeps of the daily
  table and the sessions.
\<close>

section \<open>Fields\<close>

lemma all_fields: "list_all P USAGE_FIELDS \<longleftrightarrow> (\<forall>f. P f)"
  by (auto simp: USAGE_FIELDS_def intro: usage_field.induct)

lemma ex_field: "list_ex P USAGE_FIELDS \<longleftrightarrow> (\<exists>f. P f)"
  using all_fields [of "\<lambda>f. \<not> P f"] by (fastforce simp: list_ex_iff list_all_iff)

definition octets :: "usage_field \<Rightarrow> bool" where
  "octets f \<longleftrightarrow> f = BytesIn \<or> f = BytesOut"

text \<open>Without a reset, the delta of a field takes the last reading to the new one.\<close>

lemma field_delta_reaches:
  assumes "\<not> snd (field_delta False f prior following)"
  shows "fst (field_delta False f prior following) + reading prior \<le> reading (sql_coalesce following prior)
    \<and> (octets f \<longrightarrow> fst (field_delta False f prior following) + reading prior = reading (sql_coalesce following prior))"
  using assms by (auto simp: field_delta_def octets_def reading_def sql_coalesce_def split: option.splits if_splits)

lemma session_usage_complete:
  assumes "ud_nextSessionComplete (session_usage e d)"
  shows "lr_usage_complete d" "\<not> snd (field_delta False f (lr_usage_last d f) (av_counts e f))"
  using assms by (auto simp: session_usage_def calculateUsageDelta_def Let_def ex_field)

lemma session_usage_deltas:
  "ud_deltas (session_usage e d) f = fst (field_delta False f (lr_usage_last d f) (av_counts e f))"
  by (simp add: session_usage_def calculateUsageDelta_def Let_def)

lemma baseline_deltas [simp]:
  "ud_deltas (start_usage e) f = 0" "ud_deltas (late_usage e) f = 0"
  by (simp_all add: start_usage_def late_usage_def calculateUsageDelta_def Let_def field_delta_def split: option.split)

lemma start_usage_complete:
  "ud_nextSessionComplete (start_usage e) \<Longrightarrow> reading (av_counts e f) = 0"
  by (auto simp: start_usage_def calculateUsageDelta_def Let_def cumulative_def ex_field split: if_splits)

section \<open>The daily table\<close>

definition daily_keys :: "daily_row list \<Rightarrow> (nat \<times> int \<times> string) list" where
  "daily_keys ds = map (\<lambda>d. (dy_org d, dy_date d, dy_instance d)) ds"

definition used :: "daily_row list \<Rightarrow> string \<Rightarrow> usage_field \<Rightarrow> nat" where
  "used ds i f = sum_list (map (\<lambda>d. if dy_instance d = i then dy_delta d f else 0) ds)"

lemma used_append: "used (ds @ [v]) i f = used ds i f + (if dy_instance v = i then dy_delta v f else 0)"
  by (simp add: used_def)

lemma merge_daily_key [simp]:
  "dy_org (merge_daily v d) = dy_org d" "dy_date (merge_daily v d) = dy_date d"
  "dy_instance (merge_daily v d) = dy_instance d" "dy_delta (merge_daily v d) f = dy_delta d f + dy_delta v f"
  by (simp_all add: merge_daily_def)

lemma merge_keys: "daily_keys (map (\<lambda>d. if P d then merge_daily v d else d) ds) = daily_keys ds"
  by (auto simp: daily_keys_def)

lemma upsert_keys: "distinct (daily_keys ds) \<Longrightarrow> distinct (daily_keys (upsert_daily v ds))"
proof (cases "list_ex (daily_key (dy_org v) (dy_date v) (dy_instance v)) ds")
  case True
  then show "distinct (daily_keys ds) \<Longrightarrow> ?thesis" by (simp add: upsert_daily_def Let_def merge_keys)
next
  case False
  then show "distinct (daily_keys ds) \<Longrightarrow> ?thesis"
    by (auto simp: upsert_daily_def Let_def daily_key_def daily_keys_def list_ex_iff)
qed

lemma used_merge:
  assumes "distinct (daily_keys ds)" "list_ex (daily_key g t i) ds" "dy_instance v = i"
  shows "used (map (\<lambda>d. if daily_key g t i d then merge_daily v d else d) ds) j f
    = used ds j f + (if i = j then dy_delta v f else 0)"
  using assms
proof (induction ds)
  case (Cons d ds)
  show ?case
  proof (cases "daily_key g t i d")
    case True
    then have "(g, t, i) \<notin> set (daily_keys ds)"
      using Cons.prems by (auto simp: daily_key_def daily_keys_def)
    then have "map (\<lambda>d. if daily_key g t i d then merge_daily v d else d) ds = ds"
      by (auto simp: daily_key_def daily_keys_def image_iff intro!: map_idI)
    moreover have "dy_instance d = i" using True by (simp add: daily_key_def)
    ultimately show ?thesis using True by (simp add: used_def)
  next
    case False
    then have "list_ex (daily_key g t i) ds" "distinct (daily_keys ds)"
      using Cons.prems by (auto simp: daily_keys_def)
    from Cons.IH [OF this(2,1) Cons.prems(3)] False show ?thesis by (simp add: used_def)
  qed
qed simp

lemma used_upsert:
  assumes "distinct (daily_keys ds)"
  shows "used (upsert_daily v ds) i f = used ds i f + (if dy_instance v = i then dy_delta v f else 0)"
proof (cases "list_ex (daily_key (dy_org v) (dy_date v) (dy_instance v)) ds")
  case True
  from used_merge [OF assms this refl] True show ?thesis by (simp add: upsert_daily_def Let_def)
qed (simp add: upsert_daily_def Let_def used_append)

lemma upsert_instances: "dy_instance ` set (upsert_daily v ds) \<subseteq> insert (dy_instance v) (dy_instance ` set ds)"
  by (auto simp: upsert_daily_def Let_def split: if_splits)

lemma delta_row_simps [simp]:
  "dy_instance (delta_row r i t g c a) = i" "dy_delta (delta_row r i t g c a) = g"
  by (simp_all add: delta_row_def)

lemma flag_month:
  assumes "distinct (daily_keys ds)"
  shows "distinct (daily_keys (flag_month r i u ds))" "used (flag_month r i u ds) j f = used ds j f"
    "dy_instance ` set (flag_month r i u ds) \<subseteq> insert i (dy_instance ` set ds)"
proof -
  have "dy_instance ` set (upsert_daily (delta_row r i p g c a) ds) \<subseteq> insert i (dy_instance ` set ds)" for p g c a
    using upsert_instances [of "delta_row r i p g c a" ds] by simp
  then show "dy_instance ` set (flag_month r i u ds) \<subseteq> insert i (dy_instance ` set ds)"
    by (auto simp: flag_month_def split: option.split)
qed (use assms in \<open>simp_all add: flag_month_def used_upsert upsert_keys split: option.split\<close>)

text \<open>What recording a delta does to the table.\<close>

lemma record_daily:
  assumes "distinct (daily_keys (ad_daily db))" "lr_instance r = Some i"
  shows "distinct (daily_keys (ad_daily (recordUsageDelta r t u db)))
    \<and> used (ad_daily (recordUsageDelta r t u db)) j f
        = used (ad_daily db) j f + (if i = j then ud_deltas u f else 0)
    \<and> dy_instance ` set (ad_daily (recordUsageDelta r t u db)) \<subseteq> insert i (dy_instance ` set (ad_daily db))"
proof (cases "(\<forall>f. ud_deltas u f = 0) \<and> ud_anomaly u = None")
  case True
  then show ?thesis using assms by (auto simp: recordUsageDelta_def all_fields)
next
  case False
  define v where "v = delta_row r i t (ud_deltas u) (ud_rowComplete u) (ud_anomaly u)"
  have "ad_daily (recordUsageDelta r t u db) = upsert_daily v (flag_month r i u (ad_daily db))"
    using assms False by (auto simp: recordUsageDelta_def all_fields v_def)
  moreover have "dy_instance ` set (upsert_daily v (flag_month r i u (ad_daily db))) \<subseteq> insert i (dy_instance ` set (ad_daily db))"
    using upsert_instances [of v "flag_month r i u (ad_daily db)"] flag_month(3) [OF assms(1), of r i u]
    by (simp add: v_def) blast
  ultimately show ?thesis
    using flag_month(1,2) [OF assms(1), of r i u] by (simp add: used_upsert upsert_keys v_def)
qed

lemma record_logs [simp]:
  "ad_logs (recordUsageDelta r t u db) = ad_logs db" "ad_next (recordUsageDelta r t u db) = ad_next db"
  "ad_moves (recordUsageDelta r t u db) = ad_moves db"
  by (simp_all add: recordUsageDelta_def Let_def split: option.split)

lemma receipt_frame [simp]:
  "ad_logs (recordReceipt now e a db) = ad_logs db" "ad_next (recordReceipt now e a db) = ad_next db"
  "ad_daily (recordReceipt now e a db) = ad_daily db" "ad_moves (recordReceipt now e a db) = ad_moves db"
  by (simp_all add: recordReceipt_def Let_def)

lemma update_logs: "ad_logs (update_log p f db) = map (\<lambda>r. if p r then f r else r) (ad_logs db)"
  by (simp add: update_log_def)

lemma update_frame [simp]:
  "ad_next (update_log p f db) = ad_next db" "ad_daily (update_log p f db) = ad_daily db"
  "ad_moves (update_log p f db) = ad_moves db"
  by (simp_all add: update_log_def)

section \<open>The invariant\<close>

text \<open>A session whose usage is complete has booked what its counters read: octets exactly, and no field
  beyond its reading.\<close>

definition booked :: "daily_row list \<Rightarrow> log_row \<Rightarrow> bool" where
  "booked ds r \<longleftrightarrow> (lr_usage_complete r \<longrightarrow> (\<forall>f. used ds (the (lr_instance r)) f \<le> reading (lr_usage_last r f)
     \<and> (octets f \<longrightarrow> used ds (the (lr_instance r)) f = reading (lr_usage_last r f))))"

definition usage_ok :: "acct_db \<Rightarrow> bool" where
  "usage_ok db \<longleftrightarrow> distinct (map lr_id (ad_logs db)) \<and> (\<forall>r\<in>set (ad_logs db). lr_id r < ad_next db)
     \<and> distinct (map lr_instance (ad_logs db)) \<and> (\<forall>r\<in>set (ad_logs db). lr_instance r \<noteq> None)
     \<and> distinct (daily_keys (ad_daily db))
     \<and> Some ` dy_instance ` set (ad_daily db) \<subseteq> lr_instance ` set (ad_logs db)
     \<and> (\<forall>r\<in>set (ad_logs db). booked (ad_daily db) r)"

definition empty_store :: acct_db where
  "empty_store = \<lparr>ad_logs = [], ad_next = 1, ad_daily = [], ad_moves = [], ad_receipts = []\<rparr>"

lemma empty_ok: "usage_ok empty_store"
  by (simp add: usage_ok_def empty_store_def daily_keys_def)

lemma receipt_ok [simp]: "usage_ok (recordReceipt now e a db) \<longleftrightarrow> usage_ok db"
  by (simp add: usage_ok_def)

lemma unused: "i \<notin> dy_instance ` set ds \<Longrightarrow> used ds i f = 0"
  by (induction ds) (auto simp: used_def)

text \<open>A statement that keeps the usage columns of the rows it changes, or marks them incomplete.\<close>

definition keeps_usage :: "(log_row \<Rightarrow> log_row) \<Rightarrow> bool" where
  "keeps_usage f \<longleftrightarrow> (\<forall>r. lr_id (f r) = lr_id r \<and> lr_instance (f r) = lr_instance r
     \<and> lr_usage_last (f r) = lr_usage_last r \<and> (lr_usage_complete (f r) \<longrightarrow> lr_usage_complete r))"

lemma keeps_usage_steps:
  "keeps_usage (close_log reason t)" "keeps_usage (enrich e)" "keeps_usage (fault_stop e)"
  by (simp_all add: keeps_usage_def close_log_def enrich_def fault_stop_def)

lemma update_maps:
  assumes "keeps_usage f"
  shows "map lr_id (ad_logs (update_log p f db)) = map lr_id (ad_logs db)"
    "map lr_instance (ad_logs (update_log p f db)) = map lr_instance (ad_logs db)"
  using assms by (auto simp: keeps_usage_def update_logs)

lemma update_ok:
  assumes "usage_ok db" "keeps_usage f"
  shows "usage_ok (update_log p f db)"
proof -
  note keep = update_maps [OF assms(2), of p db]
  then have "lr_instance ` set (ad_logs (update_log p f db)) = lr_instance ` set (ad_logs db)"
    by (metis list.set_map)
  moreover have "booked (ad_daily db) r" if "r \<in> set (ad_logs (update_log p f db))" for r
    using that assms by (fastforce simp: usage_ok_def booked_def keeps_usage_def update_logs split: if_splits)
  moreover have "\<forall>r\<in>set (ad_logs (update_log p f db)). lr_id r < ad_next db"
    "\<forall>r\<in>set (ad_logs (update_log p f db)). lr_instance r \<noteq> None"
    using assms by (auto simp: usage_ok_def keeps_usage_def update_logs)
  ultimately show ?thesis
    using assms(1) keep unfolding usage_ok_def by (simp del: map_map)
qed

lemma move_ok:
  assumes "usage_ok db" "detect_move env e m db = Inr (m', db')"
  shows "usage_ok db' \<and> ad_daily db' = ad_daily db \<and> ad_next db' = ad_next db
    \<and> map lr_instance (ad_logs db') = map lr_instance (ad_logs db)"
proof -
  have "usage_ok (db\<lparr>ad_moves := x\<rparr>) \<longleftrightarrow> usage_ok db" for x db by (simp add: usage_ok_def)
  then show ?thesis
    using assms update_ok [OF assms(1) keeps_usage_steps(1)] update_maps(2) [OF keeps_usage_steps(1), where db = db]
    by (auto simp: detect_move_def split: option.splits if_splits)
qed

text \<open>A new session books nothing.\<close>

lemma insert_ok:
  assumes "usage_ok db" "insert_log env r db = Inr db'" "lr_id r = ad_next db" "lr_instance r = Some i"
    "Some i \<notin> lr_instance ` set (ad_logs db)" "\<forall>f. ud_deltas u f = 0"
    "lr_usage_complete r \<longrightarrow> (\<forall>f. reading (lr_usage_last r f) = 0)"
  shows "usage_ok (recordUsageDelta r t u db')"
proof -
  have db': "ad_logs db' = ad_logs db @ [r]" "ad_next db' = ad_next db + 1" "ad_daily db' = ad_daily db"
    using assms(2) by (auto simp: insert_log_def split: if_splits)
  note old = assms(1) [unfolded usage_ok_def]
  have rec: "distinct (daily_keys (ad_daily (recordUsageDelta r t u db')))"
    "used (ad_daily (recordUsageDelta r t u db')) j f = used (ad_daily db) j f"
    "dy_instance ` set (ad_daily (recordUsageDelta r t u db')) \<subseteq> insert i (dy_instance ` set (ad_daily db))" for j f
    using record_daily [of db' r i t u j f] assms(4,6) old by (simp_all add: db')
  have fresh: "i \<notin> dy_instance ` set (ad_daily db)"
    using old assms(5) by blast
  have "booked (ad_daily (recordUsageDelta r t u db')) x" if "x \<in> set (ad_logs db')" for x
    using that old unused [OF fresh] assms(4,7) by (auto simp: booked_def rec(2) db')
  moreover have "Some ` dy_instance ` set (ad_daily (recordUsageDelta r t u db')) \<subseteq> lr_instance ` set (ad_logs db')"
  proof -
    have "Some ` insert i (dy_instance ` set (ad_daily db)) \<subseteq> lr_instance ` set (ad_logs db')"
    proof -
      have "Some ` dy_instance ` set (ad_daily db) \<subseteq> lr_instance ` set (ad_logs db)" using old by blast
      then show ?thesis by (simp add: db' assms(4)) blast
    qed
    then show ?thesis using rec(3) by blast
  qed
  ultimately show ?thesis
    using rec(1) old assms(3,4,5) unfolding usage_ok_def by (auto simp: db')
qed


text \<open>A session that goes on books what its counters advanced.\<close>

lemma count_ok:
  assumes "usage_ok db" "d \<in> set (ad_logs db)" "p d" "\<forall>r. p r \<longrightarrow> lr_id r = lr_id d"
    and g: "lr_id (g d) = lr_id d" "lr_instance (g d) = lr_instance d"
      "lr_usage_last (g d) = latest_readings (lr_usage_last d) (av_counts e)"
      "lr_usage_complete (g d) \<longrightarrow> ud_nextSessionComplete (session_usage e d)"
  shows "usage_ok (recordUsageDelta d t (session_usage e d) (update_log p g db))"
proof -
  note old = assms(1) [unfolded usage_ok_def]
  let ?db = "update_log p g db"
  have only: "p r \<longleftrightarrow> r = d" if "r \<in> set (ad_logs db)" for r
    using that assms(2-4) old by (metis inj_on_eq_iff distinct_map)
  have ids: "map lr_id (ad_logs ?db) = map lr_id (ad_logs db)"
    and insts: "map lr_instance (ad_logs ?db) = map lr_instance (ad_logs db)"
    using g(1,2) only by (auto simp: update_logs)
  have inst_set: "lr_instance ` set (ad_logs ?db) = lr_instance ` set (ad_logs db)"
    using insts by (metis list.set_map)
  obtain i where i: "lr_instance d = Some i" using old assms(2) by blast
  have rec: "distinct (daily_keys (ad_daily (recordUsageDelta d t (session_usage e d) ?db)))"
    "used (ad_daily (recordUsageDelta d t (session_usage e d) ?db)) j f
       = used (ad_daily db) j f + (if i = j then ud_deltas (session_usage e d) f else 0)"
    "dy_instance ` set (ad_daily (recordUsageDelta d t (session_usage e d) ?db)) \<subseteq> insert i (dy_instance ` set (ad_daily db))" for j f
    using record_daily [of ?db d i t "session_usage e d" j f] i old by simp_all
  have "booked (ad_daily (recordUsageDelta d t (session_usage e d) ?db)) r" if r: "r \<in> set (ad_logs ?db)" for r
  proof (cases "r = g d")
    case True
    have "used (ad_daily db) i f + ud_deltas (session_usage e d) f \<le> reading (lr_usage_last r f)
        \<and> (octets f \<longrightarrow> used (ad_daily db) i f + ud_deltas (session_usage e d) f = reading (lr_usage_last r f))"
      if "lr_usage_complete r" for f
    proof -
      have complete: "ud_nextSessionComplete (session_usage e d)" using that True g(4) by blast
      have "ud_deltas (session_usage e d) f + reading (lr_usage_last d f) \<le> reading (lr_usage_last r f)
        \<and> (octets f \<longrightarrow> ud_deltas (session_usage e d) f + reading (lr_usage_last d f) = reading (lr_usage_last r f))"
        using field_delta_reaches [OF session_usage_complete(2) [OF complete]]
        by (simp add: session_usage_deltas g(3) latest_readings_def True)
      moreover have "used (ad_daily db) i f \<le> reading (lr_usage_last d f)
        \<and> (octets f \<longrightarrow> used (ad_daily db) i f = reading (lr_usage_last d f))"
        using old assms(2) i session_usage_complete(1) [OF complete] by (auto simp: booked_def)
      ultimately show ?thesis by auto
    qed
    then show ?thesis using True i g(2) by (simp add: booked_def rec(2))
  next
    case False
    with r only obtain "r \<in> set (ad_logs db)" "r \<noteq> d" by (auto simp: update_logs split: if_splits)
    moreover from this old assms(2) have "lr_instance r \<noteq> Some i"
      using i by (metis inj_on_eq_iff distinct_map)
    ultimately show ?thesis using old by (auto simp: booked_def rec(2))
  qed
  moreover have "Some ` dy_instance ` set (ad_daily (recordUsageDelta d t (session_usage e d) ?db)) \<subseteq> lr_instance ` set (ad_logs ?db)"
  proof -
    have "Some ` insert i (dy_instance ` set (ad_daily db)) \<subseteq> lr_instance ` set (ad_logs ?db)"
      using old i assms(2) unfolding inst_set by (auto intro: rev_image_eqI)
    then show ?thesis using rec(3) by blast
  qed
  moreover have "\<forall>r\<in>set (ad_logs ?db). lr_id r < ad_next db" "\<forall>r\<in>set (ad_logs ?db). lr_instance r \<noteq> None"
    using old g only by (auto simp: update_logs)
  ultimately show ?thesis
    using rec(1) old ids insts unfolding usage_ok_def by (simp del: map_map)
qed

section \<open>Instances\<close>

abbreviation instances :: "acct_db \<Rightarrow> string option set" where
  "instances db \<equiv> lr_instance ` set (ad_logs db)"

text \<open>The books are kept, and at most one instance is new.\<close>

definition grows :: "string \<Rightarrow> acct_db \<Rightarrow> acct_db \<Rightarrow> bool" where
  "grows uuid db db' \<longleftrightarrow> usage_ok db' \<and> instances db' \<subseteq> insert (Some uuid) (instances db)"

lemma grows_refl: "usage_ok db \<Longrightarrow> grows uuid db db"
  by (auto simp: grows_def)

lemma grows_receipt [simp]: "grows uuid db (recordReceipt now e a db') \<longleftrightarrow> grows uuid db db'"
  by (simp add: grows_def)

lemma instances_update: "keeps_usage f \<Longrightarrow> instances (update_log p f db) = instances db"
  using update_maps(2) [of f p db] by (metis list.set_map)

lemma grows_update: "usage_ok db \<Longrightarrow> keeps_usage f \<Longrightarrow> grows uuid db (update_log p f db)"
  using update_ok instances_update by (simp add: grows_def subset_insertI)

lemma grows_insert:
  assumes "usage_ok db" "insert_log env r db = Inr db'" "lr_id r = ad_next db" "lr_instance r = Some uuid"
    "Some uuid \<notin> instances db" "\<forall>f. ud_deltas u f = 0"
    "lr_usage_complete r \<longrightarrow> (\<forall>f. reading (lr_usage_last r f) = 0)"
  shows "grows uuid db (recordUsageDelta r t u db')"
  using insert_ok [OF assms] assms(2,4) by (auto simp: grows_def insert_log_def split: if_splits)

lemma grows_count:
  assumes "usage_ok db" "d \<in> set (ad_logs db)" "p d" "\<forall>r. p r \<longrightarrow> lr_id r = lr_id d"
    and "lr_id (g d) = lr_id d" "lr_instance (g d) = lr_instance d"
      "lr_usage_last (g d) = latest_readings (lr_usage_last d) (av_counts e)"
      "lr_usage_complete (g d) \<longrightarrow> ud_nextSessionComplete (session_usage e d)"
  shows "grows uuid db (recordUsageDelta d t (session_usage e d) (update_log p g db))"
proof -
  have "p r \<longleftrightarrow> r = d" if "r \<in> set (ad_logs db)" for r
    using that assms(1-4) unfolding usage_ok_def by (metis inj_on_eq_iff distinct_map)
  then have "instances (update_log p g db) \<subseteq> instances db"
    using assms(6) by (auto simp: update_logs)
  then show ?thesis using count_ok [where g = g and p = p and d = d and db = db, OF assms] by (auto simp: grows_def)
qed

section \<open>The handlers keep it\<close>

lemma latest_in: "latest key rs = Some r \<Longrightarrow> r \<in> set rs"
  by (induction rs arbitrary: r) (auto split: option.splits if_splits)

lemma current_session_in:
  assumes "current_session env e logs = Some d"
  shows "d \<in> set logs \<and> same_subscriber env e d"
  using assms by (auto simp: current_session_def dest!: latest_in split: option.splits)

lemma open_session_grows:
  assumes "usage_ok db" "open_session uuid now env e m db = Inr (db', reply)" "Some uuid \<notin> instances db"
  shows "grows uuid db db'"
proof -
  obtain m1 db1 c db2 where step: "detect_move env e m db = Inr (m1, db1)"
      "insert_log env (start_row uuid e c db1) db1 = Inr db2"
      "db' = recordReceipt now e Inserted (recordUsageDelta (start_row uuid e c db1) (av_at e) (start_usage e) db2)"
    using assms(2) by (auto simp: open_session_def and_then_Ok_iff Let_def split: option.splits)
  note moved = move_ok [OF assms(1) step(1)]
  then have same: "instances db1 = instances db" by (metis list.set_map)
  have "grows uuid db1 (recordUsageDelta (start_row uuid e c db1) (av_at e) (start_usage e) db2)"
    using moved assms(3) same start_usage_complete
    by (intro grows_insert [OF _ step(2)]) (auto simp: start_row_def new_row_def)
  then show ?thesis using step(3) same by (simp add: grows_def)
qed

lemma late_grows:
  assumes "usage_ok db" "ingest_late uuid now env e db = Inr (db', reply)" "Some uuid \<notin> instances db"
  shows "grows uuid db db'"
proof -
  obtain c db2 where step: "insert_log env (late_row uuid e c db) db = Inr db2"
      "db' = recordReceipt now e Inserted (recordUsageDelta (late_row uuid e c db) (av_at e) (late_usage e) db2)"
    using assms(2) by (auto simp: ingest_late_def and_then_Ok_iff Let_def split: option.splits)
  then show ?thesis
    using grows_insert [OF assms(1) step(1), where uuid = uuid and u = "late_usage e" and t = "av_at e"] assms(3)
    by (auto simp: late_row_def new_row_def)
qed

lemma start_grows:
  assumes "usage_ok db" "ingest_start uuid now env e db = Inr (db', reply)" "Some uuid \<notin> instances db"
  shows "grows uuid db db'"
proof (cases "current_session env e (ad_logs db)")
  case None
  then show ?thesis using assms open_session_grows by (auto simp: ingest_start_def)
next
  case (Some d)
  have closed: "grows uuid db db'" if "open_session uuid now env e m (update_log p (close_log s t) db) = Inr (db', reply)" for m p s t
    using open_session_grows [OF update_ok [OF assms(1) keeps_usage_steps(1)] that] assms(3)
    by (simp add: grows_def instances_update [OF keeps_usage_steps(1)])
  show ?thesis
    using assms Some closed open_session_grows [OF assms(1)] grows_update [OF assms(1) keeps_usage_steps(2)] grows_refl [OF assms(1)]
    by (auto simp: ingest_start_def noop_def updated_def split: if_splits)
qed

lemma instance_kept: "lr_instance d \<noteq> None \<Longrightarrow> with_instance uuid d = d"
  by (auto simp: with_instance_def sql_coalesce_def)

lemma counted_simps [simp]:
  "lr_id (correct_stop u e d r) = lr_id r" "lr_id (continue_log u e d r) = lr_id r"
  "lr_instance (correct_stop u e d r) = sql_coalesce (lr_instance r) (Some u)"
  "lr_instance (continue_log u e d r) = sql_coalesce (lr_instance r) (Some u)"
  "lr_usage_last (correct_stop u e d r) = latest_readings (lr_usage_last r) (av_counts e)"
  "lr_usage_last (continue_log u e d r) = latest_readings (lr_usage_last r) (av_counts e)"
  "lr_usage_complete (correct_stop u e d r) = ud_nextSessionComplete (session_usage e d)"
  "lr_usage_complete (continue_log u e d r) = ud_nextSessionComplete (session_usage e d)"
  by (simp_all add: correct_stop_def continue_log_def with_instance_def count_usage_def)

lemma update_grows:
  assumes "usage_ok db" "ingest_update uuid now env e db = Inr (db', reply)" "Some uuid \<notin> instances db"
  shows "grows uuid db db'"
proof (cases "current_session env e (ad_logs db)")
  case None
  then show ?thesis using assms late_grows by (auto simp: ingest_update_def)
next
  case (Some d)
  note d = current_session_in [OF this]
  have inst: "lr_instance d \<noteq> None" using assms(1) d by (auto simp: usage_ok_def)
  have addr: "addressed e d (lr_kind d = Stop) d" "\<forall>r. addressed e d b r \<longrightarrow> lr_id r = lr_id d" for b
    using d by (simp_all add: addressed_def same_subscriber_def)
  have same: "sql_coalesce (lr_instance d) (Some u) = lr_instance d" for u
    using inst by (auto simp: sql_coalesce_def)
  have counted: "grows uuid db (recordUsageDelta d t (session_usage e d) (update_log (addressed e d (lr_kind d = Stop)) g db))"
    if "g = correct_stop uuid e d \<or> g = continue_log uuid e d" for g t
    using grows_count [OF assms(1) conjunct1 [OF d] addr, of g e uuid t] that same by auto
  show ?thesis
    using assms Some late_grows [OF assms(1)] counted grows_update [OF assms(1) keeps_usage_steps(3)] grows_refl [OF assms(1)]
    by (auto simp: ingest_update_def noop_def updated_def Let_def instance_kept [OF inst] split: if_splits)
qed

section \<open>Calls in sequence\<close>

record acct_call =
  cl_uuid :: string
  cl_now :: int
  cl_env :: acct_env
  cl_attrs :: acct_attrs

definition serve_call :: "acct_call \<Rightarrow> acct_db \<Rightarrow> acct_db" where
  "serve_call c db = (case ingest_accounting (cl_uuid c) (cl_now c) (cl_env c) (cl_attrs c) db of
     Inl e \<Rightarrow> db | Inr (db', reply) \<Rightarrow> db')"

lemma ingest_grows:
  assumes "usage_ok db" "ingest_accounting uuid now env a db = Inr (db', reply)" "Some uuid \<notin> instances db"
  shows "grows uuid db db'"
  using assms start_grows update_grows
  by (auto simp: ingest_accounting_def apply_event_def and_then_Ok_iff split: if_splits)

lemma serve_grows:
  assumes "usage_ok db" "Some (cl_uuid c) \<notin> instances db"
  shows "grows (cl_uuid c) db (serve_call c db)"
  using ingest_grows [OF assms(1) _ assms(2)] grows_refl [OF assms(1)]
  by (auto simp: serve_call_def split: sum.split)

lemma later_fresh:
  assumes "distinct (map cl_uuid (c # cs))" "\<forall>x\<in>set (c # cs). Some (cl_uuid x) \<notin> instances db"
    "grows (cl_uuid c) db db'" "x \<in> set cs"
  shows "Some (cl_uuid x) \<notin> instances db'"
proof -
  have "cl_uuid x \<noteq> cl_uuid c" using assms(1,4) by (force simp: image_iff)
  moreover have "Some (cl_uuid x) \<notin> instances db" using assms(2,4) by simp
  ultimately show ?thesis using assms(3) unfolding grows_def by blast
qed

lemma serve_all_ok:
  assumes "usage_ok db" "distinct (map cl_uuid cs)" "\<forall>c\<in>set cs. Some (cl_uuid c) \<notin> instances db"
  shows "usage_ok (fold serve_call cs db)"
  using assms
proof (induction cs arbitrary: db)
  case (Cons c cs)
  have step: "grows (cl_uuid c) db (serve_call c db)" using Cons.prems by (intro serve_grows) auto
  have "Some (cl_uuid x) \<notin> instances (serve_call c db)" if "x \<in> set cs" for x
    using later_fresh [OF Cons.prems(2,3) step that] .
  then show ?case using Cons step by (simp add: grows_def)
qed simp

text \<open>
  C4. Billed usage is what the counters of the access server say. After any sequence of ingests, a
  session whose usage is marked complete has booked, over all its days, exactly the octets its counters
  read last in each direction, and no more packets or seconds than they read: retransmissions, late and
  repeated records are never billed twice, and a reset of a counter marks the session instead.
\<close>

theorem billed_usage_exact:
  assumes "distinct (map cl_uuid cs)" and "r \<in> set (ad_logs (fold serve_call cs empty_store))"
    and "lr_usage_complete r"
  shows "\<exists>i. lr_instance r = Some i
    \<and> (\<forall>f. used (ad_daily (fold serve_call cs empty_store)) i f \<le> reading (lr_usage_last r f))
    \<and> (\<forall>f. octets f \<longrightarrow> used (ad_daily (fold serve_call cs empty_store)) i f = reading (lr_usage_last r f))"
proof -
  define db where "db = fold serve_call cs empty_store"
  have "usage_ok db"
    using serve_all_ok [OF empty_ok assms(1)] by (simp add: empty_store_def db_def)
  moreover have r: "r \<in> set (ad_logs db)" using assms(2) by (simp add: db_def)
  ultimately have "lr_instance r \<noteq> None" "booked (ad_daily db) r" unfolding usage_ok_def by blast+
  then show ?thesis using assms(3) by (auto simp: booked_def db_def)
qed

end
