(* ===== verification/AccountingReplay.thy ===== *)
theory AccountingReplay
  imports AccountingBooks
begin

text \<open>
  A record that comes again: after it was accepted once, the session it finds has nothing to add to.
\<close>

section \<open>The current session after a statement\<close>

definition beats :: "(log_row \<Rightarrow> int) \<Rightarrow> log_row \<Rightarrow> log_row \<Rightarrow> bool" where
  "beats key m x \<longleftrightarrow> key x < key m \<or> key x = key m \<and> lr_id x \<le> lr_id m"

lemma latest_beats: "latest key rs = Some m \<Longrightarrow> x \<in> set rs \<Longrightarrow> beats key m x"
proof (induction rs arbitrary: m)
  case (Cons r rs)
  show ?case
  proof (cases "latest key rs")
    case None
    then have "rs = []" by (cases rs) (auto split: option.splits if_splits)
    then show ?thesis using Cons.prems by (auto simp: beats_def)
  next
    case (Some s)
    have "beats key s x" if "x \<in> set rs" using Cons.IH [OF Some that] .
    moreover have "x = r \<or> x \<in> set rs" "m = (if key s < key r \<or> key s = key r \<and> lr_id s < lr_id r then r else s)"
      using Cons.prems Some by auto
    ultimately show ?thesis by (auto simp: beats_def split: if_splits)
  qed
qed simp

lemma latest_exists: "rs \<noteq> [] \<Longrightarrow> \<exists>m. latest key rs = Some m"
  by (cases rs) (auto split: option.splits)

lemma latest_None: "latest key rs = None \<longleftrightarrow> rs = []"
  by (metis latest.simps(1) latest_exists option.distinct(1))

lemma latest_iff:
  assumes "distinct (map lr_id rs)"
  shows "latest key rs = Some m \<longleftrightarrow> m \<in> set rs \<and> (\<forall>x\<in>set rs. beats key m x)"
proof
  assume "latest key rs = Some m"
  then show "m \<in> set rs \<and> (\<forall>x\<in>set rs. beats key m x)" using latest_in latest_beats by blast
next
  assume m: "m \<in> set rs \<and> (\<forall>x\<in>set rs. beats key m x)"
  then have "rs \<noteq> []" by auto
  then obtain n where n: "latest key rs = Some n" using latest_exists by blast
  then have "beats key n m" "beats key m n" using m latest_in latest_beats by blast+
  then have "lr_id n = lr_id m" by (auto simp: beats_def)
  then show "latest key rs = Some m" using n m latest_in assms by (metis distinct_map inj_onD)
qed

lemma distinct_filter_ids: "distinct (map lr_id rs) \<Longrightarrow> distinct (map lr_id (filter P rs))"
  by (simp add: distinct_map inj_on_def)

text \<open>A new row of the subscriber's session that no other row outlasts is the current one.\<close>

lemma current_inserted:
  assumes "distinct (map lr_id (rs @ [r]))" "same_subscriber env e r" "same_text env (av_session e) (lr_acct_session r)"
    "\<forall>x\<in>set rs. lr_id x < lr_id r" "\<forall>x\<in>set rs. same_subscriber env e x \<longrightarrow> last_at x \<le> last_at r"
  shows "current_session env e (rs @ [r]) = Some r"
proof -
  have "latest last_at (filter (\<lambda>r. same_subscriber env e r \<and> same_text env (av_session e) (lr_acct_session r)) (rs @ [r])) = Some r"
    unfolding latest_iff [OF distinct_filter_ids [OF assms(1)]]
    using assms(2-5) by (fastforce simp: beats_def)
  then show ?thesis by (simp add: current_session_def)
qed

text \<open>An update of the current row keeps it current.\<close>

definition same_key :: "log_row \<Rightarrow> log_row \<Rightarrow> bool" where
  "same_key a b \<longleftrightarrow> lr_id a = lr_id b \<and> lr_org a = lr_org b \<and> lr_nas a = lr_nas b \<and> lr_user a = lr_user b
     \<and> lr_acct_session a = lr_acct_session b \<and> lr_session a = lr_session b \<and> lr_event_at a = lr_event_at b"

lemma latest_updated:
  assumes "distinct (map lr_id rs)" "latest key rs = Some d" "lr_id d' = lr_id d" "key d \<le> key d'"
  shows "latest key (map (\<lambda>x. if x = d then d' else x) rs) = Some d'"
proof -
  let ?h = "\<lambda>x. if x = d then d' else x"
  have "map lr_id (map ?h rs) = map lr_id rs" using assms(3) by auto
  then have ids: "distinct (map lr_id (map ?h rs))" using assms(1) by metis
  have "d \<in> set rs" "\<forall>x\<in>set rs. beats key d x" using assms(1,2) latest_iff by blast+
  then show ?thesis
    unfolding latest_iff [OF ids] using assms(3,4) by (fastforce simp: beats_def)
qed

lemma current_updated:
  assumes "distinct (map lr_id rs)" "current_session env e rs = Some d" "same_key d' d" "last_at d \<le> last_at d'"
  shows "current_session env e (map (\<lambda>x. if x = d then d' else x) rs) = Some d'"
proof -
  let ?h = "\<lambda>x. if x = d then d' else x"
  let ?P = "\<lambda>r. same_subscriber env e r \<and> same_text env (av_session e) (lr_acct_session r)"
  let ?Q = "\<lambda>r. same_subscriber env e r \<and> lr_acct_session r = None \<and> same_text env (av_session e) (lr_session r)"
  have P: "?P (?h x) = ?P x" "?Q (?h x) = ?Q x" for x
    using assms(3) by (auto simp: same_key_def same_subscriber_def)
  have "filter ?P (map ?h rs) = map ?h (filter ?P rs)" "filter ?Q (map ?h rs) = map ?h (filter ?Q rs)"
    unfolding filter_map comp_def P by simp_all
  moreover have "latest last_at (map ?h (filter ?P rs)) = Some d'" if "latest last_at (filter ?P rs) = Some d"
    using latest_updated [OF distinct_filter_ids [OF assms(1)] that] assms(3,4) by (simp add: same_key_def)
  moreover have "latest lr_event_at (map ?h (filter ?Q rs)) = Some d'" if "latest lr_event_at (filter ?Q rs) = Some d"
    using latest_updated [OF distinct_filter_ids [OF assms(1)] that] assms(3) by (simp add: same_key_def)
  moreover have "latest last_at (map ?h (filter ?P rs)) = None" if "latest last_at (filter ?P rs) = None"
    using that unfolding latest_None by simp
  ultimately show ?thesis using assms(2) by (auto simp: current_session_def split: option.splits)
qed

lemma update_one:
  assumes "usage_ok db" "d \<in> set (ad_logs db)" "p d" "\<forall>r. p r \<longrightarrow> lr_id r = lr_id d"
  shows "ad_logs (update_log p g db) = map (\<lambda>x. if x = d then g d else x) (ad_logs db)"
proof -
  have "p r \<longleftrightarrow> r = d" if "r \<in> set (ad_logs db)" for r
    using that assms unfolding usage_ok_def by (metis inj_on_eq_iff distinct_map)
  then show ?thesis by (auto simp: update_logs)
qed

section \<open>A record sent again\<close>

definition same_store :: "acct_db \<Rightarrow> acct_db \<Rightarrow> bool" where
  "same_store a b \<longleftrightarrow> ad_logs a = ad_logs b \<and> ad_next a = ad_next b \<and> ad_daily a = ad_daily b \<and> ad_moves a = ad_moves b"

text \<open>The event finds a session that it has nothing to add to.\<close>

definition quiet :: "acct_env \<Rightarrow> acct_event \<Rightarrow> log_row list \<Rightarrow> bool" where
  "quiet env e logs \<longleftrightarrow> (\<exists>d. current_session env e logs = Some d \<and>
     (if av_kind e = Start
      then start_replay env e d \<and> \<not> (identity_changed e d \<and> av_at e < last_at d)
        \<and> (identity_enriched e d \<longrightarrow> last_at d \<le> av_at e \<and> enrich e d = d)
      else \<not> later_reuse e d
        \<and> (if lr_kind d = Stop then \<not> (corrects_stop e d \<and> (\<not> av_explicit e \<or> last_at d \<le> av_at e))
           else if av_at e < last_at d then av_kind e \<noteq> Stop
           else exact_replay e d)))"

lemma exact_replay_agrees: "exact_replay e d \<Longrightarrow> \<not> differs (av_framed4 e) (lr_framed4 d) \<and> \<not> differs (av_framed6 e) (lr_framed6 d)"
  by (auto simp: exact_replay_def differs_def)

lemma quiet_again:
  assumes "quiet env e (ad_logs db)" "usage_ok db"
  shows "\<exists>db' reply. apply_event uuid now env e db = Inr (db', reply) \<and> same_store db' db"
proof -
  obtain d where d: "current_session env e (ad_logs db) = Some d" using assms(1) by (auto simp: quiet_def)
  note d_in = current_session_in [OF d]
  have receipt: "same_store (recordReceipt now e a x) y \<longleftrightarrow> same_store x y" for a x y by (simp add: same_store_def)
  have refl: "same_store db db" by (simp add: same_store_def)
  show ?thesis
  proof (cases "av_kind e = Start")
    case True
    show ?thesis
    proof (cases "identity_enriched e d")
      case enr: True
      then have o: "open_row_of e d d" using d_in by (simp add: open_row_of_def identity_enriched_def same_subscriber_def)
      have "ad_logs (update_log (open_row_of e d) (enrich e) db) = map (\<lambda>x. if x = d then enrich e d else x) (ad_logs db)"
        using d_in o by (intro update_one [OF assms(2)]) (simp_all add: open_row_of_def)
      moreover have "enrich e d = d" "last_at d \<le> av_at e" "start_replay env e d" using assms(1) True enr d by (auto simp: quiet_def)
      ultimately have "same_store (update_log (open_row_of e d) (enrich e) db) db"
        by (simp add: same_store_def map_idI)
      moreover have "list_ex (open_row_of e d) (ad_logs db)" using d_in o by (auto simp: list_ex_iff)
      ultimately show ?thesis
        using \<open>last_at d \<le> av_at e\<close> \<open>start_replay env e d\<close> d True enr
        by (auto simp: apply_event_def ingest_start_def updated_def receipt)
    next
      case False
      then show ?thesis
        using assms(1) d True refl by (auto simp: quiet_def apply_event_def ingest_start_def noop_def receipt)
    qed
  next
    case False
    then show ?thesis
      using assms(1) d refl exact_replay_agrees
      by (auto simp: quiet_def apply_event_def ingest_update_def noop_def receipt Let_def split: if_splits)
  qed
qed

text \<open>A record of a whole second that no session of its subscriber outlasts.\<close>

definition in_order :: "acct_env \<Rightarrow> acct_event \<Rightarrow> log_row list \<Rightarrow> bool" where
  "in_order env e logs \<longleftrightarrow> av_explicit e \<and> av_at e mod 1000 = 0 \<and> av_cause e \<noteq> Some []
     \<and> (\<forall>r\<in>set logs. same_subscriber env e r \<longrightarrow> last_at r \<le> av_at e)"

lemma to_second_whole: "t mod 1000 = 0 \<Longrightarrow> to_second t = t"
  unfolding to_second_def by (auto elim!: dvdE simp: mod_0_imp_dvd)

lemma close_in_order:
  "in_order env e (ad_logs db) \<Longrightarrow> in_order env e (ad_logs (update_log p (close_log s (av_at e)) db))"
  by (auto simp: in_order_def update_logs close_log_def same_subscriber_def last_at_def)

lemma move_in_order:
  "detect_move env e m db = Inr (m', db') \<Longrightarrow> in_order env e (ad_logs db) \<Longrightarrow> in_order env e (ad_logs db')"
  using close_in_order by (auto simp: detect_move_def split: option.splits if_splits)

lemma liveness_positive: "0 < livenessMinutes v"
  by (simp add: livenessMinutes_def Let_def)

lemma differs_self [simp]: "\<not> differs x x"
  by (simp add: differs_def)

lemma sql_coalesce_simps [simp]: "sql_coalesce None y = y" "sql_coalesce (Some x) y = Some x"
  by (simp_all add: sql_coalesce_def)

lemma same_string_coalesced: "same_string x y \<Longrightarrow> same_string x (sql_coalesce x y)"
  by (cases x) (simp_all add: same_string_def)

lemma same_count_reading [simp]: "same_count x (sql_coalesce x y)" "same_count x x" "same_count None y"
  by (auto simp: same_count_def sql_coalesce_def reading_def split: option.split)

lemma no_excess [simp]: "\<not> exceeds x (sql_coalesce x y)" "\<not> exceeds x x" "\<not> exceeds None y"
  by (auto simp: exceeds_def sql_coalesce_def reading_def split: option.split)

lemma inserted_current:
  assumes "usage_ok db'" "ad_logs db' = rs @ [r]" "ad_next db' = lr_id r + 1" "in_order env e rs"
    "lr_org r = av_org e" "lr_nas r = Some (av_nas e)" "lr_user r = av_user e" "lr_acct_session r = Some (av_session e)"
    "lr_last_at r = Some (av_at e)"
  shows "current_session env e (ad_logs db') = Some r"
proof -
  have ids: "distinct (map lr_id (rs @ [r]))" using assms(1,2) by (simp add: usage_ok_def)
  have "lr_id x < lr_id r" if "x \<in> set rs" for x
  proof -
    have "lr_id x \<le> lr_id r" using assms(1-3) that by (auto simp: usage_ok_def)
    moreover have "lr_id r \<notin> lr_id ` set rs" using ids by simp
    ultimately show ?thesis using that by (metis imageI le_neq_implies_less)
  qed
  note ids = ids this
  show ?thesis
    unfolding assms(2) using assms(4-9) ids
    by (intro current_inserted) (auto simp: same_subscriber_def same_text_def last_at_def in_order_def)
qed

lemma open_session_settles:
  assumes "usage_ok db" "open_session uuid now env e m db = Inr (db', reply)" "Some uuid \<notin> instances db"
    "in_order env e (ad_logs db)" "av_kind e = Start"
  shows "quiet env e (ad_logs db')"
proof -
  obtain m1 db1 c db2 where step: "detect_move env e m db = Inr (m1, db1)"
      "insert_log env (start_row uuid e c db1) db1 = Inr db2"
      "db' = recordReceipt now e Inserted (recordUsageDelta (start_row uuid e c db1) (av_at e) (start_usage e) db2)"
    using assms(2) by (auto simp: open_session_def and_then_Ok_iff Let_def split: option.splits)
  have ok: "usage_ok db'" using open_session_grows [OF assms(1-3)] by (simp add: grows_def)
  let ?r = "start_row uuid e c db1"
  have logs: "ad_logs db' = ad_logs db1 @ [?r]" "ad_next db' = lr_id ?r + 1"
    using step(2,3) by (auto simp: insert_log_def start_row_def new_row_def split: if_splits)
  have "current_session env e (ad_logs db') = Some ?r"
    using move_in_order [OF step(1) assms(4)]
    by (intro inserted_current [OF ok logs]) (simp_all add: start_row_def new_row_def)
  moreover have "start_replay env e ?r" "\<not> identity_changed e ?r" "\<not> identity_enriched e ?r"
    using assms(4,5) liveness_positive [of "ae_liveness env"]
    by (auto simp: start_row_def new_row_def start_replay_def opened_def stale_open_def last_at_def identity_changed_def
        later_start_def to_second_whole in_order_def identity_enriched_def)
  ultimately show ?thesis using assms(5) by (simp add: quiet_def)
qed

lemma late_settles:
  assumes "usage_ok db" "ingest_late uuid now env e db = Inr (db', reply)" "Some uuid \<notin> instances db"
    "in_order env e (ad_logs db)" "av_kind e \<noteq> Start"
  shows "quiet env e (ad_logs db')"
proof -
  obtain c db2 where step: "insert_log env (late_row uuid e c db) db = Inr db2"
      "db' = recordReceipt now e Inserted (recordUsageDelta (late_row uuid e c db) (av_at e) (late_usage e) db2)"
    using assms(2) by (auto simp: ingest_late_def and_then_Ok_iff Let_def split: option.splits)
  have ok: "usage_ok db'" using late_grows [OF assms(1-3)] by (simp add: grows_def)
  let ?r = "late_row uuid e c db"
  have logs: "ad_logs db' = ad_logs db @ [?r]" "ad_next db' = lr_id ?r + 1"
    using step by (auto simp: insert_log_def late_row_def new_row_def split: if_splits)
  have "current_session env e (ad_logs db') = Some ?r"
    using assms(4) by (intro inserted_current [OF ok logs]) (simp_all add: late_row_def new_row_def)
  moreover have r: "lr_usage_last ?r = av_counts e" "lr_cause ?r = av_cause e" "lr_kind ?r = av_kind e"
      "lr_framed4 ?r = av_framed4 e" "lr_framed6 ?r = av_framed6 e" "last_at ?r = av_at e"
    by (simp_all add: late_row_def new_row_def last_at_def)
  moreover have "\<not> later_reuse e ?r" "\<not> corrects_stop e ?r"
    by (auto simp: later_reuse_def corrects_stop_def ex_field r)
  moreover have "exact_replay e ?r"
    using assms(4) by (cases "av_cause e") (auto simp: exact_replay_def all_fields in_order_def r)
  ultimately show ?thesis using assms(5) by (simp add: quiet_def)
qed

lemma enriched_settles:
  assumes "identity_enriched e d" "start_replay env e d" "last_at d \<le> av_at e" "\<not> (identity_changed e d \<and> av_at e < last_at d)"
  shows "start_replay env e (enrich e d)" "\<not> identity_changed e (enrich e d)" "enrich e (enrich e d) = enrich e d"
    "last_at (enrich e d) = av_at e"
proof -
  have o: "opened d" using assms(1) by (simp add: identity_enriched_def)
  then have r: "\<not> identity_changed e d" "\<not> later_start e d"
    using assms(2) by (auto simp: start_replay_def opened_def)
  show "last_at (enrich e d) = av_at e" by (simp add: enrich_def last_at_def)
  show "enrich e (enrich e d) = enrich e d" by (simp add: enrich_def sql_coalesce_def split: option.split)
  have differs: "\<not> differs (sql_coalesce x y) y" if "\<not> differs x y" for x y
    using that by (auto simp: sql_coalesce_def split: option.splits)
  show changed: "\<not> identity_changed e (enrich e d)"
    using r(1) o differs by (auto simp: identity_changed_def enrich_def opened_def)
  have "\<not> later_start e (enrich e d)"
    using r(2) o assms(3) by (auto simp: later_start_def enrich_def opened_def last_at_def)
  then show "start_replay env e (enrich e d)"
    using o changed liveness_positive [of "ae_liveness env"]
    by (auto simp: start_replay_def stale_open_def enrich_def opened_def last_at_def)
qed

lemma start_settles:
  assumes "usage_ok db" "ingest_start uuid now env e db = Inr (db', reply)" "Some uuid \<notin> instances db"
    "in_order env e (ad_logs db)" "av_kind e = Start"
  shows "quiet env e (ad_logs db')"
proof (cases "current_session env e (ad_logs db)")
  case None
  then show ?thesis using assms open_session_settles by (simp add: ingest_start_def)
next
  case (Some d)
  note d = current_session_in [OF Some]
  have closed: "quiet env e (ad_logs db')"
    if "open_session uuid now env e m (update_log p (close_log s (av_at e)) db) = Inr (db', reply)" for m p s
    using open_session_settles [OF update_ok [OF assms(1) keeps_usage_steps(1)] that _ close_in_order [OF assms(4)] assms(5)] assms(3)
    by (simp add: instances_update [OF keeps_usage_steps(1)])
  have enriched: "quiet env e (ad_logs (update_log (open_row_of e d) (enrich e) db))"
    if e: "identity_enriched e d" "start_replay env e d" "\<not> av_at e < last_at d"
  proof -
    note facts = enriched_settles [OF e(1,2)]
    have "open_row_of e d d" using d e(1) by (simp add: open_row_of_def identity_enriched_def same_subscriber_def)
    then have logs: "ad_logs (update_log (open_row_of e d) (enrich e) db) = map (\<lambda>x. if x = d then enrich e d else x) (ad_logs db)"
      using d by (intro update_one [OF assms(1)]) (simp_all add: open_row_of_def)
    have "current_session env e (ad_logs (update_log (open_row_of e d) (enrich e) db)) = Some (enrich e d)"
      unfolding logs using assms(1) facts(4) e(3)
      by (intro current_updated [OF _ Some]) (auto simp: usage_ok_def same_key_def enrich_def last_at_def)
    then show ?thesis using facts e(3) assms(5) by (auto simp: quiet_def)
  qed
  have "av_explicit e" using assms(4) by (simp add: in_order_def)
  then show ?thesis
    using assms Some closed open_session_settles [OF assms(1) _ assms(3-5)] enriched
    by (auto simp: ingest_start_def noop_def updated_def quiet_def [of env e "ad_logs db"] split: if_splits)
qed

lemma update_settles:
  assumes "usage_ok db" "ingest_update uuid now env e db = Inr (db', reply)" "Some uuid \<notin> instances db"
    "in_order env e (ad_logs db)" "av_kind e \<noteq> Start"
  shows "quiet env e (ad_logs db')"
proof (cases "current_session env e (ad_logs db)")
  case None
  then show ?thesis using assms late_settles by (simp add: ingest_update_def)
next
  case (Some d)
  note d = current_session_in [OF Some]
  have ids: "distinct (map lr_id (ad_logs db))" using assms(1) by (simp add: usage_ok_def)
  have last: "last_at d \<le> av_at e" and explicit: "av_explicit e" and cause: "av_cause e \<noteq> Some []"
    using assms(4) d by (auto simp: in_order_def)
  have addr: "addressed e d (lr_kind d = Stop) d" "\<forall>r. addressed e d b r \<longrightarrow> lr_id r = lr_id d" for b
    using d by (simp_all add: addressed_def same_subscriber_def)
  have logs: "ad_logs (update_log (addressed e d (lr_kind d = Stop)) g db) = map (\<lambda>x. if x = d then g d else x) (ad_logs db)" for g
    by (rule update_one [OF assms(1) conjunct1 [OF d] addr])
  have corrected: "quiet env e (ad_logs (update_log (addressed e d True) (correct_stop uuid e d) db))"
    if c: "lr_kind d = Stop" "corrects_stop e d" "\<not> later_reuse e d"
  proof -
    let ?r = "correct_stop uuid e d d"
    have r: "lr_kind ?r = Stop" "last_at ?r = last_at d" "lr_cause ?r = sql_coalesce (av_cause e) (lr_cause d)"
      "lr_framed4 ?r = lr_framed4 d" "lr_framed6 ?r = lr_framed6 d" "same_key ?r d"
      using c(1) by (simp_all add: correct_stop_def with_instance_def count_usage_def last_at_def same_key_def)
    have "current_session env e (map (\<lambda>x. if x = d then ?r else x) (ad_logs db)) = Some ?r"
      using r by (intro current_updated [OF ids Some]) simp_all
    moreover have "\<not> corrects_stop e ?r"
      by (auto simp: corrects_stop_def ex_field latest_readings_def r(3) sql_coalesce_def split: option.splits)
    moreover have "\<not> later_reuse e ?r"
    proof (cases "same_stop e d")
      case True
      then have "same_stop e ?r"
        by (simp add: same_stop_def all_fields latest_readings_def r same_string_coalesced)
      then show ?thesis by (simp add: later_reuse_def)
    next
      case False
      then show ?thesis using c(1,3) r(1,2) by (auto simp: later_reuse_def)
    qed
    ultimately show ?thesis using logs [of "correct_stop uuid e d"] c(1) assms(5) r(1) by (auto simp: quiet_def)
  qed
  have continued: "quiet env e (ad_logs (update_log (addressed e d False) (continue_log uuid e d) db))"
    if c: "lr_kind d \<noteq> Stop" "\<not> differs (av_framed4 e) (lr_framed4 d)" "\<not> differs (av_framed6 e) (lr_framed6 d)"
  proof -
    let ?r = "continue_log uuid e d d"
    have r: "lr_kind ?r = av_kind e" "last_at ?r = av_at e" "lr_cause ?r = av_cause e" "same_key ?r d"
      "lr_framed4 ?r = sql_coalesce (av_framed4 e) (lr_framed4 d)" "lr_framed6 ?r = sql_coalesce (av_framed6 e) (lr_framed6 d)"
      by (simp_all add: continue_log_def with_instance_def count_usage_def last_at_def same_key_def)
    have "current_session env e (map (\<lambda>x. if x = d then ?r else x) (ad_logs db)) = Some ?r"
      using r last by (intro current_updated [OF ids Some]) simp_all
    moreover have "\<not> later_reuse e ?r" "\<not> corrects_stop e ?r"
      by (auto simp: later_reuse_def corrects_stop_def ex_field latest_readings_def r(2,3))
    moreover have "exact_replay e ?r"
      using cause by (cases "av_cause e"; cases "av_framed4 e"; cases "av_framed6 e")
        (auto simp: exact_replay_def all_fields latest_readings_def r)
    ultimately show ?thesis
      using logs [of "continue_log uuid e d"] c(1) assms(5) r(2) by (auto simp: quiet_def)
  qed
  show ?thesis
    using assms Some late_settles [OF assms(1) _ assms(3-5)] corrected continued last explicit
    by (auto simp: ingest_update_def noop_def updated_def Let_def quiet_def [of env e "ad_logs db"] split: if_splits)
qed

end
