(* ===== verification/AccountingProps.thy ===== *)
theory AccountingProps
  imports AccountingReplay
begin

text \<open>
  What accounting promises over sequences of ingests, a sample store, and where it fails.
\<close>

section \<open>From attributes to events\<close>

lemma terminate_cause_nonempty: "normalizeTerminateCause v = Inr r \<Longrightarrow> r \<noteq> Some []"
proof (cases v)
  case (CauseNumber n)
  have "TERMINATE_CAUSES ! i \<noteq> []" if "i < 18" for i
  proof -
    have "\<forall>s\<in>set TERMINATE_CAUSES. s \<noteq> []" "length TERMINATE_CAUSES = 18" by (simp_all add: TERMINATE_CAUSES_def)
    then show ?thesis using that nth_mem by metis
  qed
  moreover assume "normalizeTerminateCause v = Inr r"
  ultimately show ?thesis using CauseNumber by (auto simp: normalizeTerminateCause_def split: if_splits)
qed (auto simp: normalizeTerminateCause_def Let_def split: if_splits)





text \<open>What an accepted record determines.\<close>

lemma normalize_event_built:
  assumes "normalize_event now env a = Inr e"
  obtains org user session ip framed6 n account where
    "owner (aa_org a) = Inr org" "aa_user a = Some user" "resolve_rows env a org user ip = [(n, account)]"
    "build_event now env a org user session ip framed6 n account = Inr e"
proof -
  obtain org user session ip framed6 where
      owner: "owner (aa_org a) = Inr org" and user: "required ''userName'' 64 (aa_user a) = Inr user" and
      resolve: "resolve_event now env a org user session ip framed6 = Inr e"
    using assms by (auto simp: normalize_event_def and_then_Ok_iff split: if_splits)
  from user have "aa_user a = Some user" by (simp add: required_def Let_def split: option.splits if_splits)
  with owner resolve that show thesis by (auto simp: resolve_event_def split: list.splits if_splits)
qed

lemma build_event_facts:
  assumes "build_event now env a org user session ip framed6 n account = Inr e"
  shows "observed_at (ae_skew env) now a = Inr (av_at e)" "av_user e = user"
    "av_explicit e \<longleftrightarrow> aa_stamp a \<noteq> NoStamp" "av_cause e \<noteq> Some []"
    "acct_kind_of (aa_status a) = Inr (av_kind e)"
  using assms terminate_cause_nonempty by (auto simp: build_event_def and_then_Ok_iff)

lemma normalize_event_facts:
  assumes "normalize_event now env a = Inr e"
  shows "observed_at (ae_skew env) now a = Inr (av_at e)" "aa_user a = Some (av_user e)"
    "av_explicit e \<longleftrightarrow> aa_stamp a \<noteq> NoStamp" "av_cause e \<noteq> Some []"
    "acct_kind_of (aa_status a) = Inr (av_kind e)"
  using normalize_event_built [OF assms] build_event_facts by metis+

lemma built_account:
  "build_event now env a org user session ip framed6 n account = Inr e \<Longrightarrow> av_org e = org \<and> av_user e = user
     \<and> av_contract e = (case account of Some r \<Rightarrow> ac_contract r | None \<Rightarrow> Some 0)"
  by (auto simp: build_event_def and_then_Ok_iff)

lemma normalize_event_org:
  assumes "normalize_event now env a = Inr e" shows "aa_org a = Some (int (av_org e))"
proof -
  have "owner (aa_org a) = Inr (av_org e)"
    using normalize_event_built [OF assms] built_account by metis
  then show ?thesis by (auto simp: owner_def split: option.splits if_splits)
qed



section \<open>Retransmission\<close>



section \<open>A sample store\<close>

definition acct_sample_env :: acct_env where
  "acct_sample_env = \<lparr>ae_coll = (\<lambda>s. s), ae_nas = [\<lparr>row_id = 1, row_org = Some 1, row_ip = ''10.0.0.1'', row_secret = None,
       row_active = True, row_deleted = False\<rparr>],
     ae_accounts = [\<lparr>ac_user = ''ana'', ac_org = Some 1, ac_contract = Some 5, ac_client = 6, ac_deleted = False\<rparr>,
       \<lparr>ac_user = ''eva'', ac_org = Some 1, ac_contract = None, ac_client = 7, ac_deleted = False\<rparr>],
     ae_contract_org = (\<lambda>c. Some 1), ae_client_org = (\<lambda>c. Some 1), ae_canon6 = (\<lambda>s. s),
     ae_skew = None, ae_liveness = None\<rparr>"

definition sample_record :: "string \<Rightarrow> string \<Rightarrow> int option \<Rightarrow> stamp \<Rightarrow> acct_attrs" where
  "sample_record status user octs t = \<lparr>aa_status = status, aa_user = Some user, aa_session = Some ''8A01'',
     aa_nas_ip = Some ''10.0.0.1'', aa_port = None, aa_called = None, aa_calling = None, aa_framed4 = None, aa_framed6 = None,
     aa_in_octets = octs, aa_out_octets = octs, aa_in_gigawords = None, aa_out_gigawords = None, aa_session_time = None,
     aa_cause = NoCause, aa_v6_in = None, aa_v6_out = None, aa_in_packets = None, aa_out_packets = None, aa_stamp = t,
     aa_delay = None, aa_org = Some 1, aa_nas = Some 1, aa_source = Some ''test'', aa_token = None\<rparr>"

definition sample_call :: "string \<Rightarrow> acct_attrs \<Rightarrow> acct_call" where
  "sample_call uuid a = \<lparr>cl_uuid = uuid, cl_now = 1800000000000, cl_env = acct_sample_env, cl_attrs = a\<rparr>"

definition sample_calls :: "acct_call list" where
  "sample_calls = [sample_call ''u1'' (sample_record ''Start'' ''ana'' (Some 0) (StampNumber 1700000000)),
     sample_call ''u2'' (sample_record ''Interim-Update'' ''ana'' (Some 9) (StampNumber 1700000300))]"

lemma ip_ok: "isIP ''10.0.0.1'' = 4" by code_simp

lemma texts_ok:
  "required ''userName'' 64 (Some ''ana'') = Inr ''ana''" "required ''userName'' 64 (Some ''eva'') = Inr ''eva''"
  "required ''acctSessionId'' 64 (Some ''8A01'') = Inr ''8A01''"
  "required ''nasIpAddress'' 45 (Some ''10.0.0.1'') = Inr ''10.0.0.1''"
  by (simp_all add: required_def code_def)

lemma source_ok: "js_take 32 ''test'' = ''test''"
  by (simp add: numeral_eq_Suc code_def)

definition sample_event :: "acct_kind \<Rightarrow> string \<Rightarrow> nat option \<Rightarrow> nat \<Rightarrow> nat option \<Rightarrow> int \<Rightarrow> acct_event" where
  "sample_event kind user contract client octs t = \<lparr>av_org = 1, av_nas = 1, av_contract = contract, av_client = client, av_user = user,
     av_session = ''8A01'', av_nas_ip = ''10.0.0.1'', av_port = None, av_called = None, av_calling = None,
     av_framed4 = None, av_framed6 = None, av_counts = readings_of octs octs (sample_record [] [] None NoStamp),
     av_v6_in = None, av_v6_out = None, av_cause = None, av_kind = kind, av_at = t, av_explicit = True, av_delay = 0,
     av_source = ''test'', av_token = 0\<rparr>"


lemma octet_total_small: "0 \<le> n \<Longrightarrow> n \<le> 1000000 \<Longrightarrow> octet_total (Some n) None = Inr (Some (nat n))"
  by (simp add: octet_total_def combineOctetsGigawords_def as_count_def MAX_SAFE_def Let_def)

lemma stamp_ok: "0 \<le> t \<Longrightarrow> t \<le> 1799000000 \<Longrightarrow> normalizeEventTimestamp None 1800000000000 (StampNumber t) = Inr (t * 1000)"
  by (simp add: normalizeEventTimestamp_def future_skew_def MAX_SAFE_def MAX_TIMESTAMP_def Let_def)

lemma observed_ok:
  "0 \<le> t \<Longrightarrow> t \<le> 1799000000 \<Longrightarrow> observed_at None 1800000000000 (sample_record status user x (StampNumber t)) = Inr (t * 1000)"
  by (simp add: observed_at_def sample_record_def stamp_ok before_epoch_def)

lemma resolve_ok:
  "resolve_rows acct_sample_env (sample_record status ''ana'' x t) 1 ''ana'' ''10.0.0.1''
     = [(ae_nas acct_sample_env ! 0, Some (ae_accounts acct_sample_env ! 0))]"
  "resolve_rows acct_sample_env (sample_record status ''eva'' x t) 1 ''eva'' ''10.0.0.1''
     = [(ae_nas acct_sample_env ! 0, Some (ae_accounts acct_sample_env ! 1))]"
  by (simp_all add: resolve_rows_def acct_sample_env_def sample_record_def account_matches_def nas_matches_def row_live_def)

lemma attrs_ok_sample: "0 \<le> n \<Longrightarrow> n \<le> 1000000 \<Longrightarrow> attrs_ok (sample_record status user (Some n) t) None"
  by (simp add: attrs_ok_def sample_record_def short_def count_ok_def MAX_SAFE_def)

lemma built_ok:
  assumes "0 \<le> n" "n \<le> 1000000" "0 \<le> t" "t \<le> 1799000000" "acct_kind_of status = Inr kind"
  shows "build_event 1800000000000 acct_sample_env (sample_record status user (Some n) (StampNumber t)) 1 user ''8A01'' ''10.0.0.1'' None
      (ae_nas acct_sample_env ! 0) (Some r)
    = Inr (sample_event kind user (ac_contract r) (ac_client r) (Some (nat n)) (t * 1000))"
proof -
  have "ae_skew acct_sample_env = None" by (simp add: acct_sample_env_def)
  then show ?thesis
    using assms observed_ok [OF assms(3,4)]
    unfolding build_event_def
    by (simp add: octet_total_small normalizeTerminateCause_def source_ok sample_event_def the_count_def as_count_def
        sample_record_def acct_sample_env_def readings_of_def [abs_def] cong: usage_field.case_cong)
qed


lemma sample_normalized:
  assumes "0 \<le> n" "n \<le> 1000000" "0 \<le> t" "t \<le> 1799000000" "acct_kind_of status = Inr kind"
    "user = ''ana'' \<and> r = ae_accounts acct_sample_env ! 0 \<or> user = ''eva'' \<and> r = ae_accounts acct_sample_env ! 1"
  shows "normalize_event 1800000000000 acct_sample_env (sample_record status user (Some n) (StampNumber t))
    = Inr (sample_event kind user (ac_contract r) (ac_client r) (Some (nat n)) (t * 1000))"
proof -
  let ?a = "sample_record status user (Some n) (StampNumber t)"
  have fields: "aa_org ?a = Some 1" "aa_user ?a = Some user" "aa_session ?a = Some ''8A01''"
    "aa_nas_ip ?a = Some ''10.0.0.1''" "aa_framed6 ?a = None"
    by (simp_all add: sample_record_def)
  have rows: "resolve_rows acct_sample_env ?a 1 user ''10.0.0.1'' = [(ae_nas acct_sample_env ! 0, Some r)]"
    using assms(6) resolve_ok by auto
  have agrees: "\<not> address_disagrees acct_sample_env ?a ''10.0.0.1'' (ae_nas acct_sample_env ! 0)"
    by (simp add: address_disagrees_def acct_sample_env_def sample_record_def)
  have "owner (Some 1) = Inr 1" by (simp add: owner_def MAX_SAFE_def)
  then show ?thesis
    using assms(6) texts_ok attrs_ok_sample [OF assms(1,2)] built_ok [OF assms(1-5)] rows agrees
    by (auto simp: normalize_event_def fields framed_prefix_def resolve_event_def ip_ok)
qed

definition serve_event :: "string \<times> acct_event \<Rightarrow> acct_db \<Rightarrow> acct_db" where
  "serve_event c db = (case apply_event (fst c) 1800000000000 acct_sample_env (snd c) db of Inl e \<Rightarrow> db | Inr (db', reply) \<Rightarrow> db')"

definition sample_store :: acct_db where
  "sample_store = fold serve_event
     [(''u1'', sample_event Start ''ana'' (Some 5) 6 (Some 0) 1700000000000),
      (''u2'', sample_event Interim ''ana'' (Some 5) 6 (Some 9) 1700000300000)] empty_store"

lemma sample_accounts: "ac_contract (ae_accounts acct_sample_env ! 0) = Some 5" "ac_client (ae_accounts acct_sample_env ! 0) = 6"
  by (simp_all add: acct_sample_env_def)

lemma sample_served: "fold serve_call sample_calls empty_store = sample_store"
  using sample_normalized [of 0 1700000000 "''Start''" Start "''ana''" "ae_accounts acct_sample_env ! 0"]
    sample_normalized [of 9 1700000300 "''Interim-Update''" Interim "''ana''" "ae_accounts acct_sample_env ! 0"]
  by (simp add: sample_calls_def sample_call_def serve_call_def ingest_accounting_def acct_kind_of_def sample_accounts
      sample_store_def serve_event_def)

lemma sample_facts:
  "map (\<lambda>r. (lr_instance r, lr_usage_complete r, lr_user r, last_at r)) (ad_logs sample_store) = [(Some ''u1'', True, ''ana'', 1700000300000)]"
  "map (\<lambda>r. (lr_usage_last r BytesIn, lr_usage_last r BytesOut, lr_usage_last r PacketsIn)) (ad_logs sample_store) = [(Some 9, Some 9, None)]"
  "used (ad_daily sample_store) ''u1'' BytesIn = 9"
  by code_simp+


lemma sample_uuids: "distinct (map cl_uuid sample_calls)" "set (map cl_uuid sample_calls) = {''u1'', ''u2''}"
  by (auto simp: sample_calls_def sample_call_def)

theorem billed_usage_exact_witness:
  "\<exists>(r :: log_row) i. lr_usage_last r BytesIn = Some 9 \<and> lr_instance r = Some i
     \<and> used (ad_daily (fold serve_call sample_calls empty_store)) i BytesIn = 9"
proof -
  obtain r where r: "ad_logs sample_store = [r]" "lr_usage_complete r" "lr_usage_last r BytesIn = Some 9"
    using sample_facts(1,2) by (auto simp: Cons_eq_map_conv map_eq_Cons_conv)
  then have "r \<in> set (ad_logs (fold serve_call sample_calls empty_store))" by (simp add: sample_served)
  from billed_usage_exact [OF sample_uuids(1) this r(2)] obtain i where "lr_instance r = Some i"
    "used (ad_daily (fold serve_call sample_calls empty_store)) i BytesIn = reading (lr_usage_last r BytesIn)"
    by (auto simp: octets_def)
  then show ?thesis using r(3) by (intro exI [of _ r] exI [of _ i]) (simp add: reading_def)
qed



section \<open>Where the store fails\<close>

text \<open>A time stamp with a fraction is rounded down in \<open>event_at\<close>, so the retransmitted Start looks later than the
  session it opened: it closes that session and opens another.\<close>

lemma fractional_start_duplicates:
  "map (\<lambda>r. (lr_instance r, lr_kind r)) (ad_logs (fold serve_event
     [(''u1'', sample_event Start ''ana'' (Some 5) 6 (Some 0) 1700000000400),
      (''u2'', sample_event Start ''ana'' (Some 5) 6 (Some 0) 1700000000400)] empty_store))
   = [(Some ''u1'', Stop), (Some ''u2'', Start)]"
  by code_simp

text \<open>An account whose contract is NULL.\<close>

definition subjects :: "acct_env \<Rightarrow> acct_db \<Rightarrow> (nat \<times> string) set" where
  "subjects env db = (\<lambda>r. (lr_org r, ae_coll env (lr_user r))) ` set (ad_logs db)"

definition keeps_subject :: "(log_row \<Rightarrow> log_row) \<Rightarrow> bool" where
  "keeps_subject f \<longleftrightarrow> (\<forall>r. lr_org (f r) = lr_org r \<and> lr_user (f r) = lr_user r)"

lemma keeps_subject_steps:
  "keeps_subject (close_log s t)" "keeps_subject (enrich e)" "keeps_subject (fault_stop e)"
  "keeps_subject (correct_stop u e d)" "keeps_subject (continue_log u e d)"
  by (simp_all add: keeps_subject_def close_log_def enrich_def fault_stop_def correct_stop_def continue_log_def
      with_instance_def count_usage_def)

lemma subjects_update [simp]: "keeps_subject f \<Longrightarrow> subjects env (update_log p f db) = subjects env db"
proof -
  assume "keeps_subject f"
  then have "map (\<lambda>r. (lr_org r, ae_coll env (lr_user r))) (ad_logs (update_log p f db))
      = map (\<lambda>r. (lr_org r, ae_coll env (lr_user r))) (ad_logs db)"
    by (auto simp: update_logs keeps_subject_def)
  then show "subjects env (update_log p f db) = subjects env db" unfolding subjects_def by (metis list.set_map)
qed

lemma subjects_frame [simp]:
  "subjects env (recordReceipt now e a db) = subjects env db" "subjects env (recordUsageDelta r t u db) = subjects env db"
  "subjects env (db\<lparr>ad_moves := m\<rparr>) = subjects env db"
  by (simp_all add: subjects_def)

lemma current_session_subject:
  "current_session env e (ad_logs db) = Some d \<Longrightarrow> (av_org e, ae_coll env (av_user e)) \<in> subjects env db"
  using current_session_in by (force simp: subjects_def same_subscriber_def)

lemma open_session_subjects:
  assumes "open_session uuid now env e m db = Inr (db', reply)"
  shows "av_contract e \<noteq> None" "subjects env db' \<subseteq> insert (av_org e, ae_coll env (av_user e)) (subjects env db)"
proof -
  obtain m1 db1 c db2 where step: "detect_move env e m db = Inr (m1, db1)" "av_contract e = Some c"
      "insert_log env (start_row uuid e c db1) db1 = Inr db2"
      "db' = recordReceipt now e Inserted (recordUsageDelta (start_row uuid e c db1) (av_at e) (start_usage e) db2)"
    using assms by (auto simp: open_session_def and_then_Ok_iff Let_def split: option.splits)
  then show "av_contract e \<noteq> None" by simp
  have "subjects env db1 = subjects env db"
    using step(1) by (auto simp: detect_move_def keeps_subject_steps split: option.splits if_splits)
  moreover have "ad_logs db2 = ad_logs db1 @ [start_row uuid e c db1]"
    using step(3) by (auto simp: insert_log_def split: if_splits)
  then have "subjects env db2 \<subseteq> insert (av_org e, ae_coll env (av_user e)) (subjects env db1)"
    by (auto simp: subjects_def start_row_def new_row_def)
  ultimately show "subjects env db' \<subseteq> insert (av_org e, ae_coll env (av_user e)) (subjects env db)"
    using step(4) by simp
qed

lemma late_subjects:
  assumes "ingest_late uuid now env e db = Inr (db', reply)"
  shows "av_contract e \<noteq> None" "subjects env db' \<subseteq> insert (av_org e, ae_coll env (av_user e)) (subjects env db)"
proof -
  obtain c db2 where step: "av_contract e = Some c" "insert_log env (late_row uuid e c db) db = Inr db2"
      "db' = recordReceipt now e Inserted (recordUsageDelta (late_row uuid e c db) (av_at e) (late_usage e) db2)"
    using assms by (auto simp: ingest_late_def and_then_Ok_iff Let_def split: option.splits)
  then show "av_contract e \<noteq> None" by simp
  have "ad_logs db2 = ad_logs db @ [late_row uuid e c db]" using step(2) by (auto simp: insert_log_def split: if_splits)
  then show "subjects env db' \<subseteq> insert (av_org e, ae_coll env (av_user e)) (subjects env db)"
    using step(3) by (auto simp: subjects_def late_row_def new_row_def)
qed

lemma apply_subjects:
  assumes "apply_event uuid now env e db = Inr (db', reply)"
  shows "subjects env db' \<subseteq> insert (av_org e, ae_coll env (av_user e)) (subjects env db)"
    "(av_org e, ae_coll env (av_user e)) \<notin> subjects env db \<Longrightarrow> av_contract e \<noteq> None"
proof -
  have closed: "subjects env db' \<subseteq> insert (av_org e, ae_coll env (av_user e)) (subjects env db)"
    if "open_session uuid now env e m (update_log p (close_log s t) db) = Inr (db', reply)" for m p s t
    using open_session_subjects(2) [OF that] by (simp add: keeps_subject_steps)
  have refl: "subjects env db \<subseteq> insert x (subjects env db)" for x by blast
  show "subjects env db' \<subseteq> insert (av_org e, ae_coll env (av_user e)) (subjects env db)"
    using assms open_session_subjects(2) late_subjects(2) closed
    by (auto simp: apply_event_def ingest_start_def ingest_update_def noop_def updated_def Let_def keeps_subject_steps refl
        split: option.splits if_splits)
  assume "(av_org e, ae_coll env (av_user e)) \<notin> subjects env db"
  then have "current_session env e (ad_logs db) = None" using current_session_subject by fastforce
  then show "av_contract e \<noteq> None"
    using assms open_session_subjects(1) late_subjects(1)
    by (auto simp: apply_event_def ingest_start_def ingest_update_def split: if_splits)
qed


text \<open>An organization's account of a user has no contract.\<close>

definition contractless :: "acct_env \<Rightarrow> nat \<Rightarrow> string \<Rightarrow> bool" where
  "contractless env org user \<longleftrightarrow> (\<exists>r\<in>set (ae_accounts env). account_matches env user org r)
     \<and> (\<forall>r\<in>set (ae_accounts env). account_matches env user org r \<longrightarrow> ac_contract r = None)"

lemma normalize_contractless:
  assumes "normalize_event now env a = Inr e" "contractless env (av_org e) (av_user e)"
  shows "av_contract e = None"
proof -
  obtain org user session ip framed6 n account where b: "resolve_rows env a org user ip = [(n, account)]"
      "build_event now env a org user session ip framed6 n account = Inr e"
    using normalize_event_built [OF assms(1)] by metis
  note facts = built_account [OF b(2)]
  have "(n, account) \<in> set (resolve_rows env a org user ip)" using b(1) by simp
  then obtain r where "account = Some r" "r \<in> set (ae_accounts env)" "account_matches env user org r"
    using assms(2) facts by (auto simp: resolve_rows_def contractless_def Let_def filter_empty_conv split: if_splits)
  then show ?thesis using assms(2) facts by (auto simp: contractless_def)
qed

lemma contractless_served:
  assumes "contractless (cl_env c) org user" "(org, ae_coll (cl_env c) user) \<notin> subjects (cl_env c) db"
  shows "(org, ae_coll (cl_env c) user) \<notin> subjects (cl_env c) (serve_call c db)"
proof (cases "ingest_accounting (cl_uuid c) (cl_now c) (cl_env c) (cl_attrs c) db")
  case (Inr x)
  obtain db' reply where x: "x = (db', reply)" by force
  obtain e where e: "normalize_event (cl_now c) (cl_env c) (cl_attrs c) = Inr e"
      "apply_event (cl_uuid c) (cl_now c) (cl_env c) e db = Inr (db', reply)"
    using Inr x by (auto simp: ingest_accounting_def and_then_Ok_iff)
  have "(org, ae_coll (cl_env c) user) \<noteq> (av_org e, ae_coll (cl_env c) (av_user e))"
  proof
    assume same: "(org, ae_coll (cl_env c) user) = (av_org e, ae_coll (cl_env c) (av_user e))"
    then have "contractless (cl_env c) (av_org e) (av_user e)"
      using assms(1) by (simp add: contractless_def account_matches_def)
    then show False using normalize_contractless [OF e(1)] apply_subjects(2) [OF e(2)] assms(2) same by simp
  qed
  then show ?thesis using apply_subjects(1) [OF e(2)] assms(2) Inr x by (auto simp: serve_call_def)
qed (use assms in \<open>simp add: serve_call_def\<close>)

text \<open>
  A subscriber whose account has no contract is never accounted. The lookup falls back to 0 for an
  unknown user name only; for an account whose contract is NULL (deleting a contract sets it so) every
  record is refused, whatever else is ingested: no session is stored, no usage billed, and the NAS gets
  no acknowledgement.
\<close>

theorem contractless_never_accounted:
  assumes "contractless env org user" and "\<forall>c\<in>set cs. cl_env c = env"
    and "aa_user a = Some user" "aa_org a = Some (int org)"
  shows "(\<forall>r\<in>set (ad_logs (fold serve_call cs empty_store)). lr_org r = org \<longrightarrow> ae_coll env (lr_user r) \<noteq> ae_coll env user)
    \<and> isl (ingest_accounting uuid now env a (fold serve_call cs empty_store))"
proof -
  have none: "(org, ae_coll env user) \<notin> subjects env (fold serve_call cs db)" if "(org, ae_coll env user) \<notin> subjects env db" for db
    using that assms(2)
  proof (induction cs arbitrary: db)
    case (Cons c cs)
    then show ?case using contractless_served [of c org user db] assms(1) by simp
  qed simp
  have absent: "(org, ae_coll env user) \<notin> subjects env (fold serve_call cs empty_store)"
    by (rule none) (simp add: subjects_def empty_store_def)
  have "isl (ingest_accounting uuid now env a (fold serve_call cs empty_store))"
  proof (rule ccontr)
    assume "\<not> isl (ingest_accounting uuid now env a (fold serve_call cs empty_store))"
    then obtain db' reply e where e: "normalize_event now env a = Inr e"
        "apply_event uuid now env e (fold serve_call cs empty_store) = Inr (db', reply)"
      by (cases "ingest_accounting uuid now env a (fold serve_call cs empty_store)")
        (auto simp: ingest_accounting_def and_then_Ok_iff)
    have "av_user e = user" using normalize_event_facts(2) [OF e(1)] assms(3) by simp
    moreover have "av_org e = org" using normalize_event_org [OF e(1)] assms(4) by simp
    ultimately show False
      using normalize_contractless [OF e(1)] apply_subjects(2) [OF e(2)] absent assms(1) by simp
  qed
  then show ?thesis using absent by (force simp: subjects_def)
qed

theorem contractless_never_accounted_witness:
  "isl (ingest_accounting ''u9'' 1800000000000 acct_sample_env (sample_record ''Start'' ''eva'' (Some 0) (StampNumber 1700000000))
     (fold serve_call sample_calls empty_store))"
  using contractless_never_accounted [of acct_sample_env 1 "''eva''" sample_calls
      "sample_record ''Start'' ''eva'' (Some 0) (StampNumber 1700000000)" "''u9''" 1800000000000]
  by (simp add: contractless_def account_matches_def sample_calls_def sample_call_def)
    (simp add: acct_sample_env_def sample_record_def)

end
