(* ===== verification/IpPoolsProps.thy ===== *)
theory IpPoolsProps
  imports AddressText
begin

text \<open>
  What the address pools guarantee: the ranges of pools, the assignment of free addresses and
  prefixes and where it gets stuck, overlap detection, and the threshold alerts.
\<close>

section \<open>Ranges\<close>

lemma ipv4ToInt_range: "0 \<le> ipv4ToInt ip \<and> ipv4ToInt ip < 4294967296"
  by (simp add: ipv4ToInt_def split: option.split)

lemma ipv4_mask_prefix:
  assumes "0 \<le> p" and "p \<le> 32"
  shows "ipv4_mask (Some p) = NOT (mask (nat (32 - p)))"
proof (cases "p = 0")
  case True
  have "mask 32 = (- 1 :: 32 word)" by (simp add: mask_eq_exp_minus_1)
  with True show ?thesis by (simp add: ipv4_mask_def)
next
  case False
  then have "(32 - p) mod 32 = 32 - p" using assms by (intro mod_pos_pos_trivial) simp_all
  then show ?thesis
    using False by (simp add: ipv4_mask_def shift_count_def del: mod_diff_right_eq)
qed

lemma block_bits:
  fixes A :: int
  shows "push_bit h (drop_bit h A) = A div 2 ^ h * 2 ^ h"
    and "A div 2 ^ h * 2 ^ h OR mask h = A div 2 ^ h * 2 ^ h + 2 ^ h - 1"
proof -
  show base: "push_bit h (drop_bit h A) = A div 2 ^ h * 2 ^ h"
    by (simp add: push_bit_eq_mult drop_bit_eq_div)
  have "push_bit h (drop_bit h A) OR mask h = push_bit h (drop_bit h A) + mask h"
    by (rule disjunctive_add_eq_or [symmetric]) (rule bit_eqI, auto simp: bit_simps)
  then show "A div 2 ^ h * 2 ^ h OR mask h = A div 2 ^ h * 2 ^ h + 2 ^ h - 1"
    by (simp add: base mask_eq_exp_minus_1)
qed

lemma word_block:
  fixes a :: "32 word"
  assumes "h \<le> 32"
  shows "uint (a AND NOT (mask h)) = push_bit h (drop_bit h (uint a))"
    and "uint (a AND NOT (mask h) OR mask h) = push_bit h (drop_bit h (uint a)) OR mask h"
proof -
  show "uint (a AND NOT (mask h)) = push_bit h (drop_bit h (uint a))"
    by (rule bit_eqI) (auto simp: bit_simps dest: bit_imp_le_length)
  show "uint (a AND NOT (mask h) OR mask h) = push_bit h (drop_bit h (uint a)) OR mask h"
    using assms by (intro bit_eqI) (auto simp: bit_simps dest: bit_imp_le_length)
qed

text \<open>With a proper prefix length the range is the aligned block of that size around the address.\<close>

lemma ipv4_range_block:
  assumes "0 \<le> p" and "p \<le> 32"
  defines "B \<equiv> 2 ^ nat (32 - p)"
  shows "lo (ipv4_range addr (Some p)) = ipv4ToInt addr div B * B"
    and "hi (ipv4_range addr (Some p)) = ipv4ToInt addr div B * B + B - 1"
proof -
  let ?h = "nat (32 - p)"
  let ?a = "word_of_int (ipv4ToInt addr) :: 32 word"
  have h: "?h \<le> 32" using assms by simp
  have a: "uint ?a = ipv4ToInt addr"
    using ipv4ToInt_range [of addr] by (simp add: uint_word_of_int)
  show "lo (ipv4_range addr (Some p)) = ipv4ToInt addr div B * B"
    and "hi (ipv4_range addr (Some p)) = ipv4ToInt addr div B * B + B - 1"
    using assms
    by (simp_all add: ipv4_range_def Let_def ipv4_mask_prefix word_block [OF h] a block_bits)
qed

lemma ipv4_range_ordered:
  "0 \<le> lo (ipv4_range addr q) \<and> lo (ipv4_range addr q) \<le> hi (ipv4_range addr q)
   \<and> hi (ipv4_range addr q) < 4294967296"
proof -
  have "uint x \<le> uint (x OR y)" for x y :: "32 word"
    by (simp add: uint_or or_greater_eq)
  moreover have "uint w < 4294967296" for w :: "32 word"
    using unsigned_less [of w] by simp
  ultimately show ?thesis by (simp add: ipv4_range_def Let_def)
qed

lemma parseIpv4Pool_ordered:
  "parseIpv4Pool p = Some r \<Longrightarrow> 0 \<le> lo r \<and> lo r \<le> hi r \<and> hi r < 4294967296"
  using ipv4_range_ordered by (auto simp: parseIpv4Pool_def Let_def split: option.splits if_splits)

lemma ipv6_range_block:
  assumes "0 \<le> p" and "p \<le> 128" and "ipv6ToBigInt addr = Some a" and "0 \<le> a" and "a < 2 ^ 128"
  defines "B \<equiv> 2 ^ nat (128 - p)"
  shows "ipv6_range addr (Some p)
     = Some \<lparr>lo = a div B * B, hi = a div B * B + B - 1, plen = Some p\<rparr>"
proof -
  let ?h = "nat (128 - p)"
  have shl: "one_shl (128 - p) = 2 ^ ?h" using assms by (simp add: one_shl_def push_bit_eq_mult)
  have low: "a AND ipv6_mask p = push_bit ?h (drop_bit ?h a)"
  proof (cases "p = 0")
    case True
    then show ?thesis using assms by (simp add: ipv6_mask_def push_bit_eq_mult drop_bit_eq_div)
  next
    case False
    have "a = take_bit 128 a" using assms(4,5) by (simp add: take_bit_eq_mod)
    then have a: "bit a k \<Longrightarrow> k < 128" for k by (metis bit_take_bit_iff)
    have "ipv6_mask p = NOT (mask ?h) AND mask 128"
      using False by (simp add: ipv6_mask_def shl mask_eq_exp_minus_1)
        (simp add: one_shl_def push_bit_eq_mult)
    then show ?thesis
      by (intro bit_eqI) (auto simp: bit_simps dest: a)
  qed
  show ?thesis
    using assms(3) block_bits [where h = ?h and A = a]
    by (simp add: ipv6_range_def low shl B_def Let_def flip: mask_eq_exp_minus_1)
qed

section \<open>The search\<close>

lemma scan_unfold:
  "scan skip step last' i =
     (if i + step - 1 \<le> last' then (if skip i then scan skip step last' (i + step) else Some (Some i))
      else Some None)"
  by (rule scan.simps)

text \<open>With a positive step the loop returns: the first candidate not skipped, if there is one.\<close>

lemma scan_returns:
  assumes "0 < step"
  shows "\<exists>r. scan skip step last' i = Some r \<and>
     (case r of
        None \<Rightarrow> \<forall>k. i + int k * step + step - 1 \<le> last' \<longrightarrow> skip (i + int k * step)
      | Some x \<Rightarrow> \<exists>k. x = i + int k * step \<and> x + step - 1 \<le> last' \<and> \<not> skip x
                     \<and> (\<forall>j<k. skip (i + int j * step)))"
proof (induction "nat (last' - i + 1)" arbitrary: i rule: less_induct)
  case less
  show ?case
  proof (cases "i + step - 1 \<le> last'")
    case False
    then have "\<not> i + int k * step + step - 1 \<le> last'" for k
      using assms by (smt (verit) mult_nonneg_nonneg of_nat_0_le_iff)
    with False show ?thesis by (subst scan_unfold) simp
  next
    case True
    show ?thesis
    proof (cases "skip i")
      case False
      with True show ?thesis by (subst scan_unfold) (auto intro!: exI [of _ 0])
    next
      case skip: True
      have "nat (last' - (i + step) + 1) < nat (last' - i + 1)" using True assms by simp
      from less [OF this] obtain r where r: "scan skip step last' (i + step) = Some r"
        and spec: "case r of
        None \<Rightarrow> \<forall>k. i + step + int k * step + step - 1 \<le> last' \<longrightarrow> skip (i + step + int k * step)
      | Some x \<Rightarrow> \<exists>k. x = i + step + int k * step \<and> x + step - 1 \<le> last' \<and> \<not> skip x
                     \<and> (\<forall>j<k. skip (i + step + int j * step))" by blast
      have shift: "i + step + int k * step = i + int (Suc k) * step" for k
        by (simp add: algebra_simps)
      have "scan skip step last' i = Some r" using True skip r by (subst scan_unfold) simp
      moreover have "case r of
        None \<Rightarrow> \<forall>k. i + int k * step + step - 1 \<le> last' \<longrightarrow> skip (i + int k * step)
      | Some x \<Rightarrow> \<exists>k. x = i + int k * step \<and> x + step - 1 \<le> last' \<and> \<not> skip x
                     \<and> (\<forall>j<k. skip (i + int j * step))"
      proof (cases r)
        case None
        have "skip (i + int k * step)" if "i + int k * step + step - 1 \<le> last'" for k
          using that spec skip None shift by (cases k) auto
        with None show ?thesis by simp
      next
        case (Some x)
        with spec obtain k where k: "x = i + int (Suc k) * step" "x + step - 1 \<le> last'" "\<not> skip x"
          "\<forall>j<k. skip (i + int (Suc j) * step)"
          by (auto simp only: option.case shift)
        have "\<forall>j<Suc k. skip (i + int j * step)"
        proof (intro allI impI)
          fix j assume "j < Suc k"
          then show "skip (i + int j * step)" using k(4) skip by (cases j) auto
        qed
        with k Some show ?thesis by (auto intro!: exI [of _ "Suc k"] simp del: of_nat_Suc)
      qed
      ultimately show ?thesis by blast
    qed
  qed
qed

section \<open>IPv4 assignment\<close>

text \<open>What the search finds: nothing, with every usable address skipped, or the lowest one not
  skipped.\<close>

definition ipv4_search :: "ip_db \<Rightarrow> pool \<Rightarrow> ip_range \<Rightarrow> int option \<Rightarrow> bool" where
  "ipv4_search db p r res \<longleftrightarrow>
     (case res of
        None \<Rightarrow> \<forall>i. lo r < i \<and> i < hi r \<longrightarrow> skip_ipv4 db p i
      | Some x \<Rightarrow> lo r < x \<and> x < hi r \<and> \<not> skip_ipv4 db p x
          \<and> (\<forall>i. lo r < i \<and> i < x \<longrightarrow> skip_ipv4 db p i))"

lemma ipv4_scan:
  "\<exists>res. scan (skip_ipv4 db p) 1 (hi r - 1) (lo r + 1) = Some res \<and> ipv4_search db p r res"
proof -
  obtain res where res: "scan (skip_ipv4 db p) 1 (hi r - 1) (lo r + 1) = Some res"
    and spec: "case res of
        None \<Rightarrow> \<forall>k. lo r + 1 + int k * 1 + 1 - 1 \<le> hi r - 1 \<longrightarrow> skip_ipv4 db p (lo r + 1 + int k * 1)
      | Some x \<Rightarrow> \<exists>k. x = lo r + 1 + int k * 1 \<and> x + 1 - 1 \<le> hi r - 1 \<and> \<not> skip_ipv4 db p x
                     \<and> (\<forall>j<k. skip_ipv4 db p (lo r + 1 + int j * 1))"
    using scan_returns [of 1 "skip_ipv4 db p" "hi r - 1" "lo r + 1"] by auto
  have nth: "lo r + 1 + int (nat (i - lo r - 1)) = i" if "lo r < i" for i using that by simp
  have "ipv4_search db p r res"
  proof (cases res)
    case None
    then have all: "skip_ipv4 db p (lo r + 1 + int k)" if "lo r + 1 + int k < hi r" for k
      using spec that by simp
    have "skip_ipv4 db p i" if "lo r < i" "i < hi r" for i
      using all [of "nat (i - lo r - 1)"] that(2) unfolding nth [OF that(1)] by blast
    with None show ?thesis by (simp add: ipv4_search_def)
  next
    case (Some x)
    then obtain k where k: "x = lo r + 1 + int k" "x \<le> hi r - 1" "\<not> skip_ipv4 db p x"
      "\<forall>j<k. skip_ipv4 db p (lo r + 1 + int j)"
      using spec by auto
    have "skip_ipv4 db p i" if "lo r < i" "i < x" for i
    proof -
      have "nat (i - lo r - 1) < k" using that k(1) by simp
      then have "skip_ipv4 db p (lo r + 1 + int (nat (i - lo r - 1)))" using k(4) by blast
      then show ?thesis by (simp only: nth [OF that(1)])
    qed
    with Some k show ?thesis by (simp add: ipv4_search_def)
  qed
  with res show ?thesis by blast
qed

definition live_row :: "ip_db \<Rightarrow> string \<Rightarrow> bool" where
  "live_row db ip \<longleftrightarrow> list_ex (\<lambda>a. \<not> as_deleted a \<and> as_ip a = ip) (assignments db)"

lemma insert_assignment_cases:
  "insert_assignment db p ip opts =
     (if live_row db ip then Inl Dup_Entry
      else let row = \<lparr>as_id = next_id db, as_pool = pool_id p, as_org = pool_org p, as_ip = ip,
                      as_contract = or_null (opt_contract opts), as_client = or_null (opt_client opts),
                      as_type = opt_type opts, as_status = ''active'', as_deleted = False\<rparr>
        in Inr (db\<lparr>assignments := assignments db @ [row], next_id := next_id db + 1\<rparr>, row))"
  by (simp add: insert_assignment_def live_row_def)

text \<open>
  C18. An assigned IPv4 address is a free, usable one, and the lowest: strictly between network
  and broadcast, not the gateway, not excluded, held by no live assignment of any pool; the row
  inserted is the only change to the table, and reads back as that address.
\<close>

theorem ipv4_assign_sound:
  assumes "assignNextFreeIpv4 db p opts = Some (Inr (db', row))"
  shows "\<exists>r i. parseIpv4Pool p = Some r \<and> lo r < i \<and> i < hi r
     \<and> as_ip row = intToIpv4 i \<and> ipv4ToInt (as_ip row) = i
     \<and> (\<forall>g. pool_gateway p = Some g \<and> g \<noteq> [] \<longrightarrow> i \<noteq> ipv4ToInt g)
     \<and> \<not> isIpv4Excluded i (pool_excluded p) \<and> \<not> live_row db (as_ip row)
     \<and> as_pool row = pool_id p \<and> as_status row = ''active'' \<and> \<not> as_deleted row
     \<and> assignments db' = assignments db @ [row] \<and> pools db' = pools db
     \<and> (\<forall>j. lo r < j \<and> j < i \<longrightarrow> skip_ipv4 db p j)"
proof -
  obtain r where r: "parseIpv4Pool p = Some r"
    using assms by (auto simp: assignNextFreeIpv4_def split: option.splits)
  obtain res where res: "scan (skip_ipv4 db p) 1 (hi r - 1) (lo r + 1) = Some res"
    and spec: "ipv4_search db p r res"
    using ipv4_scan by blast
  obtain i where i: "res = Some i" "insert_assignment db p (intToIpv4 i) opts = Inr (db', row)"
    using assms r res by (auto simp: assignNextFreeIpv4_def split: option.splits)
  with spec have range: "lo r < i" "i < hi r" "\<not> skip_ipv4 db p i"
    "\<forall>j. lo r < j \<and> j < i \<longrightarrow> skip_ipv4 db p j"
    by (auto simp: ipv4_search_def)
  have "ipv4ToInt (intToIpv4 i) = i"
    using parseIpv4Pool_ordered [OF r] range by (intro ipv4_text_roundtrip) simp_all
  then show ?thesis
    using r range i(2)
    by (intro exI [of _ r] exI [of _ i])
      (auto simp: skip_ipv4_def insert_assignment_cases Let_def split: if_splits option.splits)
qed

text \<open>
  C26. The IPv4 search always returns, and reports exhaustion exactly when no address strictly
  between network and broadcast is usable.
\<close>

theorem ipv4_exhausted_iff:
  assumes "parseIpv4Pool p = Some r"
  shows "(\<exists>res. assignNextFreeIpv4 db p opts = Some res)
     \<and> (assignNextFreeIpv4 db p opts = Some (Inl (Http 422 ''No free IPv4 addresses available in pool''))
        \<longleftrightarrow> (\<forall>i. lo r < i \<and> i < hi r \<longrightarrow> skip_ipv4 db p i))"
proof -
  obtain res where res: "scan (skip_ipv4 db p) 1 (hi r - 1) (lo r + 1) = Some res"
    and spec: "ipv4_search db p r res"
    using ipv4_scan by blast
  then show ?thesis
    using assms by (cases res) (auto simp: ipv4_search_def assignNextFreeIpv4_def insert_assignment_cases Let_def)
qed

text \<open>
  An expired assignment blocks its pool: if the lowest candidate the search accepts is the
  address of an expired row that was not deleted (the search ignores such rows, the unique key
  does not), the assignment fails with a duplicate key, whatever other addresses are free.
\<close>

theorem expired_address_blocks_pool:
  assumes "parseIpv4Pool p = Some r" and "lo r < i" and "i < hi r"
    and "\<not> skip_ipv4 db p i" and "\<forall>j. lo r < j \<and> j < i \<longrightarrow> skip_ipv4 db p j"
    and "a \<in> set (assignments db)" and "\<not> as_deleted a" and "as_status a = ''expired''"
    and "as_ip a = intToIpv4 i"
  shows "assignNextFreeIpv4 db p opts = Some (Inl Dup_Entry)"
proof -
  obtain res where res: "scan (skip_ipv4 db p) 1 (hi r - 1) (lo r + 1) = Some res"
    and spec: "ipv4_search db p r res"
    using ipv4_scan by blast
  have "res = Some i"
    using spec assms(2-5) by (cases res) (auto simp: ipv4_search_def, metis linorder_less_linear)
  moreover have "live_row db (intToIpv4 i)"
    using assms(6,7,9) by (auto simp: live_row_def list_ex_iff)
  ultimately show ?thesis
    using assms(1) res by (simp add: assignNextFreeIpv4_def insert_assignment_cases)
qed

section \<open>Pools given in CIDR notation\<close>

lemma intToIpv4_dotted:
  "intToIpv4 n = js_join ''.'' (map show_nat (map (\<lambda>k. unat (word_of_int n :: 32 word) div 2 ^ k mod 256) [24, 16, 8, 0]))"
  by (simp add: intToIpv4_def Let_def byte_of_word)

lemma set_js_join: "set (js_join sep ws) \<subseteq> set sep \<union> \<Union> (set ` set ws)"
  by (induction sep ws rule: js_join.induct) auto

lemma intToIpv4_chars: "c \<in> set (intToIpv4 n) \<Longrightarrow> is_digit c \<or> c = CHR ''.''"
  using set_js_join [of "''.''"] show_nat_digits by (fastforce simp: intToIpv4_dotted)

lemma intToIpv4_clean:
  "CHR ''/'' \<notin> set (intToIpv4 n)" "js_trim (intToIpv4 n) = intToIpv4 n"
proof -
  show "CHR ''/'' \<notin> set (intToIpv4 n)"
    using intToIpv4_chars [of "CHR ''/''" n] by (auto simp: is_digit_def code_def)
  have ok: "no_space_start [c]" if "c \<in> set (intToIpv4 n)" for c
    using intToIpv4_chars [OF that] by (auto simp: is_digit_def no_space_start_def code_def)
  have start: "no_space_start s" if "\<forall>c\<in>set s. no_space_start [c]" for s
    using that by (cases s) (auto simp: no_space_start_def)
  show "js_trim (intToIpv4 n) = intToIpv4 n"
    using ok by (intro trim_clean start) auto
qed

lemma slash_not_digit [simp]: "CHR ''/'' \<notin> set (show_nat k)"
  using show_nat_digits [of k] by (auto simp: is_digit_def code_def)

lemma cidr_parts:
  "js_split CHR ''/'' (intToIpv4 n @ CHR ''/'' # show_nat k) = [intToIpv4 n, show_nat k]"
  using js_split_append [OF intToIpv4_clean(1), of n "show_nat k"] by (simp add: js_split_no_sep)

lemma cidr_range:
  assumes "0 \<le> n" and "n < 4294967296" and "k \<le> 32"
  shows "ipv4_range (intToIpv4 n) (Some (int k)) = \<lparr>lo = n div 2 ^ (32 - k) * 2 ^ (32 - k),
     hi = n div 2 ^ (32 - k) * 2 ^ (32 - k) + 2 ^ (32 - k) - 1, plen = Some (int k)\<rparr>"
proof -
  have "nat (32 - int k) = 32 - k" by simp
  then show ?thesis
    using ipv4_range_block [of "int k" "intToIpv4 n"] assms
    by (intro ip_range.equality) (simp_all add: ipv4_text_roundtrip ipv4_range_def Let_def)
qed

text \<open>
  A pool given as an address and a prefix length between 0 and 32 is parsed to exactly the
  aligned block of that size that contains the address.
\<close>

theorem cidr_pool_block:
  assumes "0 \<le> n" and "n < 4294967296" and "k \<le> 32"
    and "pool_network p = Some (intToIpv4 n @ ''/'' @ show_nat k)"
  shows "parseIpv4Pool p = Some \<lparr>lo = n div 2 ^ (32 - k) * 2 ^ (32 - k),
     hi = n div 2 ^ (32 - k) * 2 ^ (32 - k) + 2 ^ (32 - k) - 1, plen = Some (int k)\<rparr>"
  using assms by (simp add: parseIpv4Pool_def cidr_parts intToIpv4_clean cidr_range)

definition demo_pool :: pool where
  "demo_pool = \<lparr>pool_id = 1, pool_org = Some 3, pool_name = ''lan'', pool_v6 = False,
     pool_network = Some (intToIpv4 167772160 @ ''/'' @ show_nat 29), pool_mask = None,
     pool_gateway = None, pool_excluded = None, pool_prefix_len = 0, pool_active = True,
     pool_deleted = False, pool_alerted = None\<rparr>"

theorem cidr_pool_block_witness:
  "parseIpv4Pool demo_pool = Some \<lparr>lo = 167772160, hi = 167772167, plen = Some 29\<rparr>"
  using cidr_pool_block [of 167772160 29 demo_pool] by (simp add: demo_pool_def)

lemma demo_range: "parseIpv4Pool demo_pool = Some \<lparr>lo = 167772160, hi = 167772167, plen = Some 29\<rparr>"
  using cidr_range [of 167772160 29]
  by (simp add: parseIpv4Pool_def demo_pool_def cidr_parts intToIpv4_clean)

definition demo_opts :: assign_opts where
  "demo_opts = \<lparr>opt_contract = Some 8, opt_client = None, opt_type = ''dynamic''\<rparr>"

definition pool_demo_row :: "int \<Rightarrow> string \<Rightarrow> assignment" where
  "pool_demo_row i status = \<lparr>as_id = 1, as_pool = 1, as_org = Some 3, as_ip = intToIpv4 i,
     as_contract = None, as_client = None, as_type = ''dynamic'', as_status = status, as_deleted = False\<rparr>"

definition demo_tables :: "assignment list \<Rightarrow> ip_db" where
  "demo_tables as = \<lparr>pools = [demo_pool], assignments = as, next_id = 2\<rparr>"

lemma demo_skip:
  "skip_ipv4 (demo_tables as) demo_pool i \<longleftrightarrow> taken_in (demo_tables as) 1 (intToIpv4 i)"
  by (simp add: skip_ipv4_def demo_pool_def isIpv4Excluded_def excluded_entries_def)

theorem expired_address_blocks_pool_witness:
  "assignNextFreeIpv4 (demo_tables [pool_demo_row 167772161 ''expired'']) demo_pool demo_opts
     = Some (Inl Dup_Entry)"
  by (rule expired_address_blocks_pool [OF demo_range, of 167772161 _ "pool_demo_row 167772161 ''expired''"])
    (simp_all add: demo_skip taken_in_def, simp_all add: demo_tables_def pool_demo_row_def)

theorem ipv4_exhausted_iff_witness:
  "\<exists>res. assignNextFreeIpv4 (demo_tables []) demo_pool demo_opts = Some res"
  using ipv4_exhausted_iff [OF demo_range, of "demo_tables []" demo_opts] by blast

lemma demo_assigned:
  "\<exists>db' row. assignNextFreeIpv4 (demo_tables []) demo_pool demo_opts = Some (Inr (db', row))"
proof -
  obtain res where res: "scan (skip_ipv4 (demo_tables []) demo_pool) 1 167772166 167772161 = Some res"
    and spec: "ipv4_search (demo_tables []) demo_pool \<lparr>lo = 167772160, hi = 167772167, plen = Some 29\<rparr> res"
    using ipv4_scan [of "demo_tables []" demo_pool "\<lparr>lo = 167772160, hi = 167772167, plen = Some 29\<rparr>"]
    by auto
  have "\<not> skip_ipv4 (demo_tables []) demo_pool 167772161"
    unfolding demo_skip by (simp add: taken_in_def demo_tables_def)
  then obtain i where "res = Some i" using spec by (cases res) (auto simp: ipv4_search_def)
  then show ?thesis
    using res by (simp add: assignNextFreeIpv4_def demo_range insert_assignment_cases Let_def
        live_row_def demo_tables_def)
qed

theorem ipv4_assign_sound_witness:
  "\<exists>db' row i. assignNextFreeIpv4 (demo_tables []) demo_pool demo_opts = Some (Inr (db', row))
     \<and> 167772160 < i \<and> i < 167772167 \<and> as_ip row = intToIpv4 i"
proof -
  obtain db' row where run: "assignNextFreeIpv4 (demo_tables []) demo_pool demo_opts = Some (Inr (db', row))"
    using demo_assigned by blast
  from ipv4_assign_sound [OF run] run show ?thesis by (auto simp: demo_range)
qed

section \<open>Overlap\<close>

text \<open>
  The overlap check is exact for IPv4: it finds no conflict if and only if no address lies
  in the range of the pool and of another undeleted IPv4 pool of the same organization.
\<close>

theorem overlap_exact:
  assumes "\<not> pool_v6 p" and "parseIpv4Pool p = Some a"
  shows "assertNoOverlap db p excluded = Inr () \<longleftrightarrow>
     \<not> (\<exists>q b x. q \<in> set (peers_of db p excluded) \<and> parseIpv4Pool q = Some b
          \<and> lo a \<le> x \<and> x \<le> hi a \<and> lo b \<le> x \<and> x \<le> hi b)"
proof -
  have meet: "overlaps_peer p q \<longleftrightarrow>
      (\<exists>b x. parseIpv4Pool q = Some b \<and> lo a \<le> x \<and> x \<le> hi a \<and> lo b \<le> x \<and> x \<le> hi b)" for q
  proof (cases "parseIpv4Pool q")
    case None
    then show ?thesis using assms by (simp add: overlaps_peer_def pool_range_def)
  next
    case (Some b)
    have "lo a \<le> hi a" "lo b \<le> hi b"
      using parseIpv4Pool_ordered [OF assms(2)] parseIpv4Pool_ordered [OF Some] by simp_all
    then have "lo a \<le> hi b \<and> lo b \<le> hi a \<longleftrightarrow> (\<exists>x. lo a \<le> x \<and> x \<le> hi a \<and> lo b \<le> x \<and> x \<le> hi b)"
      by (auto intro!: exI [of _ "max (lo a) (lo b)"])
    then show ?thesis using assms Some by (simp add: overlaps_peer_def pool_range_def)
  qed
  have "assertNoOverlap db p excluded = Inr () \<longleftrightarrow> find (overlaps_peer p) (peers_of db p excluded) = None"
    by (simp add: assertNoOverlap_def detectOverlap_def split: option.split)
  then show ?thesis by (auto simp: find_None_iff meet)
qed

theorem overlap_exact_witness:
  "assertNoOverlap (demo_tables []) demo_pool (Some 1) = Inr ()"
  using overlap_exact [OF _ demo_range, of "demo_tables []" "Some 1"]
  by (simp add: peers_of_def demo_tables_def demo_pool_def)

section \<open>Alerts\<close>

lemma check_pool_repeat:
  "snd (check_pool db (fst (check_pool db p))) = []"
proof -
  have fields: "pool_network (p\<lparr>pool_alerted := t\<rparr>) = pool_network p"
    "pool_mask (p\<lparr>pool_alerted := t\<rparr>) = pool_mask p"
    "pool_prefix_len (p\<lparr>pool_alerted := t\<rparr>) = pool_prefix_len p"
    "pool_v6 (p\<lparr>pool_alerted := t\<rparr>) = pool_v6 p" for t by simp_all
  have "computeUsableCount (p\<lparr>pool_alerted := t\<rparr>) = computeUsableCount p" for t
    unfolding computeUsableCount_def parseIpv6Pool_def parseIpv4Pool_def block_size_def fields by simp
  then show ?thesis
    by (auto simp: check_pool_def Let_def split: option.split)
qed

text \<open>
  Threshold alerts do not repeat: right after a run over all pools, a second run with the
  same assignments emits no event.
\<close>

theorem alerts_do_not_repeat:
  "fst (snd (checkAllPoolUtilization (fst (checkAllPoolUtilization db)))) = []"
proof -
  let ?f = "\<lambda>d p. if \<not> pool_deleted p \<and> pool_active p then check_pool d p else (p, [])"
  have all: "checkAllPoolUtilization d = (d\<lparr>pools := map (fst \<circ> ?f d) (pools d)\<rparr>,
      concat (map (snd \<circ> ?f d) (pools d)), length (filter (\<lambda>p. \<not> pool_deleted p \<and> pool_active p) (pools d)))" for d
    by (simp add: checkAllPoolUtilization_def Let_def)
  have flags: "pool_deleted (fst (check_pool d p)) = pool_deleted p"
    "pool_active (fst (check_pool d p)) = pool_active p" for d p
    by (auto simp: check_pool_def Let_def split: option.splits)
  have same: "check_pool (db\<lparr>pools := ps\<rparr>) p = check_pool db p" for ps p
    by (simp add: check_pool_def assigned_count_def)
  show ?thesis
    by (auto simp: all same flags check_pool_repeat)
qed

section \<open>IPv6 prefix delegation\<close>

lemma block_size_pos: "pool_prefix_len p \<le> 128 \<Longrightarrow> block_size p = 2 ^ (128 - pool_prefix_len p)"
proof -
  assume "pool_prefix_len p \<le> 128"
  then have "nat (128 - int (pool_prefix_len p)) = 128 - pool_prefix_len p" by simp
  then show ?thesis
    using \<open>pool_prefix_len p \<le> 128\<close> by (simp add: block_size_def one_shl_def push_bit_eq_mult)
qed

text \<open>
  Delegated prefixes are aligned, inside the pool and unused: for a pool
  \<open>address/prefix\<close> with a delegation length between 1 and 128 the search returns, and an
  assigned prefix is the text of a block that starts at a multiple of the block size, lies
  within the pool, does not start in an excluded range, and is held by no live assignment.
\<close>

theorem ipv6_assign_sound:
  assumes "pool_network p = Some (addr @ ''/'' @ show_nat k)" and "CHR ''/'' \<notin> set addr"
    and "ipv6ToBigInt (js_trim addr) = Some a" and "0 \<le> a" and "a < 2 ^ 128"
    and "k \<le> pool_prefix_len p" and "1 \<le> pool_prefix_len p" and "pool_prefix_len p \<le> 128"
  shows "\<exists>res. assignNextFreeIpv6Prefix db p opts = Some res
     \<and> (case res of
          Inl e \<Rightarrow> e = Dup_Entry \<or> e = Http 422 ''No free IPv6 prefixes available in pool''
        | Inr (db', row) \<Rightarrow> \<exists>x. as_ip row = prefix_text p x \<and> x mod block_size p = 0
            \<and> a div 2 ^ (128 - k) * 2 ^ (128 - k) \<le> x
            \<and> x + block_size p \<le> a div 2 ^ (128 - k) * 2 ^ (128 - k) + 2 ^ (128 - k)
            \<and> \<not> isIpv6Excluded x (pool_excluded p) \<and> \<not> live_row db (as_ip row)
            \<and> assignments db' = assignments db @ [row])"
proof -
  have k: "k \<le> 128" "nat (128 - int k) = 128 - k" using assms(6,8) by simp_all
  define base :: int where "base = a div 2 ^ (128 - k) * 2 ^ (128 - k)"
  have parse: "parseIpv6Pool p = Some \<lparr>lo = base, hi = base + 2 ^ (128 - k) - 1, plen = Some (int k)\<rparr>"
    using js_split_append [OF assms(2), of "show_nat k"]
      ipv6_range_block [of "int k" "js_trim addr" a] assms k
    by (simp add: parseIpv6Pool_def js_split_no_sep base_def)
  let ?B = "block_size p"
  have B: "?B = 2 ^ (128 - pool_prefix_len p)" using assms(8) by (rule block_size_pos)
  have pos: "0 < ?B" by (simp add: B)
  have "128 - k = (128 - pool_prefix_len p) + (pool_prefix_len p - k)" using assms(6,8) by simp
  then have "(2 :: int) ^ (128 - k) = ?B * 2 ^ (pool_prefix_len p - k)"
    by (simp only: B power_add)
  then have aligned: "base mod ?B = 0" by (simp add: base_def)
  obtain res where res: "scan (skip_ipv6 db p) ?B (base + 2 ^ (128 - k) - 1) base = Some res"
    and spec: "case res of
        None \<Rightarrow> \<forall>j. base + int j * ?B + ?B - 1 \<le> base + 2 ^ (128 - k) - 1 \<longrightarrow> skip_ipv6 db p (base + int j * ?B)
      | Some x \<Rightarrow> \<exists>j. x = base + int j * ?B \<and> x + ?B - 1 \<le> base + 2 ^ (128 - k) - 1 \<and> \<not> skip_ipv6 db p x
                     \<and> (\<forall>i<j. skip_ipv6 db p (base + int i * ?B))"
    using scan_returns [OF pos, of "skip_ipv6 db p" "base + 2 ^ (128 - k) - 1" base] by auto
  show ?thesis
  proof (cases res)
    case None
    then show ?thesis
      using parse res assms(7) by (simp add: assignNextFreeIpv6Prefix_def)
  next
    case (Some x)
    then obtain j where j: "x = base + int j * ?B" "x + ?B - 1 \<le> base + 2 ^ (128 - k) - 1"
      "\<not> skip_ipv6 db p x"
      using spec by (simp only: option.case) blast
    have "x mod ?B = 0" using aligned by (simp add: j(1))
    moreover have "base \<le> x" using pos by (simp add: j(1))
    ultimately show ?thesis
      using parse res assms(7) Some j(2,3)
      by (auto simp: assignNextFreeIpv6Prefix_def insert_assignment_cases Let_def skip_ipv6_def base_def)
  qed
qed

lemma zero_group: "hex_group 0 = ''0000''"
proof -
  have "char_of (48 :: nat) = CHR ''0''"
    using char_of_code [of "CHR ''0''"] by (simp add: code_def)
  then have "show_hex 0 = [CHR ''0'']" by (simp add: show_hex_small hex_char_def)
  moreover have "js_length [CHR ''0''] = 1" by (simp add: code_def)
  ultimately show ?thesis
    unfolding hex_group_def pad_start_def by (simp add: numeral_3_eq_3)
qed

lemma demo_any_address: "ipv6ToBigInt ''::'' = Some 0" "js_trim ''::'' = ''::''"
proof -
  have eight: "replicate 8 x = [x, x, x, x, x, x, x, x]" for x :: 'x
    by (simp add: numeral_eq_Suc)
  have "expand_halves ''::'' = Some (map hex_group (replicate 8 0))"
    using js_split_join [of "replicate 8 ''0000''" "CHR '':''"]
    unfolding expand_halves_def map_replicate zero_group by simp
  moreover have "foldl group_step (Some 0) (map hex_group (replicate 8 0)) = Some 0"
    using group_foldl [of "replicate 8 0" 0] by (simp add: eight)
  ultimately show "ipv6ToBigInt ''::'' = Some 0" by (simp add: ipv6ToBigInt_def)
  show "js_trim ''::'' = ''::''" by (rule trim_clean) (simp_all add: no_space_start_def code_def)
qed

theorem ipv6_assign_sound_witness:
  "\<exists>res. assignNextFreeIpv6Prefix (demo_tables [])
     (demo_pool\<lparr>pool_v6 := True, pool_network := Some (''::'' @ ''/'' @ show_nat 32),
        pool_prefix_len := 56\<rparr>) demo_opts = Some res"
  using ipv6_assign_sound [of "demo_pool\<lparr>pool_v6 := True,
        pool_network := Some (''::'' @ ''/'' @ show_nat 32), pool_prefix_len := 56\<rparr>"
        "''::''" 32 0 "demo_tables []" demo_opts]
  by (auto simp: demo_any_address)

end
