(* ===== verification/SubnetPlanner.thy ===== *)
theory SubnetPlanner
  imports IpPoolsProps
begin

text \<open>
  Subnet planning and conflict reports, \<open>src/services/subnetPlannerService.js\<close>. IPv4 arithmetic
  is on 32-bit words as JavaScript's bit operators compute it (shift counts modulo 32), IPv6 on
  unbounded integers; \<open>None\<close> is a thrown error. The planner's theorem says that a network is
  split into the right blocks; the range computation behind the conflict report is right except
  for a prefix of length 0.
\<close>

section \<open>Splitting networks\<close>

definition expandIPv6 :: "string \<Rightarrow> string option" where
  "expandIPv6 addr =
     (case expand_halves addr of
        None \<Rightarrow> None
      | Some groups \<Rightarrow> Some (js_join '':'' (map (pad_start 4 CHR ''0'') groups)))"

definition ipv4_part :: "rat option list \<Rightarrow> nat \<Rightarrow> 32 word" where
  "ipv4_part parts i = (if i < length parts then to_word32 (parts ! i) else 0)"

definition ipv4_number :: "string \<Rightarrow> 32 word" where
  "ipv4_number addr =
     (let parts = map js_number (js_split CHR ''.'' addr) in
      push_bit 24 (ipv4_part parts 0) OR push_bit 16 (ipv4_part parts 1)
      OR push_bit 8 (ipv4_part parts 2) OR ipv4_part parts 3)"

definition planSubnetsIPv4 :: "string \<Rightarrow> nat \<Rightarrow> nat \<Rightarrow> nat \<Rightarrow> string list" where
  "planSubnetsIPv4 baseAddr prefixLen subPrefixLen subnetCount =
     (let m = (if prefixLen = 0 then 0
               else push_bit (shift_count (Some (32 - int prefixLen))) (- 1 :: 32 word));
          base = ipv4_number baseAddr AND m;
          step = (if prefixLen = subPrefixLen then 0
                  else push_bit (shift_count (Some (32 - int subPrefixLen))) (1 :: 32 word))
      in map (\<lambda>i. intToIpv4 ((uint base + int i * uint step) mod 4294967296) @ ''/''
                  @ show_nat subPrefixLen) [0..<subnetCount])"

definition ipv6_number :: "string \<Rightarrow> int option" where
  "ipv6_number addr =
     (case expandIPv6 addr of
        None \<Rightarrow> None
      | Some expanded \<Rightarrow>
          foldl (\<lambda>acc g. case (acc, parse_int16 g) of
                   (Some a, Some v) \<Rightarrow> Some (push_bit 16 a OR v) | _ \<Rightarrow> None)
            (Some 0) (js_split CHR '':'' expanded))"

definition planner_mask6 :: "int \<Rightarrow> int" where
  "planner_mask6 pl =
     (if pl = 0 then 0 else (one_shl 128 - 1) - (one_shl (128 - pl) - 1))"

definition hex_groups :: "int \<Rightarrow> string" where
  "hex_groups a =
     (let hex = pad_start 32 CHR ''0'' (show_hex (nat a))
      in js_join '':'' (map (\<lambda>j. take 4 (drop (4 * j) hex)) [0..<8]))"

definition planSubnetsIPv6 :: "string \<Rightarrow> nat \<Rightarrow> nat \<Rightarrow> nat \<Rightarrow> string list option" where
  "planSubnetsIPv6 baseAddr prefixLen subPrefixLen subnetCount =
     (case ipv6_number baseAddr of
        None \<Rightarrow> None
      | Some a \<Rightarrow>
          (let base = a AND planner_mask6 (int prefixLen); step = one_shl (128 - int subPrefixLen)
           in Some (map (\<lambda>i. hex_groups (base + int i * step) @ ''/'' @ show_nat subPrefixLen)
                [0..<subnetCount])))"

definition planSubnets :: "string \<Rightarrow> nat \<Rightarrow> nat \<Rightarrow> string list result" where
  "planSubnets network prefixLen subPrefixLen =
     (if subPrefixLen < prefixLen then Inl ''sub_prefix_len must be >= prefix_len''
      else let cidr = (if CHR ''/'' \<in> set network then network
                       else network @ ''/'' @ show_nat prefixLen);
               baseAddr = js_split CHR ''/'' cidr ! 0;
               subnetCount = 2 ^ (subPrefixLen - prefixLen)
        in if subnetCount > 65536 then Inl ''Too many subnets requested (max 65536)''
           else if CHR '':'' \<in> set baseAddr
           then (case planSubnetsIPv6 baseAddr prefixLen subPrefixLen subnetCount of
                   None \<Rightarrow> Inl ''RangeError'' | Some s \<Rightarrow> Inr s)
           else Inr (planSubnetsIPv4 baseAddr prefixLen subPrefixLen subnetCount))"

section \<open>Conflicts\<close>

record cidr_range =
  range_start :: int
  range_end :: int
  range_v6 :: bool

text \<open>The outer option is a thrown error, the inner one the null of a text without a slash.\<close>

definition cidrToRange :: "string option \<Rightarrow> cidr_range option option" where
  "cidrToRange cidr =
     (case cidr of
        None \<Rightarrow> Some None
      | Some c \<Rightarrow>
          if CHR ''/'' \<notin> set c then Some None
          else let parts = js_split CHR ''/'' c; addr = parts ! 0; bits = parse_int10 (parts ! 1) in
            if CHR '':'' \<in> set addr
            then (case (ipv6_number addr, bits) of
                    (Some a, Some p) \<Rightarrow>
                      (let base = a AND planner_mask6 p
                       in Some (Some \<lparr>range_start = base,
                            range_end = base + one_shl (128 - p) - 1, range_v6 = True\<rparr>))
                  | _ \<Rightarrow> None)
            else let hostBits = map_option (\<lambda>p. 32 - p) bits;
                     step = (if bits = Some 32 then 1
                             else push_bit (shift_count hostBits) (1 :: 32 word));
                     base = ipv4_number addr AND push_bit (shift_count hostBits) (- 1);
                     last_addr = (uint base + uint step - 1) mod 4294967296
              in Some (Some \<lparr>range_start = uint base, range_end = last_addr, range_v6 = False\<rparr>))"

definition cidrsOverlap :: "string option \<Rightarrow> string option \<Rightarrow> bool option" where
  "cidrsOverlap cidr1 cidr2 =
     (case (cidrToRange cidr1, cidrToRange cidr2) of
        (Some (Some r1), Some (Some r2)) \<Rightarrow>
          Some (range_v6 r1 = range_v6 r2
                \<and> range_start r1 \<le> range_end r2 \<and> range_start r2 \<le> range_end r1)
      | (None, _) \<Rightarrow> None
      | (_, None) \<Rightarrow> None
      | _ \<Rightarrow> Some False)"

definition detectConflicts :: "ip_db \<Rightarrow> nat \<Rightarrow> (nat \<times> nat) list" where
  "detectConflicts db orgId =
     map (\<lambda>(a, b). (pool_id a, pool_id b))
       (filter (\<lambda>(a, b). cidrsOverlap (pool_network a) (pool_network b) = Some True)
         [(a, b). a \<leftarrow> pools db, b \<leftarrow> pools db,
            pool_org a = Some orgId \<and> pool_org b = Some orgId \<and> pool_id a < pool_id b
            \<and> pool_network a \<noteq> None \<and> pool_network b \<noteq> None
            \<and> \<not> pool_deleted a \<and> \<not> pool_deleted b])"

record utilization =
  ut_assigned :: nat
  ut_total :: int
  ut_percent :: int

definition getUtilization :: "ip_db \<Rightarrow> nat \<Rightarrow> utilization option" where
  "getUtilization db poolId =
     (case find (\<lambda>p. pool_id p = poolId \<and> \<not> pool_deleted p) (pools db) of
        None \<Rightarrow> Some \<lparr>ut_assigned = 0, ut_total = 0, ut_percent = 0\<rparr>
      | Some p \<Rightarrow>
          (let assigned = length (filter (\<lambda>a. as_pool a = poolId \<and> \<not> as_deleted a) (assignments db)) in
           case computeUsableCount p of
             None \<Rightarrow> None
           | Some capacity \<Rightarrow>
               Some \<lparr>ut_assigned = assigned, ut_total = capacity,
                     ut_percent = (if capacity > 0 then percent_used assigned capacity else 0)\<rparr>))"

section \<open>Lemmas\<close>

lemma to_word32_show [simp]: "to_word32 (js_number (show_nat n)) = of_nat n"
  by (simp add: to_word32_def)

lemma and_255: "x AND 255 = take_bit 8 (x :: 32 word)"
  by (simp add: take_bit_eq_mask mask_eq_exp_minus_1)

lemma octets_word:
  "push_bit 24 (take_bit 8 (drop_bit 24 w)) OR push_bit 16 (take_bit 8 (drop_bit 16 w))
     OR push_bit 8 (take_bit 8 (drop_bit 8 w)) OR take_bit 8 w = (w :: 32 word)"
proof (rule bit_eqI)
  fix k assume "possible_bit TYPE(32 word) k"
  then have k: "k < 32" by simp
  consider "k < 8" | "8 \<le> k" "k < 16" | "16 \<le> k" "k < 24" | "24 \<le> k" by linarith
  then show "bit (push_bit 24 (take_bit 8 (drop_bit 24 w)) OR push_bit 16 (take_bit 8 (drop_bit 16 w))
     OR push_bit 8 (take_bit 8 (drop_bit 8 w)) OR take_bit 8 w) k = bit w k"
    using k by cases (auto simp: bit_simps)
qed

lemma of_nat_octet: "of_nat (unat w div 2 ^ j mod 256) = take_bit 8 (drop_bit j (w :: 32 word))"
  unfolding and_255 [symmetric] byte_of_word [symmetric] by simp

lemma ipv4_number_text: "ipv4_number (intToIpv4 n) = word_of_int n"
proof -
  let ?w = "word_of_int n :: 32 word"
  let ?os = "map (\<lambda>k. unat ?w div 2 ^ k mod 256) [24, 16, 8, 0]"
  have "js_split CHR ''.'' (intToIpv4 n) = map show_nat ?os"
    unfolding intToIpv4_dotted by (rule js_split_join) auto
  then have "map js_number (js_split CHR ''.'' (intToIpv4 n)) = map (js_number \<circ> show_nat) ?os"
    by simp
  then have "ipv4_number (intToIpv4 n) =
      push_bit 24 (of_nat (unat ?w div 2 ^ 24 mod 256)) OR push_bit 16 (of_nat (unat ?w div 2 ^ 16 mod 256))
      OR push_bit 8 (of_nat (unat ?w div 2 ^ 8 mod 256)) OR of_nat (unat ?w div 2 ^ 0 mod 256)"
    unfolding ipv4_number_def Let_def by (simp add: ipv4_part_def to_word32_def)
  also have "\<dots> = ?w"
    unfolding of_nat_octet using octets_word [of ?w] by simp
  finally show ?thesis .
qed

section \<open>Planned subnets partition the network\<close>

lemma uint_masked:
  assumes "0 \<le> n" and "n < 4294967296" and "k \<le> 32"
  shows "uint (word_of_int n AND ipv4_mask (Some (int k)) :: 32 word) = n div 2 ^ (32 - k) * 2 ^ (32 - k)"
  using cidr_range [OF assms] assms(1,2)
  by (simp add: ipv4_range_def Let_def ipv4_text_roundtrip)

lemma uint_step:
  assumes "1 \<le> s" and "s \<le> 32"
  shows "uint (push_bit (shift_count (Some (32 - int s))) (1 :: 32 word)) = 2 ^ (32 - s)"
proof -
  have "(32 - int s) mod 32 = 32 - int s" using assms by (intro mod_pos_pos_trivial) simp_all
  then have "shift_count (Some (32 - int s)) = 32 - s"
    by (simp add: shift_count_def del: mod_diff_right_eq)
  moreover have "(2 :: int) ^ (32 - s) < 2 ^ 32"
    using assms by (intro power_strict_increasing) simp_all
  moreover have "uint (word_of_int (2 ^ (32 - s)) :: 32 word) = 2 ^ (32 - s) mod 2 ^ 32"
    by (subst uint_word_of_int) simp
  ultimately show ?thesis by (simp add: push_bit_eq_mult)
qed

lemma intToIpv4_no_colon: "CHR '':'' \<notin> set (intToIpv4 n)"
  using intToIpv4_chars [of "CHR '':''" n] by (auto simp: is_digit_def code_def)

lemma unique_block:
  fixes B :: int
  assumes "0 < B" and "b \<le> x" and "x < b + int N * B"
  shows "\<exists>!i. i < N \<and> b + int i * B \<le> x \<and> x < b + (int i + 1) * B"
proof -
  define q where "q = (x - b) div B"
  have "x - b = q * B + (x - b) mod B" unfolding q_def by simp
  moreover have "0 \<le> (x - b) mod B" "(x - b) mod B < B" using assms(1) by simp_all
  moreover have "(q + 1) * B = q * B + B" by (simp add: algebra_simps)
  moreover have "0 \<le> q" unfolding q_def using assms(1,2) by (simp add: pos_imp_zdiv_nonneg_iff)
  ultimately have q: "0 \<le> q" "q * B \<le> x - b" "x - b < (q + 1) * B" by linarith+
  have "q < int N"
  proof (rule ccontr)
    assume "\<not> q < int N"
    then have "int N * B \<le> q * B" using assms(1) by (intro mult_right_mono) simp_all
    with q(2) assms(3) show False by simp
  qed
  show ?thesis
  proof (intro ex1I [of _ "nat q"] conjI)
    show "nat q < N" using q(1) \<open>q < int N\<close> by simp
    show "b + int (nat q) * B \<le> x" "x < b + (int (nat q) + 1) * B" using q by simp_all
    fix i assume i: "i < N \<and> b + int i * B \<le> x \<and> x < b + (int i + 1) * B"
    then have "q = int i"
      unfolding q_def by (intro int_div_pos_eq [of _ _ _ "x - b - int i * B"]) (simp_all add: algebra_simps)
    then show "i = nat q" by simp
  qed
qed

definition planned_base :: "int \<Rightarrow> nat \<Rightarrow> int" where
  "planned_base n p = n div 2 ^ (32 - p) * 2 ^ (32 - p)"

lemma planned_bounds:
  assumes "0 \<le> n" and "n < 4294967296" and "p \<le> 32"
  shows "0 \<le> planned_base n p" and "planned_base n p + 2 ^ (32 - p) \<le> 4294967296"
  using ipv4_range_ordered [of "intToIpv4 n" "Some (int p)"]
  unfolding cidr_range [OF assms] planned_base_def by simp_all

lemma planned_network:
  "js_split CHR ''/'' (intToIpv4 n @ ''/'' @ show_nat p) ! 0 = intToIpv4 n"
  using cidr_parts [of n p] by simp

text \<open>
  The planner partitions an IPv4 network: for an address, a prefix length \<open>p\<close> and a longer
  one \<open>s\<close> at most 16 bits longer, it lists the consecutive blocks of length \<open>s\<close> from the
  network's base, and every address of the network lies in exactly one of them.
\<close>

theorem planner_partitions:
  assumes "0 \<le> n" and "n < 4294967296" and "p \<le> s" and "s \<le> 32" and "s \<le> p + 16"
  shows "planSubnets (intToIpv4 n) p s
       = Inr (map (\<lambda>i. intToIpv4 (planned_base n p + int i * 2 ^ (32 - s)) @ ''/'' @ show_nat s)
           [0..<2 ^ (s - p)])
     \<and> (\<forall>x. planned_base n p \<le> x \<and> x < planned_base n p + 2 ^ (32 - p) \<longrightarrow>
          (\<exists>!i. i < 2 ^ (s - p) \<and> planned_base n p + int i * 2 ^ (32 - s) \<le> x
             \<and> x < planned_base n p + (int i + 1) * 2 ^ (32 - s)))"
proof
  have p: "p \<le> 32" using assms by simp
  note bounds = planned_bounds [OF assms(1,2) p]
  have "32 - p = (s - p) + (32 - s)" using assms by simp
  then have size: "(2 :: int) ^ (32 - p) = int (2 ^ (s - p)) * 2 ^ (32 - s)"
    by (simp only: power_add of_nat_power) simp
  have mask: "(if p = 0 then 0 else push_bit (shift_count (Some (32 - int p))) (- 1 :: 32 word))
      = ipv4_mask (Some (int p))"
    by (simp add: ipv4_mask_def)
  have addr: "(planned_base n p + int i * 2 ^ (32 - s)) mod 4294967296
      = planned_base n p + int i * 2 ^ (32 - s)" if "i < 2 ^ (s - p)" for i
  proof (rule mod_pos_pos_trivial)
    have "int i < int (2 ^ (s - p))" using that by (simp only: of_nat_less_iff)
    then have "int i * 2 ^ (32 - s) < 2 ^ (32 - p)" unfolding size by (intro mult_strict_right_mono) simp_all
    then show "planned_base n p + int i * 2 ^ (32 - s) < 4294967296" using bounds by linarith
    show "0 \<le> planned_base n p + int i * 2 ^ (32 - s)" using bounds by simp
  qed
  have step: "int i * uint (if p = s then 0 else push_bit (shift_count (Some (32 - int s))) (1 :: 32 word))
      = int i * 2 ^ (32 - s)" if "i < 2 ^ (s - p)" for i
    using that uint_step [of s] assms by (cases "p = s") auto
  have "(2 :: nat) ^ (s - p) \<le> 2 ^ 16" using assms by (intro power_increasing) simp_all
  then have few: "\<not> (2 :: nat) ^ (s - p) > 65536" by simp
  have "planSubnetsIPv4 (intToIpv4 n) p s (2 ^ (s - p))
      = map (\<lambda>i. intToIpv4 (planned_base n p + int i * 2 ^ (32 - s)) @ ''/'' @ show_nat s) [0..<2 ^ (s - p)]"
    unfolding planSubnetsIPv4_def Let_def mask ipv4_number_text uint_masked [OF assms(1,2) p]
      planned_base_def [symmetric]
    by (intro map_cong refl) (simp only: set_upt atLeastLessThan_iff step addr)
  then show "planSubnets (intToIpv4 n) p s
       = Inr (map (\<lambda>i. intToIpv4 (planned_base n p + int i * 2 ^ (32 - s)) @ ''/'' @ show_nat s)
           [0..<2 ^ (s - p)])"
    unfolding planSubnets_def Let_def
    using assms(3) few planned_network [of n p] by (simp add: intToIpv4_clean(1) intToIpv4_no_colon)
  show "\<forall>x. planned_base n p \<le> x \<and> x < planned_base n p + 2 ^ (32 - p) \<longrightarrow>
          (\<exists>!i. i < 2 ^ (s - p) \<and> planned_base n p + int i * 2 ^ (32 - s) \<le> x
             \<and> x < planned_base n p + (int i + 1) * 2 ^ (32 - s))"
    unfolding size by (intro allI impI unique_block) auto
qed

theorem planner_partitions_witness:
  "\<exists>!i. i < 2 ^ (26 - 24) \<and> planned_base 167772160 24 + int i * 2 ^ (32 - 26) \<le> 167772200
      \<and> 167772200 < planned_base 167772160 24 + (int i + 1) * 2 ^ (32 - 26)"
  by (rule planner_partitions [THEN conjunct2, rule_format]) (simp_all add: planned_base_def)

section \<open>Conflict reports\<close>

text \<open>
  The range behind the conflict report is the CIDR block for prefix lengths 1 to 32, but
  for prefix length 0 it is the single address written: the report treats 0.0.0.0/0 as disjoint
  from every pool that does not contain 0.0.0.0.
\<close>

theorem cidr_range_except_zero:
  assumes "0 \<le> n" and "n < 4294967296" and "k \<le> 32"
  shows "cidrToRange (Some (intToIpv4 n @ ''/'' @ show_nat k)) = Some (Some
     (if k = 0 then \<lparr>range_start = n, range_end = n, range_v6 = False\<rparr>
      else \<lparr>range_start = planned_base n k, range_end = planned_base n k + 2 ^ (32 - k) - 1,
            range_v6 = False\<rparr>))"
proof -
  have n: "uint (word_of_int n :: 32 word) = n" using assms by (simp add: uint_word_of_int)
  have parse: "cidrToRange (Some (intToIpv4 n @ ''/'' @ show_nat k)) = Some (Some
      (let sh = shift_count (Some (32 - int k));
           step = (if k = 32 then 1 else push_bit sh (1 :: 32 word));
           base = word_of_int n AND push_bit sh (- 1) :: 32 word
       in \<lparr>range_start = uint base, range_end = (uint base + uint step - 1) mod 4294967296,
           range_v6 = False\<rparr>))"
    by (simp add: cidrToRange_def cidr_parts ipv4_number_text intToIpv4_no_colon Let_def)
  show ?thesis
  proof (cases "k = 0")
    case True
    then show ?thesis
      unfolding parse using n assms by (simp add: shift_count_def Let_def)
  next
    case False
    have mask: "push_bit (shift_count (Some (32 - int k))) (- 1 :: 32 word) = ipv4_mask (Some (int k))"
      using False by (simp add: ipv4_mask_def)
    have step: "uint (if k = 32 then 1 else push_bit (shift_count (Some (32 - int k))) (1 :: 32 word))
        = 2 ^ (32 - k)"
      using uint_step [of k] False assms(3) by simp
    have "planned_base n k + 2 ^ (32 - k) - 1 < 4294967296" "0 \<le> planned_base n k"
      using planned_bounds [OF assms] by simp_all
    moreover have "(1 :: int) \<le> 2 ^ (32 - k)" by simp
    ultimately have "(planned_base n k + 2 ^ (32 - k) - 1) mod 4294967296 = planned_base n k + 2 ^ (32 - k) - 1"
      by (intro mod_pos_pos_trivial) linarith+
    then show ?thesis
      unfolding parse Let_def mask step uint_masked [OF assms] planned_base_def [symmetric]
      using False by simp
  qed
qed

theorem cidr_range_except_zero_witness:
  "cidrToRange (Some (intToIpv4 0 @ ''/'' @ show_nat 0))
     = Some (Some \<lparr>range_start = 0, range_end = 0, range_v6 = False\<rparr>)"
  using cidr_range_except_zero [of 0 0] by simp

text \<open>
  A pool stored as an address with a separate subnet mask (no slash in its network) is never
  reported as a conflict, although \<open>assertNoOverlap\<close> compares such pools.
\<close>

theorem masked_pools_never_conflict:
  assumes "pool_network q = Some net" and "CHR ''/'' \<notin> set net"
    and "distinct (map pool_id (pools db))" and "q \<in> set (pools db)"
  shows "(pool_id q, i) \<notin> set (detectConflicts db orgId) \<and> (i, pool_id q) \<notin> set (detectConflicts db orgId)"
proof -
  have none: "cidrToRange (pool_network q) = Some None"
    using assms(1,2) by (simp add: cidrToRange_def)
  have left: "cidrsOverlap (pool_network q) c \<noteq> Some True" and right: "cidrsOverlap c (pool_network q) \<noteq> Some True" for c
    by (auto simp: cidrsOverlap_def none split: option.splits)
  have same: "a = q" if "a \<in> set (pools db)" "pool_id a = pool_id q" for a
    using that assms(3,4) by (auto simp: distinct_map inj_on_def)
  show ?thesis
    using left right same by (fastforce simp: detectConflicts_def)
qed

theorem masked_pools_never_conflict_witness:
  "(1, 2) \<notin> set (detectConflicts (demo_tables []\<lparr>pools := [demo_pool\<lparr>pool_network := Some ''10.0.0.0''\<rparr>,
      demo_pool\<lparr>pool_id := 2, pool_network := Some ''10.0.0.0''\<rparr>]\<rparr>) 3)"
  using masked_pools_never_conflict [of "demo_pool\<lparr>pool_network := Some ''10.0.0.0''\<rparr>" "''10.0.0.0''"
     "demo_tables []\<lparr>pools := [demo_pool\<lparr>pool_network := Some ''10.0.0.0''\<rparr>,
      demo_pool\<lparr>pool_id := 2, pool_network := Some ''10.0.0.0''\<rparr>]\<rparr>" 2 3]
  by (simp add: demo_pool_def)

end
