(* ===== verification/ApiScopes.thy ===== *)
theory ApiScopes
  imports JsText
begin

text \<open>
  API token scopes, \<open>src/utils/scopes.js\<close>: which scope a permission slug needs, which scopes
  grant it, which scope texts are valid, and the list shown to users. A token's scopes value is
  \<open>NoScopes\<close> (null or undefined), a list, or something that is not an array. Elements that are
  numbers, booleans, null or objects carry their JSON text; reading them as strings throws a
  \<open>TypeError\<close>. Nested arrays are not modelled.
\<close>

section \<open>Names\<close>

definition valid_resources :: "string list" where
  "valid_resources =
     [''api_tokens'', ''audit_logs'', ''cfdi_documents'', ''clients'', ''concession_titles'',
      ''connection_logs'', ''cgnat_attribution'', ''contracts'', ''coverage_zones'', ''credit_notes'',
      ''csd_certificates'', ''device_config_backups'', ''devices'', ''expenses'', ''facturas_publicas'',
      ''files'', ''ift_statistical_reports'', ''inventory'', ''invoices'', ''ip_assignments'',
      ''ip_attribution'', ''ip_pools'', ''jobs'', ''network_health'', ''network_links'', ''organizations'',
      ''outages'', ''pac_providers'', ''payment_gateways'', ''payment_transactions'', ''payments'',
      ''plans'', ''promotions'', ''quotes'', ''recurring_payment_profiles'', ''regulatory_filings'',
      ''revenue_summary'', ''roles'', ''scheduled_tasks'', ''service_areas'', ''settings'', ''sites'',
      ''sla_definitions'', ''snmp_profiles'', ''speed_tests'', ''suspension_rules'', ''tax_rates'',
      ''tax_rules'', ''tickets'', ''users'', ''vlans'', ''webhooks'']"

definition ingest_resources :: "string list" where
  "ingest_resources = [''connection_logs'', ''cgnat_attribution'']"

definition read_actions :: "string list" where
  "read_actions = [''view'', ''export'']"

definition write_actions :: "string list" where
  "write_actions = [''create'', ''update'', ''delete'', ''manage'']"

text \<open>\<open>indexOf\<close> and \<open>lastIndexOf\<close> with the two substrings around the character found.\<close>

definition split_first :: "char \<Rightarrow> string \<Rightarrow> (string \<times> string) option" where
  "split_first c s =
     (if c \<in> set s then Some (takeWhile (\<lambda>x. x \<noteq> c) s, tl (dropWhile (\<lambda>x. x \<noteq> c) s)) else None)"

definition split_last :: "char \<Rightarrow> string \<Rightarrow> (string \<times> string) option" where
  "split_last c s = map_option (\<lambda>(post, pre). (rev pre, rev post)) (split_first c (rev s))"

section \<open>Granting\<close>

definition permissionToScope :: "string \<Rightarrow> (string \<times> string) option" where
  "permissionToScope slug =
     (case split_last CHR ''.'' slug of
        None \<Rightarrow> None
      | Some (resource, action) \<Rightarrow>
          if action \<in> set read_actions then Some (resource, ''read'')
          else if action \<in> set write_actions then Some (resource, ''write'')
          else if action = ''ingest'' then Some (resource, ''ingest'')
          else Some (resource, ''write''))"

datatype scope_item = ScopeText string | ScopeOther string

datatype scopes_arg = NoScopes | ScopeList "scope_item list" | NotArray

definition scope_grants :: "string \<Rightarrow> string \<Rightarrow> string \<Rightarrow> string \<Rightarrow> bool" where
  "scope_grants res acc r a =
     (if acc = ''ingest'' then r = res \<and> a = ''ingest''
      else r = ''*'' \<and> a = ''write''
        \<or> r = ''*'' \<and> a = ''read'' \<and> acc = ''read''
        \<or> r = res \<and> (a = ''write'' \<or> a = ''read'' \<and> acc = ''read''))"

fun scope_loop :: "string \<Rightarrow> string \<Rightarrow> scope_item list \<Rightarrow> bool result" where
  "scope_loop res acc [] = Ok False"
| "scope_loop res acc (ScopeOther j # rest) = Err ''TypeError''"
| "scope_loop res acc (ScopeText s # rest) =
     (case split_first CHR '':'' s of
        None \<Rightarrow> scope_loop res acc rest
      | Some (r, a) \<Rightarrow> if scope_grants res acc r a then Ok True else scope_loop res acc rest)"

definition hasScope :: "scopes_arg \<Rightarrow> string \<Rightarrow> string \<Rightarrow> bool result" where
  "hasScope scopes res acc =
     (case scopes of
        NoScopes \<Rightarrow> Ok True
      | NotArray \<Rightarrow> Ok False
      | ScopeList items \<Rightarrow> if items = [] then Ok False else scope_loop res acc items)"

definition scopeAllowsPermission :: "scopes_arg \<Rightarrow> string \<Rightarrow> bool result" where
  "scopeAllowsPermission scopes slug =
     (case scopes of
        NoScopes \<Rightarrow> Ok True
      | NotArray \<Rightarrow> Ok False
      | ScopeList items \<Rightarrow>
          if items = [] then Ok False
          else (case permissionToScope slug of
                  None \<Rightarrow> Ok False
                | Some (res, acc) \<Rightarrow> hasScope scopes res acc))"

section \<open>Validation and listing\<close>

definition isValidScope :: "string \<Rightarrow> bool" where
  "isValidScope scope =
     (case split_first CHR '':'' scope of
        None \<Rightarrow> False
      | Some (resource, acc) \<Rightarrow>
          if acc = ''ingest'' then resource \<in> set ingest_resources
          else if acc \<noteq> ''read'' \<and> acc \<noteq> ''write'' then False
          else if resource = ''*'' then True
          else resource \<in> set valid_resources)"

definition quoted :: "string \<Rightarrow> string" where
  "quoted s = [CHR 0x22] @ s @ [CHR 0x22]"

fun validate_items :: "string list \<Rightarrow> scope_item list \<Rightarrow> string list" where
  "validate_items seen [] = []"
| "validate_items seen (ScopeOther j # rest) =
     (''Invalid scope value: '' @ j @ '' (must be a string)'') # validate_items seen rest"
| "validate_items seen (ScopeText s # rest) =
     (if \<not> isValidScope s
      then (''Invalid scope: '' @ quoted s @ ''. Format: '' @ quoted ''resource:read'' @ '' or ''
              @ quoted ''resource:write'') # validate_items seen rest
      else if s \<in> set seen then (''Duplicate scope: '' @ quoted s) # validate_items seen rest
      else validate_items (s # seen) rest)"

definition validateScopes :: "scopes_arg \<Rightarrow> bool \<times> string list" where
  "validateScopes scopes =
     (case scopes of
        NoScopes \<Rightarrow> (True, [])
      | NotArray \<Rightarrow> (False, [''Scopes must be a JSON array or null''])
      | ScopeList items \<Rightarrow> (let errors = validate_items [] items in (errors = [], errors)))"

definition spaced :: "string \<Rightarrow> string" where
  "spaced s = map (\<lambda>c. if c = CHR ''_'' then CHR '' '' else c) s"

definition listAvailableScopes :: "(string \<times> string) list" where
  "listAvailableScopes =
     [(''*:read'', ''Read-only access to all resources''),
      (''*:write'', ''Full read-write access to all resources'')]
     @ concat (map (\<lambda>r. [(r @ '':read'', ''Read-only access to '' @ spaced r),
                          (r @ '':write'', ''Read-write access to '' @ spaced r)]) valid_resources)
     @ map (\<lambda>r. (r @ '':ingest'', ''Collector-only ingest access to '' @ spaced r)) ingest_resources"

section \<open>Lemmas\<close>

lemma split_first_append [simp]: "c \<notin> set u \<Longrightarrow> split_first c (u @ c # v) = Some (u, v)"
  by (simp add: split_first_def takeWhile_until dropWhile_until)

lemma split_first_Some: "split_first c s = Some (u, v) \<longleftrightarrow> s = u @ c # v \<and> c \<notin> set u"
proof
  assume a: "split_first c s = Some (u, v)"
  then have c: "c \<in> set s" and u: "u = takeWhile (\<lambda>x. x \<noteq> c) s" and v: "v = tl (dropWhile (\<lambda>x. x \<noteq> c) s)"
    by (auto simp: split_first_def split: if_splits)
  from c have "dropWhile (\<lambda>x. x \<noteq> c) s \<noteq> []" by auto
  then have "dropWhile (\<lambda>x. x \<noteq> c) s = c # v"
    using hd_dropWhile [of "\<lambda>x. x \<noteq> c" s] v by (cases "dropWhile (\<lambda>x. x \<noteq> c) s") auto
  then have "s = u @ c # v" using takeWhile_dropWhile_id [of "\<lambda>x. x \<noteq> c" s] u by simp
  moreover have "c \<notin> set u" unfolding u by (auto dest: set_takeWhileD)
  ultimately show "s = u @ c # v \<and> c \<notin> set u" ..
qed auto

lemma split_last_Some: "split_last c s = Some (u, v) \<longleftrightarrow> s = u @ c # v \<and> c \<notin> set v"
proof -
  have "split_last c s = Some (u, v) \<longleftrightarrow> split_first c (rev s) = Some (rev v, rev u)"
    by (auto simp: split_last_def) 
  also have "\<dots> \<longleftrightarrow> rev s = rev v @ c # rev u \<and> c \<notin> set v"
    by (simp add: split_first_Some)
  also have "rev s = rev v @ c # rev u \<longleftrightarrow> s = u @ c # v"
    by (metis append.assoc append_Cons append_Nil rev.simps(2) rev_append rev_rev_ident)
  finally show ?thesis .
qed

lemma split_last_append [simp]: "c \<notin> set v \<Longrightarrow> split_last c (u @ c # v) = Some (u, v)"
  by (simp add: split_last_Some)

lemma resource_no_colon: "r \<in> set valid_resources \<Longrightarrow> CHR '':'' \<notin> set r"
  by (auto simp: valid_resources_def)

lemma ingest_no_colon: "r \<in> set ingest_resources \<Longrightarrow> CHR '':'' \<notin> set r"
  by (auto simp: ingest_resources_def)

text \<open>The scope texts that grant an access to a resource.\<close>

definition granting_scopes :: "string \<Rightarrow> string \<Rightarrow> string set" where
  "granting_scopes res acc =
     (if acc = ''ingest'' then {res @ '':ingest''}
      else {''*:write'', res @ '':write''} \<union> (if acc = ''read'' then {''*:read'', res @ '':read''} else {}))"

lemma star_splits [simp]:
  "split_first CHR '':'' ''*:write'' = Some (''*'', ''write'')"
  "split_first CHR '':'' ''*:read'' = Some (''*'', ''read'')"
  by (simp_all add: split_first_def)

lemma grants_text:
  assumes "CHR '':'' \<notin> set res"
  shows "(\<exists>r a. split_first CHR '':'' s = Some (r, a) \<and> scope_grants res acc r a) \<longleftrightarrow> s \<in> granting_scopes res acc"
proof
  assume "\<exists>r a. split_first CHR '':'' s = Some (r, a) \<and> scope_grants res acc r a"
  then show "s \<in> granting_scopes res acc"
    by (auto simp: split_first_Some scope_grants_def granting_scopes_def split: if_splits)
next
  assume "s \<in> granting_scopes res acc"
  then show "\<exists>r a. split_first CHR '':'' s = Some (r, a) \<and> scope_grants res acc r a"
    using assms by (auto simp: scope_grants_def granting_scopes_def split: if_splits)
qed

lemma listed_scopes:
  "fst ` set listAvailableScopes
   = {r @ CHR '':'' # a | r a. a = ''ingest'' \<and> r \<in> set ingest_resources
        \<or> (a = ''read'' \<or> a = ''write'') \<and> (r = ''*'' \<or> r \<in> set valid_resources)}"
proof -
  have "fst ` set listAvailableScopes = {''*:read'', ''*:write''}
      \<union> (\<Union>r\<in>set valid_resources. {r @ '':read'', r @ '':write''}) \<union> (\<lambda>r. r @ '':ingest'') ` set ingest_resources"
    unfolding listAvailableScopes_def by (simp add: image_Un image_UN image_image Un_assoc)
  also have "\<dots> = {r @ CHR '':'' # a | r a. a = ''ingest'' \<and> r \<in> set ingest_resources
        \<or> (a = ''read'' \<or> a = ''write'') \<and> (r = ''*'' \<or> r \<in> set valid_resources)}"
    (is "?L = ?R")
  proof
    have I: "r @ '':ingest'' \<in> ?R" if "r \<in> set ingest_resources" for r
      using that by (intro CollectI exI [of _ r] exI [of _ "''ingest''"]) simp
    have J: "r @ '':read'' \<in> ?R" "r @ '':write'' \<in> ?R" if "r = ''*'' \<or> r \<in> set valid_resources" for r
      using that by (intro CollectI exI [of _ r] exI [of _ "''read''"], simp)
        (use that in \<open>intro CollectI exI [of _ r] exI [of _ "''write''"], simp\<close>)
    have star: "''*:read'' \<in> ?R" "''*:write'' \<in> ?R"
      using J [of "''*''"] by (simp_all only: append_Cons append_Nil simp_thms)
    have sub: "{''*:read'', ''*:write''} \<union> (\<Union>r\<in>V. {r @ '':read'', r @ '':write''}) \<union> (\<lambda>r. r @ '':ingest'') ` W \<subseteq> R"
      if "''*:read'' \<in> R" "''*:write'' \<in> R" "\<And>r. r \<in> V \<Longrightarrow> r @ '':read'' \<in> R" "\<And>r. r \<in> V \<Longrightarrow> r @ '':write'' \<in> R"
        "\<And>r. r \<in> W \<Longrightarrow> r @ '':ingest'' \<in> R" for R V W
      using that by blast
    show "?L \<subseteq> ?R"
      by (rule sub [OF star]) (rule J I, (rule disjI2)?, assumption)+
    show "?R \<subseteq> ?L"
    proof
      fix s assume "s \<in> ?R"
      then obtain r a where s: "s = r @ CHR '':'' # a" and d: "a = ''ingest'' \<and> r \<in> set ingest_resources
        \<or> (a = ''read'' \<or> a = ''write'') \<and> (r = ''*'' \<or> r \<in> set valid_resources)" by blast
      from d show "s \<in> ?L" unfolding s by (elim disjE conjE) simp_all
    qed
  qed
  finally show ?thesis .
qed

definition known_pair :: "string \<Rightarrow> string \<Rightarrow> bool" where
  "known_pair r a \<longleftrightarrow> a = ''ingest'' \<and> r \<in> set ingest_resources
     \<or> (a = ''read'' \<or> a = ''write'') \<and> (r = ''*'' \<or> r \<in> set valid_resources)"

lemma known_pair_no_colon: "known_pair r a \<Longrightarrow> CHR '':'' \<notin> set r"
  using resource_no_colon ingest_no_colon by (auto simp: known_pair_def)

lemma valid_iff_listed: "isValidScope s \<longleftrightarrow> s \<in> fst ` set listAvailableScopes"
proof -
  have "isValidScope s \<longleftrightarrow> (\<exists>r a. split_first CHR '':'' s = Some (r, a) \<and> known_pair r a)"
    by (auto simp: isValidScope_def known_pair_def split: option.splits)
  also have "\<dots> \<longleftrightarrow> (\<exists>r a. s = r @ CHR '':'' # a \<and> known_pair r a)"
    using known_pair_no_colon by (auto simp: split_first_Some)
  also have "\<dots> \<longleftrightarrow> s \<in> fst ` set listAvailableScopes"
    unfolding listed_scopes known_pair_def by simp
  finally show ?thesis .
qed

lemma scope_loop_texts:
  assumes "CHR '':'' \<notin> set res"
  shows "scope_loop res acc (map ScopeText ss) = Ok (\<exists>s\<in>set ss. s \<in> granting_scopes res acc)"
proof (induction ss)
  case (Cons s ss)
  show ?case
  proof (cases "split_first CHR '':'' s")
    case None
    then have "s \<notin> granting_scopes res acc" using grants_text [OF assms, of s acc] by simp
    with None Cons show ?thesis by simp
  next
    case (Some p)
    obtain r a where p: "p = (r, a)" by (cases p)
    from Some p have "scope_grants res acc r a \<longleftrightarrow> s \<in> granting_scopes res acc"
      using grants_text [OF assms, of s acc] by auto
    with Some p Cons show ?thesis by simp
  qed
qed simp

definition needed_access :: "string \<Rightarrow> string" where
  "needed_access action = (if action \<in> {''view'', ''export''} then ''read''
     else if action = ''ingest'' then ''ingest'' else ''write'')"

lemma permissionToScope_slug:
  "CHR ''.'' \<notin> set action \<Longrightarrow> permissionToScope (res @ ''.'' @ action) = Some (res, needed_access action)"
  by (simp add: permissionToScope_def needed_access_def read_actions_def write_actions_def)

lemma scopeAllows_texts:
  assumes "CHR '':'' \<notin> set res" and "CHR ''.'' \<notin> set action"
  shows "scopeAllowsPermission (ScopeList (map ScopeText ss)) (res @ ''.'' @ action)
     = Ok (set ss \<inter> granting_scopes res (needed_access action) \<noteq> {})"
proof -
  have "set ss \<inter> G \<noteq> {} \<longleftrightarrow> (\<exists>s\<in>set ss. s \<in> G)" for G by blast
  then show ?thesis
    unfolding scopeAllowsPermission_def permissionToScope_slug [OF assms(2)] hasScope_def
    by (simp add: scope_loop_texts [OF assms(1)])
qed

text \<open>
  A scope text is accepted by the validator exactly when it is one of the scopes listed for
  users, and a token whose scopes are a list of texts may use a permission
  \<open>resource.action\<close> exactly when the list holds one of the texts that grant it: the resource's
  own \<open>write\<close> scope or the wildcard \<open>write\<close>, for \<open>view\<close> and \<open>export\<close> also the two \<open>read\<close>
  scopes, and for \<open>ingest\<close> only the resource's own \<open>ingest\<close> scope, which no wildcard implies.
\<close>

theorem scopes_grant_exactly:
  assumes "CHR '':'' \<notin> set res" and "CHR ''.'' \<notin> set action"
  shows "(isValidScope s \<longleftrightarrow> s \<in> fst ` set listAvailableScopes)
    \<and> scopeAllowsPermission (ScopeList (map ScopeText ss)) (res @ ''.'' @ action)
      = Ok (set ss \<inter> granting_scopes res (needed_access action) \<noteq> {})"
  using valid_iff_listed scopeAllows_texts [OF assms] by blast

theorem scopes_grant_exactly_witness:
  "scopeAllowsPermission (ScopeList (map ScopeText [''invoices:read'', ''*:write''])) (''clients'' @ ''.'' @ ''view'') = Ok True
   \<and> scopeAllowsPermission (ScopeList (map ScopeText [''*:write''])) (''connection_logs'' @ ''.'' @ ''ingest'') = Ok False"
proof
  have "{''invoices:read'', ''*:write''} \<inter> granting_scopes ''clients'' (needed_access ''view'') \<noteq> {}"
    by (simp add: granting_scopes_def needed_access_def)
  then show "scopeAllowsPermission (ScopeList (map ScopeText [''invoices:read'', ''*:write''])) (''clients'' @ ''.'' @ ''view'') = Ok True"
    using scopes_grant_exactly [of "''clients''" "''view''" "[]" "[''invoices:read'', ''*:write'']"] by simp
  have "{''*:write''} \<inter> granting_scopes ''connection_logs'' (needed_access ''ingest'') = {}"
    by (simp add: granting_scopes_def needed_access_def)
  then show "scopeAllowsPermission (ScopeList (map ScopeText [''*:write''])) (''connection_logs'' @ ''.'' @ ''ingest'') = Ok False"
    using scopes_grant_exactly [of "''connection_logs''" "''ingest''" "[]" "[''*:write'']"] by simp
qed

end
