(* ===== verification/AccessControl.thy ===== *)
theory AccessControl
  imports ApiScopes
begin

text \<open>
  Who may do what: the control-plane tables, the installation-wide identities
  (\<open>services/installOperator.js\<close>, \<open>services/globalOrganizationAccess.js\<close>), principal resolution
  (\<open>services/orgPrincipalService.js\<close>), authentication (\<open>middleware/auth.js\<close>), organization scope
  (\<open>middleware/orgScope.js\<close>), permissions and roles (\<open>middleware/rbac.js\<close>, with the queries of
  \<open>models/User.js\<close>) and the guard on privileged user fields
  (\<open>middleware/restrictRoleAssignment.js\<close>). The process runs in production mode, so the branches
  guarded by \<open>NODE_ENV === 'test'\<close> are absent and \<open>withPrimaryContext\<close> exists; queries answer.
  SHA-256 and the JWT verifier are parameters. Times are in milliseconds; \<open>NOW()\<close> has whole
  seconds.
\<close>

section \<open>Tables\<close>

record user_row =
  u_id :: nat
  u_email :: string
  u_role :: string
  u_org :: "nat option"
  u_group :: "nat option"
  u_status :: string
  u_operator :: bool
  u_deleted :: bool

record role_row =
  r_id :: nat
  r_name :: string
  r_kind :: "string option"
  r_system :: bool
  r_deleted :: bool

record member_row =
  m_user :: nat
  m_org :: nat
  m_role :: string
  m_deleted :: bool

record org_row =
  o_id :: nat
  o_name :: string
  o_status :: string
  o_deleted :: bool

record rate_policy =
  rp_minute :: "nat option"
  rp_hour :: "nat option"
  rp_day :: "nat option"
  rp_burst :: "nat option"
  rp_active :: bool

datatype stored_scopes = SqlNull | Parsed scopes_arg | JsonText string

record token_row =
  t_id :: nat
  t_user :: nat
  t_org :: "nat option"
  t_hash :: string
  t_scopes :: stored_scopes
  t_expires :: "int option"
  t_revoked :: bool
  t_deleted :: bool
  t_last_used :: "int option"
  t_last_ip :: "string option"
  t_policy :: "rate_policy option"

record control_db =
  db_users :: "user_row list"
  db_roles :: "role_row list"
  db_members :: "member_row list"
  db_orgs :: "org_row list"
  db_grants :: "(nat \<times> string) list"
  db_tokens :: "token_row list"

record auth_env =
  operator_ids :: "nat list"
  sha256_hex :: "string \<Rightarrow> string"
  jwt_verify :: "string \<Rightarrow> (nat \<times> nat option) option"
  json_parse :: "string \<Rightarrow> scopes_arg option"
  now_ms :: int

datatype access_error = Unauthorized string | Forbidden string | Invalid string | Crash string

section \<open>Installation-wide identities\<close>

text \<open>What the two checks read of a user: an id that is an integer, the role, and the stored flag
  or group when the record at hand carries them.\<close>

record subject =
  sub_id :: "nat option"
  sub_role :: "string option"
  sub_flag :: "bool option"
  sub_group :: "(string option \<times> bool) option"

definition live_user :: "control_db \<Rightarrow> nat \<Rightarrow> user_row option" where
  "live_user db i = find (\<lambda>u. u_id u = i \<and> \<not> u_deleted u) (db_users db)"

definition any_user :: "control_db \<Rightarrow> nat \<Rightarrow> user_row option" where
  "any_user db i = find (\<lambda>u. u_id u = i) (db_users db)"

definition live_role :: "control_db \<Rightarrow> nat option \<Rightarrow> role_row option" where
  "live_role db g = find (\<lambda>r. Some (r_id r) = g \<and> \<not> r_deleted r) (db_roles db)"

definition isInstallOperatorUser :: "auth_env \<Rightarrow> control_db \<Rightarrow> subject \<Rightarrow> bool" where
  "isInstallOperatorUser env db sub =
     (case sub_id sub of
        None \<Rightarrow> False
      | Some i \<Rightarrow>
          if operator_ids env \<noteq> [] then i \<in> set (operator_ids env)
          else if sub_role sub \<noteq> Some ''admin'' then False
          else (case sub_flag sub of
                  Some f \<Rightarrow> f
                | None \<Rightarrow> (case live_user db i of None \<Rightarrow> False | Some u \<Rightarrow> u_operator u)))"

definition isSuperAdminUser :: "control_db \<Rightarrow> subject \<Rightarrow> bool" where
  "isSuperAdminUser db sub =
     (case sub_id sub of
        None \<Rightarrow> False
      | Some i \<Rightarrow>
          if i = 0 then False
          else if sub_role sub \<notin> {None, Some [], Some ''admin''} then False
          else (case sub_group sub of
                  Some (name, system) \<Rightarrow> name = Some ''super_admin'' \<and> system
                | None \<Rightarrow>
                    (case any_user db i of
                       None \<Rightarrow> False
                     | Some u \<Rightarrow>
                         (case live_role db (u_group u) of
                            None \<Rightarrow> False
                          | Some r \<Rightarrow> r_name r = ''super_admin'' \<and> r_system r))))"

definition hasGlobalOrganizationAccessUser :: "auth_env \<Rightarrow> control_db \<Rightarrow> subject \<Rightarrow> bool" where
  "hasGlobalOrganizationAccessUser env db sub \<longleftrightarrow>
     isInstallOperatorUser env db sub \<or> isSuperAdminUser db sub"

section \<open>Principals\<close>

record principal =
  p_org :: nat
  p_org_name :: string
  p_membership :: string
  p_authorization :: string
  p_operator :: bool
  p_super :: bool
  p_global :: bool
  p_kind :: string

definition persona :: "control_db \<Rightarrow> user_row \<Rightarrow> string" where
  "persona db u =
     (case live_role db (u_group u) of
        Some r \<Rightarrow> (case r_kind r of Some k \<Rightarrow> k | None \<Rightarrow> u_role u)
      | None \<Rightarrow> u_role u)"

definition row_subject :: "user_row \<Rightarrow> subject" where
  "row_subject u = \<lparr>sub_id = Some (u_id u), sub_role = Some (u_role u), sub_flag = Some (u_operator u), sub_group = None\<rparr>"

definition membership :: "control_db \<Rightarrow> nat \<Rightarrow> nat \<Rightarrow> string option" where
  "membership db user org =
     map_option m_role (find (\<lambda>m. m_user m = user \<and> m_org m = org \<and> \<not> m_deleted m) (db_members db))"

definition requested_org :: "user_row \<Rightarrow> nat option \<Rightarrow> nat" where
  "requested_org user requested =
     (let home = (case u_org user of Some h \<Rightarrow> h | None \<Rightarrow> 0) in
      case requested of Some n \<Rightarrow> if n \<noteq> 0 then n else home | None \<Rightarrow> home)"

definition active_org :: "control_db \<Rightarrow> nat \<Rightarrow> org_row option" where
  "active_org db org = find (\<lambda>ro. o_id ro = org \<and> o_status ro = ''active'' \<and> \<not> o_deleted ro) (db_orgs db)"

definition active_user :: "control_db \<Rightarrow> nat \<Rightarrow> user_row option" where
  "active_user db i = find (\<lambda>u. u_id u = i \<and> u_status u = ''active'' \<and> \<not> u_deleted u) (db_users db)"

definition in_super_group :: "control_db \<Rightarrow> nat option \<Rightarrow> bool" where
  "in_super_group db g =
     (case live_role db g of None \<Rightarrow> False | Some r \<Rightarrow> r_name r = ''super_admin'' \<and> r_system r)"

definition member_persona :: "string option \<Rightarrow> string option" where
  "member_persona mrole = (if mrole = Some ''owner'' \<or> mrole = Some ''admin'' then Some ''admin'' else mrole)"

definition principal_of ::
    "control_db \<Rightarrow> nat \<Rightarrow> org_row \<Rightarrow> user_row \<Rightarrow> string option \<Rightarrow> bool \<Rightarrow> bool \<Rightarrow> principal option" where
  "principal_of db org orow lu mrole operator super =
     (let home = (u_org lu = Some org); auth = persona db lu; global = (operator \<or> super) in
      if \<not> global \<and> mrole \<noteq> None \<and> member_persona mrole \<noteq> Some auth then None
      else if \<not> home \<and> mrole = None \<and> \<not> global then None
      else Some \<lparr>p_org = org, p_org_name = o_name orow,
        p_membership = (case mrole of Some r \<Rightarrow> r | None \<Rightarrow> if home then auth else ''admin''),
        p_authorization = auth, p_operator = operator, p_super = super, p_global = global,
        p_kind = (if mrole \<noteq> None then ''membership''
                  else if operator then ''install_operator''
                  else if super then ''super_admin'' else ''home'')\<rparr>)"

definition or_null_text :: "string option \<Rightarrow> string option" where
  "or_null_text r = (if r = Some [] then None else r)"

definition resolveOrgPrincipal ::
    "auth_env \<Rightarrow> control_db \<Rightarrow> user_row \<Rightarrow> nat option \<Rightarrow> bool \<Rightarrow> principal option" where
  "resolveOrgPrincipal env db user requested allowOperator =
     (let org = requested_org user requested in
      if u_id user = 0 \<or> org = 0 then None
      else case (active_org db org, active_user db (u_id user)) of
        (Some orow, Some lu) \<Rightarrow>
          principal_of db org orow lu (or_null_text (membership db (u_id user) org))
            (allowOperator \<and> isInstallOperatorUser env db (row_subject lu))
            (allowOperator \<and> in_super_group db (u_group lu))
      | _ \<Rightarrow> None)"

section \<open>Authentication\<close>

record req_user =
  ru_id :: nat
  ru_email :: string
  ru_role :: string
  ru_membership :: string
  ru_org :: nat
  ru_operator :: bool
  ru_super :: bool
  ru_global :: bool
  ru_token :: "nat option"
  ru_scopes :: stored_scopes
  ru_sqlnull :: bool
  ru_policy :: "rate_policy option"

record request =
  api_key :: "string option"
  authorization :: "string option"
  access_cookie :: "string option"
  req_ip :: "string option"
  req_user :: "req_user option"
  authenticated :: bool

definition sql_now :: "auth_env \<Rightarrow> int" where
  "sql_now env = now_ms env - now_ms env mod 1000"

definition live_token :: "auth_env \<Rightarrow> string \<Rightarrow> token_row \<Rightarrow> bool" where
  "live_token env h t \<longleftrightarrow> t_hash t = h \<and> t_org t \<noteq> None \<and> \<not> t_deleted t \<and> \<not> t_revoked t
     \<and> (case t_expires t of None \<Rightarrow> True | Some e \<Rightarrow> e > sql_now env)"

definition recently_tracked :: "auth_env \<Rightarrow> request \<Rightarrow> token_row \<Rightarrow> bool" where
  "recently_tracked env req t \<longleftrightarrow>
     (case t_last_used t of None \<Rightarrow> False | Some l \<Rightarrow> now_ms env - l < 60000) \<and> t_last_ip t = req_ip req"

definition track_token :: "auth_env \<Rightarrow> request \<Rightarrow> token_row \<Rightarrow> token_row \<Rightarrow> token_row" where
  "track_token env req t x =
     (if t_id x = t_id t
         \<and> ((case t_last_used x of None \<Rightarrow> True | Some l \<Rightarrow> l < sql_now env - 60000) \<or> t_last_ip x \<noteq> req_ip req)
      then x\<lparr>t_last_used := Some (sql_now env), t_last_ip := req_ip req\<rparr> else x)"

text \<open>\<open>None\<close>: no key was sent. The database is returned with the last-used marker updated.\<close>

definition authenticateApiToken ::
    "auth_env \<Rightarrow> control_db \<Rightarrow> request \<Rightarrow> control_db \<times> (access_error + req_user option)" where
  "authenticateApiToken env db req =
     (case api_key req of
        None \<Rightarrow> (db, Ok None)
      | Some [] \<Rightarrow> (db, Ok None)
      | Some (k # ks) \<Rightarrow>
          (case find (\<lambda>(t, u). live_token env (sha256_hex env (k # ks)) t)
                 (concat (map (\<lambda>t. map (\<lambda>u. (t, u)) (filter (\<lambda>u. u_id u = t_user t \<and> \<not> u_deleted u) (db_users db)))
                    (db_tokens db))) of
             None \<Rightarrow> (db, Err (Unauthorized ''Invalid or expired API token''))
           | Some (t, u) \<Rightarrow>
               if u_status u \<noteq> ''active'' then (db, Err (Unauthorized ''User not found or inactive''))
               else (case resolveOrgPrincipal env db u (t_org t) False of
                  None \<Rightarrow> (db, Err (Unauthorized ''API token owner no longer has access to the token organization''))
                | Some p \<Rightarrow>
                    ((if recently_tracked env req t then db
                      else db\<lparr>db_tokens := map (track_token env req t) (db_tokens db)\<rparr>),
                     Ok (Some \<lparr>ru_id = t_user t, ru_email = u_email u, ru_role = p_authorization p,
                       ru_membership = p_membership p, ru_org = p_org p, ru_operator = False, ru_super = False,
                       ru_global = False, ru_token = Some (t_id t), ru_scopes = t_scopes t,
                       ru_sqlnull = (t_scopes t = SqlNull), ru_policy = t_policy t\<rparr>)))))"

definition bearer :: "string option \<Rightarrow> string option" where
  "bearer h = (case h of
     None \<Rightarrow> None
   | Some s \<Rightarrow> if starts_with s ''Bearer '' then Some (drop 7 s) else None)"

definition session_token :: "request \<Rightarrow> string option" where
  "session_token req =
     (case bearer (authorization req) of
        Some t \<Rightarrow> Some t
      | None \<Rightarrow> (case access_cookie req of Some (c # cs) \<Rightarrow> Some (c # cs) | _ \<Rightarrow> None))"

definition session_user :: "auth_env \<Rightarrow> control_db \<Rightarrow> request \<Rightarrow> access_error + req_user" where
  "session_user env db req =
     (case session_token req of
        None \<Rightarrow> Err (Unauthorized ''Missing or invalid Authorization header'')
      | Some tok \<Rightarrow>
          (case jwt_verify env tok of
             None \<Rightarrow> Err (Unauthorized ''Invalid or expired token'')
           | Some (sub, orgId) \<Rightarrow>
               (case live_user db sub of
                  None \<Rightarrow> Err (Unauthorized ''User not found or inactive'')
                | Some u \<Rightarrow>
                    if u_status u \<noteq> ''active'' then Err (Unauthorized ''User not found or inactive'')
                    else (case resolveOrgPrincipal env db u orgId True of
                       None \<Rightarrow> Err (Unauthorized ''User no longer has access to the selected organization'')
                     | Some p \<Rightarrow>
                         Ok \<lparr>ru_id = u_id u, ru_email = u_email u, ru_role = p_authorization p,
                           ru_membership = p_membership p, ru_org = p_org p, ru_operator = p_operator p,
                           ru_super = p_super p, ru_global = p_global p, ru_token = None,
                           ru_scopes = SqlNull, ru_sqlnull = False, ru_policy = None\<rparr>))))"

definition authenticate ::
    "auth_env \<Rightarrow> control_db \<Rightarrow> request \<Rightarrow> control_db \<times> (access_error + request)" where
  "authenticate env db req =
     (if authenticated req then (db, Ok req)
      else case authenticateApiToken env db req of
        (db', Inl e) \<Rightarrow> (db', Err e)
      | (db', Inr (Some u)) \<Rightarrow> (db', Ok (req\<lparr>req_user := Some u, authenticated := True\<rparr>))
      | (db', Inr None) \<Rightarrow>
          (db', and_then (session_user env db req)
                  (\<lambda>u. Ok (req\<lparr>req_user := Some u, authenticated := True\<rparr>))))"

definition optionalAuth ::
    "auth_env \<Rightarrow> control_db \<Rightarrow> request \<Rightarrow> control_db \<times> (access_error + request)" where
  "optionalAuth env db req =
     (if (api_key req = None \<or> api_key req = Some []) \<and> bearer (authorization req) = None
         \<and> (access_cookie req = None \<or> access_cookie req = Some [])
      then (db, Ok req) else authenticate env db req)"

text \<open>\<open>orgScope\<close>: the organization the rest of the request is confined to.\<close>

definition orgScope :: "req_user option \<Rightarrow> access_error + nat" where
  "orgScope u =
     (case u of
        None \<Rightarrow> Err (Forbidden ''Authentication required'')
      | Some ru \<Rightarrow> if ru_org ru = 0 then Err 
                    (Forbidden (''No organization context '' @ char_seq [226, 128, 148] @ '' select an organization''))
                  else Ok (ru_org ru))"

section \<open>Permissions\<close>

definition scopes_value :: "auth_env \<Rightarrow> stored_scopes \<Rightarrow> scopes_arg option" where
  "scopes_value env s =
     (case s of SqlNull \<Rightarrow> Some NoScopes | Parsed a \<Rightarrow> Some a | JsonText t \<Rightarrow> json_parse env t)"

text \<open>\<open>requiredPermissions.some(...)\<close> stops at the first that is allowed, or throws.\<close>

fun some_allowed :: "scopes_arg \<Rightarrow> string list \<Rightarrow> bool result" where
  "some_allowed scopes [] = Ok False"
| "some_allowed scopes (p # ps) =
     and_then (scopeAllowsPermission scopes p) (\<lambda>b. if b then Ok True else some_allowed scopes ps)"

definition enforceTokenScopes :: "auth_env \<Rightarrow> req_user \<Rightarrow> string list \<Rightarrow> access_error + unit" where
  "enforceTokenScopes env u perms =
     (if ru_token u = None then Ok ()
      else if ru_scopes u \<in> {SqlNull, Parsed NoScopes} \<and> ru_sqlnull u then Ok ()
      else case scopes_value env (ru_scopes u) of
        None \<Rightarrow> Err (Forbidden ''API token has invalid scopes'')
      | Some (ScopeList (x # xs)) \<Rightarrow>
          (case some_allowed (ScopeList (x # xs)) perms of
             Inl e \<Rightarrow> Err (Crash e)
           | Inr True \<Rightarrow> Ok ()
           | Inr False \<Rightarrow> Err (Forbidden (''API token scope insufficient. Required: '' @ js_join '' or '' perms)))
      | Some _ \<Rightarrow> Err (Forbidden ''API token has invalid or empty scopes''))"

definition granted :: "control_db \<Rightarrow> nat \<Rightarrow> string list" where
  "granted db role = remdups (map snd (filter (\<lambda>g. fst g = role) (db_grants db)))"

definition role_named :: "control_db \<Rightarrow> string \<Rightarrow> role_row option" where
  "role_named db n = find (\<lambda>r. r_name r = n \<and> \<not> r_deleted r) (db_roles db)"

definition group_of :: "control_db \<Rightarrow> nat \<Rightarrow> (user_row \<times> role_row) option" where
  "group_of db user =
     (case live_user db user of
        None \<Rightarrow> None
      | Some u \<Rightarrow> map_option (\<lambda>g. (u, g)) (live_role db (u_group u)))"

definition member_permissions :: "control_db \<Rightarrow> nat \<Rightarrow> nat \<Rightarrow> string list" where
  "member_permissions db user org =
     remdups (concat (map (\<lambda>m. case role_named db (m_role m) of None \<Rightarrow> [] | Some r \<Rightarrow> granted db (r_id r))
       (filter (\<lambda>m. m_user m = user \<and> m_org m = org \<and> \<not> m_deleted m) (db_members db))))"

definition legacy_permissions :: "control_db \<Rightarrow> nat \<Rightarrow> nat \<Rightarrow> string list" where
  "legacy_permissions db user org =
     remdups (concat (map (\<lambda>u. concat (map (\<lambda>r. granted db (r_id r))
         (filter (\<lambda>r. r_name r = u_role u \<and> \<not> r_deleted r) (db_roles db))))
       (filter (\<lambda>u. u_id u = user \<and> u_org u = Some org \<and> \<not> u_deleted u) (db_users db))))"

definition getPermissions :: "control_db \<Rightarrow> nat \<Rightarrow> nat \<Rightarrow> string list" where
  "getPermissions db user org =
     (let old = (let rows = member_permissions db user org in
                 if rows \<noteq> [] then rows else legacy_permissions db user org) in
      case group_of db user of
        Some (u, g) \<Rightarrow>
          if u_org u = Some org \<or> membership db (u_id u) org \<noteq> None then granted db (r_id g) else old
      | None \<Rightarrow> old)"

definition getOrgRole :: "control_db \<Rightarrow> nat \<Rightarrow> nat \<Rightarrow> string option" where
  "getOrgRole db user org =
     (case membership db user org of
        Some r \<Rightarrow> Some r
      | None \<Rightarrow>
          (case find (\<lambda>u. u_id u = user \<and> u_org u = Some org \<and> \<not> u_deleted u) (db_users db) of
             Some u \<Rightarrow> if u_role u = [] then None else Some (u_role u)
           | None \<Rightarrow> None))"

definition requirePermission ::
    "auth_env \<Rightarrow> control_db \<Rightarrow> string list \<Rightarrow> req_user option \<Rightarrow> access_error + unit" where
  "requirePermission env db perms user =
     (case user of
        None \<Rightarrow> Err (Forbidden ''No organization context'')
      | Some u \<Rightarrow>
          if ru_org u = 0 then Err (Forbidden ''No organization context'')
          else and_then (enforceTokenScopes env u perms)
            (\<lambda>_. if ru_global u \<and> ru_token u = None then Ok ()
                 else let held = getPermissions db (ru_id u) (ru_org u) in
                   if list_ex (\<lambda>p. p \<in> set held) perms then Ok ()
                   else Err (Forbidden (''Required permission: '' @ js_join '' or '' perms))))"

definition requireRole ::
    "control_db \<Rightarrow> string list \<Rightarrow> req_user option \<Rightarrow> access_error + unit" where
  "requireRole db roles user =
     (case user of
        None \<Rightarrow> Err (Forbidden ''No organization context'')
      | Some u \<Rightarrow>
          if ru_org u = 0 then Err (Forbidden ''No organization context'')
          else if ru_global u \<and> ru_token u = None then Ok ()
          else (case getOrgRole db (ru_id u) (ru_org u) of
                  Some (c # cs) \<Rightarrow>
                    if (c # cs) \<in> set roles then Ok ()
                    else Err (Forbidden (''Required role: '' @ js_join '' or '' roles))
                | _ \<Rightarrow> Err (Forbidden (''Required role: '' @ js_join '' or '' roles))))"

definition userHasPermission :: "auth_env \<Rightarrow> control_db \<Rightarrow> req_user option \<Rightarrow> string \<Rightarrow> bool" where
  "userHasPermission env db user perm =
     (case user of
        None \<Rightarrow> False
      | Some u \<Rightarrow>
          if ru_org u = 0 then False
          else (case enforceTokenScopes env u [perm] of
                  Inl _ \<Rightarrow> False
                | Inr _ \<Rightarrow> (ru_global u \<and> ru_token u = None) \<or> perm \<in> set (getPermissions db (ru_id u) (ru_org u))))"

section \<open>Privileged user fields\<close>

text \<open>The request body: a field is absent, null or undefined, a group id as MySQL compares it, or
  some other value.\<close>

datatype field_value = FNull | FGroup nat | FOther

type_synonym user_body = "(string \<times> field_value) list"

definition sets_field :: "user_body \<Rightarrow> string \<Rightarrow> bool" where
  "sets_field body f \<longleftrightarrow> map_of body f \<noteq> None \<and> map_of body f \<noteq> Some FNull"

definition always_privileged :: "string list" where
  "always_privileged = [''role'', ''group_id'', ''organization_ids'']"

definition update_only_privileged :: "string list" where
  "update_only_privileged = [''password'', ''email'', ''status'']"

definition is_update :: "string \<Rightarrow> bool" where
  "is_update verb \<longleftrightarrow> verb = ''PUT'' \<or> verb = ''PATCH''"

definition sets_privileged :: "string \<Rightarrow> user_body \<Rightarrow> bool" where
  "sets_privileged verb body \<longleftrightarrow>
     list_ex (sets_field body) (if is_update verb then always_privileged @ update_only_privileged else always_privileged)"

definition actor_global :: "req_user option \<Rightarrow> bool" where
  "actor_global user = (case user of None \<Rightarrow> False | Some u \<Rightarrow> ru_token u = None \<and> ru_global u)"

definition actor_subject :: "req_user \<Rightarrow> subject" where
  "actor_subject u = \<lparr>sub_id = Some (ru_id u), sub_role = Some (ru_role u), sub_flag = None, sub_group = None\<rparr>"

definition isInstallOperator :: "auth_env \<Rightarrow> control_db \<Rightarrow> req_user option \<Rightarrow> bool" where
  "isInstallOperator env db user =
     (case user of None \<Rightarrow> False | Some u \<Rightarrow> isInstallOperatorUser env db (actor_subject u))"

definition assigns_super :: "control_db \<Rightarrow> user_body \<Rightarrow> bool" where
  "assigns_super db body =
     (case map_of body ''group_id'' of
        Some (FGroup g) \<Rightarrow>
          in_super_group db (Some g)
      | _ \<Rightarrow> False)"

definition target_of :: "control_db \<Rightarrow> nat option \<Rightarrow> user_row option" where
  "target_of db target = (case target of None \<Rightarrow> None | Some i \<Rightarrow> any_user db i)"

definition restrictRoleAssignment ::
    "auth_env \<Rightarrow> control_db \<Rightarrow> req_user option \<Rightarrow> string \<Rightarrow> nat option \<Rightarrow> user_body \<Rightarrow> access_error + unit" where
  "restrictRoleAssignment env db user verb target body =
     (let priv = sets_privileged verb body;
          assignsOrgs = sets_field body ''organization_ids'';
          automatic = Err (Invalid ''Install operators and system super administrators have automatic access to every organization; omit organization_ids.'') in
      if priv \<and> (case user of None \<Rightarrow> True | Some u \<Rightarrow> ru_role u \<noteq> ''admin'')
      then Err (Forbidden ''Only an administrator may change a user's group, role, organization access, password, email, or status'')
      else if assignsOrgs \<and> \<not> actor_global user
      then Err (Forbidden ''Only the install operator or a super administrator may assign organization access'')
      else if assigns_super db body \<and> \<not> actor_global user
      then Err (Forbidden ''Only the install operator or a super administrator may assign the super administrator group'')
      else if assignsOrgs \<and> assigns_super db body then automatic
      else if assignsOrgs \<and> is_update verb
              \<and> (case target_of db target of None \<Rightarrow> False
                 | Some t \<Rightarrow> hasGlobalOrganizationAccessUser env db (row_subject t))
      then automatic
      else if priv \<and> is_update verb \<and> target \<noteq> None \<and> target \<noteq> map_option ru_id user
      then (case target_of db target of
              None \<Rightarrow> Ok ()
            | Some t \<Rightarrow>
                if isInstallOperatorUser env db (row_subject t) \<and> \<not> isInstallOperator env db user
                then Err (Forbidden ''This account runs the installation; only the install operator can change its credentials.'')
                else if isSuperAdminUser db (row_subject t) \<and> \<not> actor_global user
                then Err (Forbidden ''Only the install operator or a super administrator can change a super administrator account.'')
                else Ok ())
      else Ok ())"

end
