(* ===== verification/AccessControlProps.thy ===== *)
theory AccessControlProps
  imports AccessControl
begin

text \<open>
  What authentication, permission checks and the guard on privileged user fields guarantee
  together, stated over the control-plane tables of theory AccessControl.
\<close>

section \<open>What a passed check means\<close>

definition org_live :: "control_db \<Rightarrow> nat \<Rightarrow> bool" where
  "org_live db org \<longleftrightarrow> (\<exists>ro\<in>set (db_orgs db). o_id ro = org \<and> o_status ro = ''active'' \<and> \<not> o_deleted ro)"

definition user_live :: "control_db \<Rightarrow> nat \<Rightarrow> bool" where
  "user_live db i \<longleftrightarrow> (\<exists>u\<in>set (db_users db). u_id u = i \<and> u_status u = ''active'' \<and> \<not> u_deleted u)"

definition live_member :: "control_db \<Rightarrow> nat \<Rightarrow> nat \<Rightarrow> bool" where
  "live_member db i org \<longleftrightarrow> (\<exists>m\<in>set (db_members db). m_user m = i \<and> m_org m = org \<and> \<not> m_deleted m)"

definition in_org :: "control_db \<Rightarrow> nat \<Rightarrow> nat \<Rightarrow> bool" where
  "in_org db i org \<longleftrightarrow> (\<exists>u\<in>set (db_users db). u_id u = i \<and> \<not> u_deleted u \<and> u_org u = Some org) \<or> live_member db i org"

definition global_identity :: "auth_env \<Rightarrow> control_db \<Rightarrow> nat \<Rightarrow> bool" where
  "global_identity env db i \<longleftrightarrow> i \<in> set (operator_ids env)
     \<or> (\<exists>u\<in>set (db_users db). u_id u = i \<and> u_status u = ''active'' \<and> \<not> u_deleted u
          \<and> (u_role u = ''admin'' \<and> u_operator u
             \<or> (\<exists>r\<in>set (db_roles db). u_group u = Some (r_id r) \<and> \<not> r_deleted r
                  \<and> r_name r = ''super_admin'' \<and> r_system r)))"

definition holds_role :: "control_db \<Rightarrow> nat \<Rightarrow> nat \<Rightarrow> nat \<Rightarrow> bool" where
  "holds_role db i org rid \<longleftrightarrow> (\<exists>r\<in>set (db_roles db). r_id r = rid \<and> \<not> r_deleted r \<and>
     ((\<exists>u\<in>set (db_users db). u_id u = i \<and> \<not> u_deleted u \<and> u_group u = Some rid)
      \<or> (\<exists>m\<in>set (db_members db). m_user m = i \<and> m_org m = org \<and> \<not> m_deleted m \<and> m_role m = r_name r)
      \<or> (\<exists>u\<in>set (db_users db). u_id u = i \<and> u_org u = Some org \<and> \<not> u_deleted u \<and> u_role u = r_name r)))"

lemma live_role_SomeD: "live_role db g = Some r \<Longrightarrow> r \<in> set (db_roles db) \<and> g = Some (r_id r) \<and> \<not> r_deleted r"
  unfolding live_role_def by (drule find_SomeD) auto

lemma membership_live: "membership db i org = Some r \<Longrightarrow> live_member db i org"
  unfolding membership_def live_member_def by (auto dest!: find_SomeD)

lemma super_case:
  "in_super_group db g
   \<Longrightarrow> \<exists>r\<in>set (db_roles db). g = Some (r_id r) \<and> \<not> r_deleted r \<and> r_name r = ''super_admin'' \<and> r_system r"
  by (auto simp: in_super_group_def split: option.splits dest!: live_role_SomeD)

lemma principal_of_Some:
  assumes "principal_of db org orow lu mrole operator super = Some p"
  shows "p_org p = org \<and> p_global p = (operator \<or> super) \<and> (u_org lu = Some org \<or> mrole \<noteq> None \<or> operator \<or> super)"
  using assms unfolding principal_of_def Let_def by (auto split: if_splits)

lemma principal_facts:
  assumes "resolveOrgPrincipal env db user requested allow = Some p"
  shows "org_live db (p_org p) \<and> user_live db (u_id user) \<and> p_org p \<noteq> 0
    \<and> (p_global p \<longrightarrow> allow \<and> global_identity env db (u_id user))
    \<and> (\<not> p_global p \<longrightarrow> in_org db (u_id user) (p_org p))"
proof -
  define org where "org = requested_org user requested"
  define mrole where "mrole = or_null_text (membership db (u_id user) org)"
  from assms obtain orow lu where nz: "org \<noteq> 0"
    and org: "active_org db org = Some orow" and lu: "active_user db (u_id user) = Some lu"
    and pr: "principal_of db org orow lu mrole (allow \<and> isInstallOperatorUser env db (row_subject lu))
       (allow \<and> in_super_group db (u_group lu)) = Some p"
    unfolding resolveOrgPrincipal_def Let_def org_def [symmetric] mrole_def [symmetric]
    by (auto split: if_splits option.splits)
  note p = principal_of_Some [OF pr]
  note l = find_SomeD [OF lu [unfolded active_user_def]]
  have live: "org_live db org" using find_SomeD [OF org [unfolded active_org_def]] by (auto simp: org_live_def)
  have ulive: "user_live db (u_id user)" using l by (auto simp: user_live_def)
  have op: "global_identity env db (u_id user)" if "isInstallOperatorUser env db (row_subject lu)"
    using that l by (auto simp: isInstallOperatorUser_def row_subject_def global_identity_def split: if_splits)
  have sup: "global_identity env db (u_id user)" if "in_super_group db (u_group lu)"
    using super_case [OF that] l unfolding global_identity_def by blast
  have mem: "in_org db (u_id user) org" if "mrole \<noteq> None"
    using that membership_live unfolding mrole_def or_null_text_def in_org_def by (auto split: if_splits)
  have home: "in_org db (u_id user) org" if "u_org lu = Some org"
    using that l unfolding in_org_def by blast
  show ?thesis using p nz live ulive op sup mem home by blast
qed

lemma granted_set: "set (granted db r) = {p. (r, p) \<in> set (db_grants db)}"
  by (force simp: granted_def)

lemma permission_from_role:
  assumes "p \<in> set (getPermissions db i org)"
  shows "\<exists>r. holds_role db i org r \<and> (r, p) \<in> set (db_grants db)"
proof -
  have group: ?thesis if g: "group_of db i = Some (u, g)" and p: "p \<in> set (granted db (r_id g))" for u g
  proof -
    from g obtain "live_user db i = Some u" "live_role db (u_group u) = Some g"
      by (auto simp: group_of_def split: option.splits)
    then have "holds_role db i org (r_id g)"
      using live_role_SomeD [of db "u_group u" g] find_SomeD [of "\<lambda>u. u_id u = i \<and> \<not> u_deleted u" "db_users db" u]
      unfolding holds_role_def live_user_def by blast
    with p show ?thesis by (auto simp: granted_set)
  qed
  have member: ?thesis if p: "p \<in> set (member_permissions db i org)"
  proof -
    from p obtain m r where "m \<in> set (db_members db)" "m_user m = i" "m_org m = org" "\<not> m_deleted m"
      and r: "role_named db (m_role m) = Some r" and pr: "p \<in> set (granted db (r_id r))"
      by (fastforce simp: member_permissions_def split: option.splits dest: sym)
    then have "holds_role db i org (r_id r)"
      using find_SomeD [OF r [unfolded role_named_def]] unfolding holds_role_def by fastforce
    with pr show ?thesis by (auto simp: granted_set)
  qed
  have legacy: ?thesis if p: "p \<in> set (legacy_permissions db i org)"
  proof -
    from p obtain u r where u: "u \<in> set (db_users db)" "u_id u = i" "u_org u = Some org" "\<not> u_deleted u"
      and r: "r \<in> set (db_roles db)" "r_name r = u_role u" "\<not> r_deleted r" and pr: "p \<in> set (granted db (r_id r))"
      by (auto simp: legacy_permissions_def)
    then have "holds_role db i org (r_id r)" unfolding holds_role_def by metis
    with pr show ?thesis by (auto simp: granted_set)
  qed
  from assms show ?thesis
    using group member legacy by (auto simp: getPermissions_def Let_def split: option.splits if_splits)
qed

lemma enforce_or_crash: "requirePermission env db perms (Some u) = Ok () \<Longrightarrow>
  ru_org u \<noteq> 0 \<and> enforceTokenScopes env u perms = Ok ()
  \<and> (ru_global u \<and> ru_token u = None \<or> (\<exists>p\<in>set perms. p \<in> set (getPermissions db (ru_id u) (ru_org u))))"
  by (auto simp: requirePermission_def and_then_Ok_iff Let_def list_ex_iff split: if_splits)

definition same_tables :: "control_db \<Rightarrow> control_db \<Rightarrow> bool" where
  "same_tables db db' \<longleftrightarrow> db' = db\<lparr>db_tokens := db_tokens db'\<rparr>"

lemma tokens_only:
  "granted (db\<lparr>db_tokens := ts\<rparr>) = granted db" "role_named (db\<lparr>db_tokens := ts\<rparr>) = role_named db"
  "live_role (db\<lparr>db_tokens := ts\<rparr>) = live_role db" "membership (db\<lparr>db_tokens := ts\<rparr>) = membership db"
  "live_user (db\<lparr>db_tokens := ts\<rparr>) = live_user db"
  by (intro ext, simp add: granted_def role_named_def live_role_def membership_def live_user_def)+

lemma tokens_only_permissions: "getPermissions (db\<lparr>db_tokens := ts\<rparr>) i org = getPermissions db i org"
proof -
  have f: "db_members (db\<lparr>db_tokens := ts\<rparr>) = db_members db" "db_users (db\<lparr>db_tokens := ts\<rparr>) = db_users db"
    "db_roles (db\<lparr>db_tokens := ts\<rparr>) = db_roles db" by simp_all
  show ?thesis
    unfolding getPermissions_def group_of_def member_permissions_def legacy_permissions_def tokens_only f
    by (rule refl)
qed

lemma permissions_tables: "same_tables db db' \<Longrightarrow> getPermissions db' i org = getPermissions db i org"
  unfolding same_tables_def by (metis tokens_only_permissions)

definition user_facts :: "auth_env \<Rightarrow> control_db \<Rightarrow> req_user \<Rightarrow> bool" where
  "user_facts env db u \<longleftrightarrow> org_live db (ru_org u) \<and> user_live db (ru_id u)
     \<and> (ru_global u \<longrightarrow> ru_token u = None \<and> global_identity env db (ru_id u))
     \<and> (\<not> ru_global u \<longrightarrow> in_org db (ru_id u) (ru_org u))"

lemma token_principal_facts:
  assumes "resolveOrgPrincipal env db x og False = Some p" and "u_id x = i"
  shows "user_facts env db \<lparr>ru_id = i, ru_email = e, ru_role = p_authorization p,
     ru_membership = p_membership p, ru_org = p_org p, ru_operator = False, ru_super = False,
     ru_global = False, ru_token = Some t, ru_scopes = s, ru_sqlnull = n, ru_policy = pol\<rparr>"
  using principal_facts [OF assms(1)] assms(2) by (auto simp: user_facts_def)

lemma token_user_facts:
  assumes "authenticateApiToken env db req = (db', r)"
  shows "same_tables db db' \<and> (\<forall>u. r = Ok (Some u) \<longrightarrow> user_facts env db u)"
proof -
  have upd: "same_tables db db" "same_tables db (db\<lparr>db_tokens := ts\<rparr>)" for ts
    by (simp_all add: same_tables_def)
  show ?thesis
  proof (cases "api_key req")
    case (Some key)
    show ?thesis
    proof (cases key)
      case (Cons k ks)
      show ?thesis
        using assms Some Cons upd
        by (auto simp: authenticateApiToken_def split: option.splits prod.splits if_splits
            dest!: find_SomeD) (erule token_principal_facts, assumption)+
    qed (use assms Some upd in \<open>auto simp: authenticateApiToken_def\<close>)
  qed (use assms upd in \<open>auto simp: authenticateApiToken_def\<close>)
qed

lemma session_user_facts: "session_user env db req = Ok u \<Longrightarrow> user_facts env db u"
proof -
  assume a: "session_user env db req = Ok u"
  then obtain i oid x p where x: "live_user db i = Some x" and p: "resolveOrgPrincipal env db x oid True = Some p"
    and u: "u = \<lparr>ru_id = u_id x, ru_email = u_email x, ru_role = p_authorization p,
                           ru_membership = p_membership p, ru_org = p_org p, ru_operator = p_operator p,
                           ru_super = p_super p, ru_global = p_global p, ru_token = None,
                           ru_scopes = SqlNull, ru_sqlnull = False, ru_policy = None\<rparr>"
    by (auto simp: session_user_def split: option.splits if_splits)
  show ?thesis using principal_facts [OF p] by (auto simp: user_facts_def u)
qed

lemma authenticate_facts:
  assumes "authenticate env db req = (db', Ok req')" and "\<not> authenticated req"
  shows "\<exists>u. req_user req' = Some u \<and> same_tables db db' \<and> user_facts env db u"
proof -
  obtain d r where a: "authenticateApiToken env db req = (d, r)" by force
  note f = token_user_facts [OF a]
  from assms a f show ?thesis
    by (cases r) (auto simp: authenticate_def and_then_Ok_iff split: option.splits dest!: session_user_facts)
qed

text \<open>
  C11. A request that authentication and a permission check let through acts in one live
  organization for one live user, and either comes from a browser session of an installation-wide
  identity (a configured operator, a flagged administrator, or a member of the system group
  \<open>super_admin\<close>), or the user belongs to that organization (home organization or live membership)
  and one of the required permissions is granted by a live role the user holds: the user's group,
  the role of the membership in that very organization, or the legacy role in the home
  organization. An API token never acts with installation-wide access.
\<close>

theorem authorized_request_sound:
  assumes "authenticate env db req = (db', Ok req')" and "\<not> authenticated req"
    and "requirePermission env db' perms (req_user req') = Ok ()"
  shows "\<exists>u. req_user req' = Some u \<and> org_live db (ru_org u) \<and> user_live db (ru_id u)
    \<and> (ru_token u = None \<and> global_identity env db (ru_id u)
       \<or> in_org db (ru_id u) (ru_org u)
         \<and> (\<exists>p\<in>set perms. \<exists>r. holds_role db (ru_id u) (ru_org u) r \<and> (r, p) \<in> set (db_grants db)))"
proof -
  from authenticate_facts [OF assms(1,2)] obtain u where u: "req_user req' = Some u"
    and t: "same_tables db db'" and f: "user_facts env db u" by blast
  have "ru_global u \<and> ru_token u = None \<or> (\<exists>p\<in>set perms. p \<in> set (getPermissions db (ru_id u) (ru_org u)))"
    using enforce_or_crash [of env db' perms u] assms(3) u permissions_tables [OF t] by simp
  with f permission_from_role u show ?thesis unfolding user_facts_def by blast
qed

text \<open>
  C22. What the guard on privileged user fields lets through is no escalation: setting a role,
  group or organization access (on creation or update), or a password, e-mail or status (on
  update) takes the administrator role; assigning organizations, or the system group
  \<open>super_admin\<close>, takes installation-wide access from a browser session; and an update of
  somebody else's account that carries such a field never touches the account of an installation
  operator unless the actor is the operator, nor that of a super administrator unless the actor
  has installation-wide access.
\<close>

theorem no_privilege_escalation:
  assumes "restrictRoleAssignment env db user verb target body = Ok ()"
  shows "(sets_privileged verb body \<longrightarrow> (\<exists>u. user = Some u \<and> ru_role u = ''admin''))
    \<and> (sets_field body ''organization_ids'' \<or> assigns_super db body \<longrightarrow>
         (\<exists>u. user = Some u \<and> ru_global u \<and> ru_token u = None))
    \<and> (\<forall>i t. sets_privileged verb body \<and> is_update verb \<and> target = Some i \<and> any_user db i = Some t
         \<and> user \<noteq> None \<and> ru_id (the user) \<noteq> i \<longrightarrow>
         (isInstallOperatorUser env db (row_subject t) \<longrightarrow> isInstallOperator env db user)
         \<and> (isSuperAdminUser db (row_subject t) \<longrightarrow> actor_global user))"
  using assms unfolding restrictRoleAssignment_def Let_def
  by (auto simp: target_of_def actor_global_def split: if_splits option.splits)

section \<open>A concrete installation\<close>

definition access_env :: auth_env where
  "access_env = \<lparr>operator_ids = [], sha256_hex = \<lambda>s. s, jwt_verify = \<lambda>t. if t = ''jwt'' then Some (7, Some 2) else None,
     json_parse = \<lambda>_. None, now_ms = 0\<rparr>"

definition access_db :: control_db where
  "access_db = \<lparr>
     db_users = [\<lparr>u_id = 7, u_email = ''a@b'', u_role = ''admin'', u_org = Some 1, u_group = Some 3,
                  u_status = ''active'', u_operator = False, u_deleted = False\<rparr>],
     db_roles = [\<lparr>r_id = 3, r_name = ''admin'', r_kind = Some ''admin'', r_system = True, r_deleted = False\<rparr>],
     db_members = [\<lparr>m_user = 7, m_org = 2, m_role = ''owner'', m_deleted = False\<rparr>],
     db_orgs = [\<lparr>o_id = 1, o_name = ''A'', o_status = ''active'', o_deleted = False\<rparr>,
                \<lparr>o_id = 2, o_name = ''B'', o_status = ''active'', o_deleted = False\<rparr>],
     db_grants = [(3, ''clients.view'')], db_tokens = []\<rparr>"

definition access_req :: request where
  "access_req = \<lparr>api_key = None, authorization = Some ''Bearer jwt'', access_cookie = None, req_ip = None,
     req_user = None, authenticated = False\<rparr>"

definition demo_user :: req_user where
  "demo_user = \<lparr>ru_id = 7, ru_email = ''a@b'', ru_role = ''admin'', ru_membership = ''owner'', ru_org = 2,
     ru_operator = False, ru_super = False, ru_global = False, ru_token = None, ru_scopes = SqlNull,
     ru_sqlnull = False, ru_policy = None\<rparr>"

lemma demo_session: "session_user access_env access_db access_req = Ok demo_user"
  by (simp add: session_user_def session_token_def bearer_def starts_with_def access_req_def access_env_def access_db_def
      live_user_def resolveOrgPrincipal_def requested_org_def active_org_def active_user_def principal_of_def
      membership_def or_null_text_def member_persona_def persona_def live_role_def in_super_group_def
      isInstallOperatorUser_def row_subject_def demo_user_def)

lemma demo_login:
  "authenticate access_env access_db access_req
    = (access_db, Ok (access_req\<lparr>req_user := Some demo_user, authenticated := True\<rparr>))"
proof -
  have "authenticateApiToken access_env access_db access_req = (access_db, Ok None)"
    by (simp add: authenticateApiToken_def access_req_def)
  then show ?thesis unfolding authenticate_def by (simp add: demo_session) (simp add: access_req_def)
qed

lemma demo_permission: "requirePermission access_env access_db [''clients.view''] (Some demo_user) = Ok ()"
  by (simp add: requirePermission_def enforceTokenScopes_def demo_user_def getPermissions_def group_of_def
      live_user_def live_role_def membership_def granted_def access_db_def)

theorem authorized_request_sound_witness:
  "in_org access_db 7 2 \<and> (\<exists>r. holds_role access_db 7 2 r \<and> (r, ''clients.view'') \<in> set (db_grants access_db))"
proof -
  have "requirePermission access_env access_db [''clients.view'']
      (req_user (access_req\<lparr>req_user := Some demo_user, authenticated := True\<rparr>)) = Ok ()"
    using demo_permission by simp
  from authorized_request_sound [OF demo_login _ this]
  have "ru_token demo_user = None \<and> global_identity access_env access_db 7
       \<or> in_org access_db 7 2 \<and> (\<exists>r. holds_role access_db 7 2 r \<and> (r, ''clients.view'') \<in> set (db_grants access_db))"
    by (simp add: demo_user_def access_req_def)
  moreover have "\<not> global_identity access_env access_db 7"
    by (simp add: global_identity_def access_env_def access_db_def)
  ultimately show ?thesis by blast
qed

theorem no_privilege_escalation_witness:
  "\<exists>u. Some demo_user = Some u \<and> ru_role u = ''admin''"
proof -
  have ok: "restrictRoleAssignment access_env access_db (Some demo_user) ''PUT'' (Some 9) [(''role'', FOther)] = Ok ()"
    by (simp add: restrictRoleAssignment_def Let_def sets_privileged_def is_update_def always_privileged_def
        sets_field_def assigns_super_def target_of_def any_user_def demo_user_def access_db_def)
  have "sets_privileged ''PUT'' [(''role'', FOther)]"
    by (simp add: sets_privileged_def is_update_def always_privileged_def sets_field_def)
  with no_privilege_escalation [OF ok] show ?thesis by blast
qed
end
