(* ===== verification/Sessions.thy ===== *)
theory Sessions
  imports AccessControl
begin

text \<open>
  Staff sessions (\<open>services/authService.js\<close>): signing in with the login lockout, rotation of refresh
  tokens, switching the organization, signing out, and the three ways a password or an address is
  confirmed. A request is a \<open>stage\<close>: what is left of its handler after the queries it has awaited,
  holding the rows it has read. \<open>resume\<close> runs it to its next query, so that requests interleave as
  they do in the event loop and in several processes; the consuming and the inserting statement of a
  rotation form one transaction and one stage. What the database and the libraries decide comes in
  from outside: \<open>bcrypt\<close>, SHA-256, the collation of e-mail addresses, the clock and the random
  values of \<open>crypto.randomBytes\<close>. \<open>jwt.sign\<close> is applied by the caller of the model to the payload a
  reply carries. A statement the server refuses (a duplicate key, a counter out of its column's
  range) ends the request as \<open>Broken\<close>; strict SQL mode is MySQL's default. Registration
  (\<open>User.create\<close>) and the sending of mail are left out.
\<close>

section \<open>Tables\<close>

record account = user_row +
  ac_pass :: string
  ac_attempts :: nat
  ac_locked :: "int option"
  ac_reset :: "string option"
  ac_reset_until :: "int option"
  ac_verify :: "string option"
  ac_verified :: "int option"
  ac_login_at :: "int option"

record staff_session =
  se_id :: nat
  se_user :: nat
  se_hash :: string
  se_family :: string
  se_expires :: int

record auth_store =
  accounts :: "account list"
  sessions :: "staff_session list"
  next_session :: nat
  control :: control_db

record token_env = auth_env +
  bcrypt_hash :: "string \<Rightarrow> string \<Rightarrow> string"
  bcrypt_compare :: "string \<Rightarrow> string \<Rightarrow> bool"
  same_email :: "string \<Rightarrow> string \<Rightarrow> bool"
  refresh_seconds :: nat

text \<open>The identity tables as the access-control queries see them: the users are the accounts.\<close>

definition identities :: "auth_store \<Rightarrow> control_db" where
  "identities st = (control st)\<lparr>db_users := map user_row.truncate (accounts st)\<rparr>"

definition staff_access_env :: "token_env \<Rightarrow> auth_env" where
  "staff_access_env e = auth_env.truncate e"

definition sql_clock :: "token_env \<Rightarrow> int" where
  "sql_clock e = sql_now (staff_access_env e)"

section \<open>Settings\<close>

text \<open>\<open>parseExpiry\<close>: a number, white space, one of the letters s, m, h, d; seven days otherwise.\<close>

definition unit_seconds :: "char \<Rightarrow> nat option" where
  "unit_seconds c =
     (if c \<in> {CHR ''s'', CHR ''S''} then Some 1
      else if c \<in> {CHR ''m'', CHR ''M''} then Some 60
      else if c \<in> {CHR ''h'', CHR ''H''} then Some 3600
      else if c \<in> {CHR ''d'', CHR ''D''} then Some 86400
      else None)"

definition parseExpiry :: "string option \<Rightarrow> nat" where
  "parseExpiry str =
     (case str of
        None \<Rightarrow> 604800
      | Some s \<Rightarrow>
          (let n = takeWhile is_digit s in
           if n = [] then 604800
           else case js_trim_left (dropWhile is_digit s) of
               [c] \<Rightarrow> (case unit_seconds c of Some k \<Rightarrow> digits_val n * k | None \<Rightarrow> 604800)
             | _ \<Rightarrow> 604800))"

definition MAX_LOGIN_ATTEMPTS :: nat where "MAX_LOGIN_ATTEMPTS = 5"

definition LOCKOUT_MINUTES :: int where "LOCKOUT_MINUTES = 15"

section \<open>Queries\<close>

definition findByEmail :: "token_env \<Rightarrow> auth_store \<Rightarrow> string \<Rightarrow> account option" where
  "findByEmail e st email = find (\<lambda>u. same_email e (u_email u) email \<and> \<not> u_deleted u) (accounts st)"

definition userFindById :: "auth_store \<Rightarrow> nat \<Rightarrow> account option" where
  "userFindById st i = find (\<lambda>u. u_id u = i \<and> \<not> u_deleted u) (accounts st)"

definition update_account :: "nat \<Rightarrow> (account \<Rightarrow> account) \<Rightarrow> auth_store \<Rightarrow> auth_store" where
  "update_account i f st = st\<lparr>accounts := map (\<lambda>u. if u_id u = i then f u else u) (accounts st)\<rparr>"

definition getOrganizations :: "auth_store \<Rightarrow> nat \<Rightarrow> nat list" where
  "getOrganizations st user =
     concat (map (\<lambda>m. map o_id (filter (\<lambda>ro. o_id ro = m_org m \<and> \<not> o_deleted ro) (db_orgs (control st))))
       (filter (\<lambda>m. m_user m = user \<and> \<not> m_deleted m) (db_members (control st))))"

definition first_org :: "nat list \<Rightarrow> nat option" where
  "first_org os = (case os of [] \<Rightarrow> None | i # _ \<Rightarrow> Some i)"

text \<open>\<open>a || b\<close> on ids: 0 counts as missing.\<close>

definition or_else :: "nat option \<Rightarrow> nat option \<Rightarrow> nat option" where
  "or_else a b = (case a of Some i \<Rightarrow> if i = 0 then b else Some i | None \<Rightarrow> b)"

definition live_orgs :: "auth_store \<Rightarrow> nat list" where
  "live_orgs st = map o_id (filter (\<lambda>ro. o_status ro = ''active'' \<and> \<not> o_deleted ro) (db_orgs (control st)))"

definition account_subject :: "account \<Rightarrow> subject" where
  "account_subject u = row_subject (user_row.truncate u)"

definition findGlobalFallbackOrganization :: "token_env \<Rightarrow> auth_store \<Rightarrow> account \<Rightarrow> nat option" where
  "findGlobalFallbackOrganization e st u =
     (if \<not> hasGlobalOrganizationAccessUser (staff_access_env e) (identities st) (account_subject u) then None
      else case u_org u of
          Some h \<Rightarrow> if h \<in> set (live_orgs st) then Some h else first_org (sort (live_orgs st))
        | None \<Rightarrow> first_org (sort (live_orgs st)))"

definition resolveActiveOrg :: "token_env \<Rightarrow> auth_store \<Rightarrow> nat \<Rightarrow> string \<Rightarrow> nat option \<Rightarrow> principal option" where
  "resolveActiveOrg e st userId userRole requested =
     (if requested = None then None
      else case userFindById st userId of
          None \<Rightarrow> None
        | Some u \<Rightarrow>
            if u_status u \<noteq> ''active'' \<or> u_role u \<noteq> userRole then None
            else resolveOrgPrincipal (staff_access_env e) (identities st) (user_row.truncate u) requested True)"

section \<open>Sessions\<close>

definition delete_session :: "nat \<Rightarrow> auth_store \<Rightarrow> auth_store" where
  "delete_session i st = st\<lparr>sessions := filter (\<lambda>s. se_id s \<noteq> i) (sessions st)\<rparr>"

definition delete_token :: "string \<Rightarrow> auth_store \<Rightarrow> auth_store" where
  "delete_token h st = st\<lparr>sessions := filter (\<lambda>s. se_hash s \<noteq> h) (sessions st)\<rparr>"

definition delete_user_sessions :: "nat \<Rightarrow> auth_store \<Rightarrow> auth_store" where
  "delete_user_sessions i st = st\<lparr>sessions := filter (\<lambda>s. se_user s \<noteq> i) (sessions st)\<rparr>"

definition expiry :: "token_env \<Rightarrow> int" where
  "expiry e = sql_clock e + int (refresh_seconds e) * 1000"

text \<open>The INSERT: \<open>token_hash\<close> is unique, the id is the next of the sequence.\<close>

definition insert_session :: "token_env \<Rightarrow> nat \<Rightarrow> string \<Rightarrow> string \<Rightarrow> auth_store \<Rightarrow> auth_store option" where
  "insert_session e user h family st =
     (if h \<in> se_hash ` set (sessions st) then None
      else Some (st\<lparr>sessions := sessions st @
             [\<lparr>se_id = next_session st, se_user = user, se_hash = h, se_family = family, se_expires = expiry e\<rparr>],
           next_session := Suc (next_session st)\<rparr>))"

datatype rotation = Claimed auth_store | TokenGone | RolledBack

text \<open>\<open>consumeAndReplaceSession\<close>: the DELETE is the claim.\<close>

definition consumeAndReplaceSession :: "token_env \<Rightarrow> nat \<Rightarrow> nat \<Rightarrow> string \<Rightarrow> string \<Rightarrow> auth_store \<Rightarrow> rotation" where
  "consumeAndReplaceSession e sessionId user h family st =
     (if sessionId \<notin> se_id ` set (sessions st) then TokenGone
      else case insert_session e user h family (delete_session sessionId st) of
          None \<Rightarrow> RolledBack
        | Some st' \<Rightarrow> Claimed st')"

section \<open>Requests\<close>

record payload =
  pl_sub :: nat
  pl_email :: string
  pl_role :: string
  pl_org :: "nat option"

datatype auth_error = Refused access_error | NotFound string | Broken

datatype auth_reply =
    Failed auth_error
  | TokenPair payload string
  | LoggedOff
  | Sent
  | ResetLink nat string
  | VerifyLink nat string
  | PasswordSet
  | EmailVerified
  | AlreadyVerified

datatype auth_event =
    Minted nat string
  | Spent string
  | SignedOut string
  | Swept nat
  | Compared nat

text \<open>A stage holds what its handler has read so far. The names say which query comes next.\<close>

datatype stage =
    LoginFind string string
  | LoginCompare account string
  | LoginCount account
  | LoginClear account
  | LoginStamp account
  | LoginOrgs account
  | LoginFallback account
  | LoginInsert account "nat option"
  | RefreshFind string "nat option"
  | RefreshExpired staff_session
  | RefreshUser staff_session "nat option"
  | RefreshOrgs staff_session account "nat option"
  | RefreshFallback staff_session account "nat option"
  | RefreshActive staff_session account "nat option" "nat option"
  | RefreshRotate staff_session account "nat option"
  | SwitchUser nat "nat option" "string option"
  | SwitchPrincipal account "nat option" "string option"
  | SwitchFind account principal string
  | SwitchRotate staff_session account principal
  | LogoutDelete string
  | AskResetFind string
  | AskResetWrite account
  | ResetFind string string
  | ResetWrite account string
  | ResetSweep account
  | ChangeFind nat string string
  | ChangeCompare account string string
  | ChangeWrite account string
  | ChangeSweep account
  | VerifyFind string
  | VerifyWrite account
  | ResendFind nat
  | ResendWrite account

datatype progress = Await stage | Answer auth_reply

definition refuse :: "string \<Rightarrow> progress" where
  "refuse m = Answer (Failed (Refused (Unauthorized m)))"

definition invalid :: "string \<Rightarrow> progress" where
  "invalid m = Answer (Failed (Refused (Invalid m)))"

section \<open>Signing in\<close>

definition login_find :: "token_env \<Rightarrow> auth_store \<Rightarrow> string \<Rightarrow> string \<Rightarrow> progress" where
  "login_find e st email password =
     (case findByEmail e st email of
        None \<Rightarrow> refuse ''Invalid email or password''
      | Some u \<Rightarrow>
          if u_status u \<noteq> ''active'' then refuse ''Account is inactive''
          else if (case ac_locked u of None \<Rightarrow> False | Some t \<Rightarrow> t > now_ms e)
               then refuse ''Account temporarily locked due to too many failed login attempts''
          else Await (LoginCompare u password))"

definition login_compare :: "token_env \<Rightarrow> account \<Rightarrow> string \<Rightarrow> progress" where
  "login_compare e u password =
     (if \<not> bcrypt_compare e password (ac_pass u) then Await (LoginCount u)
      else if ac_attempts u > 0 \<or> ac_locked u \<noteq> None then Await (LoginClear u)
      else Await (LoginStamp u))"

text \<open>\<open>failed_login_attempts\<close> is a TINYINT UNSIGNED.\<close>

definition failed_update :: "token_env \<Rightarrow> nat \<Rightarrow> account \<Rightarrow> account" where
  "failed_update e n u =
     (if n \<ge> MAX_LOGIN_ATTEMPTS
      then u\<lparr>ac_attempts := n, ac_locked := Some (sql_clock e + LOCKOUT_MINUTES * 60000)\<rparr>
      else u\<lparr>ac_attempts := n\<rparr>)"

definition login_count :: "token_env \<Rightarrow> auth_store \<Rightarrow> account \<Rightarrow> auth_store \<times> progress" where
  "login_count e st u =
     (let n = ac_attempts u + 1 in
      if n > 255 then (st, Answer (Failed Broken))
      else (update_account (u_id u) (failed_update e n) st, refuse ''Invalid email or password''))"

definition clear_lockout :: "account \<Rightarrow> account" where
  "clear_lockout u = u\<lparr>ac_attempts := 0, ac_locked := None\<rparr>"

definition login_orgs :: "auth_store \<Rightarrow> account \<Rightarrow> progress" where
  "login_orgs st u =
     (case getOrganizations st (u_id u) of
        [] \<Rightarrow> Await (LoginFallback u)
      | org # _ \<Rightarrow> Await (LoginInsert u (or_else (Some org) (u_org u))))"

definition login_fallback :: "token_env \<Rightarrow> auth_store \<Rightarrow> account \<Rightarrow> progress" where
  "login_fallback e st u =
     Await (LoginInsert u (or_else (findGlobalFallbackOrganization e st u) (u_org u)))"

definition token_payload :: "account \<Rightarrow> nat option \<Rightarrow> payload" where
  "token_payload u org = \<lparr>pl_sub = u_id u, pl_email = u_email u, pl_role = u_role u, pl_org = org\<rparr>"

text \<open>The random values of a stage: a token, and a second value (token family, or bcrypt's salt).\<close>

type_synonym random = "string \<times> string"

type_synonym outcome = "auth_store \<times> progress \<times> auth_event list"

definition login_insert :: "token_env \<Rightarrow> random \<Rightarrow> auth_store \<Rightarrow> account \<Rightarrow> nat option \<Rightarrow> outcome" where
  "login_insert e rnd st u org =
     (let h = sha256_hex e (fst rnd) in
      case insert_session e (u_id u) h (snd rnd) st of
        None \<Rightarrow> (st, Answer (Failed Broken), [])
      | Some st' \<Rightarrow> (st', Answer (TokenPair (token_payload u org) (fst rnd)), [Minted (u_id u) h]))"

section \<open>Refreshing\<close>

definition token_rejected :: progress where
  "token_rejected = refuse ''Invalid or expired refresh token''"

definition refresh_find :: "token_env \<Rightarrow> auth_store \<Rightarrow> string \<Rightarrow> nat option \<Rightarrow> progress" where
  "refresh_find e st token requested =
     (case find (\<lambda>s. se_hash s = sha256_hex e token) (sessions st) of
        None \<Rightarrow> token_rejected
      | Some s \<Rightarrow> if se_expires s \<le> now_ms e then Await (RefreshExpired s) else Await (RefreshUser s requested))"

definition refresh_user :: "auth_store \<Rightarrow> staff_session \<Rightarrow> nat option \<Rightarrow> progress" where
  "refresh_user st s requested =
     (case userFindById st (se_user s) of
        None \<Rightarrow> refuse ''User not found or inactive''
      | Some u \<Rightarrow>
          if u_status u \<noteq> ''active'' then refuse ''User not found or inactive''
          else Await (RefreshOrgs s u requested))"

definition refresh_orgs :: "auth_store \<Rightarrow> staff_session \<Rightarrow> account \<Rightarrow> nat option \<Rightarrow> progress" where
  "refresh_orgs st s u requested =
     (case getOrganizations st (u_id u) of
        [] \<Rightarrow> Await (RefreshFallback s u requested)
      | org # _ \<Rightarrow> Await (RefreshActive s u (or_else (Some org) (u_org u)) requested))"

definition refresh_fallback :: "token_env \<Rightarrow> auth_store \<Rightarrow> staff_session \<Rightarrow> account \<Rightarrow> nat option \<Rightarrow> progress" where
  "refresh_fallback e st s u requested =
     Await (RefreshActive s u (or_else (findGlobalFallbackOrganization e st u) (u_org u)) requested)"

definition id_number :: "nat option \<Rightarrow> nat" where
  "id_number x = (case x of None \<Rightarrow> 0 | Some i \<Rightarrow> i)"

text \<open>The cookie's organization: absent or empty is \<open>None\<close>; it is used only after \<open>resolveActiveOrg\<close>.\<close>

definition refresh_active ::
    "token_env \<Rightarrow> auth_store \<Rightarrow> staff_session \<Rightarrow> account \<Rightarrow> nat option \<Rightarrow> nat option \<Rightarrow> progress" where
  "refresh_active e st s u fallback requested =
     (if requested \<noteq> None \<and> id_number requested \<noteq> id_number fallback
      then (case resolveActiveOrg e st (u_id u) (u_role u) requested of
              None \<Rightarrow> Await (RefreshRotate s u fallback)
            | Some p \<Rightarrow> Await (RefreshRotate s u (Some (p_org p))))
      else Await (RefreshRotate s u fallback))"

definition rotate_to :: "token_env \<Rightarrow> random \<Rightarrow> auth_store \<Rightarrow> staff_session \<Rightarrow> account \<Rightarrow> nat option \<Rightarrow> outcome" where
  "rotate_to e rnd st s u org =
     (let h = sha256_hex e (fst rnd) in
      case consumeAndReplaceSession e (se_id s) (u_id u) h (se_family s) st of
        TokenGone \<Rightarrow> (st, token_rejected, [])
      | RolledBack \<Rightarrow> (st, Answer (Failed Broken), [])
      | Claimed st' \<Rightarrow> (st', Answer (TokenPair (token_payload u org) (fst rnd)),
                       [Spent (se_hash s), Minted (u_id u) h]))"

section \<open>Switching the organization\<close>

definition switch_user :: "auth_store \<Rightarrow> nat \<Rightarrow> nat option \<Rightarrow> string option \<Rightarrow> progress" where
  "switch_user st userId org token =
     (if id_number org = 0 then invalid ''organizationId is required''
      else case userFindById st userId of
          None \<Rightarrow> refuse ''User not found or inactive''
        | Some u \<Rightarrow>
            if u_status u \<noteq> ''active'' then refuse ''User not found or inactive''
            else Await (SwitchPrincipal u org token))"

definition switch_principal ::
    "token_env \<Rightarrow> auth_store \<Rightarrow> account \<Rightarrow> nat option \<Rightarrow> string option \<Rightarrow> progress" where
  "switch_principal e st u org token =
     (case resolveOrgPrincipal (staff_access_env e) (identities st) (user_row.truncate u) org True of
        None \<Rightarrow> Answer (Failed (Refused (Forbidden ''User is not a member of the requested organization'')))
      | Some p \<Rightarrow>
          (case token of
             None \<Rightarrow> refuse ''Refresh token required to switch organizations''
           | Some t \<Rightarrow> if t = [] then refuse ''Refresh token required to switch organizations''
                       else Await (SwitchFind u p t)))"

definition switch_find :: "token_env \<Rightarrow> auth_store \<Rightarrow> account \<Rightarrow> principal \<Rightarrow> string \<Rightarrow> progress" where
  "switch_find e st u p token =
     (case find (\<lambda>s. se_hash s = sha256_hex e token \<and> se_user s = u_id u) (sessions st) of
        None \<Rightarrow> token_rejected
      | Some s \<Rightarrow> if se_expires s \<le> now_ms e then Await (RefreshExpired s) else Await (SwitchRotate s u p))"

section \<open>Passwords and addresses\<close>

definition reset_ask_find :: "token_env \<Rightarrow> auth_store \<Rightarrow> string \<Rightarrow> progress" where
  "reset_ask_find e st email =
     (case findByEmail e st email of None \<Rightarrow> Answer Sent | Some u \<Rightarrow> Await (AskResetWrite u))"

definition reset_ask_write :: "token_env \<Rightarrow> random \<Rightarrow> auth_store \<Rightarrow> account \<Rightarrow> outcome" where
  "reset_ask_write e rnd st u =
     (update_account (u_id u) (\<lambda>v. v\<lparr>ac_reset := Some (sha256_hex e (fst rnd)),
        ac_reset_until := Some (sql_clock e + 3600000)\<rparr>) st,
      Answer (ResetLink (u_id u) (fst rnd)), [])"

definition reset_find :: "token_env \<Rightarrow> auth_store \<Rightarrow> string \<Rightarrow> string \<Rightarrow> progress" where
  "reset_find e st token newPassword =
     (if js_length newPassword < 8 then invalid ''Password must be at least 8 characters''
      else case find (\<lambda>u. ac_reset u = Some (sha256_hex e token)
                     \<and> (case ac_reset_until u of None \<Rightarrow> False | Some t \<Rightarrow> t > sql_clock e)) (accounts st) of
          None \<Rightarrow> refuse ''Invalid or expired reset token''
        | Some u \<Rightarrow> Await (ResetWrite u newPassword))"

definition reset_write :: "token_env \<Rightarrow> random \<Rightarrow> auth_store \<Rightarrow> account \<Rightarrow> string \<Rightarrow> outcome" where
  "reset_write e rnd st u newPassword =
     (update_account (u_id u) (\<lambda>v. v\<lparr>ac_pass := bcrypt_hash e newPassword (snd rnd), ac_reset := None,
        ac_reset_until := None, ac_attempts := 0, ac_locked := None\<rparr>) st,
      Await (ResetSweep u), [])"

definition sweep :: "auth_store \<Rightarrow> account \<Rightarrow> outcome" where
  "sweep st u = (delete_user_sessions (u_id u) st, Answer PasswordSet, [Swept (u_id u)])"

definition change_find :: "auth_store \<Rightarrow> nat \<Rightarrow> string \<Rightarrow> string \<Rightarrow> progress" where
  "change_find st userId current newPassword =
     (if js_length newPassword < 8 then invalid ''New password must be at least 8 characters''
      else case userFindById st userId of
          None \<Rightarrow> Answer (Failed (NotFound ''User''))
        | Some u \<Rightarrow> Await (ChangeCompare u current newPassword))"

definition change_compare :: "token_env \<Rightarrow> account \<Rightarrow> string \<Rightarrow> string \<Rightarrow> progress" where
  "change_compare e u current newPassword =
     (if bcrypt_compare e current (ac_pass u) then Await (ChangeWrite u newPassword)
      else refuse ''Current password is incorrect'')"

definition change_write :: "token_env \<Rightarrow> random \<Rightarrow> auth_store \<Rightarrow> account \<Rightarrow> string \<Rightarrow> outcome" where
  "change_write e rnd st u newPassword =
     (update_account (u_id u) (\<lambda>v. v\<lparr>ac_pass := bcrypt_hash e newPassword (snd rnd)\<rparr>) st,
      Await (ChangeSweep u), [])"

definition verify_find :: "token_env \<Rightarrow> auth_store \<Rightarrow> string \<Rightarrow> progress" where
  "verify_find e st token =
     (case find (\<lambda>u. ac_verify u = Some (sha256_hex e token)) (accounts st) of
        None \<Rightarrow> refuse ''Invalid verification token'' | Some u \<Rightarrow> Await (VerifyWrite u))"

definition verify_write :: "token_env \<Rightarrow> auth_store \<Rightarrow> account \<Rightarrow> outcome" where
  "verify_write e st u =
     (update_account (u_id u) (\<lambda>v. v\<lparr>ac_verified := Some (sql_clock e), ac_verify := None\<rparr>) st,
      Answer EmailVerified, [])"

definition resend_find :: "auth_store \<Rightarrow> nat \<Rightarrow> progress" where
  "resend_find st userId =
     (case userFindById st userId of
        None \<Rightarrow> Answer (Failed (NotFound ''User''))
      | Some u \<Rightarrow> if ac_verified u \<noteq> None then Answer AlreadyVerified else Await (ResendWrite u))"

definition generateEmailVerificationToken :: "token_env \<Rightarrow> random \<Rightarrow> auth_store \<Rightarrow> nat \<Rightarrow> outcome" where
  "generateEmailVerificationToken e rnd st userId =
     (update_account userId (\<lambda>v. v\<lparr>ac_verify := Some (sha256_hex e (fst rnd))\<rparr>) st,
      Answer (VerifyLink userId (fst rnd)), [])"

section \<open>Running a request to its next query\<close>

definition no_event :: "auth_store \<Rightarrow> progress \<Rightarrow> outcome" where
  "no_event st p = (st, p, [])"

fun resume :: "token_env \<Rightarrow> random \<Rightarrow> auth_store \<Rightarrow> stage \<Rightarrow> outcome" where
  "resume e rnd st (LoginFind email password) = no_event st (login_find e st email password)"
| "resume e rnd st (LoginCompare u password) = (st, login_compare e u password, [Compared (u_id u)])"
| "resume e rnd st (LoginCount u) = (case login_count e st u of (st', p) \<Rightarrow> no_event st' p)"
| "resume e rnd st (LoginClear u) = no_event (update_account (u_id u) clear_lockout st) (Await (LoginStamp u))"
| "resume e rnd st (LoginStamp u) =
     no_event (update_account (u_id u) (\<lambda>v. v\<lparr>ac_login_at := Some (sql_clock e)\<rparr>) st) (Await (LoginOrgs u))"
| "resume e rnd st (LoginOrgs u) = no_event st (login_orgs st u)"
| "resume e rnd st (LoginFallback u) = no_event st (login_fallback e st u)"
| "resume e rnd st (LoginInsert u org) = login_insert e rnd st u org"
| "resume e rnd st (RefreshFind token requested) = no_event st (refresh_find e st token requested)"
| "resume e rnd st (RefreshExpired s) = no_event (delete_session (se_id s) st) (refuse ''Refresh token expired'')"
| "resume e rnd st (RefreshUser s requested) = no_event st (refresh_user st s requested)"
| "resume e rnd st (RefreshOrgs s u requested) = no_event st (refresh_orgs st s u requested)"
| "resume e rnd st (RefreshFallback s u requested) = no_event st (refresh_fallback e st s u requested)"
| "resume e rnd st (RefreshActive s u fallback requested) = no_event st (refresh_active e st s u fallback requested)"
| "resume e rnd st (RefreshRotate s u org) = rotate_to e rnd st s u org"
| "resume e rnd st (SwitchUser userId org token) = no_event st (switch_user st userId org token)"
| "resume e rnd st (SwitchPrincipal u org token) = no_event st (switch_principal e st u org token)"
| "resume e rnd st (SwitchFind u p token) = no_event st (switch_find e st u p token)"
| "resume e rnd st (SwitchRotate s u p) = rotate_to e rnd st s u (Some (p_org p))"
| "resume e rnd st (LogoutDelete token) =
     (delete_token (sha256_hex e token) st, Answer LoggedOff, [SignedOut (sha256_hex e token)])"
| "resume e rnd st (AskResetFind email) = no_event st (reset_ask_find e st email)"
| "resume e rnd st (AskResetWrite u) = reset_ask_write e rnd st u"
| "resume e rnd st (ResetFind token newPassword) = no_event st (reset_find e st token newPassword)"
| "resume e rnd st (ResetWrite u newPassword) = reset_write e rnd st u newPassword"
| "resume e rnd st (ResetSweep u) = sweep st u"
| "resume e rnd st (ChangeFind userId current newPassword) = no_event st (change_find st userId current newPassword)"
| "resume e rnd st (ChangeCompare u current newPassword) = no_event st (change_compare e u current newPassword)"
| "resume e rnd st (ChangeWrite u newPassword) = change_write e rnd st u newPassword"
| "resume e rnd st (ChangeSweep u) = sweep st u"
| "resume e rnd st (VerifyFind token) = no_event st (verify_find e st token)"
| "resume e rnd st (VerifyWrite u) = verify_write e st u"
| "resume e rnd st (ResendFind userId) = no_event st (resend_find st userId)"
| "resume e rnd st (ResendWrite u) = generateEmailVerificationToken e rnd st (u_id u)"

section \<open>The system\<close>

datatype auth_call =
    CallLogin string string
  | CallRefresh string "nat option"
  | CallSwitch nat "nat option" "string option"
  | CallLogout string
  | CallAskReset string
  | CallReset string string
  | CallChange nat string string
  | CallVerify string
  | CallResend nat

fun first_stage :: "auth_call \<Rightarrow> stage" where
  "first_stage (CallLogin email password) = LoginFind email password"
| "first_stage (CallRefresh token requested) = RefreshFind token requested"
| "first_stage (CallSwitch userId org token) = SwitchUser userId org token"
| "first_stage (CallLogout token) = LogoutDelete token"
| "first_stage (CallAskReset email) = AskResetFind email"
| "first_stage (CallReset token newPassword) = ResetFind token newPassword"
| "first_stage (CallChange userId current newPassword) = ChangeFind userId current newPassword"
| "first_stage (CallVerify token) = VerifyFind token"
| "first_stage (CallResend userId) = ResendFind userId"

record auth_system =
  store :: auth_store
  in_flight :: "stage list"

text \<open>A schedule: a request arrives, the k-th request in flight takes a turn at a time and with the
  random values drawn then, or it is lost (its query failed, its process died).\<close>

datatype auth_action = Arrives auth_call | Turn nat int random | Lost nat

definition drop_nth :: "nat \<Rightarrow> 'a list \<Rightarrow> 'a list" where
  "drop_nth k xs = take k xs @ drop (Suc k) xs"

definition at_time :: "token_env \<Rightarrow> int \<Rightarrow> token_env" where
  "at_time e t = e\<lparr>now_ms := t\<rparr>"

definition turn :: "token_env \<Rightarrow> random \<Rightarrow> nat \<Rightarrow> auth_system \<Rightarrow> auth_system \<times> auth_event list" where
  "turn e rnd k sys =
     (case resume e rnd (store sys) (in_flight sys ! k) of (st, p, es) \<Rightarrow>
        (\<lparr>store = st,
          in_flight = (case p of Await s \<Rightarrow> (in_flight sys)[k := s] | Answer _ \<Rightarrow> drop_nth k (in_flight sys))\<rparr>, es))"

fun act :: "token_env \<Rightarrow> auth_system \<Rightarrow> auth_action \<Rightarrow> auth_system \<times> auth_event list" where
  "act e sys (Arrives c) = (sys\<lparr>in_flight := in_flight sys @ [first_stage c]\<rparr>, [])"
| "act e sys (Turn k t rnd) = (if k < length (in_flight sys) then turn (at_time e t) rnd k sys else (sys, []))"
| "act e sys (Lost k) = (sys\<lparr>in_flight := drop_nth k (in_flight sys)\<rparr>, [])"

fun schedule :: "token_env \<Rightarrow> auth_system \<Rightarrow> auth_action list \<Rightarrow> auth_system \<times> auth_event list" where
  "schedule e sys [] = (sys, [])"
| "schedule e sys (a # as) =
     (let (sys1, es) = act e sys a; (sys2, fs) = schedule e sys1 as in (sys2, es @ fs))"

end
