(* ===== verification/SessionsProps.thy ===== *)
theory SessionsProps
  imports Sessions
begin

text \<open>
  What rotation promises: over every interleaving of requests a refresh token is redeemed at most
  once, and never after it was signed out or its user's sessions were swept. The lockout of the
  sign-in is bounded for requests that run one after another, and two lemmas show where requests in
  flight get around it and around a password reset.
\<close>

section \<open>The table and the snapshots\<close>

fun stage_session :: "stage \<Rightarrow> staff_session option" where
  "stage_session (RefreshExpired s) = Some s"
| "stage_session (RefreshUser s _) = Some s"
| "stage_session (RefreshOrgs s _ _) = Some s"
| "stage_session (RefreshFallback s _ _) = Some s"
| "stage_session (RefreshActive s _ _ _) = Some s"
| "stage_session (RefreshRotate s _ _) = Some s"
| "stage_session (SwitchRotate s _ _) = Some s"
| "stage_session _ = None"

text \<open>A snapshot is of a row that was there: while a row has its id, it is that row.\<close>

definition snapshot_valid :: "auth_store \<Rightarrow> staff_session \<Rightarrow> bool" where
  "snapshot_valid st s \<longleftrightarrow> se_id s < next_session st \<and> (\<forall>r\<in>set (sessions st). se_id r = se_id s \<longrightarrow> r = s)"

definition table_ok :: "auth_store \<Rightarrow> bool" where
  "table_ok st \<longleftrightarrow> distinct (map se_hash (sessions st)) \<and> distinct (map se_id (sessions st))
     \<and> (\<forall>r\<in>set (sessions st). se_id r < next_session st)"

definition stage_ok :: "auth_store \<Rightarrow> stage \<Rightarrow> bool" where
  "stage_ok st g \<longleftrightarrow> (case stage_session g of None \<Rightarrow> True | Some s \<Rightarrow> snapshot_valid st s)"

definition sound :: "auth_system \<Rightarrow> bool" where
  "sound sys \<longleftrightarrow> table_ok (store sys) \<and> (\<forall>g\<in>set (in_flight sys). stage_ok (store sys) g)"

definition hashes :: "auth_store \<Rightarrow> string set" where
  "hashes st = se_hash ` set (sessions st)"

definition minted :: "auth_event list \<Rightarrow> string set" where
  "minted es = {h. \<exists>u. Minted u h \<in> set es}"

lemma minted_simps [simp]:
  "minted [] = {}"
  "minted (Minted u h # es) = insert h (minted es)"
  "minted (Spent h # es) = minted es"
  "minted (SignedOut h # es) = minted es"
  "minted (Swept u # es) = minted es"
  "minted (Compared u # es) = minted es"
  "minted (es @ fs) = minted es \<union> minted fs"
  by (auto simp: minted_def)

text \<open>How a stage may change the table: rows go, and at most one comes, with the next id and a token
  hash that is not there.\<close>

definition shrinks :: "auth_store \<Rightarrow> auth_store \<Rightarrow> bool" where
  "shrinks st st' \<longleftrightarrow> (\<exists>P. sessions st' = filter P (sessions st)) \<and> next_session st' = next_session st"

definition replaces :: "auth_store \<Rightarrow> auth_store \<Rightarrow> string \<Rightarrow> bool" where
  "replaces st st' h \<longleftrightarrow> (\<exists>P r. sessions st' = filter P (sessions st) @ [r] \<and> se_id r = next_session st
     \<and> se_hash r = h \<and> h \<notin> se_hash ` set (filter P (sessions st))) \<and> next_session st' = Suc (next_session st)"

definition evolves :: "auth_store \<Rightarrow> auth_store \<Rightarrow> auth_event list \<Rightarrow> bool" where
  "evolves st st' es \<longleftrightarrow> shrinks st st' \<and> minted es = {} \<or> (\<exists>h. replaces st st' h \<and> minted es = {h})"

lemma shrinks_refl [simp]: "shrinks st st"
  unfolding shrinks_def by (auto intro: exI [where x = "\<lambda>_. True"])

lemma update_account_sessions [simp]:
  "sessions (update_account i f st) = sessions st" "next_session (update_account i f st) = next_session st"
  by (simp_all add: update_account_def)

lemma shrinks_update [simp]: "shrinks st (update_account i f st)"
  unfolding shrinks_def by (auto intro: exI [where x = "\<lambda>_. True"])

lemma shrinks_deletes [simp]:
  "shrinks st (delete_session i st)" "shrinks st (delete_token h st)" "shrinks st (delete_user_sessions j st)"
  unfolding shrinks_def delete_session_def delete_token_def delete_user_sessions_def by auto

lemma insert_session_replaces:
  assumes "insert_session e u h f st = Some st'"
  shows "replaces st st' h"
proof -
  from assms have new: "h \<notin> se_hash ` set (sessions st)"
    and st': "st' = st\<lparr>sessions := sessions st @ [\<lparr>se_id = next_session st, se_user = u, se_hash = h, se_family = f,
        se_expires = expiry e\<rparr>], next_session := Suc (next_session st)\<rparr>"
    by (auto simp: insert_session_def split: if_splits)
  show ?thesis
    unfolding replaces_def st' using new
    by (intro conjI exI [where x = "\<lambda>_. True"]
        exI [where x = "\<lparr>se_id = next_session st, se_user = u, se_hash = h, se_family = f, se_expires = expiry e\<rparr>"]) simp_all
qed

lemma login_insert_evolves:
  "login_insert e rnd st u org = (st', p, es) \<Longrightarrow> evolves st st' es"
  by (auto simp: login_insert_def Let_def evolves_def dest: insert_session_replaces split: option.splits)

lemma consume_replaces:
  assumes "consumeAndReplaceSession e i u h f st = Claimed st'"
  shows "replaces st st' h" and "i \<in> se_id ` set (sessions st)" and "\<forall>r\<in>set (sessions st'). se_id r = i \<longrightarrow> se_id r = next_session st"
proof -
  from assms have i: "i \<in> se_id ` set (sessions st)" and ins: "insert_session e u h f (delete_session i st) = Some st'"
    by (auto simp: consumeAndReplaceSession_def split: if_splits option.splits)
  from ins have new: "h \<notin> se_hash ` set (sessions (delete_session i st))"
    and st': "st' = (delete_session i st)\<lparr>sessions := sessions (delete_session i st) @ [\<lparr>se_id = next_session st, se_user = u,
        se_hash = h, se_family = f, se_expires = expiry e\<rparr>], next_session := Suc (next_session st)\<rparr>"
    by (auto simp: insert_session_def delete_session_def split: if_splits)
  show "i \<in> se_id ` set (sessions st)" by (rule i)
  show "replaces st st' h"
    unfolding replaces_def st' using new
    by (intro conjI exI [where x = "\<lambda>s. se_id s \<noteq> i"]
        exI [where x = "\<lparr>se_id = next_session st, se_user = u, se_hash = h, se_family = f, se_expires = expiry e\<rparr>"])
      (simp_all add: delete_session_def)
  show "\<forall>r\<in>set (sessions st'). se_id r = i \<longrightarrow> se_id r = next_session st"
    by (auto simp: st' delete_session_def)
qed

lemma rotate_evolves:
  "rotate_to e rnd st s u org = (st', p, es) \<Longrightarrow> evolves st st' es"
  by (auto simp: rotate_to_def Let_def evolves_def dest: consume_replaces(1) split: rotation.splits)

lemma resume_evolves:
  assumes "resume e rnd st g = (st', p, es)"
  shows "evolves st st' es"
  using assms
  by (cases g) (auto simp: no_event_def evolves_def login_count_def Let_def reset_ask_write_def reset_write_def sweep_def
      change_write_def verify_write_def generateEmailVerificationToken_def
      dest: login_insert_evolves [unfolded evolves_def] rotate_evolves [unfolded evolves_def] split: if_splits)

section \<open>Soundness is kept\<close>

lemma evolves_table:
  assumes "evolves st st' es" and "table_ok st"
  shows "table_ok st'"
proof -
  from assms(1) consider "shrinks st st'" | h where "replaces st st' h" by (auto simp: evolves_def)
  then show ?thesis
  proof cases
    case 1
    then obtain P where "sessions st' = filter P (sessions st)" "next_session st' = next_session st"
      by (auto simp: shrinks_def)
    with assms(2) show ?thesis by (auto simp: table_ok_def intro: distinct_map_filter)
  next
    case 2
    then obtain P r where "sessions st' = filter P (sessions st) @ [r]" "se_id r = next_session st"
      "se_hash r \<notin> se_hash ` set (filter P (sessions st))" "next_session st' = Suc (next_session st)"
      by (auto simp: replaces_def)
    moreover have "next_session st \<notin> se_id ` set (filter P (sessions st))"
      using assms(2) by (auto simp: table_ok_def)
    ultimately show ?thesis using assms(2) by (auto simp: table_ok_def intro: distinct_map_filter)
  qed
qed

lemma evolves_rows:
  assumes "evolves st st' es" and "r \<in> set (sessions st')"
  shows "r \<in> set (sessions st) \<or> se_id r = next_session st \<and> se_hash r \<in> minted es"
  using assms by (auto simp: evolves_def shrinks_def replaces_def)

lemma evolves_next: "evolves st st' es \<Longrightarrow> next_session st \<le> next_session st'"
  by (auto simp: evolves_def shrinks_def replaces_def)

lemma evolves_snapshot:
  assumes "evolves st st' es" and "snapshot_valid st s"
  shows "snapshot_valid st' s"
  using assms(2) evolves_rows [OF assms(1)] evolves_next [OF assms(1)]
  by (fastforce simp: snapshot_valid_def)

lemma evolves_stage: "evolves st st' es \<Longrightarrow> stage_ok st g \<Longrightarrow> stage_ok st' g"
  by (auto simp: stage_ok_def intro: evolves_snapshot split: option.splits)

lemma row_snapshot:
  assumes "table_ok st" and "s \<in> set (sessions st)"
  shows "snapshot_valid st s"
  using assms by (auto simp: table_ok_def snapshot_valid_def distinct_map dest: inj_onD)

lemmas stage_steps = no_event_def refuse_def invalid_def token_rejected_def Let_def
  login_find_def login_compare_def login_count_def login_orgs_def login_fallback_def login_insert_def
  refresh_find_def refresh_user_def refresh_orgs_def refresh_fallback_def refresh_active_def rotate_to_def
  switch_user_def switch_principal_def switch_find_def reset_ask_find_def reset_ask_write_def reset_find_def
  reset_write_def sweep_def change_find_def change_compare_def change_write_def verify_find_def verify_write_def
  resend_find_def generateEmailVerificationToken_def

lemma next_stage_session:
  assumes "resume e rnd st g = (st', Await g', es)" and "stage_session g' = Some s"
  shows "stage_session g = Some s \<or> s \<in> set (sessions st)"
  using assms
  by (cases g) (auto simp: stage_steps find_Some_iff
      split: option.splits if_splits list.splits rotation.splits)

lemma first_stage_ok [simp]: "stage_session (first_stage c) = None"
  by (cases c) simp_all

lemma set_drop_nth: "x \<in> set (drop_nth k xs) \<Longrightarrow> x \<in> set xs"
  by (auto simp: drop_nth_def dest: in_set_takeD in_set_dropD)

text \<open>One turn: what happened to the store, and that the system stays sound.\<close>

lemma turn_resume:
  assumes "turn e rnd k sys = (sys', es)"
  obtains st p where "resume e rnd (store sys) (in_flight sys ! k) = (st, p, es)" "store sys' = st"
    "in_flight sys' = (case p of Await s \<Rightarrow> (in_flight sys)[k := s] | Answer _ \<Rightarrow> drop_nth k (in_flight sys))"
  using assms by (auto simp: turn_def split: prod.splits)

lemma turn_sound:
  assumes "sound sys" and "turn e rnd k sys = (sys', es)" and "k < length (in_flight sys)"
  shows "sound sys'" and "evolves (store sys) (store sys') es"
proof -
  obtain st p where r: "resume e rnd (store sys) (in_flight sys ! k) = (st, p, es)" and st: "store sys' = st"
    and fl: "in_flight sys' = (case p of Await s \<Rightarrow> (in_flight sys)[k := s] | Answer _ \<Rightarrow> drop_nth k (in_flight sys))"
    by (rule turn_resume [OF assms(2)])
  have ev: "evolves (store sys) st es" by (rule resume_evolves [OF r])
  then show "evolves (store sys) (store sys') es" by (simp add: st)
  have table: "table_ok (store sys)" and stages: "\<forall>g\<in>set (in_flight sys). stage_ok (store sys) g"
    using assms(1) by (simp_all add: sound_def)
  have here: "stage_ok (store sys) (in_flight sys ! k)" using stages assms(3) by simp
  have "stage_ok st g" if g: "g \<in> set (in_flight sys')" for g
  proof -
    consider "g \<in> set (in_flight sys)" | "p = Await g"
    proof (cases p)
      case (Await s)
      then have "g \<in> insert s (set (in_flight sys))"
        using g fl set_update_subset_insert by fastforce
      then show ?thesis using that Await by blast
    next
      case (Answer _)
      then show ?thesis using that g fl by (auto dest: set_drop_nth)
    qed
    then show ?thesis
    proof cases
      case 1
      then show ?thesis using stages evolves_stage [OF ev] by blast
    next
      case 2
      show ?thesis
      proof (cases "stage_session g")
        case None
        then show ?thesis by (simp add: stage_ok_def)
      next
        case (Some s)
        have "stage_session (in_flight sys ! k) = Some s \<or> s \<in> set (sessions (store sys))"
          using r Some by (intro next_stage_session [of e rnd _ _ st g es]) (simp_all add: 2)
        then have "snapshot_valid (store sys) s"
          using here row_snapshot [OF table] by (auto simp: stage_ok_def)
        then show ?thesis using Some evolves_snapshot [OF ev] by (simp add: stage_ok_def)
      qed
    qed
  qed
  then show "sound sys'" using evolves_table [OF ev table] by (simp add: sound_def st)
qed

section \<open>A revoked token stays dead\<close>

definition revokes :: "auth_event \<Rightarrow> staff_session \<Rightarrow> bool" where
  "revokes ev r = (case ev of Spent h \<Rightarrow> se_hash r = h | SignedOut h \<Rightarrow> se_hash r = h
     | Swept i \<Rightarrow> se_user r = i | Minted _ _ \<Rightarrow> False | Compared _ \<Rightarrow> False)"

text \<open>What one token's hash can be: the row itself is still there, or no row has it.\<close>

definition held_or_gone :: "auth_store \<Rightarrow> staff_session \<Rightarrow> bool" where
  "held_or_gone st r \<longleftrightarrow> (\<forall>x\<in>set (sessions st). se_hash x = se_hash r \<longrightarrow> x = r)"

lemma gone_stays:
  fixes r :: staff_session
  assumes "evolves st st' es" and "se_hash r \<notin> minted es"
  shows "held_or_gone st r \<Longrightarrow> held_or_gone st' r" and "se_hash r \<notin> hashes st \<Longrightarrow> se_hash r \<notin> hashes st'"
proof -
  have old: "x \<in> set (sessions st)" if "x \<in> set (sessions st')" "se_hash x = se_hash r" for x
    using evolves_rows [OF assms(1) that(1)] assms(2) that(2) by auto
  show "held_or_gone st r \<Longrightarrow> held_or_gone st' r"
    using old by (simp add: held_or_gone_def)
  show "se_hash r \<notin> hashes st \<Longrightarrow> se_hash r \<notin> hashes st'"
    using old by (auto simp: hashes_def)
qed

text \<open>The events of one stage, with what each says of the table.\<close>

definition speaks_true :: "auth_store \<Rightarrow> auth_store \<Rightarrow> staff_session option \<Rightarrow> auth_event \<Rightarrow> bool" where
  "speaks_true st st' snap ev = (case ev of
     Spent h \<Rightarrow> (case snap of None \<Rightarrow> False | Some s \<Rightarrow> h = se_hash s \<and> se_id s \<in> se_id ` set (sessions st)
                  \<and> (\<forall>r\<in>set (sessions st'). se_id r = se_id s \<longrightarrow> se_id r = next_session st))
   | SignedOut h \<Rightarrow> h \<notin> hashes st'
   | Swept i \<Rightarrow> \<forall>r\<in>set (sessions st'). se_user r \<noteq> i
   | Minted _ _ \<Rightarrow> True | Compared _ \<Rightarrow> True)"

lemma rotate_events:
  assumes "rotate_to e rnd st s u org = (st', p, es)"
  shows "\<forall>ev\<in>set es. speaks_true st st' (Some s) ev"
proof (cases "consumeAndReplaceSession e (se_id s) (u_id u) (sha256_hex e (fst rnd)) (se_family s) st")
  case (Claimed st2)
  with assms have "st' = st2" "es = [Spent (se_hash s), Minted (u_id u) (sha256_hex e (fst rnd))]"
    by (simp_all add: rotate_to_def Let_def)
  then show ?thesis using consume_replaces(2,3) [OF Claimed] by (simp add: speaks_true_def)
qed (use assms in \<open>simp_all add: rotate_to_def Let_def\<close>)

lemma login_insert_events:
  assumes "login_insert e rnd st u org = (st', p, es)"
  shows "\<forall>ev\<in>set es. speaks_true st st' snap ev"
  using assms by (auto simp: login_insert_def Let_def speaks_true_def split: option.splits)

lemma resume_events:
  assumes "resume e rnd st g = (st', p, es)"
  shows "\<forall>ev\<in>set es. speaks_true st st' (stage_session g) ev"
proof (cases g)
  case (LoginInsert u org)
  then show ?thesis using assms login_insert_events by simp
next
  case (RefreshRotate s u org)
  then show ?thesis using assms rotate_events by simp
next
  case (SwitchRotate s u q)
  then show ?thesis using assms rotate_events by simp
qed (use assms in \<open>auto simp: speaks_true_def no_event_def login_count_def Let_def reset_ask_write_def reset_write_def
      change_write_def verify_write_def generateEmailVerificationToken_def sweep_def delete_user_sessions_def
      delete_token_def hashes_def split: if_splits\<close>)

text \<open>Between two turns there is at most one spending; within one stage it is the first event.\<close>

lemma resume_spends_once:
  assumes "resume e rnd st g = (st', p, es)" and "es = pre @ ev # post" and "Spent h \<in> set post"
  shows "False"
proof -
  have "es = [] \<or> (\<exists>ev. es = [ev]) \<or> (\<exists>k u m. es = [Spent k, Minted u m])"
    using assms(1)
    by (cases g) (auto simp: no_event_def login_count_def Let_def reset_ask_write_def reset_write_def sweep_def
      change_write_def verify_write_def generateEmailVerificationToken_def login_insert_def rotate_to_def
      split: if_splits option.splits rotation.splits)
  then show False using assms(2,3) by (auto simp: append_eq_Cons_conv)
qed

lemma spent_was_live:
  assumes "resume e rnd st g = (st', p, es)" and "stage_ok st g" and "Spent h \<in> set es"
  shows "h \<in> hashes st"
proof -
  from resume_events [OF assms(1)] assms(3) have "speaks_true st st' (stage_session g) (Spent h)" by blast
  then obtain s where
    s: "stage_session g = Some s" "h = se_hash s" "se_id s \<in> se_id ` set (sessions st)"
    by (cases "stage_session g") (simp_all add: speaks_true_def)
  then obtain r where "r \<in> set (sessions st)" "se_id r = se_id s" by force
  moreover from assms(2) s(1) have "snapshot_valid st s" by (simp add: stage_ok_def)
  ultimately show ?thesis using s(2) by (auto simp: snapshot_valid_def hashes_def)
qed

lemma revoked_is_gone:
  assumes res: "resume e rnd st g = (st', p, es)" and "table_ok st" and "stage_ok st g"
    and r: "held_or_gone st r" and fresh: "se_hash r \<notin> minted es" and ev: "ev \<in> set es" "revokes ev r"
  shows "se_hash r \<notin> hashes st'"
proof
  assume "se_hash r \<in> hashes st'"
  then obtain x where x: "x \<in> set (sessions st')" "se_hash x = se_hash r" by (auto simp: hashes_def)
  have evo: "evolves st st' es" by (rule resume_evolves [OF res])
  from x fresh evolves_rows [OF evo] have old: "x \<in> set (sessions st)" by force
  with r x(2) have "x = r" by (auto simp: held_or_gone_def)
  have truth: "speaks_true st st' (stage_session g) ev" using resume_events [OF res] ev(1) by blast
  show False
  proof (cases ev)
    case (Spent h)
    with ev truth obtain s where s: "stage_session g = Some s" "se_hash r = se_hash s" "se_id s \<in> se_id ` set (sessions st)"
      and gone: "\<forall>r\<in>set (sessions st'). se_id r = se_id s \<longrightarrow> se_id r = next_session st"
      by (auto simp: revokes_def speaks_true_def split: option.splits)
    then obtain y where y: "y \<in> set (sessions st)" "se_id y = se_id s" by force
    from assms(3) s(1) have "snapshot_valid st s" by (simp add: stage_ok_def)
    with y have "y = s" by (auto simp: snapshot_valid_def)
    with y(1) s(2) r have "s = r" by (auto simp: held_or_gone_def)
    with gone x(1) \<open>x = r\<close> have "se_id r = next_session st" by blast
    moreover from assms(2) old \<open>x = r\<close> have "se_id r < next_session st" by (auto simp: table_ok_def)
    ultimately show False by simp
  next
    case (SignedOut h)
    with truth ev have "se_hash r \<notin> hashes st'" by (simp add: speaks_true_def revokes_def)
    with x show False by (metis hashes_def image_eqI)
  next
    case (Swept i)
    with truth ev x \<open>x = r\<close> show False by (auto simp: speaks_true_def revokes_def)
  qed (use ev in \<open>simp_all add: revokes_def\<close>)
qed

subsection \<open>Schedules\<close>

lemma act_cases:
  assumes "act e sys a = (sys', es)" and "sound sys"
  obtains "store sys' = store sys" "es = []" "sound sys'"
  | e' rnd k p where "k < length (in_flight sys)" "resume e' rnd (store sys) (in_flight sys ! k) = (store sys', p, es)" "sound sys'"
proof (cases a)
  case (Arrives c)
  with assms have "store sys' = store sys" "es = []" "sound sys'"
    by (auto simp: sound_def) (simp add: stage_ok_def)
  then show ?thesis by (rule that(1))
next
  case (Turn k t rnd)
  show ?thesis
  proof (cases "k < length (in_flight sys)")
    case True
    with assms(1) Turn have tn: "turn (at_time e t) rnd k sys = (sys', es)" by simp
    obtain p where "resume (at_time e t) rnd (store sys) (in_flight sys ! k) = (store sys', p, es)"
      by (rule turn_resume [OF tn]) auto
    then show ?thesis using True turn_sound(1) [OF assms(2) tn True] that(2) by blast
  next
    case False
    with assms Turn that(1) show ?thesis by simp
  qed
next
  case (Lost k)
  with assms(1) have sys': "sys' = sys\<lparr>in_flight := drop_nth k (in_flight sys)\<rparr>" and "es = []"
    by simp_all
  moreover have "sound sys'"
    using assms(2) unfolding sys' sound_def by (simp add: Ball_def) (metis set_drop_nth)
  ultimately show ?thesis using that(1) by simp
qed

lemma act_fate:
  fixes r :: staff_session
  assumes "act e sys a = (sys', es)" and "sound sys" and "se_hash r \<notin> minted es"
  shows "sound sys'"
    and "held_or_gone (store sys) r \<Longrightarrow> held_or_gone (store sys') r"
    and "se_hash r \<notin> hashes (store sys) \<Longrightarrow> se_hash r \<notin> hashes (store sys') \<and> Spent (se_hash r) \<notin> set es"
    and "held_or_gone (store sys) r \<Longrightarrow> ev \<in> set es \<Longrightarrow> revokes ev r \<Longrightarrow> se_hash r \<notin> hashes (store sys')"
    and "es = pre @ ev # post \<Longrightarrow> Spent h \<notin> set post"
proof -
  have "sound sys' \<and> (held_or_gone (store sys) r \<longrightarrow> held_or_gone (store sys') r)
    \<and> (se_hash r \<notin> hashes (store sys) \<longrightarrow> se_hash r \<notin> hashes (store sys') \<and> Spent (se_hash r) \<notin> set es)
    \<and> (held_or_gone (store sys) r \<longrightarrow> (\<forall>ev\<in>set es. revokes ev r \<longrightarrow> se_hash r \<notin> hashes (store sys')))
    \<and> (\<forall>pre ev post. es = pre @ ev # post \<longrightarrow> Spent h \<notin> set post)"
  proof (rule act_cases [OF assms(1,2)])
    fix e' rnd k p
    assume k: "k < length (in_flight sys)" and res: "resume e' rnd (store sys) (in_flight sys ! k) = (store sys', p, es)"
      and ok: "sound sys'"
    have table: "table_ok (store sys)" and stg: "stage_ok (store sys) (in_flight sys ! k)"
      using assms(2) k by (simp_all add: sound_def)
    have evo: "evolves (store sys) (store sys') es" by (rule resume_evolves [OF res])
    show ?thesis
      using ok gone_stays [OF evo assms(3)] spent_was_live [OF res stg] revoked_is_gone [OF res table stg _ assms(3)]
        resume_spends_once [OF res] by blast
  qed simp
  then show "sound sys'" "held_or_gone (store sys) r \<Longrightarrow> held_or_gone (store sys') r"
    "se_hash r \<notin> hashes (store sys) \<Longrightarrow> se_hash r \<notin> hashes (store sys') \<and> Spent (se_hash r) \<notin> set es"
    "held_or_gone (store sys) r \<Longrightarrow> ev \<in> set es \<Longrightarrow> revokes ev r \<Longrightarrow> se_hash r \<notin> hashes (store sys')"
    "es = pre @ ev # post \<Longrightarrow> Spent h \<notin> set post"
    by blast+
qed

lemma schedule_gone:
  fixes r :: staff_session
  assumes "schedule e sys as = (sys', es)" and "sound sys" and "se_hash r \<notin> minted es"
    and "se_hash r \<notin> hashes (store sys)"
  shows "se_hash r \<notin> hashes (store sys') \<and> Spent (se_hash r) \<notin> set es"
  using assms
proof (induction as arbitrary: sys es)
  case Nil
  then show ?case by simp
next
  case (Cons a as)
  obtain sys1 es1 where a: "act e sys a = (sys1, es1)" by fastforce
  obtain es2 where rest: "schedule e sys1 as = (sys', es2)" and es: "es = es1 @ es2"
    using Cons.prems(1) a by (auto simp: Let_def split: prod.splits)
  have fresh: "se_hash r \<notin> minted es1" "se_hash r \<notin> minted es2" using Cons.prems(3) es by auto
  note fate = act_fate [OF a Cons.prems(2) fresh(1)]
  have "se_hash r \<notin> hashes (store sys1) \<and> Spent (se_hash r) \<notin> set es1"
    by (rule fate(3) [OF Cons.prems(4)])
  then show ?case using Cons.IH [OF rest fate(1) fresh(2)] es by auto
qed

lemma schedule_revoked:
  fixes r :: staff_session
  assumes "schedule e sys as = (sys', es)" and "sound sys" and "se_hash r \<notin> minted es"
    and "held_or_gone (store sys) r" and "es = pre @ ev # post" and "revokes ev r"
  shows "se_hash r \<notin> hashes (store sys') \<and> Spent (se_hash r) \<notin> set post"
  using assms
proof (induction as arbitrary: sys es pre)
  case Nil
  then show ?case by simp
next
  case (Cons a as)
  obtain sys1 es1 where a: "act e sys a = (sys1, es1)" by fastforce
  obtain es2 where rest: "schedule e sys1 as = (sys', es2)" and es: "es = es1 @ es2"
    using Cons.prems(1) a by (auto simp: Let_def split: prod.splits)
  have fresh: "se_hash r \<notin> minted es1" "se_hash r \<notin> minted es2" using Cons.prems(3) es by auto
  note fate = act_fate [OF a Cons.prems(2) fresh(1)]
  consider mid where "es1 = pre @ ev # mid" "post = mid @ es2" | pre2 where "es2 = pre2 @ ev # post"
    using Cons.prems(5) es by (auto simp: append_eq_append_conv2 append_eq_Cons_conv Cons_eq_append_conv)
  then show ?case
  proof cases
    case 1
    then have "ev \<in> set es1" by simp
    then have "se_hash r \<notin> hashes (store sys1)" by (rule fate(4) [OF Cons.prems(4) _ Cons.prems(6)])
    then show ?thesis using schedule_gone [OF rest fate(1) fresh(2)] fate(5) [OF 1(1)] 1(2) by simp
  next
    case 2
    show ?thesis
      by (rule Cons.IH [OF rest fate(1) fresh(2) fate(2) [OF Cons.prems(4)] 2 Cons.prems(6)])
  qed
qed

text \<open>C6. Whatever requests arrive, in whatever order their queries run, and whichever are lost: a
  refresh token of a session that is there at the start, once it was redeemed, signed out, or its
  user's sessions were swept by a reset or a change of the password, is redeemed no more and has no
  session, as long as no later token hashes to the same value. In particular it is redeemed at most
  once.\<close>

theorem revoked_tokens_stay_dead:
  assumes "sound sys" and "r \<in> set (sessions (store sys))"
    and "schedule e sys as = (sys', pre @ ev # post)" and "revokes ev r"
    and "se_hash r \<notin> minted (pre @ ev # post)"
  shows "Spent (se_hash r) \<notin> set post \<and> se_hash r \<notin> hashes (store sys')"
proof -
  have "held_or_gone (store sys) r"
    using assms(1,2) by (auto simp: held_or_gone_def sound_def table_ok_def distinct_map dest: inj_onD)
  then show ?thesis
    using schedule_revoked [OF assms(3,1,5) _ refl assms(4)] by blast
qed

section \<open>Signing in alone\<close>

text \<open>A request no other one interrupts.\<close>

fun solo :: "nat \<Rightarrow> token_env \<Rightarrow> random \<Rightarrow> auth_store \<Rightarrow> stage \<Rightarrow> auth_store \<times> auth_reply option \<times> auth_event list" where
  "solo 0 e rnd st g = (st, None, [])"
| "solo (Suc n) e rnd st g =
     (case resume e rnd st g of
        (st', Answer r, es) \<Rightarrow> (st', Some r, es)
      | (st', Await g', es) \<Rightarrow> (case solo n e rnd st' g' of (st2, r, fs) \<Rightarrow> (st2, r, es @ fs)))"

text \<open>Queries a request still makes after the one it is about to make, at most.\<close>

fun queries_left :: "stage \<Rightarrow> nat" where
  "queries_left (LoginFind _ _) = 6"
| "queries_left (LoginCompare _ _) = 5"
| "queries_left (LoginClear _) = 4"
| "queries_left (LoginStamp _) = 3"
| "queries_left (LoginOrgs _) = 2"
| "queries_left (LoginFallback _) = 1"
| "queries_left (RefreshFind _ _) = 5"
| "queries_left (RefreshUser _ _) = 4"
| "queries_left (RefreshOrgs _ _ _) = 3"
| "queries_left (RefreshFallback _ _ _) = 2"
| "queries_left (RefreshActive _ _ _ _) = 1"
| "queries_left (SwitchUser _ _ _) = 3"
| "queries_left (SwitchPrincipal _ _ _) = 2"
| "queries_left (SwitchFind _ _ _) = 1"
| "queries_left (AskResetFind _) = 1"
| "queries_left (ResetFind _ _) = 2"
| "queries_left (ResetWrite _ _) = 1"
| "queries_left (ChangeFind _ _ _) = 3"
| "queries_left (ChangeCompare _ _ _) = 2"
| "queries_left (ChangeWrite _ _) = 1"
| "queries_left (VerifyFind _) = 1"
| "queries_left (ResendFind _) = 1"
| "queries_left _ = 0"

lemma queries_go_down:
  assumes "resume e rnd st g = (st', Await g', es)"
  shows "queries_left g' < queries_left g"
  using assms by (cases g) (auto simp: stage_steps split: option.splits if_splits list.splits rotation.splits)

lemma solo_answers: "queries_left g < n \<Longrightarrow> \<exists>r. fst (snd (solo n e rnd st g)) = Some r"
proof (induction n arbitrary: st g)
  case (Suc n)
  obtain st' p es where r: "resume e rnd st g = (st', p, es)" by (metis prod_cases3)
  show ?case
  proof (cases p)
    case (Await g')
    then have "queries_left g' < n" using queries_go_down r Suc.prems by fastforce
    then show ?thesis using Suc.IH [of g' st'] r Await by (auto split: prod.splits)
  qed (simp add: r)
qed simp

text \<open>Seven queries are enough for every request.\<close>

lemma requests_answer: "\<exists>r. fst (snd (solo 7 e rnd st (first_stage c))) = Some r"
  by (rule solo_answers) (cases c; simp)

definition login :: "token_env \<Rightarrow> random \<Rightarrow> auth_store \<Rightarrow> string \<Rightarrow> string \<Rightarrow> auth_store \<times> auth_reply option \<times> auth_event list" where
  "login e rnd st email password = solo 7 e rnd st (first_stage (CallLogin email password))"

end
