(* ===== verification/LoginLockout.thy ===== *)
theory LoginLockout
  imports SessionsProps
begin

text \<open>
  The lockout of \<open>login\<close> against guesses that come one after another: a refinement to the two columns
  it uses, the bound, what happens when the counter's column is full, and sample stores in which
  requests in flight get around it and around a password reset.
\<close>

section \<open>A list of sign-ins\<close>

fun sign_ins :: "token_env \<Rightarrow> random \<Rightarrow> auth_store \<Rightarrow> string \<Rightarrow> (int \<times> string) list \<Rightarrow> auth_store \<times> auth_event list" where
  "sign_ins e rnd st email [] = (st, [])"
| "sign_ins e rnd st email ((t, password) # gs) =
     (case login (at_time e t) rnd st email password of (st1, _, es) \<Rightarrow>
        (case sign_ins e rnd st1 email gs of (st2, fs) \<Rightarrow> (st2, es @ fs)))"

text \<open>The passwords compared with an account's hash.\<close>

definition guesses :: "nat \<Rightarrow> auth_event list \<Rightarrow> nat" where
  "guesses u es = length (filter (\<lambda>ev. ev = Compared u) es)"

section \<open>The two columns\<close>

type_synonym lock_state = "nat \<times> int option"

definition seconds :: "int \<Rightarrow> int" where
  "seconds t = t - t mod 1000"

definition lock_ms :: int where
  "lock_ms = LOCKOUT_MINUTES * 60000"

lemma lock_ms_pos [simp]: "0 < lock_ms"
  by (simp add: lock_ms_def LOCKOUT_MINUTES_def)

definition lock_open :: "lock_state \<Rightarrow> int \<Rightarrow> bool" where
  "lock_open s t \<longleftrightarrow> (case snd s of None \<Rightarrow> True | Some x \<Rightarrow> x \<le> t)"

definition lock_after :: "lock_state \<Rightarrow> int \<Rightarrow> lock_state" where
  "lock_after s t =
     (if fst s + 1 > 255 then s
      else (fst s + 1, if fst s + 1 \<ge> 5 then Some (seconds t + lock_ms) else snd s))"

fun lock_count :: "lock_state \<Rightarrow> int list \<Rightarrow> nat" where
  "lock_count s [] = 0"
| "lock_count s (t # ts) = (if lock_open s t then Suc (lock_count (lock_after s t) ts) else lock_count s ts)"

definition lock_of :: "account \<Rightarrow> lock_state" where
  "lock_of u = (ac_attempts u, ac_locked u)"

section \<open>A wrong password\<close>

lemma find_updated:
  assumes "\<And>u. P (f u) = P u"
  shows "find P (map (\<lambda>u. if u_id u = i then f u else u) us)
    = map_option (\<lambda>u. if u_id u = i then f u else u) (find P us)"
  using assms by (induction us) auto

lemma failed_update_fields [simp]:
  "u_email (failed_update e n u) = u_email u" "u_deleted (failed_update e n u) = u_deleted u"
  "u_id (failed_update e n u) = u_id u" "u_status (failed_update e n u) = u_status u"
  "ac_pass (failed_update e n u) = ac_pass u"
  by (simp_all add: failed_update_def)

lemma at_time_simps [simp]:
  "bcrypt_compare (at_time e t) = bcrypt_compare e" "same_email (at_time e t) = same_email e"
  "now_ms (at_time e t) = t" "sql_clock (at_time e t) = seconds t"
  by (simp_all add: at_time_def sql_clock_def sql_now_def staff_access_env_def auth_env.truncate_def seconds_def)

lemma findByEmail_failed:
  assumes "findByEmail e st email = Some u"
  shows "findByEmail e (update_account (u_id u) (failed_update e' n) st) email = Some (failed_update e' n u)"
  using assms by (simp add: findByEmail_def update_account_def find_updated)

lemma findByEmail_at [simp]: "findByEmail (at_time e t) = findByEmail e"
  by (simp add: findByEmail_def fun_eq_iff)

text \<open>A wrong password against a reachable account: the two columns move as \<open>lock_after\<close> says.\<close>

lemma wrong_login:
  assumes "findByEmail e st email = Some u" and "u_status u = ''active''"
    and "\<not> bcrypt_compare e password (ac_pass u)"
    and "login (at_time e t) rnd st email password = (st', r, es)"
  shows "if lock_open (lock_of u) t
         then es = [Compared (u_id u)] \<and> (\<exists>u'. findByEmail e st' email = Some u' \<and> u_id u' = u_id u
           \<and> u_status u' = ''active'' \<and> ac_pass u' = ac_pass u \<and> lock_of u' = lock_after (lock_of u) t)
           \<and> (ac_attempts u = 255 \<longrightarrow> st' = st)
         else st' = st \<and> es = []"
proof (cases "lock_open (lock_of u) t")
  case False
  then have "(case ac_locked u of None \<Rightarrow> False | Some x \<Rightarrow> x > t)"
    by (auto simp: lock_open_def lock_of_def split: option.splits)
  then have "login_find (at_time e t) st email password
      = Answer (Failed (Refused (Unauthorized ''Account temporarily locked due to too many failed login attempts'')))"
    using assms(1,2) by (auto simp: login_find_def refuse_def split: option.splits)
  then have "login (at_time e t) rnd st email password = (st, Some (Failed (Refused (Unauthorized
      ''Account temporarily locked due to too many failed login attempts''))), [])"
    by (simp add: login_def numeral_eq_Suc no_event_def)
  with assms(4) False show ?thesis by simp
next
  case True
  then have "\<not> (case ac_locked u of None \<Rightarrow> False | Some x \<Rightarrow> x > t)"
    by (auto simp: lock_open_def lock_of_def split: option.splits)
  then have found: "login_find (at_time e t) st email password = Await (LoginCompare u password)"
    using assms(1,2) by (auto simp: login_find_def split: option.splits)
  have compare: "login_compare (at_time e t) u password = Await (LoginCount u)"
    using assms(3) by (simp add: login_compare_def)
  obtain a where "login_count (at_time e t) st u = ((if ac_attempts u + 1 > 255 then st
      else update_account (u_id u) (failed_update (at_time e t) (ac_attempts u + 1)) st), Answer a)"
    by (cases "ac_attempts u + 1 > 255") (auto simp: login_count_def Let_def refuse_def)
  then have "login (at_time e t) rnd st email password = ((if ac_attempts u + 1 > 255 then st
      else update_account (u_id u) (failed_update (at_time e t) (ac_attempts u + 1)) st), Some a, [Compared (u_id u)])"
    by (simp add: login_def numeral_eq_Suc no_event_def found compare del: not_less)
  then have got: "es = [Compared (u_id u)]"
    "st' = (if ac_attempts u + 1 > 255 then st
            else update_account (u_id u) (failed_update (at_time e t) (ac_attempts u + 1)) st)"
    using assms(4) by simp_all
  have "lock_of (failed_update (at_time e t) (ac_attempts u + 1) u) = lock_after (lock_of u) t" if "ac_attempts u + 1 \<le> 255"
    using that by (simp add: lock_of_def failed_update_def lock_after_def MAX_LOGIN_ATTEMPTS_def lock_ms_def)
  moreover have "lock_of u = lock_after (lock_of u) t" if "ac_attempts u + 1 > 255"
    using that by (simp add: lock_of_def lock_after_def)
  ultimately show ?thesis
    using True got assms(1,2) findByEmail_failed [OF assms(1)] by auto
qed

text \<open>The whole_seconds list refines the count on the two columns.\<close>

lemma sign_ins_refine:
  assumes "findByEmail e st email = Some u" and "u_status u = ''active''"
    and "\<forall>(t, password)\<in>set gs. \<not> bcrypt_compare e password (ac_pass u)"
  shows "guesses (u_id u) (snd (sign_ins e rnd st email gs)) = lock_count (lock_of u) (map fst gs)"
  using assms
proof (induction gs arbitrary: st u)
  case Nil
  then show ?case by (simp add: guesses_def)
next
  case (Cons g gs)
  obtain t password where g: "g = (t, password)" by fastforce
  obtain st1 r es where l: "login (at_time e t) rnd st email password = (st1, r, es)" by (metis prod_cases3)
  have wrong: "\<not> bcrypt_compare e password (ac_pass u)" using Cons.prems(3) g by simp
  note w = wrong_login [OF Cons.prems(1,2) wrong l]
  show ?case
  proof (cases "lock_open (lock_of u) t")
    case True
    with w obtain u' where es: "es = [Compared (u_id u)]" and u': "findByEmail e st1 email = Some u'" "u_id u' = u_id u"
        "u_status u' = ''active''" "ac_pass u' = ac_pass u" "lock_of u' = lock_after (lock_of u) t"
      by auto
    have "guesses (u_id u') (snd (sign_ins e rnd st1 email gs)) = lock_count (lock_of u') (map fst gs)"
      using Cons.prems(3) u' by (intro Cons.IH) auto
    then show ?thesis using True u'(2,5) es l by (auto simp: g guesses_def split: prod.splits)
  next
    case False
    with w have "st1 = st" "es = []" by auto
    moreover have "guesses (u_id u) (snd (sign_ins e rnd st email gs)) = lock_count (lock_of u) (map fst gs)"
      using Cons.prems by (intro Cons.IH) auto
    ultimately show ?thesis using False l by (simp add: g guesses_def split: prod.splits)
  qed
qed

section \<open>The bound\<close>

definition locked_bound :: "int \<Rightarrow> int \<Rightarrow> nat" where
  "locked_bound l t = (if t < l then 0 else 1 + nat ((t - l) div lock_ms))"

definition whole_seconds :: "int \<Rightarrow> bool" where
  "whole_seconds t \<longleftrightarrow> t mod 1000 = 0"

lemma seconds_eq: "seconds t = 1000 * (t div 1000)"
  by (simp add: seconds_def minus_mod_eq_mult_div)

lemma whole_lock: "whole_seconds (seconds t + lock_ms)"
proof -
  have "seconds t + lock_ms = 1000 * (t div 1000 + 900)"
    by (simp add: seconds_eq lock_ms_def LOCKOUT_MINUTES_def)
  then show ?thesis by (simp add: whole_seconds_def)
qed

lemma seconds_mono:
  assumes "whole_seconds a" and "a \<le> t"
  shows "a \<le> seconds t"
proof -
  have "a = 1000 * (a div 1000)"
    using assms(1) unfolding whole_seconds_def by (metis minus_mod_eq_mult_div diff_zero)
  moreover have "a div 1000 \<le> t div 1000"
    using assms(2) by (rule zdiv_mono1) simp
  ultimately show ?thesis unfolding seconds_eq by linarith
qed

lemma locked_bound_step:
  assumes "l \<le> s" and "s \<le> t"
  shows "Suc (locked_bound (s + lock_ms) t) \<le> locked_bound l t"
proof -
  have nz: "lock_ms \<noteq> 0" using lock_ms_pos by linarith
  have "t - s = (t - (s + lock_ms)) + lock_ms" by simp
  then have one: "(t - s) div lock_ms = (t - (s + lock_ms)) div lock_ms + 1"
    using nz by (metis div_add_self2)
  have mono: "(t - s) div lock_ms \<le> (t - l) div lock_ms" using assms(1) by (intro zdiv_mono1) simp_all
  have pos: "0 \<le> (t - l) div lock_ms" using assms by (intro pos_imp_zdiv_nonneg_iff [THEN iffD2]) simp_all
  show ?thesis
  proof (cases "t < s + lock_ms")
    case True
    then show ?thesis using pos assms by (simp add: locked_bound_def)
  next
    case False
    then have "0 \<le> (t - (s + lock_ms)) div lock_ms" by (intro pos_imp_zdiv_nonneg_iff [THEN iffD2]) simp_all
    then show ?thesis using False one mono assms by (simp add: locked_bound_def)
  qed
qed

lemma seconds_le: "seconds t \<le> t"
  using pos_mod_sign [of 1000 t] by (simp add: seconds_def)

lemma lock_count_locked:
  assumes "sorted ts" and "\<forall>t\<in>set ts. t \<le> T" and "5 \<le> n" and "whole_seconds l" and "n + locked_bound l T \<le> 255"
  shows "lock_count (n, Some l) ts \<le> locked_bound l T"
  using assms
proof (induction ts arbitrary: n l)
  case Nil
  then show ?case by simp
next
  case (Cons t ts)
  show ?case
  proof (cases "l \<le> t")
    case False
    then show ?thesis using Cons.IH [of n l] Cons.prems by (simp add: lock_open_def)
  next
    case True
    have s: "l \<le> seconds t" "seconds t \<le> T"
      using seconds_mono [OF Cons.prems(4) True] seconds_le [of t] Cons.prems(2) by auto
    note step = locked_bound_step [OF s]
    have n: "n + 1 + locked_bound (seconds t + lock_ms) T \<le> 255" using step Cons.prems(5) by simp
    note mod = whole_lock [of t]
    have "lock_count (n + 1, Some (seconds t + lock_ms)) ts \<le> locked_bound (seconds t + lock_ms) T"
      by (rule Cons.IH [OF _ _ _ mod n]) (use Cons.prems in auto)
    moreover have "lock_after (n, Some l) t = (n + 1, Some (seconds t + lock_ms))"
      using n Cons.prems(3) by (simp add: lock_after_def)
    ultimately show ?thesis using True step by (simp add: lock_open_def)
  qed
qed

lemma lock_count_open:
  assumes "sorted ts" and "\<forall>t\<in>set ts. s0 \<le> seconds t \<and> t \<le> T" and "n < 5" and "s0 \<le> T"
    and "(T - s0) div lock_ms \<le> 250"
  shows "lock_count (n, None) ts \<le> (5 - n) + nat ((T - s0) div lock_ms)"
  using assms
proof (induction ts arbitrary: n)
  case Nil
  then show ?case by simp
next
  case (Cons t ts)
  show ?case
  proof (cases "n + 1 < 5")
    case True
    then show ?thesis using Cons.IH [of "n + 1"] Cons.prems by (simp add: lock_open_def lock_after_def)
  next
    case False
    then have n: "n = 4" using Cons.prems(3) by simp
    have s: "s0 \<le> seconds t" "seconds t \<le> T" using seconds_le [of t] Cons.prems(2) by auto
    have step: "Suc (locked_bound (seconds t + lock_ms) T) \<le> locked_bound s0 T" by (rule locked_bound_step [OF s])
    have bound: "locked_bound s0 T = 1 + nat ((T - s0) div lock_ms)" using Cons.prems(4) by (simp add: locked_bound_def)
    note mod = whole_lock [of t]
    have "5 + locked_bound (seconds t + lock_ms) T \<le> 255" using step bound Cons.prems(5) by simp
    then have "lock_count (5, Some (seconds t + lock_ms)) ts \<le> locked_bound (seconds t + lock_ms) T"
      by (intro lock_count_locked) (use Cons.prems mod in auto)
    then show ?thesis using step bound by (simp add: lock_open_def lock_after_def n)
  qed
qed

section \<open>The properties\<close>

text \<open>C33. Sign-ins that run one after another, all with wrong passwords, against an active account
  that is not locked and has no failures: at most five passwords are compared, and one more for each
  full fifteen minutes since, over the first two and a half days.\<close>

theorem lockout_bounds_guesses:
  assumes "findByEmail e st email = Some u" and "u_status u = ''active''"
    and "ac_attempts u = 0" and "ac_locked u = None"
    and "\<forall>(t, password)\<in>set gs. \<not> bcrypt_compare e password (ac_pass u)"
    and "sorted (map fst gs)" and "\<forall>t\<in>set (map fst gs). t0 \<le> t \<and> t \<le> t1" and "t0 \<le> t1"
    and "(t1 - seconds t0) div lock_ms \<le> 250"
  shows "guesses (u_id u) (snd (sign_ins e rnd st email gs)) \<le> 5 + nat ((t1 - seconds t0) div lock_ms)"
proof -
  have "seconds t0 \<le> seconds t" if "t0 \<le> t" for t
    using that zdiv_mono1 [of t0 t 1000] by (simp add: seconds_eq)
  then have "lock_count (0, None) (map fst gs) \<le> (5 - 0) + nat ((t1 - seconds t0) div lock_ms)"
    using assms(6-9) seconds_le [of t0] by (intro lock_count_open) auto
  then show ?thesis
    using assms(3,4) sign_ins_refine [OF assms(1,2,5)] by (simp add: lock_of_def)
qed

text \<open>Once 255 failures are counted the UPDATE of a further one leaves the column's range and is
  refused, so that the lock is never renewed: after it has run out, every guess is compared.\<close>

theorem full_counter_stops_locking:
  assumes "findByEmail e st email = Some u" and "u_status u = ''active''" and "ac_attempts u = 255"
    and "\<forall>(t, password)\<in>set gs. \<not> bcrypt_compare e password (ac_pass u) \<and> lock_open (lock_of u) t"
  shows "sign_ins e rnd st email gs = (st, replicate (length gs) (Compared (u_id u)))"
  using assms(4)
proof (induction gs)
  case (Cons g gs)
  obtain t password where g: "g = (t, password)" by fastforce
  obtain st1 r es where l: "login (at_time e t) rnd st email password = (st1, r, es)" by (metis prod_cases3)
  have "st1 = st" "es = [Compared (u_id u)]"
    using wrong_login [OF assms(1,2) _ l] Cons.prems assms(3) by (auto simp: g)
  then show ?case using Cons l by (simp add: g)
qed simp

section \<open>A sample store\<close>

definition sample_token_env :: token_env where
  "sample_token_env = \<lparr>operator_ids = [], sha256_hex = (\<lambda>s. CHR ''h'' # s), jwt_verify = (\<lambda>_. None), json_parse = (\<lambda>_. None),
     now_ms = 0, bcrypt_hash = (\<lambda>p _. p), bcrypt_compare = (\<lambda>p h. p = h), same_email = (=), refresh_seconds = 600\<rparr>"

definition sample_account :: "nat \<Rightarrow> int option \<Rightarrow> account" where
  "sample_account n l = \<lparr>u_id = 7, u_email = ''a@x'', u_role = ''support'', u_org = Some 2, u_group = None,
     u_status = ''active'', u_operator = False, u_deleted = False, ac_pass = ''oldsecret'', ac_attempts = n, ac_locked = l,
     ac_reset = Some ''hlink'', ac_reset_until = Some 5000, ac_verify = None, ac_verified = None, ac_login_at = None\<rparr>"

definition sample_session :: staff_session where
  "sample_session = \<lparr>se_id = 3, se_user = 7, se_hash = ''hold'', se_family = ''fam'', se_expires = 90000\<rparr>"

definition sample_auth_store :: "nat \<Rightarrow> int option \<Rightarrow> auth_store" where
  "sample_auth_store n l = \<lparr>accounts = [sample_account n l], sessions = [sample_session], next_session = 4,
     control = \<lparr>db_users = [], db_roles = [], db_members = [\<lparr>m_user = 7, m_org = 2, m_role = ''support'', m_deleted = False\<rparr>],
       db_orgs = [\<lparr>o_id = 2, o_name = ''Acme'', o_status = ''active'', o_deleted = False\<rparr>], db_grants = [], db_tokens = []\<rparr>\<rparr>"

definition sample_auth_system :: auth_system where
  "sample_auth_system = \<lparr>store = sample_auth_store 0 None, in_flight = []\<rparr>"

text \<open>Two tabs refresh with the same token, query by query.\<close>

definition two_tabs :: "auth_action list" where
  "two_tabs = [Arrives (CallRefresh ''old'' None), Arrives (CallRefresh ''old'' None),
     Turn 0 1000 ([], []), Turn 1 1000 ([], []), Turn 0 1000 ([], []), Turn 1 1000 ([], []),
     Turn 0 1000 ([], []), Turn 1 1000 ([], []), Turn 0 1000 ([], []), Turn 1 1000 ([], []),
     Turn 0 1000 (''new'', []), Turn 0 1000 (''other'', [])]"

lemma two_tabs_run:
  "snd (schedule sample_token_env sample_auth_system two_tabs) = [Spent ''hold'', Minted 7 ''hnew'']"
  "in_flight (fst (schedule sample_token_env sample_auth_system two_tabs)) = []"
  by code_simp+

lemma sample_sound: "sound sample_auth_system"
  by (simp add: sound_def table_ok_def sample_auth_system_def sample_auth_store_def sample_session_def)

theorem revoked_tokens_stay_dead_witness:
  "Spent ''hold'' \<notin> set [Minted 7 ''hnew''] \<and> ''hold'' \<notin> hashes (store (fst (schedule sample_token_env sample_auth_system two_tabs)))"
proof -
  have run: "schedule sample_token_env sample_auth_system two_tabs
      = (fst (schedule sample_token_env sample_auth_system two_tabs), [] @ Spent ''hold'' # [Minted 7 ''hnew''])"
    using two_tabs_run(1) by (metis append_Nil prod.collapse)
  have there: "sample_session \<in> set (sessions (store sample_auth_system))"
    by (simp add: sample_auth_system_def sample_auth_store_def)
  show ?thesis
    using revoked_tokens_stay_dead [OF sample_sound there run]
    by (simp add: revokes_def sample_session_def)
qed

definition sample_guesses :: "(int \<times> string) list" where
  "sample_guesses = [(1000, ''a''), (1100, ''b''), (1200, ''c''), (1300, ''d''), (1400, ''e''), (1500, ''f''), (1600, ''g'')]"

lemma sample_account_found: "findByEmail sample_token_env (sample_auth_store n l) ''a@x'' = Some (sample_account n l)"
  by (simp add: findByEmail_def sample_auth_store_def sample_account_def sample_token_env_def)

theorem lockout_bounds_guesses_witness:
  "guesses 7 (snd (sign_ins sample_token_env ([], []) (sample_auth_store 0 None) ''a@x'' sample_guesses)) \<le> 5"
proof -
  have "(1600 - seconds 1000) div lock_ms = 0"
    by (simp add: seconds_def lock_ms_def LOCKOUT_MINUTES_def)
  then show ?thesis
    using lockout_bounds_guesses [OF sample_account_found [of 0 None], where gs = sample_guesses and ?t0.0 = 1000 and ?t1.0 = 1600 and rnd = "([], [])"]
    by (simp add: sample_account_def sample_guesses_def sample_token_env_def)
qed

theorem full_counter_stops_locking_witness:
  "sign_ins sample_token_env ([], []) (sample_auth_store 255 (Some 900)) ''a@x'' sample_guesses
   = (sample_auth_store 255 (Some 900), replicate 7 (Compared 7))"
proof -
  have wrong: "\<forall>(t, password)\<in>set sample_guesses. \<not> bcrypt_compare sample_token_env password (ac_pass (sample_account 255 (Some 900)))
      \<and> lock_open (lock_of (sample_account 255 (Some 900))) t"
    by (simp add: sample_account_def sample_guesses_def sample_token_env_def lock_open_def lock_of_def)
  have "u_status (sample_account 255 (Some 900)) = ''active''" "ac_attempts (sample_account 255 (Some 900)) = 255"
    "u_id (sample_account 255 (Some 900)) = 7" "length sample_guesses = 7"
    by (simp_all add: sample_account_def sample_guesses_def)
  then show ?thesis
    using full_counter_stops_locking [OF sample_account_found _ _ wrong] by simp
qed

section \<open>Requests in flight\<close>

text \<open>A sign-in that read the old password before a reset finishes after the reset's sweep: the new
  session of the old password stays.\<close>

definition late_login :: "auth_action list" where
  "late_login = [Arrives (CallLogin ''a@x'' ''oldsecret''), Turn 0 1000 ([], []),
     Arrives (CallReset ''link'' ''newsecret''), Turn 1 1000 ([], []), Turn 1 1000 ([], ''salt''), Turn 1 1000 ([], []),
     Turn 0 1000 ([], []), Turn 0 1000 ([], []), Turn 0 1000 ([], []), Turn 0 1000 (''sneak'', [])]"

lemma late_login_survives_reset:
  "snd (schedule sample_token_env sample_auth_system late_login) = [Swept 7, Compared 7, Minted 7 ''hsneak'']"
  "map se_hash (sessions (store (fst (schedule sample_token_env sample_auth_system late_login)))) = [''hsneak'']"
  by code_simp+

text \<open>Guesses that have read the row at the same time each write the same count: the counter moves by
  one, whatever their number.\<close>

lemma parallel_guesses_count_once:
  assumes "ac_attempts u < 4"
  shows "accounts (((\<lambda>s. fst (login_count e s u)) ^^ Suc n) st)
    = map (\<lambda>v. if u_id v = u_id u then v\<lparr>ac_attempts := Suc (ac_attempts u)\<rparr> else v) (accounts st)"
proof -
  have one: "accounts (fst (login_count e s u))
    = map (\<lambda>v. if u_id v = u_id u then v\<lparr>ac_attempts := Suc (ac_attempts u)\<rparr> else v) (accounts s)" for s
    using assms by (simp add: login_count_def Let_def update_account_def failed_update_def MAX_LOGIN_ATTEMPTS_def)
  show ?thesis
    by (induction n) (simp_all add: one)
qed

end
