(* ===== verification/JobQueue.thy ===== *)
theory JobQueue
  imports JsText
begin

text \<open>
  The in-process job queue (\<open>services/jobQueueService.js\<close>, class \<open>InProcessQueue\<close>), which runs when no
  Redis is configured. The fields of the class are a record; around it stand the turns of the event
  loop that are still to come: the \<open>setImmediate\<close> callbacks and the promises of the handlers in
  flight. A step is one synchronous run of the loop: a call of \<open>add\<close>, \<open>process\<close> or \<open>close\<close>, one
  immediate, or the \<open>finally\<close> of one handler, whatever the handler did. A handler is an argument of
  any type: nothing looks into it. The branch on BullMQ hands everything to that package.
\<close>

section \<open>State\<close>

record 'h job =
  job_id :: string
  job_name :: string
  job_handler :: 'h

text \<open>\<open>maxConcurrency\<close> is \<open>parseInt\<close> of a variable; \<open>None\<close> is NaN.\<close>

record 'h job_queue =
  handlers :: "string \<Rightarrow> 'h option"
  running :: nat
  maxConcurrency :: "int option"
  waiting :: "'h job list"
  activeByName :: "string \<Rightarrow> nat option"
  knownJobIds :: "string set"
  drainScheduled :: bool
  maxPending :: nat
  trapForwardingCapacity :: nat

definition clamp_setting :: "int \<Rightarrow> int \<Rightarrow> int \<Rightarrow> string option \<Rightarrow> nat" where
  "clamp_setting low high dflt v =
     (let n = (case parse_int10 (case v of None \<Rightarrow> [] | Some s \<Rightarrow> s) of None \<Rightarrow> dflt | Some n \<Rightarrow> if n = 0 then dflt else n)
      in nat (max low (min high n)))"

text \<open>\<open>process.env.X || '5'\<close>: an empty variable counts as missing.\<close>

definition concurrency_setting :: "string option \<Rightarrow> int option" where
  "concurrency_setting v = (case v of None \<Rightarrow> Some 5 | Some s \<Rightarrow> if s = [] then Some 5 else parse_int10 s)"

definition newQueue :: "string option \<Rightarrow> string option \<Rightarrow> string option \<Rightarrow> 'h job_queue" where
  "newQueue concurrency pendingMax trapMax =
     \<lparr>handlers = (\<lambda>_. None), running = 0, maxConcurrency = concurrency_setting concurrency, waiting = [],
      activeByName = (\<lambda>_. None), knownJobIds = {}, drainScheduled = False,
      maxPending = clamp_setting 10 10000 1000 pendingMax,
      trapForwardingCapacity = clamp_setting 10 1000 100 trapMax\<rparr>"

record 'h queue_world =
  jobs :: "'h job_queue"
  immediates :: nat
  flying :: "'h job list"

section \<open>Operations\<close>

definition scheduleDrain :: "'h queue_world \<Rightarrow> 'h queue_world" where
  "scheduleDrain w =
     (if drainScheduled (jobs w) then w
      else w\<lparr>jobs := (jobs w)\<lparr>drainScheduled := True\<rparr>, immediates := Suc (immediates w)\<rparr>)"

datatype add_result = NoHandler | Deduplicated string | DurablePending | CapacityError | Queued string

definition name_count :: "string \<Rightarrow> 'h job list \<Rightarrow> nat" where
  "name_count name js = length (filter (\<lambda>j. job_name j = name) js)"

definition or_zero_count :: "nat option \<Rightarrow> nat" where
  "or_zero_count x = (case x of None \<Rightarrow> 0 | Some n \<Rightarrow> n)"

definition pendingForName :: "string \<Rightarrow> 'h job_queue \<Rightarrow> nat" where
  "pendingForName name q = or_zero_count (activeByName q name) + name_count name (waiting q)"

definition capacity :: "string \<Rightarrow> 'h job_queue \<Rightarrow> nat" where
  "capacity name q = (if name = ''trap-forwarding-delivery'' then trapForwardingCapacity q else maxPending q)"

definition durable_name :: "string \<Rightarrow> bool" where
  "durable_name name \<longleftrightarrow> name = ''trap-forwarding-delivery'' \<or> name = ''webhook-delivery''"

text \<open>\<open>generated\<close> is the id made of the clock and a random number, used when none was asked for.\<close>

definition requested_id :: "string option \<Rightarrow> string option" where
  "requested_id r = (if r = Some [] then None else r)"

definition admit_job :: "string \<Rightarrow> string \<Rightarrow> 'h \<Rightarrow> 'h queue_world \<Rightarrow> 'h queue_world \<times> add_result" where
  "admit_job i name h w =
     (let q = jobs w in
      if length (waiting q) \<ge> maxPending q \<or> pendingForName name q \<ge> capacity name q
      then (w, if durable_name name then DurablePending else CapacityError)
      else (scheduleDrain (w\<lparr>jobs := q\<lparr>knownJobIds := insert i (knownJobIds q),
              waiting := waiting q @ [\<lparr>job_id = i, job_name = name, job_handler = h\<rparr>]\<rparr>\<rparr>), Queued i))"

definition add_job :: "string \<Rightarrow> string option \<Rightarrow> string \<Rightarrow> 'h queue_world \<Rightarrow> 'h queue_world \<times> add_result" where
  "add_job name requested generated w =
     (case handlers (jobs w) name of
        None \<Rightarrow> (w, NoHandler)
      | Some h \<Rightarrow>
          (case requested_id requested of
             Some i \<Rightarrow> if i \<in> knownJobIds (jobs w) then (w, Deduplicated i) else admit_job i name h w
           | None \<Rightarrow> admit_job generated name h w))"

definition below_limit :: "nat \<Rightarrow> int option \<Rightarrow> bool" where
  "below_limit n limit = (case limit of None \<Rightarrow> False | Some m \<Rightarrow> int n < m)"

definition start_job :: "'h job \<Rightarrow> 'h queue_world \<Rightarrow> 'h queue_world" where
  "start_job j w =
     (let q = jobs w in
      w\<lparr>jobs := q\<lparr>waiting := tl (waiting q), running := Suc (running q),
          activeByName := (activeByName q)(job_name j \<mapsto> or_zero_count (activeByName q (job_name j)) + 1)\<rparr>,
        flying := flying w @ [j]\<rparr>)"

function drain :: "'h queue_world \<Rightarrow> 'h queue_world" where
  "drain w =
     (if below_limit (running (jobs w)) (maxConcurrency (jobs w)) \<and> waiting (jobs w) \<noteq> []
      then drain (start_job (hd (waiting (jobs w))) w) else w)"
  by pat_completeness auto

termination drain
  by (relation "measure (\<lambda>w. length (waiting (jobs w)))") (auto simp: start_job_def Let_def)

declare drain.simps [simp del]

definition run_immediate :: "'h queue_world \<Rightarrow> 'h queue_world" where
  "run_immediate w =
     drain (w\<lparr>jobs := (jobs w)\<lparr>drainScheduled := False\<rparr>, immediates := immediates w - 1\<rparr>)"

text \<open>The \<open>finally\<close> of a job. \<open>remaining\<close> is one less than the count, or than 1 where there is none.\<close>

definition settle_job :: "'h job \<Rightarrow> 'h queue_world \<Rightarrow> 'h queue_world" where
  "settle_job j w =
     (let q = jobs w;
          n = (case activeByName q (job_name j) of None \<Rightarrow> 1 | Some n \<Rightarrow> if n = 0 then 1 else n);
          remaining = n - 1 in
      scheduleDrain (w\<lparr>jobs := q\<lparr>knownJobIds := knownJobIds q - {job_id j}, running := running q - 1,
          activeByName := (if remaining > 0 then (activeByName q)(job_name j \<mapsto> remaining)
                           else (activeByName q)(job_name j := None))\<rparr>,
        flying := remove1 j (flying w)\<rparr>))"

definition process_name :: "string \<Rightarrow> 'h \<Rightarrow> 'h queue_world \<Rightarrow> 'h queue_world" where
  "process_name name h w = w\<lparr>jobs := (jobs w)\<lparr>handlers := (handlers (jobs w))(name \<mapsto> h)\<rparr>\<rparr>"

definition close_queue :: "'h queue_world \<Rightarrow> 'h queue_world" where
  "close_queue w = w\<lparr>jobs := (jobs w)\<lparr>handlers := (\<lambda>_. None), waiting := [], knownJobIds := {}\<rparr>\<rparr>"

definition getStats :: "'h queue_world \<Rightarrow> (string \<times> nat) list \<times> nat \<times> nat" where
  "getStats w =
     (let q = jobs w in
      (map (\<lambda>n. (n, name_count n (waiting q))) (rev (remdups (rev (map job_name (waiting q))))), running q, length (waiting q)))"

section \<open>Steps of the loop\<close>

datatype 'h queue_label = Accepted string | Declined | Ran "'h job list" | Settled "'h job" | Registered | Closed_down

inductive queue_step :: "'h queue_world \<Rightarrow> 'h queue_label \<Rightarrow> 'h queue_world \<Rightarrow> bool" where
  step_add: "add_job name requested generated w = (w', Queued i) \<Longrightarrow> generated \<notin> knownJobIds (jobs w)
    \<Longrightarrow> queue_step w (Accepted i) w'"
| step_decline: "add_job name requested generated w = (w', r) \<Longrightarrow> (\<forall>i. r \<noteq> Queued i) \<Longrightarrow> queue_step w Declined w'"
| step_immediate: "0 < immediates w \<Longrightarrow> w' = run_immediate w
    \<Longrightarrow> queue_step w (Ran (drop (length (flying w)) (flying w'))) w'"
| step_settle: "j \<in> set (flying w) \<Longrightarrow> w' = settle_job j w \<Longrightarrow> queue_step w (Settled j) w'"
| step_process: "w' = process_name name h w \<Longrightarrow> queue_step w Registered w'"
| step_close: "w' = close_queue w \<Longrightarrow> queue_step w Closed_down w'"

text \<open>A history of the queue, labels in order.\<close>

inductive queue_run :: "'h queue_world \<Rightarrow> 'h queue_label list \<Rightarrow> 'h queue_world \<Rightarrow> bool" where
  run_nil: "queue_run w [] w"
| run_snoc: "queue_run w ls w1 \<Longrightarrow> queue_step w1 l w2 \<Longrightarrow> queue_run w (ls @ [l]) w2"

definition fresh_world :: "'h job_queue \<Rightarrow> 'h queue_world" where
  "fresh_world q = \<lparr>jobs = q, immediates = 0, flying = []\<rparr>"

end
