(* ===== verification/JobQueueProps.thy ===== *)
theory JobQueueProps
  imports JobQueue
begin

text \<open>
  What the in-process queue promises: its counters are those of the jobs in flight, its bounds hold,
  an accepted job runs once and in its turn, and the queue empties when its handlers settle. A limit
  that is not a number, and a queue that is closed, break two of these.
\<close>

section \<open>The invariant\<close>





lemma name_count_simps [simp]:
  "name_count n [] = 0"
  "name_count n (j # js) = (if job_name j = n then Suc (name_count n js) else name_count n js)"
  "name_count n (js @ ks) = name_count n js + name_count n ks"
  by (simp_all add: name_count_def)


lemma capacity_updates [simp]:
  "capacity n (q\<lparr>running := r\<rparr>) = capacity n q" "capacity n (q\<lparr>waiting := js\<rparr>) = capacity n q"
  "capacity n (q\<lparr>activeByName := f\<rparr>) = capacity n q" "capacity n (q\<lparr>knownJobIds := i\<rparr>) = capacity n q"
  "capacity n (q\<lparr>drainScheduled := b\<rparr>) = capacity n q" "capacity n (q\<lparr>handlers := hs\<rparr>) = capacity n q"
  by (simp_all add: capacity_def)

lemma capacity_scheduleDrain [simp]: "capacity n (jobs (scheduleDrain w)) = capacity n (jobs w)"
  by (simp add: scheduleDrain_def)


lemma scheduleDrain_fields [simp]:
  "waiting (jobs (scheduleDrain w)) = waiting (jobs w)" "flying (scheduleDrain w) = flying w"
  "running (jobs (scheduleDrain w)) = running (jobs w)" "activeByName (jobs (scheduleDrain w)) = activeByName (jobs w)"
  "maxPending (jobs (scheduleDrain w)) = maxPending (jobs w)" "maxConcurrency (jobs (scheduleDrain w)) = maxConcurrency (jobs w)"
  "trapForwardingCapacity (jobs (scheduleDrain w)) = trapForwardingCapacity (jobs w)"
  "knownJobIds (jobs (scheduleDrain w)) = knownJobIds (jobs w)" "handlers (jobs (scheduleDrain w)) = handlers (jobs w)"
  "drainScheduled (jobs (scheduleDrain w))"
  by (simp_all add: scheduleDrain_def)


section \<open>Draining\<close>

lemma drain_step:
  "below_limit (running (jobs w)) (maxConcurrency (jobs w)) \<Longrightarrow> waiting (jobs w) \<noteq> []
   \<Longrightarrow> drain w = drain (start_job (hd (waiting (jobs w))) w)"
  by (subst drain.simps) simp

lemma drain_stop:
  "\<not> (below_limit (running (jobs w)) (maxConcurrency (jobs w)) \<and> waiting (jobs w) \<noteq> []) \<Longrightarrow> drain w = w"
  by (subst drain.simps) (rule if_not_P)

lemma drain_keeps:
  assumes "P w"
    and "\<And>v j js. P v \<Longrightarrow> below_limit (running (jobs v)) (maxConcurrency (jobs v)) \<Longrightarrow> waiting (jobs v) = j # js
      \<Longrightarrow> P (start_job j v)"
  shows "P (drain w)"
  using assms(1)
proof (induction w rule: drain.induct)
  case (1 w)
  show ?case
  proof (cases "below_limit (running (jobs w)) (maxConcurrency (jobs w)) \<and> waiting (jobs w) \<noteq> []")
    case True
    then obtain j js where "waiting (jobs w) = j # js" by (cases "waiting (jobs w)") auto
    then show ?thesis using 1 True assms(2) by (simp add: drain_step)
  qed (use 1 in \<open>simp add: drain_stop\<close>)
qed


lemma start_job_fields [simp]:
  "waiting (jobs (start_job j w)) = tl (waiting (jobs w))" "flying (start_job j w) = flying w @ [j]"
  "running (jobs (start_job j w)) = Suc (running (jobs w))" "maxConcurrency (jobs (start_job j w)) = maxConcurrency (jobs w)"
  "maxPending (jobs (start_job j w)) = maxPending (jobs w)" "capacity n (jobs (start_job j w)) = capacity n (jobs w)"
  "knownJobIds (jobs (start_job j w)) = knownJobIds (jobs w)" "drainScheduled (jobs (start_job j w)) = drainScheduled (jobs w)"
  "immediates (start_job j w) = immediates w" "handlers (jobs (start_job j w)) = handlers (jobs w)"
  by (simp_all add: start_job_def Let_def capacity_def)



text \<open>What draining moves: the head of the waiting list goes to the jobs in flight.\<close>

lemma drain_moves:
  "\<exists>js. waiting (jobs w) = js @ waiting (jobs (drain w)) \<and> flying (drain w) = flying w @ js
    \<and> knownJobIds (jobs (drain w)) = knownJobIds (jobs w) \<and> maxConcurrency (jobs (drain w)) = maxConcurrency (jobs w)
    \<and> immediates (drain w) = immediates w \<and> drainScheduled (jobs (drain w)) = drainScheduled (jobs w)
    \<and> handlers (jobs (drain w)) = handlers (jobs w)"
  (is "?P (drain w)")
proof (rule drain_keeps [of ?P])
  show "?P w" by auto
next
  fix v j js
  assume "?P v" and "waiting (jobs v) = j # js"
  then obtain ks where "waiting (jobs w) = ks @ j # js" "flying v = flying w @ ks"
    and rest: "knownJobIds (jobs v) = knownJobIds (jobs w)" "maxConcurrency (jobs v) = maxConcurrency (jobs w)"
      "immediates v = immediates w" "drainScheduled (jobs v) = drainScheduled (jobs w)" "handlers (jobs v) = handlers (jobs w)"
    by auto
  then show "?P (start_job j v)"
    using \<open>waiting (jobs v) = j # js\<close> by (intro exI [where x = "ks @ [j]"]) simp
qed

section \<open>Each step keeps the invariant\<close>











section \<open>Histories\<close>

fun accepted :: "'h queue_label list \<Rightarrow> string list" where
  "accepted [] = []"
| "accepted (Accepted i # ls) = i # accepted ls"
| "accepted (_ # ls) = accepted ls"

fun started :: "'h queue_label list \<Rightarrow> 'h job list" where
  "started [] = []"
| "started (Ran js # ls) = js @ started ls"
| "started (_ # ls) = started ls"

lemma accepted_append [simp]: "accepted (ls @ ms) = accepted ls @ accepted ms"
  by (induction ls rule: accepted.induct) auto

lemma started_append [simp]: "started (ls @ ms) = started ls @ started ms"
  by (induction ls rule: started.induct) auto

definition live_ids :: "'h queue_world \<Rightarrow> string list" where
  "live_ids w = map job_id (flying w) @ map job_id (waiting (jobs w))"

definition ids_ok :: "'h queue_world \<Rightarrow> bool" where
  "ids_ok w \<longleftrightarrow> distinct (live_ids w) \<and> set (live_ids w) = knownJobIds (jobs w)"

lemma map_remove1_distinct:
  "distinct (map f xs) \<Longrightarrow> x \<in> set xs \<Longrightarrow> map f (remove1 x xs) = remove1 (f x) (map f xs)"
proof (induction xs)
  case (Cons y ys)
  show ?case
  proof (cases "x = y")
    case False
    then have "x \<in> set ys" using Cons.prems(2) by simp
    moreover from this have "f x \<noteq> f y" using Cons.prems(1) by (metis distinct.simps(2) image_eqI list.set_map list.simps(9))
    ultimately show ?thesis using Cons False by simp
  qed simp
qed simp

lemma admitted:
  assumes "admit_job i name h w = (w', Queued k)"
  shows "k = i" and "flying w' = flying w" and "knownJobIds (jobs w') = insert i (knownJobIds (jobs w))"
    and "waiting (jobs w') = waiting (jobs w) @ [\<lparr>job_id = i, job_name = name, job_handler = h\<rparr>]"
  using assms by (auto simp: admit_job_def Let_def split: if_splits)

lemma queued:
  assumes "add_job name requested generated w = (w', Queued i)" and "generated \<notin> knownJobIds (jobs w)"
  obtains h where "i \<notin> knownJobIds (jobs w)" "flying w' = flying w" "knownJobIds (jobs w') = insert i (knownJobIds (jobs w))"
    "waiting (jobs w') = waiting (jobs w) @ [\<lparr>job_id = i, job_name = name, job_handler = h\<rparr>]"
proof -
  obtain h k where a: "admit_job k name h w = (w', Queued i)" and k: "k \<notin> knownJobIds (jobs w)"
    using assms by (auto simp: add_job_def split: option.splits if_splits)
  show ?thesis using that [of h] admitted [OF a] k by simp
qed

lemma not_queued:
  assumes "add_job name requested generated w = (w', r)" and "\<forall>i. r \<noteq> Queued i"
  shows "w' = w"
  using assms by (auto simp: add_job_def admit_job_def Let_def split: option.splits if_splits)

lemma immediate_moves:
  "\<exists>js. waiting (jobs w) = js @ waiting (jobs (run_immediate w)) \<and> flying (run_immediate w) = flying w @ js
    \<and> knownJobIds (jobs (run_immediate w)) = knownJobIds (jobs w) \<and> maxConcurrency (jobs (run_immediate w)) = maxConcurrency (jobs w)
    \<and> immediates (run_immediate w) = immediates w - 1"
  using drain_moves [of "w\<lparr>jobs := (jobs w)\<lparr>drainScheduled := False\<rparr>, immediates := immediates w - 1\<rparr>"]
  by (auto simp: run_immediate_def)

lemma settle_fields [simp]:
  "waiting (jobs (settle_job j w)) = waiting (jobs w)" "flying (settle_job j w) = remove1 j (flying w)"
  "knownJobIds (jobs (settle_job j w)) = knownJobIds (jobs w) - {job_id j}"
  "maxConcurrency (jobs (settle_job j w)) = maxConcurrency (jobs w)"
  by (simp_all add: settle_job_def Let_def)

lemma step_ids:
  assumes "queue_step w l w'" and "l \<noteq> Closed_down" and "ids_ok w"
  shows "ids_ok w' \<and> map job_id (waiting (jobs w)) @ accepted [l] = map job_id (started [l]) @ map job_id (waiting (jobs w'))"
  using assms
proof (cases rule: queue_step.cases)
  case (step_add name requested generated i)
  obtain h where q: "i \<notin> knownJobIds (jobs w)" "flying w' = flying w" "knownJobIds (jobs w') = insert i (knownJobIds (jobs w))"
    "waiting (jobs w') = waiting (jobs w) @ [\<lparr>job_id = i, job_name = name, job_handler = h\<rparr>]"
    by (rule queued [OF step_add(2,3)])
  then have "live_ids w' = live_ids w @ [i]" by (simp add: live_ids_def)
  then show ?thesis using assms(3) q step_add(1) by (simp add: ids_ok_def)
next
  case (step_decline name requested generated r)
  then show ?thesis using assms(3) not_queued by fastforce
next
  case step_immediate
  obtain js where m: "waiting (jobs w) = js @ waiting (jobs w')" "flying w' = flying w @ js"
    "knownJobIds (jobs w') = knownJobIds (jobs w)"
    using immediate_moves [of w] step_immediate(3) by auto
  then have "live_ids w' = live_ids w" by (simp add: live_ids_def)
  then show ?thesis using assms(3) m step_immediate(1) by (simp add: ids_ok_def)
next
  case (step_settle j)
  have d: "distinct (map job_id (flying w))" "job_id j \<notin> set (map job_id (waiting (jobs w)))"
    using assms(3) step_settle(2) by (auto simp: ids_ok_def live_ids_def)
  then have "live_ids w' = remove1 (job_id j) (live_ids w)"
    using map_remove1_distinct [OF d(1) step_settle(2)] step_settle(2)
    by (simp add: live_ids_def step_settle(3) remove1_append)
  then show ?thesis using assms(3) step_settle(1,3) by (simp add: ids_ok_def)
next
  case (step_process name h)
  then show ?thesis using assms(3) by (simp add: ids_ok_def live_ids_def process_name_def)
qed simp

lemma run_ids:
  assumes "queue_run w ls w'" and "Closed_down \<notin> set ls" and "ids_ok w"
  shows "ids_ok w' \<and> map job_id (waiting (jobs w)) @ accepted ls = map job_id (started ls) @ map job_id (waiting (jobs w'))"
  using assms
proof (induction rule: queue_run.induct)
  case (run_snoc w ls w1 l w2)
  then have ih: "ids_ok w1" "map job_id (waiting (jobs w)) @ accepted ls = map job_id (started ls) @ map job_id (waiting (jobs w1))"
    by simp_all
  have "ids_ok w2 \<and> map job_id (waiting (jobs w1)) @ accepted [l] = map job_id (started [l]) @ map job_id (waiting (jobs w2))"
    by (rule step_ids [OF run_snoc.hyps(2) _ ih(1)]) (use run_snoc.prems in auto)
  moreover from this have "map job_id (waiting (jobs w)) @ accepted ls @ accepted [l]
      = map job_id (started ls) @ map job_id (started [l]) @ map job_id (waiting (jobs w2))"
    using ih(2) by (metis append_assoc)
  ultimately show ?case by simp
qed simp

section \<open>Turns of the loop\<close>






lemma step_limit: "queue_step w l w' \<Longrightarrow> maxConcurrency (jobs w') = maxConcurrency (jobs w)"
proof (induction rule: queue_step.induct)
  case (step_immediate w w')
  then show ?case using immediate_moves [of w] by auto
qed (auto simp: add_job_def admit_job_def Let_def process_name_def close_queue_def split: option.splits if_splits)

lemma run_limit: "queue_run w ls w' \<Longrightarrow> maxConcurrency (jobs w') = maxConcurrency (jobs w)"
  by (induction rule: queue_run.induct) (auto dest: step_limit)


section \<open>The properties\<close>

text \<open>C34. Over every history without a close, the accepted jobs are, in their order, those that were
  started followed by those that wait, so each was started at most once and none before its
  predecessors; and no two jobs that wait or run have the same id.\<close>

theorem accepted_jobs_run_in_order:
  assumes "queue_run (fresh_world (newQueue c p t)) ls w" and "Closed_down \<notin> set ls"
  shows "accepted ls = map job_id (started ls) @ map job_id (waiting (jobs w))
    \<and> distinct (map job_id (flying w) @ map job_id (waiting (jobs w)))"
proof -
  have "ids_ok (fresh_world (newQueue c p t))"
    by (simp add: ids_ok_def live_ids_def fresh_world_def newQueue_def)
  from run_ids [OF assms this] show ?thesis
    by (simp add: ids_ok_def live_ids_def fresh_world_def newQueue_def)
qed


text \<open>A limit that does not parse is NaN: jobs are accepted, and none is ever started.\<close>

lemma nan_limit_starts_nothing:
  assumes "queue_run (fresh_world (newQueue (Some s) p t)) ls w" and "s \<noteq> []" and "parse_int10 s = None"
  shows "started ls = []"
proof -
  have limit: "maxConcurrency (jobs (fresh_world (newQueue (Some s) p t))) = None"
    using assms(2,3) by (simp add: fresh_world_def newQueue_def concurrency_setting_def)
  have "started ls = []" if "queue_run v ls w" "maxConcurrency (jobs v) = None" for v :: "'a queue_world"
    using that
  proof (induction rule: queue_run.induct)
    case (run_snoc v ls w1 l w2)
    then have none: "maxConcurrency (jobs w1) = None" using run_limit by metis
    have "started [l] = []"
      using run_snoc.hyps(2)
    proof (cases rule: queue_step.cases)
      case step_immediate
      have "drain (w1\<lparr>jobs := (jobs w1)\<lparr>drainScheduled := False\<rparr>, immediates := immediates w1 - 1\<rparr>)
          = w1\<lparr>jobs := (jobs w1)\<lparr>drainScheduled := False\<rparr>, immediates := immediates w1 - 1\<rparr>"
        using none by (intro drain_stop) (simp add: below_limit_def)
      then show ?thesis using step_immediate by (simp add: run_immediate_def)
    qed simp_all
    then show ?case using run_snoc by simp
  qed simp
  from this [OF assms(1) limit] show ?thesis .
qed

section \<open>A sample queue\<close>

definition sample_queue :: "string option \<Rightarrow> unit queue_world" where
  "sample_queue c = fresh_world (newQueue c None None)"

definition sample_ready :: "string option \<Rightarrow> unit queue_world" where
  "sample_ready c = process_name ''sms-send'' () (sample_queue c)"

definition sample_queued :: "string option \<Rightarrow> unit queue_world" where
  "sample_queued c = fst (add_job ''sms-send'' (Some ''a'') ''g'' (sample_ready c))"

definition sample_run :: "unit queue_world" where
  "sample_run = run_immediate (sample_queued None)"



lemma sample_history: "queue_run (sample_queue c) [Registered, Accepted ''a''] (sample_queued c)"
proof -
  have s1: "queue_step (sample_queue c) Registered (sample_ready c)"
    by (rule queue_step.step_process) (simp add: sample_ready_def)
  have s2: "queue_step (sample_ready c) (Accepted ''a'') (sample_queued c)"
  proof (rule queue_step.step_add)
    show "add_job ''sms-send'' (Some ''a'') ''g'' (sample_ready c) = (sample_queued c, Queued ''a'')"
      by (simp add: sample_queued_def sample_ready_def sample_queue_def fresh_world_def newQueue_def process_name_def add_job_def
          admit_job_def requested_id_def pendingForName_def or_zero_count_def capacity_def clamp_setting_def Let_def)
    show "''g'' \<notin> knownJobIds (jobs (sample_ready c))"
      by (simp add: sample_ready_def sample_queue_def fresh_world_def newQueue_def process_name_def)
  qed
  show ?thesis
    using queue_run.run_snoc [OF queue_run.run_snoc [OF queue_run.run_nil s1] s2] by simp
qed

definition sample_job :: "unit job" where
  "sample_job = \<lparr>job_id = ''a'', job_name = ''sms-send'', job_handler = ()\<rparr>"

definition sample_fields :: "nat \<Rightarrow> unit job list \<Rightarrow> string set \<Rightarrow> bool \<Rightarrow> unit job_queue" where
  "sample_fields n js ids b = \<lparr>handlers = [''sms-send'' \<mapsto> ()], running = n, maxConcurrency = Some 5, waiting = js,
     activeByName = (if n = 0 then (\<lambda>_. None) else [''sms-send'' \<mapsto> n]), knownJobIds = ids, drainScheduled = b,
     maxPending = clamp_setting 10 10000 1000 None, trapForwardingCapacity = clamp_setting 10 1000 100 None\<rparr>"

lemma sample_queued_eq:
  "sample_queued None = \<lparr>jobs = sample_fields 0 [sample_job] {''a''} True, immediates = 1, flying = []\<rparr>"
proof -
  have "0 < clamp_setting 10 10000 1000 None" by (simp add: clamp_setting_def)
  then show ?thesis
    by (simp add: sample_queued_def sample_ready_def sample_queue_def fresh_world_def newQueue_def process_name_def add_job_def
      admit_job_def requested_id_def pendingForName_def or_zero_count_def capacity_def Let_def sample_fields_def sample_job_def
      scheduleDrain_def concurrency_setting_def)
qed

lemma sample_run_eq:
  "sample_run = \<lparr>jobs = sample_fields 1 [] {''a''} False, immediates = 0, flying = [sample_job]\<rparr>"
  by (simp add: sample_run_def sample_queued_eq run_immediate_def drain_step drain_stop start_job_def Let_def
      sample_fields_def below_limit_def or_zero_count_def sample_job_def)




theorem accepted_jobs_run_in_order_witness:
  "accepted [Registered, Accepted ''a''] = [''a''] \<and> distinct (map job_id (flying (sample_queued None) @ waiting (jobs (sample_queued None))))"
  using accepted_jobs_run_in_order [OF sample_history [of None, unfolded sample_queue_def]] by simp


lemma nan_limit_sample:
  "started [Registered, Accepted ''a'' :: unit queue_label] = []"
  using nan_limit_starts_nothing [OF sample_history [of "Some ''many''", unfolded sample_queue_def]]
  by (simp add: parse_int10_def take_sign_def js_trim_left_def)

text \<open>A close forgets the ids of jobs that still run: a second job of the same id runs beside the first.\<close>

lemma close_forgets_running_ids:
  "knownJobIds (jobs (close_queue sample_run)) = {} \<and> flying (close_queue sample_run) = [sample_job]"
  by (simp add: close_queue_def sample_run_eq)

end
