(* ===== verification/CoaClient.thy ===== *)
theory CoaClient
  imports RadiusAccounting RadiusWire
begin

text \<open>
  The dynamic-authorization client of \<open>services/suspensionService.js\<close>: which access servers a
  Disconnect or a change of authorization goes to, the exchange of one packet over UDP, failover to a
  secondary server and the summary over all targets. The network is a parameter: what comes back to
  the socket, in order, until the timeout. The identifiers are those \<open>crypto.randomInt\<close> draws, MD5 is a
  parameter; a packet that cannot be built throws. Besides its result every operation returns the
  packets it sent. The tables are read once; \<open>NOW()\<close> has whole seconds.
\<close>

section \<open>Tables\<close>

record coa_nas = nas_row +
  row_coa_port :: "nat option"
  row_secondary :: "nat option"

record coa_account = account_row +
  aa_home_nas :: "nat option"
  aa_status :: string
  aa_password :: "string option"
  aa_address :: "string option"

record coa_log = log_row +
  lr_received :: "int option"

datatype net_event = Datagram buffer | SocketError

record coa_env =
  ce_coll :: "string \<Rightarrow> string"
  ce_accounts :: "coa_account list"
  ce_nas :: "coa_nas list"
  ce_logs :: "coa_log list"
  ce_contract_org :: "nat \<Rightarrow> nat option"
  ce_now :: int
  ce_liveness :: "int option"
  ce_md5 :: "buffer \<Rightarrow> buffer"
  ce_net :: "string \<Rightarrow> nat \<Rightarrow> buffer \<Rightarrow> net_event list"

section \<open>Targets\<close>

definition lookupRadiusAccount :: "coa_env \<Rightarrow> nat \<Rightarrow> (coa_account \<times> nat option) option" where
  "lookupRadiusAccount env contractId =
     map_option (\<lambda>a. (a, sql_coalesce (ac_org a) (ce_contract_org env contractId)))
       (find (\<lambda>a. ac_contract a = Some contractId \<and> \<not> ac_deleted a) (ce_accounts env))"

text \<open>\<open>SESSION_LIVENESS_MINUTES\<close>: a positive safe integer, at most a day.\<close>

definition session_liveness :: "coa_env \<Rightarrow> int" where
  "session_liveness env = (case ce_liveness env of Some n \<Rightarrow> if n > 0 then min n 1440 else 60 | None \<Rightarrow> 60)"

definition last_sign :: "coa_log \<Rightarrow> int" where
  "last_sign l = (case lr_received l of Some t \<Rightarrow> t | None \<Rightarrow> (case lr_last_at l of Some t \<Rightarrow> t | None \<Rightarrow> lr_event_at l))"

definition same_legacy_session :: "coa_env \<Rightarrow> coa_log \<Rightarrow> coa_log \<Rightarrow> bool" where
  "same_legacy_session env a b \<longleftrightarrow> lr_org a = lr_org b \<and> lr_instance a = None \<and> lr_nas a = lr_nas b
     \<and> ce_coll env (lr_user a) = ce_coll env (lr_user b) \<and> lr_contract a = lr_contract b
     \<and> map_option (ce_coll env) (sql_coalesce (lr_acct_session a) (lr_session a))
       = map_option (ce_coll env) (sql_coalesce (lr_acct_session b) (lr_session b))"

text \<open>\<open>ORDER BY event_at DESC, id DESC LIMIT 1\<close> is the row itself: no row of the session comes after it.\<close>

definition latest_legacy :: "coa_env \<Rightarrow> coa_log \<Rightarrow> bool" where
  "latest_legacy env l \<longleftrightarrow> (\<forall>x\<in>set (ce_logs env). same_legacy_session env x l \<longrightarrow>
     lr_event_at x < lr_event_at l \<or> lr_event_at x = lr_event_at l \<and> lr_id x \<le> lr_id l)"

definition open_session_row :: "coa_env \<Rightarrow> nat \<Rightarrow> string \<Rightarrow> coa_log \<Rightarrow> bool" where
  "open_session_row env org username l \<longleftrightarrow>
     lr_org l = org \<and> ce_coll env (lr_user l) = ce_coll env username
     \<and> last_sign l \<ge> (ce_now env - ce_now env mod 1000) - session_liveness env * 60000
     \<and> lr_kind l \<noteq> Stop \<and> (lr_instance l \<noteq> None \<or> latest_legacy env l)"

definition serves_row :: "coa_env \<Rightarrow> coa_log \<Rightarrow> coa_nas \<Rightarrow> bool" where
  "serves_row env l n \<longleftrightarrow> (lr_nas l = Some (row_id n) \<or> ce_coll env (row_ip n) = ce_coll env (lr_nas_ip l))
     \<and> row_org n = Some (lr_org l) \<and> \<not> row_deleted n"

definition resolveCoaTargets :: "coa_env \<Rightarrow> coa_account \<times> nat option \<Rightarrow> coa_nas list" where
  "resolveCoaTargets env account =
     (case account of (a, org) \<Rightarrow>
        (let sessionNases = (case org of None \<Rightarrow> []
               | Some i \<Rightarrow> filter (\<lambda>n. \<exists>l\<in>set (ce_logs env). open_session_row env i (ac_user a) l \<and> serves_row env l n) (ce_nas env))
         in case aa_home_nas a of
              None \<Rightarrow> sessionNases
            | Some h \<Rightarrow>
                if h = 0 \<or> h \<in> row_id ` set sessionNases then sessionNases
                else case find (\<lambda>n. row_id n = h \<and> org \<noteq> None \<and> row_org n = org \<and> \<not> row_deleted n) (ce_nas env) of
                    None \<Rightarrow> sessionNases
                  | Some n \<Rightarrow> sessionNases @ [n]))"

section \<open>One exchange\<close>

datatype coa_outcome =
    Acked | Naked | TimedOut | SendError | Unexpected | NoAccount | NoTarget | NoSecret | AllFailed

record coa_result =
  cr_sent :: bool
  cr_response :: string
  cr_outcome :: coa_outcome

definition coa_result_of :: "bool \<Rightarrow> string \<Rightarrow> coa_outcome \<Rightarrow> coa_result" where
  "coa_result_of s r oc = \<lparr>cr_sent = s, cr_response = r, cr_outcome = oc\<rparr>"

text \<open>A reply counts when it has the identifier, a sound length, and the Response Authenticator.\<close>

definition genuine :: "(buffer \<Rightarrow> buffer) \<Rightarrow> byte \<Rightarrow> buffer \<Rightarrow> string \<Rightarrow> buffer \<Rightarrow> bool" where
  "genuine md5 identifier authenticator secret msg \<longleftrightarrow>
     20 \<le> length msg \<and> msg ! 1 = identifier
     \<and> 20 \<le> readUInt16BE msg 2 \<and> readUInt16BE msg 2 \<le> length msg
     \<and> md5 (subarray msg 0 4 @ authenticator @ subarray msg 20 (readUInt16BE msg 2) @ utf8_bytes secret) = subarray msg 4 20"

definition code_name :: "nat \<Rightarrow> string" where
  "code_name c = (if c = 41 then ''Disconnect-ACK'' else if c = 42 then ''Disconnect-NAK''
     else if c = 44 then ''CoA-ACK'' else if c = 45 then ''CoA-NAK'' else ''Code '' @ show_nat c)"

definition reply_result :: "buffer \<Rightarrow> coa_result" where
  "reply_result msg =
     (let c = unat (msg ! 0); ack = (c = 41 \<or> c = 44); nak = (c = 42 \<or> c = 45) in
      coa_result_of ack (code_name c) (if ack then Acked else if nak then Naked else Unexpected))"

fun await_reply :: "(buffer \<Rightarrow> buffer) \<Rightarrow> byte \<Rightarrow> buffer \<Rightarrow> string \<Rightarrow> net_event list \<Rightarrow> coa_result" where
  "await_reply md5 identifier authenticator secret [] = coa_result_of False (''Timeout '' @ map char_of [226, 128, 148::nat] @ '' no response from NAS'') TimedOut"
| "await_reply md5 identifier authenticator secret (SocketError # evs) = coa_result_of False ''Socket error'' SendError"
| "await_reply md5 identifier authenticator secret (Datagram msg # evs) =
     (if genuine md5 identifier authenticator secret msg then reply_result msg
      else await_reply md5 identifier authenticator secret evs)"

type_synonym coa_send = "string \<times> nat \<times> buffer"

definition request_packet ::
    "(buffer \<Rightarrow> buffer) \<Rightarrow> byte \<Rightarrow> string \<Rightarrow> nat \<Rightarrow> string \<Rightarrow> (string \<times> string) list \<Rightarrow> (buffer \<times> buffer) result" where
  "request_packet md5 identifier secret cod username extraAttributes =
     and_then (encodeNamedAttributes [(''User-Name'', username)]) (\<lambda>userNameBuf.
     and_then (encodeNamedAttributes extraAttributes) (\<lambda>extraBuf.
     and_then (buildRadiusPacket cod (unat identifier) (replicate 16 0) (userNameBuf @ extraBuf)) (\<lambda>packet.
     and_then (computeRequestAuthenticator md5 packet secret) (\<lambda>authenticator.
       Inr (buf_copy authenticator packet 4, authenticator)))))"

definition sendRadiusPacket ::
    "coa_env \<Rightarrow> byte \<Rightarrow> string \<Rightarrow> nat \<Rightarrow> string \<Rightarrow> nat \<Rightarrow> string \<Rightarrow> (string \<times> string) list \<Rightarrow> (coa_result \<times> coa_send list) result" where
  "sendRadiusPacket env identifier nasIp port secret cod username extraAttributes =
     and_then (request_packet (ce_md5 env) identifier secret cod username extraAttributes) (\<lambda>(packet, authenticator).
       Inr (await_reply (ce_md5 env) identifier authenticator secret (ce_net env nasIp port packet), [(nasIp, port, packet)]))"

section \<open>Failover\<close>

definition coa_port :: "coa_nas \<Rightarrow> nat" where
  "coa_port n = (case row_coa_port n of None \<Rightarrow> 3799 | Some p \<Rightarrow> if p = 0 then 3799 else p)"

text \<open>A missing secret makes \<open>Buffer.from\<close> throw.\<close>

definition secret_or_throw :: "coa_nas \<Rightarrow> string result" where
  "secret_or_throw n = (case row_secret n of None \<Rightarrow> Inl ''TypeError'' | Some s \<Rightarrow> Inr s)"

definition may_failover :: "coa_result \<Rightarrow> coa_nas \<Rightarrow> bool" where
  "may_failover r n \<longleftrightarrow> \<not> cr_sent r \<and> cr_outcome r \<noteq> Naked \<and> row_secondary n \<noteq> None \<and> row_secondary n \<noteq> Some 0"

definition sendWithFailover ::
    "coa_env \<Rightarrow> byte \<times> byte \<Rightarrow> coa_nas \<Rightarrow> nat \<Rightarrow> string \<Rightarrow> (string \<times> string) list \<Rightarrow> (coa_result \<times> coa_send list) result" where
  "sendWithFailover env identifiers n cod username extraAttributes =
     and_then (secret_or_throw n) (\<lambda>secret.
     and_then (sendRadiusPacket env (fst identifiers) (row_ip n) (coa_port n) secret cod username extraAttributes) (\<lambda>(result, sends).
       if \<not> may_failover result n then Inr (result, sends)
       else case find (\<lambda>s. Some (row_id s) = row_secondary n) (ce_nas env) of
           None \<Rightarrow> Inr (result, sends)
         | Some secondary \<Rightarrow>
             and_then (secret_or_throw secondary) (\<lambda>secret2.
             and_then (sendRadiusPacket env (snd identifiers) (row_ip secondary) (coa_port secondary) secret2 cod username extraAttributes) (\<lambda>(result2, sends2).
               Inr (result2\<lparr>cr_response := cr_response result2 @ '' (failover; primary: '' @ cr_response result @ '')''\<rparr>, sends @ sends2)))))"

section \<open>All targets\<close>

definition usable_targets :: "coa_nas list \<Rightarrow> coa_nas list" where
  "usable_targets targets = filter (\<lambda>n. row_secret n \<noteq> None \<and> row_secret n \<noteq> Some []) targets"

fun join_responses :: "(coa_nas \<times> coa_result) list \<Rightarrow> string" where
  "join_responses [] = []"
| "join_responses [(n, r)] = row_ip n @ '': '' @ cr_response r"
| "join_responses ((n, r) # rest) = row_ip n @ '': '' @ cr_response r @ ''; '' @ join_responses rest"

definition combine_results :: "coa_nas list \<Rightarrow> coa_result list \<Rightarrow> coa_result" where
  "combine_results usable results =
     (let sent = list_ex cr_sent results in
      coa_result_of sent (if length usable = 1 then cr_response (hd results) else join_responses (zip usable results))
        (if sent then Acked
         else if list_all (\<lambda>r. cr_outcome r = Naked) results then Naked
         else if length usable = 1 then cr_outcome (hd results) else AllFailed))"

definition sendToTargets ::
    "coa_env \<Rightarrow> (nat \<Rightarrow> byte \<times> byte) \<Rightarrow> nat \<Rightarrow> string \<Rightarrow> coa_nas list \<Rightarrow> (string \<times> string) list \<Rightarrow> (coa_result \<times> coa_send list) result" where
  "sendToTargets env ids cod username targets extraAttributes =
     (let usable = usable_targets targets in
      if usable = [] then Inr (coa_result_of False ''NAS RADIUS secret not configured'' NoSecret, [])
      else and_then (collect (map (\<lambda>(i, n). sendWithFailover env (ids i) n cod username extraAttributes) (enumerate 0 usable)))
        (\<lambda>answers. Inr (combine_results usable (map fst answers), concat (map snd answers))))"

definition no_account :: "coa_result \<times> coa_send list" where
  "no_account = (coa_result_of False ''No RADIUS account found for contract'' NoAccount, [])"

definition no_target :: "coa_result \<times> coa_send list" where
  "no_target = (coa_result_of False ''No target NAS (no open-session NAS and no home NAS configured)'' NoTarget, [])"

definition named_nas :: "coa_env \<Rightarrow> nat option \<Rightarrow> string option \<Rightarrow> coa_nas list" where
  "named_nas env org nasIpAddress =
     (case nasIpAddress of
        None \<Rightarrow> []
      | Some ip \<Rightarrow> if ip = [] then []
          else (case find (\<lambda>n. org \<noteq> None \<and> row_org n = org \<and> ce_coll env (row_ip n) = ce_coll env ip \<and> \<not> row_deleted n) (ce_nas env) of
                  None \<Rightarrow> [] | Some n \<Rightarrow> [n]))"

definition sendRadiusDisconnect ::
    "coa_env \<Rightarrow> (nat \<Rightarrow> byte \<times> byte) \<Rightarrow> nat \<Rightarrow> string option \<Rightarrow> string option \<Rightarrow> (coa_result \<times> coa_send list) result" where
  "sendRadiusDisconnect env ids contractId acctSessionId nasIpAddress =
     (case lookupRadiusAccount env contractId of
        None \<Rightarrow> Inr no_account
      | Some account \<Rightarrow>
          (let extra = (case acctSessionId of None \<Rightarrow> [] | Some s \<Rightarrow> if s = [] then [] else [(''Acct-Session-Id'', s)]);
               named = named_nas env (snd account) nasIpAddress;
               targets = (if named = [] then resolveCoaTargets env account else named) in
           if targets = [] then Inr no_target
           else sendToTargets env ids 40 (ac_user (fst account)) targets extra))"

definition sendRadiusCoA ::
    "coa_env \<Rightarrow> (nat \<Rightarrow> byte \<times> byte) \<Rightarrow> nat \<Rightarrow> (string \<times> string) list \<Rightarrow> (coa_result \<times> coa_send list) result" where
  "sendRadiusCoA env ids contractId extraAttributes =
     (case lookupRadiusAccount env contractId of
        None \<Rightarrow> Inr no_account
      | Some account \<Rightarrow>
          (let targets = resolveCoaTargets env account in
           if targets = [] then Inr no_target
           else sendToTargets env ids 43 (ac_user (fst account)) targets extraAttributes))"

end
