(* ===== verification/Suspension.thy ===== *)
theory Suspension
  imports CoaClient RadiusServer
begin

text \<open>
  Suspension of service (\<open>services/suspensionService.js\<close>, \<open>services/suspensionLogConstants.js\<close>): the
  rules that pick overdue contracts, the hard and the soft suspension with their log rows, and the
  reading that closes an open suspension. \<open>suspendContract\<close> holds a transaction open while it waits
  for the Disconnect, so it comes in three parts, and what another connection sees in between is the
  state before. Days are counted from an arbitrary origin, times are in milliseconds. Reactivation
  (\<open>reconnectContract\<close>) goes through commissioning and Mexican contract law and is left out.
\<close>

section \<open>Tables\<close>

record service_contract = contract_row +
  sc_id :: nat
  sc_org :: "nat option"
  sc_client :: nat

record service_client =
  sk_id :: nat
  sk_exempt :: bool
  sk_exempt_reason :: "string option"

record service_invoice =
  si_id :: nat
  si_contract :: "nat option"
  si_org :: "nat option"
  si_status :: string
  si_due :: int

text \<open>The \<open>ENUM\<close> of the rules has no walled garden, so that branch of the callers is dead.\<close>

datatype rule_action = AutoSuspend | NotifyOnly | AutoDisconnect | SoftSuspend

record suspension_rule =
  sr_id :: nat
  sr_org :: nat
  sr_days :: nat
  sr_grace :: nat
  sr_action :: rule_action
  sr_soft_down :: "nat option"
  sr_soft_up :: "nat option"
  sr_active :: bool
  sr_deleted :: bool

datatype log_action = LogSuspended | LogUnsuspended

record suspension_log =
  sl_contract :: nat
  sl_client :: nat
  sl_rule :: "nat option"
  sl_action :: log_action
  sl_reason :: string
  sl_manual :: bool
  sl_user :: "nat option"
  sl_coa_sent :: bool
  sl_coa_response :: "string option"
  sl_invoice :: "nat option"
  sl_at :: int
  sl_restored :: "int option"

record service_db =
  sd_contracts :: "service_contract list"
  sd_clients :: "service_client list"
  sd_invoices :: "service_invoice list"
  sd_rules :: "suspension_rule list"
  sd_accounts :: "coa_account list"
  sd_log :: "suspension_log list"

section \<open>Rules\<close>

definition overdue_days :: "int \<Rightarrow> service_invoice \<Rightarrow> int" where
  "overdue_days today i = today - si_due i"

definition rule_window :: "suspension_rule \<Rightarrow> int \<Rightarrow> bool" where
  "rule_window r overdue \<longleftrightarrow> overdue \<ge> int (sr_days r) \<and> overdue < int (sr_days r) + int (sr_grace r)"

definition client_exempt :: "service_db \<Rightarrow> nat \<Rightarrow> bool" where
  "client_exempt db i = (case find (\<lambda>k. sk_id k = i) (sd_clients db) of None \<Rightarrow> False | Some k \<Rightarrow> sk_exempt k)"

definition rule_matches :: "service_db \<Rightarrow> nat \<Rightarrow> int \<Rightarrow> suspension_rule \<Rightarrow> (service_contract \<times> service_invoice) list" where
  "rule_matches db org today r =
     concat (map (\<lambda>c. map (Pair c) (filter (\<lambda>i. si_contract i = Some (sc_id c) \<and> si_org i = Some org
         \<and> si_status i = ''issued'' \<and> rule_window r (overdue_days today i)) (sd_invoices db)))
       (filter (\<lambda>c. sc_org c = Some org \<and> ct_status c = ''active'' \<and> sc_client c \<in> sk_id ` set (sd_clients db)
          \<and> \<not> client_exempt db (sc_client c)) (sd_contracts db)))"

definition active_rules :: "service_db \<Rightarrow> nat \<Rightarrow> suspension_rule list" where
  "active_rules db org = sort_key sr_days (filter (\<lambda>r. sr_org r = org \<and> sr_active r \<and> \<not> sr_deleted r) (sd_rules db))"

definition evaluateRules :: "service_db \<Rightarrow> nat \<Rightarrow> int \<Rightarrow> (suspension_rule \<times> service_contract \<times> service_invoice) list" where
  "evaluateRules db org today = concat (map (\<lambda>r. map (Pair r) (rule_matches db org today r)) (active_rules db org))"

section \<open>Log rows\<close>

definition triggered_manually :: "nat option \<Rightarrow> bool" where
  "triggered_manually u \<longleftrightarrow> u \<noteq> None \<and> u \<noteq> Some 0"

definition trigger_name :: "nat option \<Rightarrow> string" where
  "trigger_name u = (if triggered_manually u then ''manual'' else ''system'')"

definition dash :: string where
  "dash = '' '' @ map char_of [226, 128, 148::nat] @ '' ''"

definition numbered :: "string \<Rightarrow> nat option \<Rightarrow> string" where
  "numbered what n = (case n of None \<Rightarrow> [] | Some i \<Rightarrow> if i = 0 then [] else dash @ what @ '' #'' @ show_nat i)"

definition describeTrigger :: "string \<Rightarrow> nat option \<Rightarrow> nat option \<Rightarrow> nat option \<Rightarrow> string" where
  "describeTrigger what ruleId userId invoiceId =
     (case ruleId of
        Some i \<Rightarrow> if i = 0 then trigger_name userId @ '' '' @ what else what @ '' by rule #'' @ show_nat i
      | None \<Rightarrow> trigger_name userId @ '' '' @ what)
     @ numbered ''user'' userId @ numbered ''invoice'' invoiceId"

definition contract_of :: "service_db \<Rightarrow> nat \<Rightarrow> service_contract option" where
  "contract_of db i = find (\<lambda>c. sc_id c = i) (sd_contracts db)"

text \<open>\<open>INSERT ... SELECT\<close> from the contract: no row without one.\<close>

definition logSuspended ::
    "nat \<Rightarrow> nat option \<Rightarrow> string \<Rightarrow> nat option \<Rightarrow> bool \<Rightarrow> string option \<Rightarrow> nat option \<Rightarrow> int \<Rightarrow> service_db \<Rightarrow> service_db" where
  "logSuspended contractId ruleId reason userId coaSent coaResponse invoiceId now db =
     (case contract_of db contractId of
        None \<Rightarrow> db
      | Some c \<Rightarrow> db\<lparr>sd_log := sd_log db @ [\<lparr>sl_contract = contractId, sl_client = sc_client c, sl_rule = ruleId,
          sl_action = LogSuspended, sl_reason = reason, sl_manual = triggered_manually userId, sl_user = userId,
          sl_coa_sent = coaSent, sl_coa_response = coaResponse, sl_invoice = invoiceId,
          sl_at = to_second now, sl_restored = None\<rparr>]\<rparr>)"

definition logUnsuspended ::
    "nat \<Rightarrow> string \<Rightarrow> nat option \<Rightarrow> bool \<Rightarrow> string option \<Rightarrow> nat option \<Rightarrow> int option \<Rightarrow> int option \<Rightarrow> int \<Rightarrow> service_db \<Rightarrow> service_db" where
  "logUnsuspended contractId reason userId coaSent coaResponse invoiceId suspendedAt restoredAt now db =
     (case contract_of db contractId of
        None \<Rightarrow> db
      | Some c \<Rightarrow> db\<lparr>sd_log := sd_log db @ [\<lparr>sl_contract = contractId, sl_client = sc_client c, sl_rule = None,
          sl_action = LogUnsuspended, sl_reason = reason, sl_manual = triggered_manually userId, sl_user = userId,
          sl_coa_sent = coaSent, sl_coa_response = coaResponse, sl_invoice = invoiceId,
          sl_at = (case suspendedAt of Some t \<Rightarrow> t | None \<Rightarrow> to_second now),
          sl_restored = Some (case restoredAt of Some t \<Rightarrow> to_second t | None \<Rightarrow> to_second now)\<rparr>]\<rparr>)"

definition open_suspension :: "nat \<Rightarrow> suspension_log \<Rightarrow> bool" where
  "open_suspension contractId l \<longleftrightarrow> sl_contract l = contractId \<and> sl_action l = LogSuspended \<and> sl_restored l = None"

definition walled_reason :: "string \<Rightarrow> bool" where
  "walled_reason r \<longleftrightarrow> take 14 (to_lower r) = ''walled_garden:''"

text \<open>The latest of the open rows; rows are in the order of their ids.\<close>

definition latest_start :: "suspension_log list \<Rightarrow> int option" where
  "latest_start ls = (if ls = [] then None else Some (Max (set (map sl_at ls))))"

definition closeOpenSuspensionAndGetStart :: "nat \<Rightarrow> int \<Rightarrow> service_db \<Rightarrow> service_db \<times> int option" where
  "closeOpenSuspensionAndGetStart contractId now db =
     (db\<lparr>sd_log := map (\<lambda>l. if open_suspension contractId l \<and> \<not> walled_reason (sl_reason l)
          then l\<lparr>sl_restored := Some (to_second now)\<rparr> else l) (sd_log db)\<rparr>,
      latest_start (filter (open_suspension contractId) (sd_log db)))"

section \<open>Suspending\<close>

definition isClientSuspensionExempt :: "service_db \<Rightarrow> nat \<Rightarrow> bool \<times> string option" where
  "isClientSuspensionExempt db contractId =
     (case contract_of db contractId of
        None \<Rightarrow> (False, None)
      | Some c \<Rightarrow>
          (case find (\<lambda>k. sk_id k = sc_client c) (sd_clients db) of
             None \<Rightarrow> (False, None)
           | Some k \<Rightarrow> (sk_exempt k, non_empty (sk_exempt_reason k))))"

text \<open>The trigger on status changes: only an active (or already suspended) contract may be suspended.\<close>

definition may_suspend :: "service_contract \<Rightarrow> bool" where
  "may_suspend c \<longleftrightarrow> ct_status c = ''active'' \<or> ct_status c = ''suspended''"

text \<open>The two UPDATEs of the open transaction.\<close>

definition suspend_updates :: "nat \<Rightarrow> service_db \<Rightarrow> service_db result" where
  "suspend_updates contractId db =
     (if \<exists>c\<in>set (sd_contracts db). sc_id c = contractId \<and> \<not> may_suspend c
      then Inl ''Invalid contract status transition''
      else Inr (db\<lparr>sd_contracts := map (\<lambda>c. if sc_id c = contractId then c\<lparr>ct_status := ''suspended''\<rparr> else c) (sd_contracts db),
          sd_accounts := map (\<lambda>a. if ac_contract a = Some contractId \<and> \<not> ac_deleted a \<and> aa_status a = ''active''
            then a\<lparr>aa_status := ''suspended''\<rparr> else a) (sd_accounts db)\<rparr>))"

definition coa_view :: "coa_env \<Rightarrow> service_db \<Rightarrow> coa_env" where
  "coa_view env db = env\<lparr>ce_accounts := sd_accounts db,
     ce_contract_org := (\<lambda>i. case contract_of db i of None \<Rightarrow> None | Some c \<Rightarrow> sc_org c)\<rparr>"

text \<open>What the audit row keeps of the Disconnect; a throw is caught.\<close>

definition disconnect_outcome :: "coa_env \<Rightarrow> (nat \<Rightarrow> byte \<times> byte) \<Rightarrow> nat \<Rightarrow> service_db \<Rightarrow> (bool \<times> string option) \<times> coa_send list" where
  "disconnect_outcome env ids contractId db =
     (case sendRadiusDisconnect (coa_view env db) ids contractId None None of
        Inl _ \<Rightarrow> ((False, Some ''CoA send failed''), [])
      | Inr (r, sends) \<Rightarrow> ((cr_sent r, Some (cr_response r)), sends))"

datatype suspend_reply = SuspendSkipped "string option" | SuspendDone

definition suspend_finish ::
    "nat \<Rightarrow> nat option \<Rightarrow> nat option \<Rightarrow> nat option \<Rightarrow> int \<Rightarrow> bool \<times> string option \<Rightarrow> service_db \<Rightarrow> service_db" where
  "suspend_finish contractId ruleId userId invoiceId now coa db =
     logSuspended contractId ruleId (describeTrigger ''suspension'' ruleId userId invoiceId) userId (fst coa) (snd coa) invoiceId now db"

definition suspendContract ::
    "coa_env \<Rightarrow> (nat \<Rightarrow> byte \<times> byte) \<Rightarrow> nat \<Rightarrow> nat option \<Rightarrow> nat option \<Rightarrow> nat option \<Rightarrow> int \<Rightarrow> service_db \<Rightarrow> (service_db \<times> suspend_reply) result" where
  "suspendContract env ids contractId ruleId userId invoiceId now db =
     (case isClientSuspensionExempt db contractId of (exempt, reason) \<Rightarrow>
        if exempt then Inr (db, SuspendSkipped reason)
        else and_then (suspend_updates contractId db) (\<lambda>db1.
          Inr (suspend_finish contractId ruleId userId invoiceId now (fst (disconnect_outcome env ids contractId db1)) db1, SuspendDone)))"

definition soft_reason :: "nat option \<Rightarrow> nat option \<Rightarrow> nat option \<Rightarrow> nat option \<Rightarrow> nat option \<Rightarrow> string" where
  "soft_reason ruleId userId invoiceId down up =
     (let kbps = (\<lambda>v. case v of None \<Rightarrow> ''?'' | Some n \<Rightarrow> if n = 0 then ''?'' else show_nat n) in
      ''soft_suspend: '' @ describeTrigger ''soft suspension'' ruleId userId invoiceId
        @ '' (throttled to '' @ kbps down @ ''/'' @ kbps up @ '' kbps)'')"

text \<open>\<open>JSON.stringify\<close> of the response is a parameter.\<close>

definition softSuspendContract ::
    "(nat option \<Rightarrow> nat option \<Rightarrow> string \<Rightarrow> string) \<Rightarrow> coa_env \<Rightarrow> (nat \<Rightarrow> byte \<times> byte) \<Rightarrow> nat \<Rightarrow> nat option \<Rightarrow> nat option \<Rightarrow> nat option
      \<Rightarrow> nat option \<Rightarrow> nat option \<Rightarrow> int \<Rightarrow> service_db \<Rightarrow> service_db \<times> suspend_reply" where
  "softSuspendContract json env ids contractId ruleId userId invoiceId down up now db =
     (case isClientSuspensionExempt db contractId of (exempt, reason) \<Rightarrow>
        if exempt then (db, SuspendSkipped reason)
        else (let coa = (case sendRadiusCoA (coa_view env db) ids contractId [] of
                Inl _ \<Rightarrow> (False, json down up ''CoA send failed'')
              | Inr (r, _) \<Rightarrow> (cr_sent r, json down up (cr_response r)))
              in (logSuspended contractId ruleId (soft_reason ruleId userId invoiceId down up) userId (fst coa) (Some (snd coa)) invoiceId now db,
                  SuspendDone)))"

section \<open>The RADIUS server's view\<close>

text \<open>\<open>radius LEFT JOIN contracts\<close>.\<close>

definition radius_view :: "service_db \<Rightarrow> radius_row list" where
  "radius_view db = map (\<lambda>a. \<lparr>rr_username = ac_user a, rr_password = aa_password a, rr_ip = aa_address a, rr_org = ac_org a,
     rr_status = aa_status a, rr_deleted = ac_deleted a,
     rr_contract = (case ac_contract a of None \<Rightarrow> None | Some i \<Rightarrow> map_option contract_row.truncate (contract_of db i))\<rparr>) (sd_accounts db)"

end
