(* ===== verification/CoaClientProps.thy ===== *)
theory CoaClientProps
  imports CoaClient
begin

text \<open>
  What a result of the dynamic-authorization client means: a packet counts as sent only when a genuine
  acknowledgement of exactly that packet came back, forged datagrams change nothing, every access
  server with an open session of the subscriber is addressed, and no server of another organization
  is, unless it is configured as a secondary.
\<close>

section \<open>One exchange\<close>

lemma reply_sent: "cr_sent (reply_result msg) \<longleftrightarrow> unat (msg ! 0) = 41 \<or> unat (msg ! 0) = 44"
  by (simp add: reply_result_def Let_def coa_result_of_def)

lemma await_sent:
  assumes "cr_sent (await_reply md5 i auth secret evs)"
  shows "\<exists>msg. Datagram msg \<in> set evs \<and> genuine md5 i auth secret msg \<and> unat (msg ! 0) \<in> {41, 44}"
  using assms
  by (induction md5 i auth secret evs rule: await_reply.induct) (auto simp: coa_result_of_def reply_sent split: if_splits)







section \<open>Failover and many targets\<close>

lemma packet_sent:
  assumes "sendRadiusPacket env i ip port secret cod username extra = Inr (r, sends)"
  obtains packet auth where "sends = [(ip, port, packet)]" "request_packet (ce_md5 env) i secret cod username extra = Inr (packet, auth)"
    "r = await_reply (ce_md5 env) i auth secret (ce_net env ip port packet)"
  using assms by (auto simp: sendRadiusPacket_def and_then_Ok_iff)

text \<open>What an acknowledgement of a server is: the packet was sent there and its genuine reply says so.\<close>

definition acknowledged_by :: "coa_env \<Rightarrow> nat \<Rightarrow> string \<Rightarrow> (string \<times> string) list \<Rightarrow> coa_send list \<Rightarrow> coa_nas \<Rightarrow> bool" where
  "acknowledged_by env cod username extra sends n \<longleftrightarrow> (\<exists>i secret packet auth msg.
     row_secret n = Some secret \<and> request_packet (ce_md5 env) i secret cod username extra = Inr (packet, auth)
     \<and> (row_ip n, coa_port n, packet) \<in> set sends
     \<and> Datagram msg \<in> set (ce_net env (row_ip n) (coa_port n) packet)
     \<and> genuine (ce_md5 env) i auth secret msg \<and> unat (msg ! 0) \<in> {41, 44})"

lemma packet_acknowledged:
  assumes "sendRadiusPacket env i (row_ip n) (coa_port n) secret cod username extra = Inr (r, sends)"
    and "row_secret n = Some secret" and "cr_sent r"
  shows "acknowledged_by env cod username extra sends n"
proof -
  obtain packet auth where p: "sends = [(row_ip n, coa_port n, packet)]"
    "request_packet (ce_md5 env) i secret cod username extra = Inr (packet, auth)"
    "r = await_reply (ce_md5 env) i auth secret (ce_net env (row_ip n) (coa_port n) packet)"
    by (rule packet_sent [OF assms(1)])
  obtain msg where "Datagram msg \<in> set (ce_net env (row_ip n) (coa_port n) packet)"
    "genuine (ce_md5 env) i auth secret msg" "unat (msg ! 0) \<in> {41, 44}"
    using await_sent assms(3) p(3) by blast
  then show ?thesis using p assms(2) by (auto simp: acknowledged_by_def)
qed

lemma acknowledged_mono:
  "acknowledged_by env cod username extra sends n \<Longrightarrow> set sends \<subseteq> set sends2
   \<Longrightarrow> acknowledged_by env cod username extra sends2 n"
  unfolding acknowledged_by_def by blast

lemma failover_cases:
  assumes "sendWithFailover env ids n cod username extra = Inr (r, sends)"
  obtains secret where "row_secret n = Some secret"
      "sendRadiusPacket env (fst ids) (row_ip n) (coa_port n) secret cod username extra = Inr (r, sends)"
  | secret r1 s1 m secret2 r2 s2 where "row_secret n = Some secret"
      "sendRadiusPacket env (fst ids) (row_ip n) (coa_port n) secret cod username extra = Inr (r1, s1)"
      "m \<in> set (ce_nas env)" "row_secondary n = Some (row_id m)" "row_secret m = Some secret2"
      "sendRadiusPacket env (snd ids) (row_ip m) (coa_port m) secret2 cod username extra = Inr (r2, s2)"
      "cr_sent r = cr_sent r2" "sends = s1 @ s2"
proof -
  obtain secret r1 s1 where s: "row_secret n = Some secret"
    "sendRadiusPacket env (fst ids) (row_ip n) (coa_port n) secret cod username extra = Inr (r1, s1)"
    using assms by (auto simp: sendWithFailover_def and_then_Ok_iff secret_or_throw_def split: option.splits)
  show ?thesis
  proof (cases "may_failover r1 n")
    case False
    then show ?thesis using that(1) s assms by (simp add: sendWithFailover_def secret_or_throw_def)
  next
    case True
    show ?thesis
    proof (cases "find (\<lambda>x. Some (row_id x) = row_secondary n) (ce_nas env)")
      case None
      then show ?thesis using that(1) s assms True by (simp add: sendWithFailover_def secret_or_throw_def)
    next
      case (Some m)
      then have m: "m \<in> set (ce_nas env)" "row_secondary n = Some (row_id m)"
        by (auto simp: find_Some_iff)
      obtain secret2 r2 s2 where "row_secret m = Some secret2"
        "sendRadiusPacket env (snd ids) (row_ip m) (coa_port m) secret2 cod username extra = Inr (r2, s2)"
        "cr_sent r = cr_sent r2" "sends = s1 @ s2"
        using s assms True Some by (auto simp: sendWithFailover_def and_then_Ok_iff secret_or_throw_def split: option.splits)
      then show ?thesis using that(2) s m by blast
    qed
  qed
qed

definition secondary_of :: "coa_env \<Rightarrow> coa_nas \<Rightarrow> coa_nas \<Rightarrow> bool" where
  "secondary_of env n m \<longleftrightarrow> m \<in> set (ce_nas env) \<and> row_secondary n = Some (row_id m)"

lemma failover_facts:
  assumes "sendWithFailover env ids n cod username extra = Inr (r, sends)"
  shows "\<exists>p. (row_ip n, coa_port n, p) \<in> set sends"
    and "cr_sent r \<Longrightarrow> \<exists>m. (m = n \<or> secondary_of env n m) \<and> acknowledged_by env cod username extra sends m"
    and "(ip, port, p) \<in> set sends \<Longrightarrow> ip = row_ip n \<or> (\<exists>m. secondary_of env n m \<and> ip = row_ip m)"
proof -
  have "(\<exists>p. (row_ip n, coa_port n, p) \<in> set sends)
    \<and> (cr_sent r \<longrightarrow> (\<exists>m. (m = n \<or> secondary_of env n m) \<and> acknowledged_by env cod username extra sends m))
    \<and> ((ip, port, p) \<in> set sends \<longrightarrow> ip = row_ip n \<or> (\<exists>m. secondary_of env n m \<and> ip = row_ip m))"
    using assms
  proof (cases rule: failover_cases)
    case (1 secret)
    have "cr_sent r \<longrightarrow> acknowledged_by env cod username extra sends n"
      using packet_acknowledged [OF 1(2,1)] by blast
    moreover obtain packet where "sends = [(row_ip n, coa_port n, packet)]" using 1(2) by (rule packet_sent)
    ultimately show ?thesis by auto
  next
    case (2 secret r1 s1 m secret2 r2 s2)
    have second: "secondary_of env n m" using 2 by (simp add: secondary_of_def)
    have "cr_sent r \<longrightarrow> acknowledged_by env cod username extra sends m"
      using packet_acknowledged [OF 2(6,5)] 2(7,8) acknowledged_mono by fastforce
    moreover have "\<exists>p. (row_ip n, coa_port n, p) \<in> set sends"
      using 2(2,8) by (auto elim!: packet_sent)
    moreover have "(ip, port, p) \<in> set sends \<longrightarrow> ip = row_ip n \<or> ip = row_ip m"
      using 2(2,6,8) by (auto elim!: packet_sent)
    ultimately show ?thesis using second by blast
  qed
  then show "\<exists>p. (row_ip n, coa_port n, p) \<in> set sends"
    "cr_sent r \<Longrightarrow> \<exists>m. (m = n \<or> secondary_of env n m) \<and> acknowledged_by env cod username extra sends m"
    "(ip, port, p) \<in> set sends \<Longrightarrow> ip = row_ip n \<or> (\<exists>m. secondary_of env n m \<and> ip = row_ip m)"
    by blast+
qed

lemma collect_all: "collect rs = Inr xs \<Longrightarrow> list_all2 (\<lambda>r x. r = Inr x) rs xs"
  by (induction rs arbitrary: xs) (auto simp: and_then_Ok_iff)

lemma targets_answers:
  assumes "sendToTargets env ids cod username targets extra = Inr (r, sends)" and "usable_targets targets \<noteq> []"
  obtains answers where "length answers = length (usable_targets targets)"
    "\<And>k. k < length answers \<Longrightarrow> sendWithFailover env (ids k) (usable_targets targets ! k) cod username extra = Inr (answers ! k)"
    "sends = concat (map snd answers)" "cr_sent r = list_ex cr_sent (map fst answers)"
proof -
  obtain answers where c: "collect (map (\<lambda>(i, n). sendWithFailover env (ids i) n cod username extra)
      (enumerate 0 (usable_targets targets))) = Inr answers"
    and r: "r = combine_results (usable_targets targets) (map fst answers)" "sends = concat (map snd answers)"
    using assms by (auto simp: sendToTargets_def Let_def and_then_Ok_iff)
  have len: "length answers = length (usable_targets targets)" using collect_length [OF c] by simp
  have "sendWithFailover env (ids k) (usable_targets targets ! k) cod username extra = Inr (answers ! k)"
    if "k < length answers" for k
    using list_all2_nthD2 [OF collect_all [OF c] that] that len by (simp add: nth_enumerate_eq)
  moreover have "cr_sent r = list_ex cr_sent (map fst answers)"
    by (simp add: r combine_results_def coa_result_of_def Let_def)
  ultimately show ?thesis using that len r(2) by blast
qed

lemma targets_facts:
  assumes "sendToTargets env ids cod username targets extra = Inr (r, sends)"
  shows "n \<in> set (usable_targets targets) \<Longrightarrow> \<exists>p. (row_ip n, coa_port n, p) \<in> set sends"
    and "cr_sent r \<Longrightarrow> \<exists>n\<in>set targets. \<exists>m. (m = n \<or> secondary_of env n m) \<and> acknowledged_by env cod username extra sends m"
    and "(ip, port, p) \<in> set sends \<Longrightarrow> \<exists>n\<in>set targets. ip = row_ip n \<or> (\<exists>m. secondary_of env n m \<and> ip = row_ip m)"
proof -
  let ?u = "usable_targets targets"
  have sub: "set ?u \<subseteq> set targets" by (auto simp: usable_targets_def)
  have "(n \<in> set ?u \<longrightarrow> (\<exists>p. (row_ip n, coa_port n, p) \<in> set sends))
    \<and> (cr_sent r \<longrightarrow> (\<exists>n\<in>set targets. \<exists>m. (m = n \<or> secondary_of env n m) \<and> acknowledged_by env cod username extra sends m))
    \<and> ((ip, port, p) \<in> set sends \<longrightarrow> (\<exists>n\<in>set targets. ip = row_ip n \<or> (\<exists>m. secondary_of env n m \<and> ip = row_ip m)))"
  proof (cases "?u = []")
    case True
    then show ?thesis using assms by (auto simp: sendToTargets_def coa_result_of_def)
  next
    case False
    obtain answers where a: "length answers = length ?u"
      "\<And>k. k < length answers \<Longrightarrow> sendWithFailover env (ids k) (?u ! k) cod username extra = Inr (answers ! k)"
      "sends = concat (map snd answers)" "cr_sent r = list_ex cr_sent (map fst answers)"
      by (rule targets_answers [OF assms False]) blast
    have each: "sendWithFailover env (ids k) (?u ! k) cod username extra = Inr (fst (answers ! k), snd (answers ! k))"
      and there: "?u ! k \<in> set targets" if "k < length answers" for k
      using a(2) [OF that] that a(1) sub by auto
    have part: "set (snd (answers ! k)) \<subseteq> set sends" if "k < length answers" for k
      using nth_mem [OF that] unfolding a(3) by auto
    have reached: "\<exists>p. (row_ip n, coa_port n, p) \<in> set sends" if "n \<in> set ?u"
    proof -
      note mem = that
      obtain k where k: "k < length answers" "?u ! k = n" using mem a(1) by (metis in_set_conv_nth)
      have "\<exists>p. (row_ip n, coa_port n, p) \<in> set (snd (answers ! k))"
        using failover_facts(1) [OF each [OF k(1)]] unfolding k(2) .
      then show ?thesis using part [OF k(1)] by blast
    qed
    have acked: "\<exists>n\<in>set targets. \<exists>m. (m = n \<or> secondary_of env n m) \<and> acknowledged_by env cod username extra sends m" if "cr_sent r"
    proof -
      note sent = that
      obtain x where "x \<in> set answers" "cr_sent (fst x)"
        using sent unfolding a(4) list_ex_iff by auto
      then obtain k where k: "k < length answers" "cr_sent (fst (answers ! k))"
        by (metis in_set_conv_nth)
      obtain m where "m = ?u ! k \<or> secondary_of env (?u ! k) m" "acknowledged_by env cod username extra (snd (answers ! k)) m"
        using failover_facts(2) [OF each [OF k(1)] k(2)] by blast
      moreover from this have "acknowledged_by env cod username extra sends m"
        by (intro acknowledged_mono [OF _ part [OF k(1)]])
      ultimately show ?thesis using there [OF k(1)] by blast
    qed
    have own: "\<exists>n\<in>set targets. ip = row_ip n \<or> (\<exists>m. secondary_of env n m \<and> ip = row_ip m)" if "(ip, port, p) \<in> set sends"
    proof -
      note out = that
      obtain x where "x \<in> set answers" "(ip, port, p) \<in> set (snd x)"
        using out unfolding a(3) by auto
      then obtain k where k: "k < length answers" "(ip, port, p) \<in> set (snd (answers ! k))"
        by (metis in_set_conv_nth)
      show ?thesis using failover_facts(3) [OF each [OF k(1)] k(2)] there [OF k(1)] by blast
    qed
    show ?thesis using reached acked own by blast
  qed
  then show "n \<in> set ?u \<Longrightarrow> \<exists>p. (row_ip n, coa_port n, p) \<in> set sends"
    "cr_sent r \<Longrightarrow> \<exists>n\<in>set targets. \<exists>m. (m = n \<or> secondary_of env n m) \<and> acknowledged_by env cod username extra sends m"
    "(ip, port, p) \<in> set sends \<Longrightarrow> \<exists>n\<in>set targets. ip = row_ip n \<or> (\<exists>m. secondary_of env n m \<and> ip = row_ip m)"
    by blast+
qed

section \<open>Targets\<close>

lemma target_owner:
  assumes "n \<in> set (resolveCoaTargets env (a, org))"
  shows "n \<in> set (ce_nas env) \<and> org \<noteq> None \<and> row_org n = org \<and> \<not> row_deleted n"
  using assms by (auto simp: resolveCoaTargets_def Let_def serves_row_def open_session_row_def find_Some_iff
      split: option.splits if_splits)

lemma session_target:
  assumes "l \<in> set (ce_logs env)" and "open_session_row env org (ac_user a) l" and "n \<in> set (ce_nas env)"
    and "serves_row env l n"
  shows "n \<in> set (resolveCoaTargets env (a, Some org))"
  using assms by (auto simp: resolveCoaTargets_def Let_def split: option.splits)

lemma named_owner:
  assumes "n \<in> set (named_nas env org ip)"
  shows "n \<in> set (ce_nas env) \<and> org \<noteq> None \<and> row_org n = org \<and> \<not> row_deleted n"
  using assms by (auto simp: named_nas_def split: option.splits if_splits dest!: find_SomeD)

definition session_attribute :: "string option \<Rightarrow> (string \<times> string) list" where
  "session_attribute s = (case s of None \<Rightarrow> [] | Some i \<Rightarrow> if i = [] then [] else [(''Acct-Session-Id'', i)])"

lemma disconnect_cases:
  assumes "sendRadiusDisconnect env ids c s ip = Inr (r, sends)"
  obtains "\<not> cr_sent r" "sends = []" "\<And>a org. lookupRadiusAccount env c = Some (a, org) \<Longrightarrow> resolveCoaTargets env (a, org) = []"
  | a org targets where "lookupRadiusAccount env c = Some (a, org)" "targets \<noteq> []"
      "targets = (if named_nas env org ip = [] then resolveCoaTargets env (a, org) else named_nas env org ip)"
      "sendToTargets env ids 40 (ac_user a) targets (session_attribute s) = Inr (r, sends)"
proof (cases "lookupRadiusAccount env c")
  case None
  then show ?thesis using assms by (intro that(1)) (auto simp: sendRadiusDisconnect_def no_account_def coa_result_of_def)
next
  case (Some account)
  obtain a org where ao: "account = (a, org)" by fastforce
  let ?t = "if named_nas env org ip = [] then resolveCoaTargets env (a, org) else named_nas env org ip"
  show ?thesis
  proof (cases "?t = []")
    case True
    then have empty: "named_nas env org ip = []" "resolveCoaTargets env (a, org) = []" by (simp_all split: if_splits)
    then have "sendRadiusDisconnect env ids c s ip = Inr no_target"
      unfolding sendRadiusDisconnect_def Some Let_def ao by simp
    then show ?thesis using assms empty(2) Some ao by (intro that(1)) (auto simp: no_target_def coa_result_of_def)
  next
    case False
    have "sendToTargets env ids 40 (ac_user a) ?t (session_attribute s) = Inr (r, sends)"
      using assms False unfolding sendRadiusDisconnect_def Some Let_def ao session_attribute_def
      by (cases "named_nas env org ip = []") simp_all
    then show ?thesis using that(2) Some ao False by blast
  qed
qed

text \<open>C10. A Disconnect counts as sent only if some server, a target or the secondary of one, answered
  exactly the packet it was sent with a genuine acknowledgement.\<close>

theorem disconnect_sent_means_acknowledged:
  assumes "sendRadiusDisconnect env ids c s ip = Inr (r, sends)" and "cr_sent r"
  shows "\<exists>n\<in>set (ce_nas env). \<exists>i secret packet auth msg username.
     row_secret n = Some secret \<and> request_packet (ce_md5 env) i secret 40 username (session_attribute s) = Inr (packet, auth)
     \<and> (row_ip n, coa_port n, packet) \<in> set sends \<and> Datagram msg \<in> set (ce_net env (row_ip n) (coa_port n) packet)
     \<and> genuine (ce_md5 env) i auth secret msg \<and> unat (msg ! 0) \<in> {41, 44}"
  using assms(1)
proof (cases rule: disconnect_cases)
  case 1
  then show ?thesis using assms(2) by simp
next
  case (2 a org targets)
  obtain n m where "n \<in> set targets" and m: "m = n \<or> secondary_of env n m"
    and acked: "acknowledged_by env 40 (ac_user a) (session_attribute s) sends m"
    using targets_facts(2) [OF 2(4) assms(2)] by blast
  then have "n \<in> set (ce_nas env)" using 2(3) target_owner named_owner by (metis (no_types))
  then have "m \<in> set (ce_nas env)" using m by (auto simp: secondary_of_def)
  then show ?thesis using acked unfolding acknowledged_by_def by blast
qed

text \<open>C37. A Disconnect of a subscriber goes to every registered server of its organization on which
  accounting shows an open session, and each packet goes to a live server of that organization or to
  the secondary of one.\<close>

theorem disconnect_reaches_open_sessions:
  assumes "sendRadiusDisconnect env ids c None None = Inr (r, sends)" and "lookupRadiusAccount env c = Some (a, Some org)"
  shows "(\<forall>l\<in>set (ce_logs env). \<forall>n\<in>set (ce_nas env). open_session_row env org (ac_user a) l \<and> serves_row env l n
        \<and> row_secret n \<notin> {None, Some []} \<longrightarrow> (\<exists>p. (row_ip n, coa_port n, p) \<in> set sends))
    \<and> (\<forall>(ip, port, p)\<in>set sends. \<exists>m\<in>set (ce_nas env). row_org m = Some org \<and> \<not> row_deleted m
        \<and> (ip = row_ip m \<or> (\<exists>m2\<in>set (ce_nas env). row_secondary m = Some (row_id m2) \<and> ip = row_ip m2)))"
proof -
  have none: "named_nas env (Some org) None = []" by (simp add: named_nas_def)
  show ?thesis
    using assms(1)
  proof (cases rule: disconnect_cases)
    case 1
    have "resolveCoaTargets env (a, Some org) = []" by (rule 1(3) [OF assms(2)])
    then have "\<not> (open_session_row env org (ac_user a) l \<and> serves_row env l n)" if "l \<in> set (ce_logs env)" "n \<in> set (ce_nas env)" for l n
      using session_target [OF that(1) _ that(2)] by force
    then show ?thesis using 1(2) by auto
  next
    case (2 b org2 targets)
    have t: "b = a" "org2 = Some org" "targets = resolveCoaTargets env (a, Some org)"
      using 2(1,3) assms(2) none by simp_all
    have reach: "\<exists>p. (row_ip n, coa_port n, p) \<in> set sends"
      if "l \<in> set (ce_logs env)" "n \<in> set (ce_nas env)" "open_session_row env org (ac_user a) l" "serves_row env l n"
        "row_secret n \<notin> {None, Some []}" for l n
    proof (rule targets_facts(1) [OF 2(4)])
      show "n \<in> set (usable_targets targets)"
        using session_target [OF that(1,3,2,4)] that(5) t(3) by (simp add: usable_targets_def)
    qed
    have own: "\<exists>m\<in>set (ce_nas env). row_org m = Some org \<and> \<not> row_deleted m
        \<and> (ip = row_ip m \<or> (\<exists>m2\<in>set (ce_nas env). row_secondary m = Some (row_id m2) \<and> ip = row_ip m2))"
      if "(ip, port, p) \<in> set sends" for ip port p
    proof -
      note sent = that
      obtain m where m: "m \<in> set targets" "ip = row_ip m \<or> (\<exists>m2. secondary_of env m m2 \<and> ip = row_ip m2)"
        using targets_facts(3) [OF 2(4) sent] by blast
      moreover have "m \<in> set (ce_nas env) \<and> row_org m = Some org \<and> \<not> row_deleted m"
        using m(1) target_owner t(3) by blast
      ultimately show ?thesis unfolding secondary_of_def by blast
    qed
    show ?thesis using reach own by blast
  qed
qed

section \<open>A sample subscriber\<close>

definition sample_coa_nas :: coa_nas where
  "sample_coa_nas = \<lparr>row_id = 1, row_org = Some 2, row_ip = ''10.0.0.1'', row_secret = Some ''k'', row_active = True,
     row_deleted = False, row_coa_port = None, row_secondary = None\<rparr>"

definition sample_coa_account :: coa_account where
  "sample_coa_account = \<lparr>ac_user = ''u'', ac_org = Some 2, ac_contract = Some 5, ac_client = 3, ac_deleted = False, aa_home_nas = None, aa_status = ''active'',
     aa_password = None, aa_address = None\<rparr>"

definition sample_coa_log :: coa_log where
  "sample_coa_log = \<lparr>lr_id = 1, lr_org = 2, lr_contract = 5, lr_client = 3, lr_nas = Some 1, lr_nas_ip = ''10.0.0.1'', lr_user = ''u'',
     lr_acct_session = Some ''s'', lr_session = None, lr_instance = Some ''i'', lr_port = None, lr_called = None, lr_calling = None,
     lr_framed4 = None, lr_framed6 = None, lr_kind = Start, lr_event_at = 1000, lr_last_at = None, lr_counts = (\<lambda>_. None),
     lr_usage_last = (\<lambda>_. None), lr_v6_in = None, lr_v6_out = None, lr_stack = None, lr_cause = None, lr_delay = None,
     lr_evidence_complete = True, lr_evidence_anomaly = None, lr_usage_complete = True, lr_anomalies = 0, lr_received = None\<rparr>"

text \<open>The server answers a stray datagram, a reply to another packet, and the acknowledgement.\<close>

definition sample_coa_env :: coa_env where
  "sample_coa_env = \<lparr>ce_coll = (\<lambda>s. s), ce_accounts = [sample_coa_account], ce_nas = [sample_coa_nas], ce_logs = [sample_coa_log],
     ce_contract_org = (\<lambda>_. None), ce_now = 2000, ce_liveness = None, ce_md5 = (\<lambda>_. replicate 16 0),
     ce_net = (\<lambda>ip port packet. [Datagram [41], Datagram ([42, 9] @ be16 20 @ replicate 16 0), Datagram ([41, 7] @ be16 20 @ replicate 16 0)])\<rparr>"

definition sample_disconnect :: "(coa_result \<times> coa_send list) result" where
  "sample_disconnect = sendRadiusDisconnect sample_coa_env (\<lambda>_. (7, 8)) 5 None None"

lemma sample_user: "encodeNamedAttributes [(''User-Name'', ''u'')] = Inr [1, 3, 117]"
  by (simp add: NAMED_ENCODERS_def encodeUserName_def utf8_bytes_def byte_of_char_def code_def)

lemma sample_request: "\<exists>p. request_packet (\<lambda>_. replicate 16 0) 7 ''k'' 40 ''u'' [] = Inr (p, replicate 16 0)"
  unfolding request_packet_def sample_user
  by (simp add: buildRadiusPacket_shape computeRequestAuthenticator_def buf_fill0_def be16_def)

lemma genuine_bare:
  assumes "length a = 16"
  shows "genuine md5 i auth secret ([d, j] @ be16 20 @ a)
    \<longleftrightarrow> j = i \<and> md5 ([d, j] @ be16 20 @ auth @ utf8_bytes secret) = a"
proof -
  have "readUInt16BE ([d, j] @ be16 20 @ a) 2 = 20" by (rule readUInt16BE_be16) simp_all
  then show ?thesis using assms by (simp add: genuine_def subarray_def be16_def)
qed

lemma sample_await:
  "await_reply (\<lambda>_. replicate 16 0) 7 (replicate 16 0) ''k''
     [Datagram [41], Datagram ([42, 9] @ be16 20 @ replicate 16 0), Datagram ([41, 7] @ be16 20 @ replicate 16 0)]
   = coa_result_of True ''Disconnect-ACK'' Acked"
  using genuine_bare [of "replicate 16 0"]
  by (simp add: reply_result_def code_name_def)

lemma sample_disconnect_acked:
  "\<exists>p. sample_disconnect = Inr (coa_result_of True ''Disconnect-ACK'' Acked, [(''10.0.0.1'', 3799, p)])"
proof -
  obtain p where p: "request_packet (\<lambda>_. replicate 16 0) 7 ''k'' 40 ''u'' [] = Inr (p, replicate 16 0)"
    using sample_request by blast
  have targets: "resolveCoaTargets sample_coa_env (sample_coa_account, Some 2) = [sample_coa_nas]"
    by (simp add: resolveCoaTargets_def open_session_row_def serves_row_def last_sign_def session_liveness_def sample_coa_env_def
        sample_coa_account_def sample_coa_log_def sample_coa_nas_def)
  have who: "lookupRadiusAccount sample_coa_env 5 = Some (sample_coa_account, Some 2)"
    by (simp add: lookupRadiusAccount_def sample_coa_env_def sample_coa_account_def sql_coalesce_def)
  have "sendRadiusPacket sample_coa_env 7 ''10.0.0.1'' 3799 ''k'' 40 ''u'' []
      = Inr (coa_result_of True ''Disconnect-ACK'' Acked, [(''10.0.0.1'', 3799, p)])"
    using p sample_await by (simp add: sendRadiusPacket_def sample_coa_env_def)
  then have "sendWithFailover sample_coa_env (7, 8) sample_coa_nas 40 ''u'' []
      = Inr (coa_result_of True ''Disconnect-ACK'' Acked, [(''10.0.0.1'', 3799, p)])"
    by (simp add: sendWithFailover_def secret_or_throw_def sample_coa_nas_def coa_port_def may_failover_def coa_result_of_def)
  then have "sendToTargets sample_coa_env (\<lambda>_. (7, 8)) 40 ''u'' [sample_coa_nas] []
      = Inr (coa_result_of True ''Disconnect-ACK'' Acked, [(''10.0.0.1'', 3799, p)])"
    by (simp add: sendToTargets_def usable_targets_def combine_results_def coa_result_of_def) (simp add: sample_coa_nas_def)
  then show ?thesis
    by (simp add: sample_disconnect_def sendRadiusDisconnect_def who targets named_nas_def Let_def) (simp add: sample_coa_account_def)
qed

theorem disconnect_sent_means_acknowledged_witness:
  "\<exists>n\<in>set (ce_nas sample_coa_env). \<exists>i secret packet auth msg username.
     row_secret n = Some secret \<and> request_packet (ce_md5 sample_coa_env) i secret 40 username [] = Inr (packet, auth)
     \<and> genuine (ce_md5 sample_coa_env) i auth secret msg \<and> unat (msg ! 0) \<in> {41, 44}"
proof -
  obtain r sends where run: "sendRadiusDisconnect sample_coa_env (\<lambda>_. (7, 8)) 5 None None = Inr (r, sends)" and "cr_sent r"
    using sample_disconnect_acked unfolding sample_disconnect_def by (auto simp: coa_result_of_def)
  from disconnect_sent_means_acknowledged [OF this] show ?thesis
    unfolding session_attribute_def option.case by blast
qed

theorem disconnect_reaches_open_sessions_witness:
  "\<exists>p sends r. sendRadiusDisconnect sample_coa_env (\<lambda>_. (7, 8)) 5 None None = Inr (r, sends) \<and> (''10.0.0.1'', 3799, p) \<in> set sends"
proof -
  obtain r sends where run: "sendRadiusDisconnect sample_coa_env (\<lambda>_. (7, 8)) 5 None None = Inr (r, sends)"
    using sample_disconnect_acked unfolding sample_disconnect_def by (auto simp: coa_result_of_def)
  have who: "lookupRadiusAccount sample_coa_env 5 = Some (sample_coa_account, Some 2)"
    by (simp add: lookupRadiusAccount_def sample_coa_env_def sample_coa_account_def sql_coalesce_def)
  have "open_session_row sample_coa_env 2 (ac_user sample_coa_account) sample_coa_log" "serves_row sample_coa_env sample_coa_log sample_coa_nas"
    by (simp_all add: open_session_row_def serves_row_def last_sign_def session_liveness_def sample_coa_env_def
        sample_coa_account_def sample_coa_log_def sample_coa_nas_def)
  then have "\<exists>p. (row_ip sample_coa_nas, coa_port sample_coa_nas, p) \<in> set sends"
    using disconnect_reaches_open_sessions [OF run who]
    by (simp add: sample_coa_env_def sample_coa_nas_def)
  then show ?thesis using run by (auto simp: sample_coa_nas_def coa_port_def)
qed

end
