(* ===== verification/RouterosApi.thy ===== *)
theory RouterosApi
  imports ApiScopes Framing
begin

text \<open>
  The RouterOS API protocol and client of \<open>src/services/routerosService.js\<close>: the word and sentence
  encoding, the incremental reader, and the client's queue of pending commands. Offsets are
  integers, \<open>None\<close> being \<open>NaN\<close>: a five-byte length is read with 32-bit signed arithmetic, so an
  offset can move backwards, and reading outside the buffer yields \<open>undefined\<close>. The reader loop
  may therefore run forever on hostile input; it is a \<open>partial_function\<close>, whose value \<open>None\<close> is
  that it never returns.
\<close>

section \<open>Words\<close>

definition encodeWord :: "string \<Rightarrow> buffer" where
  "encodeWord word =
     (let wordBuf = utf8_bytes word; n = length wordBuf;
          lenBuf =
            (if n < 0x80 then [of_nat n]
             else if n < 0x4000 then [of_nat (drop_bit 8 n OR 0x80), of_nat (n AND 0xff)]
             else if n < 0x200000
             then [of_nat (drop_bit 16 n OR 0xc0), of_nat (drop_bit 8 n AND 0xff), of_nat (n AND 0xff)]
             else if n < 0x10000000
             then [of_nat (drop_bit 24 n OR 0xe0), of_nat (drop_bit 16 n AND 0xff),
                   of_nat (drop_bit 8 n AND 0xff), of_nat (n AND 0xff)]
             else [0xf0, of_nat (drop_bit 24 n AND 0xff), of_nat (drop_bit 16 n AND 0xff),
                   of_nat (drop_bit 8 n AND 0xff), of_nat (n AND 0xff)])
      in lenBuf @ wordBuf)"

definition encodeSentence :: "string list \<Rightarrow> buffer" where
  "encodeSentence words = concat (map encodeWord words) @ [0]"

text \<open>\<open>buf.slice(s, e)\<close>: negative positions count from the end, both are clipped.\<close>

definition slice_pos :: "buffer \<Rightarrow> int \<Rightarrow> nat" where
  "slice_pos buf i = (if i < 0 then nat (max 0 (int (length buf) + i)) else min (nat i) (length buf))"

definition js_slice :: "buffer \<Rightarrow> int \<Rightarrow> int \<Rightarrow> buffer" where
  "js_slice buf s e = take (slice_pos buf e - slice_pos buf s) (drop (slice_pos buf s) buf)"

definition buf_at :: "buffer \<Rightarrow> int \<Rightarrow> nat option" where
  "buf_at buf i = (if 0 \<le> i \<and> i < int (length buf) then Some (unat (buf ! nat i)) else None)"

text \<open>The length and the header size of a word, \<open>None\<close> when the header is incomplete. The shifts of
  the first four forms stay below $2^{31}$; the fifth wraps to a signed number.\<close>

definition word_header :: "buffer \<Rightarrow> nat \<Rightarrow> nat \<Rightarrow> (int \<times> int) option" where
  "word_header buf o' b0 =
     (let b = (\<lambda>k. unat (buf ! (o' + k))); n = length buf in
      if b0 AND 0x80 = 0 then Some (int b0, 1)
      else if b0 AND 0xc0 = 0x80
      then (if n < o' + 2 then None else Some (int (push_bit 8 (b0 AND 0x3f) OR b 1), 2))
      else if b0 AND 0xe0 = 0xc0
      then (if n < o' + 3 then None
            else Some (int ((push_bit 16 (b0 AND 0x1f) OR push_bit 8 (b 1)) OR b 2), 3))
      else if b0 AND 0xf0 = 0xe0
      then (if n < o' + 4 then None
            else Some (int (((push_bit 24 (b0 AND 0x0f) OR push_bit 16 (b 1)) OR push_bit 8 (b 2)) OR b 3), 4))
      else (if n < o' + 5 then None
            else Some (sint (((push_bit 24 (of_nat (b 1)) OR push_bit 16 (of_nat (b 2)))
                         OR push_bit 8 (of_nat (b 3))) OR of_nat (b 4) :: 32 word), 5)))"

text \<open>Past the header check, an undefined first byte gives the length \<open>NaN\<close>: every comparison with
  it is false, the slice is empty and the next offset is \<open>NaN\<close> too.\<close>

definition readWord :: "buffer \<Rightarrow> int option \<Rightarrow> (string \<times> int option) option" where
  "readWord buf offset =
     (case offset of
        None \<Rightarrow> Some ([], None)
      | Some off \<Rightarrow>
          if off \<ge> int (length buf) then None
          else (case buf_at buf off of
                  None \<Rightarrow> Some (utf8_text (js_slice buf (off + 1) 0), None)
                | Some b0 \<Rightarrow>
                    (case word_header buf (nat off) b0 of
                       None \<Rightarrow> None
                     | Some (n, h) \<Rightarrow>
                         if int (length buf) < off + h + n then None
                         else Some (utf8_text (js_slice buf (off + h) (off + h + n)), Some (off + h + n)))))"

section \<open>Sentences\<close>

text \<open>The two nested loops: the words read so far, the sentences completed, and where the
  unfinished sentence starts.\<close>

partial_function (option) parse_loop ::
  "buffer \<Rightarrow> int option \<Rightarrow> int option \<Rightarrow> string list \<Rightarrow> string list list
   \<Rightarrow> (string list list \<times> int option) option" where
  "parse_loop buf offset start sentence sentences =
     (case readWord buf offset of
        None \<Rightarrow> Some (sentences, start)
      | Some (w, next) \<Rightarrow>
          if w = [] then parse_loop buf next next [] (sentences @ [sentence])
          else parse_loop buf next start (sentence @ [w]) sentences)"

declare parse_loop.simps [code]

definition slice_from :: "buffer \<Rightarrow> int option \<Rightarrow> buffer" where
  "slice_from buf start = (case start of None \<Rightarrow> buf | Some s \<Rightarrow> drop (slice_pos buf s) buf)"

definition parseSentences :: "buffer \<Rightarrow> (string list list \<times> buffer) option" where
  "parseSentences buf =
     map_option (\<lambda>(ss, start). (ss, slice_from buf start)) (parse_loop buf (Some 0) (Some 0) [] [])"

section \<open>The client\<close>

datatype ros_error = Unreachable string | AuthFailed string | Failed string

text \<open>A pending command is known by a number; its outcome resolves or rejects its promise.\<close>

record pending =
  pd_id :: nat
  pd_sentences :: "string list list"

record ros_client =
  rc_buf :: buffer
  rc_pending :: "pending list"
  rc_outcomes :: "(nat \<times> (ros_error + string list list)) list"
  rc_written :: "buffer list"

definition message_of :: "string list \<Rightarrow> string option" where
  "message_of sentence = map_option (drop 9) (find (\<lambda>w. starts_with w ''=message='') sentence)"

definition onSentence :: "string list \<Rightarrow> ros_client \<Rightarrow> ros_client" where
  "onSentence sentence c =
     (case rc_pending c of
        [] \<Rightarrow> c
      | p # ps \<Rightarrow>
          let got = pd_sentences p @ [sentence];
              kind = (case sentence of [] \<Rightarrow> None | w # _ \<Rightarrow> Some w) in
          if kind = Some ''!done''
          then c\<lparr>rc_pending := ps, rc_outcomes := rc_outcomes c @ [(pd_id p, Ok got)]\<rparr>
          else if kind = Some ''!trap'' \<or> kind = Some ''!fatal''
          then c\<lparr>rc_pending := ps, rc_outcomes := rc_outcomes c @
                  [(pd_id p, Err (Failed (case message_of sentence of Some m \<Rightarrow> m | None \<Rightarrow> ''RouterOS '' @ the kind)))]\<rparr>
          else c\<lparr>rc_pending := p\<lparr>pd_sentences := got\<rparr> # ps\<rparr>)"

text \<open>\<open>_onData\<close>: the loops of \<open>parseSentences\<close>, each sentence handed to \<open>_onSentence\<close> as it
  completes; \<open>None\<close> when the loop does not return.\<close>

definition onData :: "buffer \<Rightarrow> ros_client \<Rightarrow> ros_client option" where
  "onData chunk c =
     (let buf = rc_buf c @ chunk in
      map_option (\<lambda>(ss, start). (fold onSentence ss c)\<lparr>rc_buf := slice_from buf start\<rparr>)
        (parse_loop buf (Some 0) (Some 0) [] []))"

definition sendSentence :: "nat \<Rightarrow> string list \<Rightarrow> ros_client \<Rightarrow> ros_client" where
  "sendSentence i words c =
     c\<lparr>rc_pending := rc_pending c @ [\<lparr>pd_id = i, pd_sentences = []\<rparr>],
       rc_written := rc_written c @ [encodeSentence words]\<rparr>"

definition commandTimeout :: "nat \<Rightarrow> string \<Rightarrow> ros_client \<Rightarrow> ros_client" where
  "commandTimeout i word c =
     c\<lparr>rc_pending := filter (\<lambda>p. pd_id p \<noteq> i) (rc_pending c),
       rc_outcomes := rc_outcomes c @ [(i, Err (Unreachable (''RouterOS command timed out: '' @ word)))]\<rparr>"

definition reject_all :: "string \<Rightarrow> ros_client \<Rightarrow> ros_client" where
  "reject_all msg c =
     c\<lparr>rc_pending := [],
       rc_outcomes := rc_outcomes c @ map (\<lambda>p. (pd_id p, Err (Unreachable msg))) (rc_pending c)\<rparr>"

definition onSocketError :: "string \<Rightarrow> ros_client \<Rightarrow> ros_client" where
  "onSocketError msg = reject_all msg"

definition onClose :: "ros_client \<Rightarrow> ros_client" where
  "onClose = reject_all ''RouterOS connection closed''"

text \<open>\<open>_login\<close>, from the outcome of its \<open>/login\<close> sentence; the JSON of an unexpected reply is left
  out of the message.\<close>

definition login_words :: "string \<Rightarrow> string \<Rightarrow> string list" where
  "login_words user pass = [''/login'', ''=name='' @ user, ''=password='' @ pass]"

fun login_error :: "ros_error \<Rightarrow> ros_error" where
  "login_error (Failed m) = AuthFailed m"
| "login_error e = e"

definition login_result :: "(ros_error + string list list) \<Rightarrow> ros_error + unit" where
  "login_result outcome =
     (case outcome of
        Inl e \<Rightarrow> Err (login_error e)
      | Inr response \<Rightarrow>
          let first = (case response of [] \<Rightarrow> [] | s # _ \<Rightarrow> s);
              kind = (case first of [] \<Rightarrow> [] | w # _ \<Rightarrow> w) in
          if kind = ''!done'' then Ok ()
          else if kind = ''!trap''
          then Err (AuthFailed (''RouterOS login failed: '' @
                 (case message_of first of Some m \<Rightarrow> m | None \<Rightarrow> ''unknown error'')))
          else Err (Failed ''RouterOS login unexpected response''))"

section \<open>Helpers on replies\<close>

definition attr_of :: "string \<Rightarrow> (string \<times> string) option" where
  "attr_of word =
     (case word of
        [] \<Rightarrow> None
      | c # cs \<Rightarrow> if c = CHR ''='' then split_first CHR ''='' cs else None)"

text \<open>The object of the attributes; later words overwrite earlier ones.\<close>

definition parseAttrs :: "string list \<Rightarrow> string \<Rightarrow> string option" where
  "parseAttrs words = foldl (\<lambda>m w. case attr_of w of None \<Rightarrow> m | Some (k, v) \<Rightarrow> m(k \<mapsto> v)) (\<lambda>_. None) words"

datatype ros_value = RBool bool | RText string | ROther

definition ascii_lower :: "string \<Rightarrow> string" where
  "ascii_lower s = map (\<lambda>c. if 65 \<le> code c \<and> code c \<le> 90 then char_of (code c + 32) else c) s"

fun rosBool :: "ros_value \<Rightarrow> bool" where
  "rosBool (RBool b) = b"
| "rosBool (RText s) = (let v = ascii_lower (js_trim s) in v = ''true'' \<or> v = ''yes'')"
| "rosBool ROther = False"

end
