(* ===== verification/RouterosCommands.thy ===== *)
theory RouterosCommands
  imports RouterosApi
begin

text \<open>
  The provisioning commands of \<open>src/services/routerosService.js\<close>. A connection is a pair of
  operations on the state of the router (\<open>ros_link\<close>): opening it, and running one sentence, whose
  result is what theory RouterosApi settles a command with. Parameters are the flat object of the
  relay tunnel, a map from names to texts; an absent or empty parameter is falsy, a Boolean is
  present exactly when it is true. Closing the connection always succeeds and is left out.
\<close>

type_synonym ros_params = "string \<Rightarrow> string option"

record 's ros_link =
  rl_open :: "'s \<Rightarrow> 's \<times> (ros_error + unit)"
  rl_run :: "string list \<Rightarrow> 's \<Rightarrow> 's \<times> (ros_error + string list list)"

section \<open>Running sentences\<close>

definition param :: "ros_params \<Rightarrow> string \<Rightarrow> string" where
  "param p k = (case p k of Some v \<Rightarrow> v | None \<Rightarrow> [])"

definition ros_bind ::
    "('s \<Rightarrow> 's \<times> (ros_error + 'a)) \<Rightarrow> ('a \<Rightarrow> 's \<Rightarrow> 's \<times> (ros_error + 'b)) \<Rightarrow> 's \<Rightarrow> 's \<times> (ros_error + 'b)" where
  "ros_bind m f s = (case m s of (s', Inl e) \<Rightarrow> (s', Inl e) | (s', Inr x) \<Rightarrow> f x s')"

definition ros_return :: "'a \<Rightarrow> 's \<Rightarrow> 's \<times> (ros_error + 'a)" where
  "ros_return x s = (s, Ok x)"

text \<open>The checks made before a connection is opened: each name must be given.\<close>

fun require_all ::
    "string \<Rightarrow> string list \<Rightarrow> ros_params \<Rightarrow> ('s \<Rightarrow> 's \<times> (ros_error + 'a)) \<Rightarrow> 's \<Rightarrow> 's \<times> (ros_error + 'a)" where
  "require_all fn [] p body s = body s"
| "require_all fn (k # ks) p body s =
     (if param p k = [] then (s, Err (Failed (fn @ '': '' @ k @ '' is required'')))
      else require_all fn ks p body s)"

definition with_client :: "'s ros_link \<Rightarrow> ('s \<Rightarrow> 's \<times> (ros_error + 'a)) \<Rightarrow> 's \<Rightarrow> 's \<times> (ros_error + 'a)" where
  "with_client link body = ros_bind (rl_open link) (\<lambda>_. body)"

definition attr_word :: "string \<times> string \<Rightarrow> string" where
  "attr_word kv = ''='' @ fst kv @ ''='' @ snd kv"

definition query_word :: "string \<times> string \<Rightarrow> string" where
  "query_word kv = ''?'' @ fst kv @ ''='' @ snd kv"

definition opt_attr :: "string \<Rightarrow> ros_params \<Rightarrow> string \<Rightarrow> (string \<times> string) list" where
  "opt_attr key p k = (if param p k = [] then [] else [(key, param p k)])"

definition kind_is :: "string \<Rightarrow> string list \<Rightarrow> bool" where
  "kind_is k s \<longleftrightarrow> s \<noteq> [] \<and> hd s = k"

definition first_id :: "string list list \<Rightarrow> string option" where
  "first_id sentences =
     (let ids = List.map_filter (\<lambda>s. if kind_is ''!re'' s
            then (case parseAttrs (tl s) ''.id'' of Some (c # cs) \<Rightarrow> Some (c # cs) | _ \<Rightarrow> None) else None) sentences
      in case ids of [] \<Rightarrow> None | i # _ \<Rightarrow> Some i)"

definition findId :: "'s ros_link \<Rightarrow> string \<Rightarrow> (string \<times> string) list \<Rightarrow> 's \<Rightarrow> 's \<times> (ros_error + string option)" where
  "findId link basePath queries =
     ros_bind (rl_run link ((basePath @ ''/print'') # map query_word queries)) (\<lambda>ss. ros_return (first_id ss))"

definition findPppoeSecretId :: "'s ros_link \<Rightarrow> string \<Rightarrow> 's \<Rightarrow> 's \<times> (ros_error + string option)" where
  "findPppoeSecretId link name = findId link ''/ppp/secret'' [(''name'', name)]"

definition findQueueId :: "'s ros_link \<Rightarrow> string \<Rightarrow> 's \<Rightarrow> 's \<times> (ros_error + string option)" where
  "findQueueId link name = findId link ''/queue/simple'' [(''name'', name)]"

definition findAddressListEntryId :: "'s ros_link \<Rightarrow> string \<Rightarrow> string \<Rightarrow> 's \<Rightarrow> 's \<times> (ros_error + string option)" where
  "findAddressListEntryId link lst address =
     findId link ''/ip/firewall/address-list'' [(''list'', lst), (''address'', address)]"

text \<open>\<open>parseAttrs(done.slice(1)).ret || dflt\<close> of the first \<open>!done\<close> sentence, \<open>dflt\<close> when there is none.\<close>

definition ret_or :: "string \<Rightarrow> string list list \<Rightarrow> string" where
  "ret_or dflt sentences =
     (case find (kind_is ''!done'') sentences of
        None \<Rightarrow> dflt
      | Some d \<Rightarrow> (case parseAttrs (tl d) ''ret'' of Some (c # cs) \<Rightarrow> c # cs | _ \<Rightarrow> dflt))"

record upsert_result =
  us_id :: string
  us_created :: bool
  us_updated :: bool

text \<open>The common body of the create-or-update commands: look the row up by its queries, set it in
  place by its \<open>.id\<close>, or add it and read the new id from the reply.\<close>

definition upsert_row ::
    "'s ros_link \<Rightarrow> string \<Rightarrow> (string \<times> string) list \<Rightarrow> (string \<times> string) list
     \<Rightarrow> 's \<Rightarrow> 's \<times> (ros_error + upsert_result)" where
  "upsert_row link path queries attrs =
     ros_bind (findId link path queries)
       (\<lambda>existing. case existing of
          Some i \<Rightarrow>
            ros_bind (rl_run link ((path @ ''/set'') # attr_word (''.id'', i) # map attr_word attrs))
              (\<lambda>_. ros_return \<lparr>us_id = i, us_created = False, us_updated = True\<rparr>)
        | None \<Rightarrow>
            ros_bind (rl_run link ((path @ ''/add'') # map attr_word attrs))
              (\<lambda>ss. ros_return \<lparr>us_id = ret_or [] ss, us_created = True, us_updated = False\<rparr>))"

section \<open>PPPoE secrets, queues and address lists\<close>

definition service_of :: "ros_params \<Rightarrow> string" where
  "service_of p = (if param p ''service'' = [] then ''pppoe'' else param p ''service'')"

definition secret_options :: "ros_params \<Rightarrow> (string \<times> string) list" where
  "secret_options p = opt_attr ''profile'' p ''profile'' @ opt_attr ''local-address'' p ''localAddress''
     @ opt_attr ''remote-address'' p ''remoteAddress'' @ opt_attr ''comment'' p ''comment''"

definition pppoeCreate :: "'s ros_link \<Rightarrow> ros_params \<Rightarrow> 's \<Rightarrow> 's \<times> (ros_error + string)" where
  "pppoeCreate link p =
     require_all ''pppoeCreate'' [''name'', ''secretPassword''] p (with_client link
       (ros_bind (rl_run link (''/ppp/secret/add'' # map attr_word
          ([(''name'', param p ''name''), (''password'', param p ''secretPassword''), (''service'', service_of p)]
           @ secret_options p)))
         (\<lambda>ss. ros_return (ret_or [] ss))))"

definition pppoeUpsert :: "'s ros_link \<Rightarrow> ros_params \<Rightarrow> 's \<Rightarrow> 's \<times> (ros_error + upsert_result)" where
  "pppoeUpsert link p =
     require_all ''pppoeUpsert'' [''name'', ''secretPassword''] p (with_client link
       (upsert_row link ''/ppp/secret'' [(''name'', param p ''name'')]
          ((''name'', param p ''name'')
           # [(''password'', param p ''secretPassword''), (''service'', service_of p)] @ secret_options p)))"

definition pppoeDelete :: "'s ros_link \<Rightarrow> ros_params \<Rightarrow> 's \<Rightarrow> 's \<times> (ros_error + string)" where
  "pppoeDelete link p =
     require_all ''pppoeDelete'' [''name''] p (with_client link
       (ros_bind (findPppoeSecretId link (param p ''name''))
         (\<lambda>found. case found of
            None \<Rightarrow> (\<lambda>s. (s, Err (Failed (''PPPoE secret '' @ [CHR 0x22] @ param p ''name'' @ [CHR 0x22] @ '' not found''))))
          | Some i \<Rightarrow> ros_bind (rl_run link [''/ppp/secret/remove'', attr_word (''.id'', i)])
                      (\<lambda>_. ros_return (param p ''name'')))))"

definition queueSet :: "'s ros_link \<Rightarrow> ros_params \<Rightarrow> 's \<Rightarrow> 's \<times> (ros_error + string \<times> bool)" where
  "queueSet link p =
     require_all ''queueSet'' [''name'', ''target''] p (with_client link
       (ros_bind (findQueueId link (param p ''name''))
         (\<lambda>existing.
            let attrs = [(''name'', param p ''name''), (''target'', param p ''target'')]
                  @ opt_attr ''max-limit'' p ''maxLimit'' @ opt_attr ''burst-limit'' p ''burstLimit''
                  @ opt_attr ''burst-threshold'' p ''burstThreshold'' @ opt_attr ''burst-time'' p ''burstTime''
                  @ opt_attr ''comment'' p ''comment'' in
            case existing of
              Some i \<Rightarrow>
                ros_bind (rl_run link (''/queue/simple/set'' # attr_word (''.id'', i) # map attr_word attrs))
                  (\<lambda>ss. ros_return (ret_or i ss, False))
            | None \<Rightarrow>
                ros_bind (rl_run link (''/queue/simple/add'' # map attr_word attrs))
                  (\<lambda>ss. ros_return (ret_or [] ss, True)))))"

definition addressListAdd :: "'s ros_link \<Rightarrow> ros_params \<Rightarrow> 's \<Rightarrow> 's \<times> (ros_error + string)" where
  "addressListAdd link p =
     require_all ''addressListAdd'' [''list'', ''address''] p (with_client link
       (ros_bind (rl_run link (''/ip/firewall/address-list/add'' # map attr_word
          ([(''list'', param p ''list''), (''address'', param p ''address'')]
           @ opt_attr ''comment'' p ''comment'' @ opt_attr ''timeout'' p ''timeout'')))
         (\<lambda>ss. ros_return (ret_or [] ss))))"

definition addressListRemove :: "'s ros_link \<Rightarrow> ros_params \<Rightarrow> 's \<Rightarrow> 's \<times> (ros_error + string \<times> string)" where
  "addressListRemove link p =
     require_all ''addressListRemove'' [''list'', ''address''] p (with_client link
       (ros_bind (findAddressListEntryId link (param p ''list'') (param p ''address''))
         (\<lambda>found. case found of
            None \<Rightarrow> (\<lambda>s. (s, Err (Failed (''Address-list entry '' @ [CHR 0x22] @ param p ''address'' @ [CHR 0x22]
                       @ '' in list '' @ [CHR 0x22] @ param p ''list'' @ [CHR 0x22] @ '' not found''))))
          | Some i \<Rightarrow> ros_bind (rl_run link [''/ip/firewall/address-list/remove'', attr_word (''.id'', i)])
                      (\<lambda>_. ros_return (param p ''list'', param p ''address'')))))"

definition configBackup :: "'s ros_link \<Rightarrow> ros_params \<Rightarrow> 's \<Rightarrow> 's \<times> (ros_error + string \<times> string)" where
  "configBackup link p =
     (let compact = (param p ''compact'' \<noteq> []) in
      with_client link
        (ros_bind (rl_run link (if compact then [''/export'', ''=compact=yes''] else [''/export'']))
          (\<lambda>ss. ros_return
             (js_join [CHR 0x0A] (List.map_filter
                (\<lambda>s. if kind_is ''!re'' s then parseAttrs (tl s) ''ret'' else None) ss),
              if compact then ''mikrotik_compact'' else ''mikrotik_export''))))"

section \<open>WireGuard\<close>

definition wireguardInterfaceUpsert :: "'s ros_link \<Rightarrow> ros_params \<Rightarrow> 's \<Rightarrow> 's \<times> (ros_error + upsert_result)" where
  "wireguardInterfaceUpsert link p =
     require_all ''wireguardInterfaceUpsert'' [''name'', ''privateKey''] p (with_client link
       (upsert_row link ''/interface/wireguard'' [(''name'', param p ''name'')]
          ((''name'', param p ''name'') # (''private-key'', param p ''privateKey'')
           # opt_attr ''comment'' p ''comment'')))"

definition wireguardAddressUpsert :: "'s ros_link \<Rightarrow> ros_params \<Rightarrow> 's \<Rightarrow> 's \<times> (ros_error + upsert_result)" where
  "wireguardAddressUpsert link p =
     require_all ''wireguardAddressUpsert'' [''interface'', ''address''] p (with_client link
       (let key = [(''interface'', param p ''interface''), (''address'', param p ''address'')] in
        upsert_row link ''/ip/address'' key key))"

definition peer_key :: "ros_params \<Rightarrow> (string \<times> string) list" where
  "peer_key p = [(''interface'', param p ''interface''), (''comment'', param p ''comment'')]"

definition wireguardPeerUpsert :: "'s ros_link \<Rightarrow> ros_params \<Rightarrow> 's \<Rightarrow> 's \<times> (ros_error + upsert_result)" where
  "wireguardPeerUpsert link p =
     require_all ''wireguardPeerUpsert''
       [''interface'', ''publicKey'', ''endpointAddress'', ''endpointPort'', ''allowedAddress'', ''comment''] p
       (with_client link
         (upsert_row link ''/interface/wireguard/peers'' (peer_key p)
            (peer_key p
             @ [(''public-key'', param p ''publicKey''), (''endpoint-address'', param p ''endpointAddress''),
                (''endpoint-port'', param p ''endpointPort''), (''allowed-address'', param p ''allowedAddress'')]
             @ (case p ''keepalive'' of None \<Rightarrow> [] | Some v \<Rightarrow> [(''persistent-keepalive'', v)]))))"

definition re_attrs :: "string list list \<Rightarrow> (string \<Rightarrow> string option) list" where
  "re_attrs ss = map (\<lambda>s. parseAttrs (tl s)) (filter (kind_is ''!re'') ss)"

record ros_topology =
  tp_interfaces :: "(string \<Rightarrow> string option) list"
  tp_addresses :: "(string \<Rightarrow> string option) list"
  tp_routes :: "(string \<Rightarrow> string option) list"

definition wireguardReadTopology :: "'s ros_link \<Rightarrow> 's \<Rightarrow> 's \<times> (ros_error + ros_topology)" where
  "wireguardReadTopology link =
     with_client link
       (ros_bind (rl_run link [''/interface/wireguard/print''])
         (\<lambda>i. ros_bind (rl_run link [''/ip/address/print''])
           (\<lambda>a. ros_bind (rl_run link [''/ip/route/print'', ''?connect=yes''])
             (\<lambda>r. ros_return \<lparr>tp_interfaces = re_attrs i, tp_addresses = re_attrs a, tp_routes = re_attrs r\<rparr>))))"

definition wireguardRouteUpsert :: "'s ros_link \<Rightarrow> ros_params \<Rightarrow> 's \<Rightarrow> 's \<times> (ros_error + upsert_result)" where
  "wireguardRouteUpsert link p =
     require_all ''wireguardRouteUpsert'' [''dstAddress'', ''gateway''] p (with_client link
       (let key = [(''dst-address'', param p ''dstAddress''), (''gateway'', param p ''gateway'')] in
        ros_bind (findId link ''/ip/route'' key)
          (\<lambda>existing. case existing of
             Some i \<Rightarrow> ros_return \<lparr>us_id = i, us_created = False, us_updated = False\<rparr>
           | None \<Rightarrow>
               ros_bind (rl_run link (''/ip/route/add'' # map attr_word (key @ opt_attr ''comment'' p ''comment'')))
                 (\<lambda>ss. ros_return \<lparr>us_id = ret_or [] ss, us_created = True, us_updated = False\<rparr>))))"

definition wireguardPeerRemove :: "'s ros_link \<Rightarrow> ros_params \<Rightarrow> 's \<Rightarrow> 's \<times> (ros_error + bool)" where
  "wireguardPeerRemove link p =
     require_all ''wireguardPeerRemove'' [''interface'', ''comment''] p (with_client link
       (ros_bind (findId link ''/interface/wireguard/peers'' (peer_key p))
         (\<lambda>existing. case existing of
            None \<Rightarrow> ros_return False
          | Some i \<Rightarrow> ros_bind (rl_run link [''/interface/wireguard/peers/remove'', attr_word (''.id'', i)])
                      (\<lambda>_. ros_return True))))"

section \<open>Reboot and connection descriptors\<close>

definition systemReboot :: "'s ros_link \<Rightarrow> 's \<Rightarrow> 's \<times> (ros_error + unit)" where
  "systemReboot link =
     with_client link
       (ros_bind (rl_run link [''/system/reboot''])
         (\<lambda>ss. case find (\<lambda>s. kind_is ''!trap'' s \<or> kind_is ''!fatal'' s) ss of
            Some s \<Rightarrow> (\<lambda>st. (st, Err (Failed (''RouterOS reboot refused: ''
                 @ (case parseAttrs (tl s) ''message'' of Some (c # cs) \<Rightarrow> c # cs | _ \<Rightarrow> hd s)))))
          | None \<Rightarrow> ros_return ()))"

record ros_conn =
  cn_host :: string
  cn_port :: "rat option"
  cn_user :: string
  cn_password :: string

definition connFromParams :: "ros_params \<Rightarrow> ros_error + ros_conn" where
  "connFromParams p =
     (if param p ''host'' = [] then Err (Failed ''host is required'')
      else if param p ''user'' = [] then Err (Failed ''user is required'')
      else case p ''password'' of
        None \<Rightarrow> Err (Failed ''password is required'')
      | Some pw \<Rightarrow> Ok \<lparr>cn_host = param p ''host'',
          cn_port = (if param p ''port'' = [] then Some 8728 else js_number (param p ''port'')),
          cn_user = param p ''user'', cn_password = pw\<rparr>)"

text \<open>The relay's dispatch table, by command name; the replies keep only whether the command went through.\<close>

definition dispatch_on :: "(ros_conn \<Rightarrow> 's ros_link) \<Rightarrow> ros_params
    \<Rightarrow> ('s ros_link \<Rightarrow> ros_params \<Rightarrow> 's \<Rightarrow> 's \<times> (ros_error + 'a)) \<Rightarrow> 's \<Rightarrow> 's \<times> (ros_error + unit)" where
  "dispatch_on dial p command s =
     (case connFromParams p of
        Inl e \<Rightarrow> (s, Err e)
      | Inr c \<Rightarrow> ros_bind (command (dial c) p) (\<lambda>_. ros_return ()) s)"

definition relay_handlers ::
    "(ros_conn \<Rightarrow> 's ros_link) \<Rightarrow> string \<Rightarrow> (ros_params \<Rightarrow> 's \<Rightarrow> 's \<times> (ros_error + unit)) option" where
  "relay_handlers dial name =
     (if name = ''pppoe.create'' then Some (\<lambda>p. dispatch_on dial p pppoeCreate)
      else if name = ''pppoe.delete'' then Some (\<lambda>p. dispatch_on dial p pppoeDelete)
      else if name = ''queue.set'' then Some (\<lambda>p. dispatch_on dial p queueSet)
      else if name = ''addressList.add'' then Some (\<lambda>p. dispatch_on dial p addressListAdd)
      else if name = ''addressList.remove'' then Some (\<lambda>p. dispatch_on dial p addressListRemove)
      else if name = ''config.backup'' then Some (\<lambda>p. dispatch_on dial p configBackup)
      else if name = ''wireguard.interfaceUpsert'' then Some (\<lambda>p. dispatch_on dial p wireguardInterfaceUpsert)
      else if name = ''wireguard.addressUpsert'' then Some (\<lambda>p. dispatch_on dial p wireguardAddressUpsert)
      else if name = ''wireguard.peerUpsert'' then Some (\<lambda>p. dispatch_on dial p wireguardPeerUpsert)
      else if name = ''wireguard.readTopology''
      then Some (\<lambda>p. dispatch_on dial p (\<lambda>link _. wireguardReadTopology link))
      else if name = ''wireguard.peerRemove'' then Some (\<lambda>p. dispatch_on dial p wireguardPeerRemove)
      else if name = ''wireguard.routeUpsert'' then Some (\<lambda>p. dispatch_on dial p wireguardRouteUpsert)
      else None)"

end
