(* ===== verification/RouterosStream.thy ===== *)
theory RouterosStream
  imports RouterosApi
begin

text \<open>
  The RouterOS reader and client against what a router writes: words and sentences are read back,
  whatever the chunks, replies reach their commands, and where the protocol handling fails
  (negative lengths, stray replies).
\<close>

section \<open>Headers\<close>

lemma and_push: "x AND push_bit k m = push_bit k (drop_bit k x AND m)" for x m :: nat
  by (rule bit_eqI) (auto simp: bit_simps)

lemma and_low: "x AND (2 ^ k - 1) = x mod 2 ^ k" for x :: nat
  using take_bit_eq_mask [of k x] by (simp add: mask_eq_exp_minus_1 take_bit_eq_mod)

lemma or_push: "x < 2 ^ k \<Longrightarrow> push_bit k m OR x = m * 2 ^ k + x" for x m :: nat
proof -
  assume "x < 2 ^ k"
  then have "x = take_bit k x" by (simp add: take_bit_eq_mod)
  then have "\<not> bit (push_bit k m) j \<or> \<not> bit x j" for j
    by (metis bit_push_bit_iff bit_take_bit_iff linorder_not_le)
  then show ?thesis
    by (subst disjunctive_add_eq_or [symmetric]) (auto simp: push_bit_eq_mult bit_eq_iff bit_simps)
qed

lemma header_tests:
  fixes b :: nat
  assumes "b < 256"
  shows "b AND 0x80 = 128 * (b div 128)" "b AND 0xc0 = 64 * (b div 64)"
    "b AND 0xe0 = 32 * (b div 32)" "b AND 0xf0 = 16 * (b div 16)"
proof -
  have *: "b AND push_bit k (2 ^ j - 1) = 2 ^ k * (b div 2 ^ k)" if "k + j = 8" for k j
  proof -
    have "b div 2 ^ k < 2 ^ j"
      using assms that by (intro less_mult_imp_div_less) (simp add: power_add [symmetric] add.commute)
    then have "b AND push_bit k (2 ^ j - 1) = push_bit k (b div 2 ^ k)"
      by (simp only: and_push and_low drop_bit_eq_div mod_less)
    then show ?thesis by (simp add: push_bit_eq_mult)
  qed
  show "b AND 0x80 = 128 * (b div 128)" using * [of 7 1] by (simp add: push_bit_eq_mult)
  show "b AND 0xc0 = 64 * (b div 64)" using * [of 6 2] by (simp add: push_bit_eq_mult)
  show "b AND 0xe0 = 32 * (b div 32)" using * [of 5 3] by (simp add: push_bit_eq_mult)
  show "b AND 0xf0 = 16 * (b div 16)" using * [of 4 4] by (simp add: push_bit_eq_mult)
qed

lemma or_high:
  "n < 64 \<Longrightarrow> n OR 0x80 = n + 128" "n < 32 \<Longrightarrow> n OR 0xc0 = n + 192" "n < 16 \<Longrightarrow> n OR 0xe0 = n + 224" for n :: nat
  using or_push [of n 7 1] or_push [of n 6 3] or_push [of n 5 7]
  by (simp_all add: push_bit_eq_mult or.commute)

text \<open>The length read from a header of at most four bytes, on a list.\<close>

definition plain_header :: "buffer \<Rightarrow> (nat \<times> nat) option" where
  "plain_header bs =
     (case bs of
        [] \<Rightarrow> None
      | b # r \<Rightarrow>
          let b0 = unat b; d = (\<lambda>k. unat (r ! k)) in
          if b0 < 128 then Some (b0, 1)
          else if b0 < 192 then (if length r < 1 then None else Some (b0 mod 64 * 256 + d 0, 2))
          else if b0 < 224 then (if length r < 2 then None else Some ((b0 mod 32 * 256 + d 0) * 256 + d 1, 3))
          else if b0 < 240 then (if length r < 3 then None
            else Some (((b0 mod 16 * 256 + d 0) * 256 + d 1) * 256 + d 2, 4))
          else None)"

lemma div_tests:
  fixes b :: nat assumes "b < 256"
  shows "128 * (b div 128) = 0 \<longleftrightarrow> b < 128" "64 * (b div 64) = 128 \<longleftrightarrow> 128 \<le> b \<and> b < 192"
    "32 * (b div 32) = 192 \<longleftrightarrow> 192 \<le> b \<and> b < 224" "16 * (b div 16) = 224 \<longleftrightarrow> 224 \<le> b \<and> b < 240"
proof -
  have "b div 64 = 2 \<longleftrightarrow> 128 \<le> b \<and> b < 192" "b div 32 = 6 \<longleftrightarrow> 192 \<le> b \<and> b < 224"
    "b div 16 = 14 \<longleftrightarrow> 224 \<le> b \<and> b < 240"
    by arith+
  then show "64 * (b div 64) = 128 \<longleftrightarrow> 128 \<le> b \<and> b < 192" "32 * (b div 32) = 192 \<longleftrightarrow> 192 \<le> b \<and> b < 224"
    "16 * (b div 16) = 224 \<longleftrightarrow> 224 \<le> b \<and> b < 240"
    by linarith+
qed auto

lemma word_header_plain:
  assumes "bs = b # r" and "unat b < 240"
  shows "word_header (pre @ bs) (length pre) (unat b) = map_option (\<lambda>(n, h). (int n, int h)) (plain_header bs)"
proof -
  have b: "unat b < 256" by simp
  have nth: "(pre @ b # r) ! (length pre + Suc k) = r ! k" for k
    by (simp add: nth_append)
  have nths: "(pre @ b # r) ! (length pre + 1) = r ! 0" "(pre @ b # r) ! (length pre + 2) = r ! 1"
    "(pre @ b # r) ! (length pre + 3) = r ! 2"
    using nth [of 0] nth [of 1] nth [of 2] by (simp_all add: numeral_2_eq_2 numeral_3_eq_3)
  have low: "unat b AND 0x3f = unat b mod 64" "unat b AND 0x1f = unat b mod 32" "unat b AND 0x0f = unat b mod 16"
    using and_low [of "unat b" 6] and_low [of "unat b" 5] and_low [of "unat b" 4] by simp_all
  have d: "unat (r ! k) < 256" for k by simp
  have o2: "push_bit 8 m OR unat (r ! k) = m * 256 + unat (r ! k)" for m k
    using or_push [of "unat (r ! k)" 8 m] by simp
  have o3: "push_bit 16 m OR push_bit 8 (unat (r ! k)) = push_bit 8 (m * 256 + unat (r ! k))" for m k
  proof -
    have "push_bit 16 m = push_bit 8 (push_bit 8 m)" by simp
    then show ?thesis by (simp only: push_bit_or [symmetric] o2)
  qed
  have o4: "push_bit 24 m OR push_bit 16 (unat (r ! k)) = push_bit 16 (m * 256 + unat (r ! k))" for m k
  proof -
    have "push_bit 24 m = push_bit 16 (push_bit 8 m)" by simp
    then show ?thesis by (simp only: push_bit_or [symmetric] o2)
  qed
  consider "unat b < 128" | "128 \<le> unat b" "unat b < 192" | "192 \<le> unat b" "unat b < 224"
    | "224 \<le> unat b" "unat b < 240"
    using assms(2) by linarith
  then show ?thesis
    unfolding assms(1) word_header_def Let_def header_tests [OF b] div_tests [OF b] nths low o2 o3 o4 plain_header_def
    by cases (simp_all add: o2)
qed

section \<open>Reading what was written\<close>

lemma readWord_plain:
  assumes "unat b < 240"
  shows "readWord (pre @ b # r) (Some (int (length pre)))
    = (case plain_header (b # r) of
         None \<Rightarrow> None
       | Some (n, h) \<Rightarrow> if length (b # r) < h + n then None
           else Some (utf8_text (take n (drop h (b # r))), Some (int (length pre + h + n))))"
proof (cases "plain_header (b # r)")
  case None
  then show ?thesis
    using word_header_plain [OF refl assms, of pre r] by (simp add: readWord_def buf_at_def)
next
  case (Some p)
  obtain n h where p: "p = (n, h)" by (cases p)
  have "nat (int (length pre) + int h + int n) = length pre + h + n" by arith
  then have "js_slice (pre @ b # r) (int (length pre) + int h) (int (length pre) + int h + int n)
     = take n (drop h (b # r))" if "h + n \<le> length (b # r)"
    using that by (simp add: js_slice_def slice_pos_def min_def nat_int_add)
  then show ?thesis
    using word_header_plain [OF refl assms, of pre r] Some p
    by (simp add: readWord_def buf_at_def) 
qed

definition ros_ok :: "string \<Rightarrow> bool" where
  "ros_ok w \<longleftrightarrow> w \<noteq> [] \<and> valid_text w \<and> length w < 0x10000000"

lemma byte_low: "n AND 0xff = n mod 256" for n :: nat
  using and_low [of n 8] by simp

definition header_bytes :: "nat \<Rightarrow> buffer" where
  "header_bytes n =
     (if n < 128 then [of_nat n]
      else if n < 16384 then [of_nat (n div 256 + 128), of_nat n]
      else if n < 2097152 then [of_nat (n div 65536 + 192), of_nat (n div 256), of_nat n]
      else [of_nat (n div 16777216 + 224), of_nat (n div 65536), of_nat (n div 256), of_nat n])"

lemma of_nat_mod_256: "(of_nat (m mod 256) :: byte) = of_nat m"
  by (simp add: word_of_nat_eq_iff take_bit_eq_mod)

lemma first_byte:
  "m < 64 \<Longrightarrow> unat (of_nat m + 128 :: byte) = m + 128" "m < 32 \<Longrightarrow> unat (of_nat m + 192 :: byte) = m + 192"
  "m < 16 \<Longrightarrow> unat (of_nat m + 224 :: byte) = m + 224"
  using unat_of_nat_byte [of "m + 128"] unat_of_nat_byte [of "m + 192"] unat_of_nat_byte [of "m + 224"]
  by simp_all

lemma header_quotients:
  "n < 16384 \<Longrightarrow> n div 256 < 64" "n < 2097152 \<Longrightarrow> n div 65536 < 32" "n < 268435456 \<Longrightarrow> n div 16777216 < 16" for n :: nat
  by auto

lemma encodeWord_split: "length w < 0x10000000 \<Longrightarrow> encodeWord w = header_bytes (length w) @ utf8_bytes w"
  by (simp add: encodeWord_def header_bytes_def Let_def drop_bit_eq_div or_high byte_low of_nat_mod_256)

lemma header_first: "n < 0x10000000 \<Longrightarrow> \<exists>b r. header_bytes n = b # r \<and> unat b < 240"
  by (auto simp: header_bytes_def first_byte header_quotients)

lemma header_length: "0 < length (header_bytes n)"
  by (simp add: header_bytes_def)

lemma shifted_mods:
  "m < 64 \<Longrightarrow> (m + 128) mod 64 = m" "m < 32 \<Longrightarrow> (m + 192) mod 32 = m" "m < 16 \<Longrightarrow> (m + 224) mod 16 = m" for m :: nat
  using mod_mult_self1 [of m 2 64] mod_mult_self1 [of m 6 32] mod_mult_self1 [of m 14 16] by simp_all

lemma plain_header_bytes:
  assumes "n < 0x10000000"
  shows "plain_header (header_bytes n @ bs) = Some (n, length (header_bytes n))"
proof -
  consider "n < 128" | "128 \<le> n" "n < 16384" | "16384 \<le> n" "n < 2097152" | "2097152 \<le> n"
    by linarith
  then show ?thesis
  proof cases
    case 1
    then show ?thesis by (simp add: header_bytes_def plain_header_def)
  next
    case 2
    then have "n div 256 < 64" by auto
    then show ?thesis using 2 by (simp add: header_bytes_def plain_header_def Let_def first_byte shifted_mods)
  next
    case 3
    then have "n div 65536 < 32" by auto
    with 3 have "plain_header (header_bytes n @ bs) = Some ((n div 65536 * 256 + n div 256 mod 256) * 256 + n mod 256, 3)"
      by (simp add: header_bytes_def plain_header_def Let_def first_byte shifted_mods)
    also have "(n div 65536 * 256 + n div 256 mod 256) * 256 + n mod 256 = n"
      using div_mult2_eq [of n 256 256] by simp
    finally show ?thesis using 3 by (simp add: header_bytes_def)
  next
    case 4
    then have "n div 16777216 < 16" using assms by auto
    with 4 have "plain_header (header_bytes n @ bs)
       = Some (((n div 16777216 * 256 + n div 65536 mod 256) * 256 + n div 256 mod 256) * 256 + n mod 256, 4)"
      by (simp add: header_bytes_def plain_header_def Let_def first_byte shifted_mods)
    also have "((n div 16777216 * 256 + n div 65536 mod 256) * 256 + n div 256 mod 256) * 256 + n mod 256 = n"
      using bytes4_value [of n] by (simp add: algebra_simps)
    finally show ?thesis using 4 by (simp add: header_bytes_def)
  qed
qed

lemma readWord_encoded:
  assumes "ros_ok w"
  shows "readWord (pre @ encodeWord w @ post) (Some (int (length pre)))
    = Some (w, Some (int (length (pre @ encodeWord w))))"
proof -
  let ?h = "header_bytes (length w)"
  have len: "length w < 0x10000000" using assms by (simp add: ros_ok_def)
  obtain b r where h: "?h = b # r" "unat b < 240" using header_first [OF len] by blast
  have "readWord (pre @ b # (r @ utf8_bytes w @ post)) (Some (int (length pre)))
     = Some (utf8_text (utf8_bytes w), Some (int (length pre + length ?h + length w)))"
    using readWord_plain [OF h(2), of pre "r @ utf8_bytes w @ post"]
      plain_header_bytes [OF len, of "utf8_bytes w @ post"] h(1) by simp
  moreover have "pre @ encodeWord w @ post = pre @ b # (r @ utf8_bytes w @ post)"
    by (simp add: encodeWord_split [OF len] h(1))
  ultimately show ?thesis
    using assms by (simp add: ros_ok_def encodeWord_split [OF len])
qed

lemma plain_header_short:
  assumes "n < 0x10000000" and "header_bytes n = p @ q" and "q \<noteq> []"
  shows "plain_header p = None"
  using assms by (auto simp: header_bytes_def plain_header_def Let_def first_byte header_quotients
      append_eq_Cons_conv Cons_eq_append_conv split: if_splits)

lemma readWord_partial:
  assumes "ros_ok w" and "encodeWord w = p @ q" and "q \<noteq> []"
  shows "readWord (pre @ p) (Some (int (length pre))) = None"
proof (cases p)
  case Nil
  then show ?thesis by (simp add: readWord_def)
next
  case (Cons b r)
  let ?h = "header_bytes (length w)"
  have len: "length w < 0x10000000" using assms(1) by (simp add: ros_ok_def)
  have e: "?h @ utf8_bytes w = p @ q" using assms(2) encodeWord_split [OF len] by simp
  obtain b' r' where h: "?h = b' # r'" "unat b' < 240" using header_first [OF len] by blast
  with e Cons have b: "unat b < 240" by simp
  from e obtain us where us: "?h = p @ us \<or> p = ?h @ us \<and> utf8_bytes w = us @ q"
    by (auto simp: append_eq_append_conv2)
  show ?thesis
  proof (cases "?h = p @ us \<and> us \<noteq> []")
    case True
    then have "plain_header p = None" using plain_header_short [OF len] by blast
    then show ?thesis using readWord_plain [OF b, of pre r] Cons by simp
  next
    case False
    with us e obtain us' where u: "p = ?h @ us'" "utf8_bytes w = us' @ q" by auto
    have "length w = length us' + length q" using arg_cong [OF u(2), of length] by simp
    with assms(3) have "length us' < length w" by (cases q) simp_all
    moreover have "Suc (length r) = length ?h + length us'"
      using arg_cong [OF u(1), of length] Cons by simp
    ultimately show ?thesis
      using readWord_plain [OF b, of pre r] Cons u(1) plain_header_bytes [OF len, of us'] by simp
  qed
qed

lemma readWord_end: "readWord (pre @ 0 # post) (Some (int (length pre))) = Some ([], Some (int (length pre) + 1))"
  using readWord_plain [of 0 pre post] by (simp add: plain_header_def utf8_text_def)


text \<open>A single word, read off the front of a buffer: the contract of theory Framing.\<close>

definition word_at :: "buffer \<Rightarrow> (string \<times> buffer) option" where
  "word_at bs =
     (case readWord bs (Some 0) of
        Some (w, Some n) \<Rightarrow> if 0 < n \<and> bs \<noteq> [] then Some (w, drop (nat n) bs) else None
      | _ \<Rightarrow> None)"

interpretation ros_words: framing encodeWord word_at ros_ok
proof unfold_locales
  fix w rest assume w: "ros_ok w"
  obtain b r where "encodeWord w = b # r"
    using header_length [of "length w"] w by (cases "encodeWord w") (auto simp: encodeWord_split ros_ok_def)
  moreover have "nat (1 + int (length r)) = Suc (length r)" by arith
  ultimately show "word_at (encodeWord w @ rest) = Some (w, rest)"
    using readWord_encoded [OF w, of "[]" rest] by (simp add: word_at_def)
next
  fix bs w rest assume "word_at bs = Some (w, rest)"
  then show "length rest < length bs"
    by (auto simp: word_at_def split: option.splits if_splits)
qed

section \<open>Streams of sentences\<close>

definition ok_sentence :: "string list \<Rightarrow> bool" where
  "ok_sentence ws \<longleftrightarrow> (\<forall>w\<in>set ws. ros_ok w)"

lemma loop_sentence:
  assumes "ok_sentence ws"
  shows "parse_loop (pre @ encodeSentence ws @ post) (Some (int (length pre))) start sent acc
    = parse_loop (pre @ encodeSentence ws @ post) (Some (int (length (pre @ encodeSentence ws))))
        (Some (int (length (pre @ encodeSentence ws)))) [] (acc @ [sent @ ws])"
  using assms
proof (induction ws arbitrary: pre sent)
  case Nil
  show ?case
    by (subst parse_loop.simps) (simp add: encodeSentence_def readWord_end add.commute)
next
  case (Cons w ws)
  then have w: "ros_ok w" and ws: "ok_sentence ws" by (simp_all add: ok_sentence_def)
  have split: "pre @ encodeSentence (w # ws) @ post = (pre @ encodeWord w) @ encodeSentence ws @ post"
    "pre @ encodeSentence (w # ws) = (pre @ encodeWord w) @ encodeSentence ws"
    by (simp_all add: encodeSentence_def)
  have "w \<noteq> []" using w by (simp add: ros_ok_def)
  then have "parse_loop (pre @ encodeSentence (w # ws) @ post) (Some (int (length pre))) start sent acc
     = parse_loop ((pre @ encodeWord w) @ encodeSentence ws @ post) (Some (int (length (pre @ encodeWord w)))) start (sent @ [w]) acc"
    using readWord_encoded [OF w, of pre "encodeSentence ws @ post"]
    by (subst parse_loop.simps) (simp add: split)
  also have "\<dots> = parse_loop ((pre @ encodeWord w) @ encodeSentence ws @ post)
        (Some (int (length ((pre @ encodeWord w) @ encodeSentence ws))))
        (Some (int (length ((pre @ encodeWord w) @ encodeSentence ws)))) [] (acc @ [(sent @ [w]) @ ws])"
    by (rule Cons.IH [OF ws])
  finally show ?case by (simp only: split append_assoc append_Cons append_Nil)
qed

lemma loop_partial:
  assumes "ok_sentence ws" and "encodeSentence ws = p @ q" and "q \<noteq> []"
  shows "parse_loop (pre @ p) (Some (int (length pre))) start sent acc = Some (acc, start)"
  using assms
proof (induction ws arbitrary: pre sent p)
  case Nil
  then have "p = []" by (cases p) (auto simp: encodeSentence_def)
  then show ?case by (subst parse_loop.simps) (simp add: readWord_def)
next
  case (Cons w ws)
  then have w: "ros_ok w" and ws: "ok_sentence ws" by (simp_all add: ok_sentence_def)
  have e: "encodeWord w @ encodeSentence ws = p @ q" using Cons.prems(2) by (simp add: encodeSentence_def)
  then obtain us where us: "encodeWord w = p @ us \<and> us @ encodeSentence ws = q
     \<or> p = encodeWord w @ us \<and> encodeSentence ws = us @ q"
    by (auto simp: append_eq_append_conv2)
  show ?case
  proof (cases "encodeWord w = p @ us \<and> us \<noteq> []")
    case True
    then have "readWord (pre @ p) (Some (int (length pre))) = None" using readWord_partial [OF w] by blast
    then show ?thesis by (subst parse_loop.simps) simp
  next
    case False
    with us obtain us' where u: "p = encodeWord w @ us'" "encodeSentence ws = us' @ q" by auto
    have "w \<noteq> []" using w by (simp add: ros_ok_def)
    then have "parse_loop (pre @ p) (Some (int (length pre))) start sent acc
       = parse_loop ((pre @ encodeWord w) @ us') (Some (int (length (pre @ encodeWord w)))) start (sent @ [w]) acc"
      using readWord_encoded [OF w, of pre us'] u(1)
      by (subst parse_loop.simps) simp
    also have "\<dots> = Some (acc, start)"
      by (rule Cons.IH [OF ws u(2) Cons.prems(3)])
    finally show ?thesis .
  qed
qed

definition stream_of :: "string list list \<Rightarrow> buffer" where
  "stream_of ss = concat (map encodeSentence ss)"

definition partial_of :: "string list list \<Rightarrow> buffer \<Rightarrow> bool" where
  "partial_of ss r \<longleftrightarrow> (case ss of [] \<Rightarrow> r = [] | s # _ \<Rightarrow> \<exists>us. us \<noteq> [] \<and> encodeSentence s = r @ us)"

lemma partial_whole: "partial_of ss (stream_of ss) \<Longrightarrow> ss = []"
  by (cases ss) (auto simp: partial_of_def stream_of_def dest: arg_cong [where f = length])

text \<open>Every prefix of a stream parses into the sentences it completes and an unfinished rest.\<close>

lemma loop_stream:
  assumes "\<forall>s\<in>set ss. ok_sentence s" and "stream_of ss = p @ q"
  shows "\<exists>k r. k \<le> length ss \<and> p = stream_of (take k ss) @ r \<and> partial_of (drop k ss) r
    \<and> parse_loop (pre @ p) (Some (int (length pre))) (Some (int (length pre))) [] acc
        = Some (acc @ take k ss, Some (int (length (pre @ stream_of (take k ss)))))"
  using assms
proof (induction ss arbitrary: pre p acc)
  case Nil
  then have "p = []" by (simp add: stream_of_def)
  moreover have "parse_loop pre (Some (int (length pre))) (Some (int (length pre))) [] acc = Some (acc, Some (int (length pre)))"
    by (subst parse_loop.simps) (simp add: readWord_def)
  ultimately show ?case using Nil by (simp add: stream_of_def partial_of_def)
next
  case (Cons s ss)
  then have s: "ok_sentence s" and ss: "\<forall>s\<in>set ss. ok_sentence s" by simp_all
  have e: "encodeSentence s @ stream_of ss = p @ q" using Cons.prems(2) by (simp add: stream_of_def)
  then obtain us where us: "encodeSentence s = p @ us \<and> us @ stream_of ss = q
     \<or> p = encodeSentence s @ us \<and> stream_of ss = us @ q"
    by (auto simp: append_eq_append_conv2)
  show ?case
  proof (cases "encodeSentence s = p @ us \<and> us \<noteq> []")
    case True
    then have "parse_loop (pre @ p) (Some (int (length pre))) (Some (int (length pre))) [] acc
       = Some (acc, Some (int (length pre)))"
      using loop_partial [OF s] by blast
    moreover have "partial_of (s # ss) p" using True by (auto simp: partial_of_def)
    ultimately show ?thesis by (intro exI [of _ 0] exI [of _ p]) (simp add: stream_of_def)
  next
    case False
    with us obtain us' where u: "p = encodeSentence s @ us'" "stream_of ss = us' @ q" by auto
    have "parse_loop (pre @ p) (Some (int (length pre))) (Some (int (length pre))) [] acc
      = parse_loop ((pre @ encodeSentence s) @ us') (Some (int (length (pre @ encodeSentence s))))
          (Some (int (length (pre @ encodeSentence s)))) [] (acc @ [s])"
      using loop_sentence [OF s, of pre us' _ "[]" acc] u(1) by simp
    moreover obtain k r where "k \<le> length ss" "us' = stream_of (take k ss) @ r" "partial_of (drop k ss) r"
      "parse_loop ((pre @ encodeSentence s) @ us') (Some (int (length (pre @ encodeSentence s))))
          (Some (int (length (pre @ encodeSentence s)))) [] (acc @ [s])
        = Some ((acc @ [s]) @ take k ss, Some (int (length ((pre @ encodeSentence s) @ stream_of (take k ss)))))"
      using Cons.IH [OF ss u(2)] by blast
    ultimately show ?thesis using u(1)
      by (intro exI [of _ "Suc k"] exI [of _ r]) (simp add: stream_of_def)
  qed
qed

lemma parse_stream:
  assumes "\<forall>s\<in>set ss. ok_sentence s" and "stream_of ss = p @ q"
  shows "\<exists>k r. k \<le> length ss \<and> p = stream_of (take k ss) @ r \<and> partial_of (drop k ss) r
    \<and> parse_loop p (Some 0) (Some 0) [] [] = Some (take k ss, Some (int (length (stream_of (take k ss)))))
    \<and> slice_from p (Some (int (length (stream_of (take k ss))))) = r"
proof -
  from loop_stream [OF assms, of "[]" "[]"] obtain k r where k: "k \<le> length ss" "p = stream_of (take k ss) @ r"
    "partial_of (drop k ss) r"
    "parse_loop p (Some 0) (Some 0) [] [] = Some (take k ss, Some (int (length (stream_of (take k ss)))))"
    by auto
  moreover have "slice_from p (Some (int (length (stream_of (take k ss))))) = r"
    by (simp add: slice_from_def slice_pos_def k(2))
  ultimately show ?thesis by blast
qed

section \<open>Feeding the client\<close>

fun feed :: "buffer list \<Rightarrow> ros_client \<Rightarrow> ros_client option" where
  "feed [] c = Some c"
| "feed (chunk # chunks) c = Option.bind (onData chunk c) (feed chunks)"

lemma onSentence_frame: "onSentence s (c\<lparr>rc_buf := b\<rparr>) = (onSentence s c)\<lparr>rc_buf := b\<rparr>"
  by (simp add: onSentence_def Let_def split: list.splits)

lemma fold_frame: "fold onSentence ss (c\<lparr>rc_buf := b\<rparr>) = (fold onSentence ss c)\<lparr>rc_buf := b\<rparr>"
  by (induction ss arbitrary: c) (simp_all add: onSentence_frame)

lemma stream_append: "stream_of (xs @ ys) = stream_of xs @ stream_of ys"
  by (simp add: stream_of_def)

lemma feed_stream:
  assumes "\<forall>s\<in>set ss. ok_sentence s" and "rc_buf c @ concat chunks = stream_of ss"
    and "partial_of ss (rc_buf c)"
  shows "feed chunks c = Some ((fold onSentence ss c)\<lparr>rc_buf := []\<rparr>)"
  using assms
proof (induction chunks arbitrary: c ss)
  case Nil
  then have "ss = []" by (auto dest: partial_whole)
  with Nil show ?case by (simp add: stream_of_def)
next
  case (Cons chunk chunks)
  have "stream_of ss = (rc_buf c @ chunk) @ concat chunks" using Cons.prems(2) by simp
  from parse_stream [OF Cons.prems(1) this] obtain k r where k: "k \<le> length ss"
    "rc_buf c @ chunk = stream_of (take k ss) @ r" "partial_of (drop k ss) r"
    "parse_loop (rc_buf c @ chunk) (Some 0) (Some 0) [] [] = Some (take k ss, Some (int (length (stream_of (take k ss)))))"
    "slice_from (rc_buf c @ chunk) (Some (int (length (stream_of (take k ss))))) = r"
    by blast
  let ?c = "(fold onSentence (take k ss) c)\<lparr>rc_buf := r\<rparr>"
  have step: "onData chunk c = Some ?c" unfolding onData_def Let_def k(4) by (simp add: k(5))
  have rest: "rc_buf ?c @ concat chunks = stream_of (drop k ss)"
  proof -
    have "stream_of (take k ss) @ r @ concat chunks = stream_of (take k ss) @ stream_of (drop k ss)"
    proof -
      have "stream_of (take k ss) @ r @ concat chunks = (rc_buf c @ chunk) @ concat chunks"
        unfolding k(2) by simp
      also have "\<dots> = stream_of ss" using Cons.prems(2) by simp
      finally show ?thesis by (simp add: stream_append [symmetric])
    qed
    then show ?thesis by simp
  qed
  have "feed chunks ?c = Some ((fold onSentence (drop k ss) ?c)\<lparr>rc_buf := []\<rparr>)"
    using Cons.prems(1) k(3) by (intro Cons.IH [OF _ rest]) (auto dest: in_set_dropD)
  also have "(fold onSentence (drop k ss) ?c)\<lparr>rc_buf := []\<rparr> = (fold onSentence ss c)\<lparr>rc_buf := []\<rparr>"
    by (simp add: fold_frame) (simp flip: fold_append comp_apply [of "fold onSentence (drop k ss)"])
  finally show ?case by (simp add: step)
qed



section \<open>Hostile input\<close>

lemma loop_diverges:
  assumes "readWord buf o' = Some ([], o')"
  shows "parse_loop buf o' o' sent acc = None"
proof -
  have "parse_loop b a s st ac = Some r \<Longrightarrow> b = buf \<and> a = o' \<and> s = o' \<longrightarrow> False" for b a s st ac r
    by (rule parse_loop.raw_induct [where P = "\<lambda>b a s st ac r. b = buf \<and> a = o' \<and> s = o' \<longrightarrow> False"])
       (auto simp: assms split: option.splits, blast)
  then have "parse_loop buf o' o' sent acc \<noteq> Some r" for r by blast
  then show ?thesis by (metis not_Some_eq)
qed

definition hostile_header :: buffer where
  "hostile_header = [0xF0, 0xFF, 0xFF, 0xFF, 0xFB]"

lemma hostile_readWord: "readWord hostile_header (Some 0) = Some ([], Some 0)"
proof -
  have "word_header hostile_header 0 240 = Some (-5, 5)"
    by (simp add: word_header_def hostile_header_def Let_def)
  then show ?thesis
    by (simp add: readWord_def buf_at_def hostile_header_def js_slice_def slice_pos_def utf8_text_def)
qed

text \<open>
  The reader does not return on every input: five bytes whose length field is the negative
  number -5 as 32-bit signed integer leave the offset where it was, so both \<open>parseSentences\<close> and
  the client's data handler loop forever, collecting empty sentences.
\<close>

theorem negative_length_hangs:
  "parseSentences hostile_header = None \<and> onData hostile_header (c\<lparr>rc_buf := []\<rparr>) = None"
  using loop_diverges [OF hostile_readWord]
  by (simp add: parseSentences_def onData_def)

section \<open>Replies and commands\<close>

definition final_kinds :: "string set" where
  "final_kinds = {''!done'', ''!trap'', ''!fatal''}"

definition is_final :: "string list \<Rightarrow> bool" where
  "is_final s \<longleftrightarrow> s \<noteq> [] \<and> hd s \<in> final_kinds"

definition outcome_of :: "string list list \<Rightarrow> string list \<Rightarrow> ros_error + string list list" where
  "outcome_of dat fin =
     (if hd fin = ''!done'' then Ok (dat @ [fin])
      else Err (Failed (case message_of fin of Some m \<Rightarrow> m | None \<Rightarrow> ''RouterOS '' @ hd fin)))"

lemma onSentence_data:
  "\<not> is_final s \<Longrightarrow> rc_pending c = p # ps \<Longrightarrow>
   onSentence s c = c\<lparr>rc_pending := p\<lparr>pd_sentences := pd_sentences p @ [s]\<rparr> # ps\<rparr>"
  by (cases s) (simp_all add: onSentence_def is_final_def final_kinds_def)

lemma onSentence_final:
  "is_final s \<Longrightarrow> rc_pending c = p # ps \<Longrightarrow>
   onSentence s c = c\<lparr>rc_pending := ps, rc_outcomes := rc_outcomes c @ [(pd_id p, outcome_of (pd_sentences p) s)]\<rparr>"
  by (cases s) (auto simp: onSentence_def is_final_def final_kinds_def outcome_of_def split: option.splits)

lemma fold_data:
  "\<forall>s\<in>set dat. \<not> is_final s \<Longrightarrow> rc_pending c = p # ps \<Longrightarrow>
   fold onSentence dat c = c\<lparr>rc_pending := p\<lparr>pd_sentences := pd_sentences p @ dat\<rparr> # ps\<rparr>"
proof (induction dat arbitrary: c p)
  case (Cons s dat)
  then show ?case by (simp add: onSentence_data)
qed simp

definition reply_sentences :: "(string list list \<times> string list) list \<Rightarrow> string list list" where
  "reply_sentences rs = concat (map (\<lambda>(dat, fin). dat @ [fin]) rs)"

lemma fold_replies:
  assumes "\<forall>(dat, fin)\<in>set rs. (\<forall>s\<in>set dat. \<not> is_final s) \<and> is_final fin"
    and "rc_pending c = map (\<lambda>i. \<lparr>pd_id = i, pd_sentences = []\<rparr>) ids @ rest" and "length ids = length rs"
  shows "fold onSentence (reply_sentences rs) c
    = c\<lparr>rc_pending := rest, rc_outcomes := rc_outcomes c @ zip ids (map (\<lambda>(dat, fin). outcome_of dat fin) rs)\<rparr>"
  using assms
proof (induction rs arbitrary: c ids)
  case Nil
  then show ?case by (simp add: reply_sentences_def)
next
  case (Cons r rs)
  obtain dat fin where r: "r = (dat, fin)" by (cases r)
  from Cons.prems obtain i js where ids: "ids = i # js" by (cases ids) auto
  have d: "\<forall>s\<in>set dat. \<not> is_final s" and f: "is_final fin" using Cons.prems(1) r by auto
  let ?c1 = "c\<lparr>rc_pending := map (\<lambda>i. \<lparr>pd_id = i, pd_sentences = []\<rparr>) js @ rest,
     rc_outcomes := rc_outcomes c @ [(i, outcome_of dat fin)]\<rparr>"
  have "fold onSentence (dat @ [fin]) c = ?c1"
    using fold_data [OF d, of c "\<lparr>pd_id = i, pd_sentences = []\<rparr>"] Cons.prems(2) ids f
    by (simp add: onSentence_final)
  moreover have "fold onSentence (reply_sentences rs) ?c1
     = ?c1\<lparr>rc_pending := rest, rc_outcomes := rc_outcomes ?c1 @ zip js (map (\<lambda>(dat, fin). outcome_of dat fin) rs)\<rparr>"
    using Cons.prems ids by (intro Cons.IH) auto
  ultimately show ?case by (simp add: reply_sentences_def r ids)
qed

text \<open>
  Without timeouts, every command gets its own reply: when the router answers the pending
  commands in order, each with data sentences followed by one final sentence, then however the
  bytes arrive, the first commands are settled in order, each with the data and final sentence of
  its own reply (or the error its trap or fatal sentence carries), and the others stay pending.
\<close>

theorem replies_reach_their_commands:
  assumes "\<forall>(dat, fin)\<in>set rs. (\<forall>s\<in>set dat. \<not> is_final s) \<and> is_final fin"
    and "\<forall>s\<in>set (reply_sentences rs). ok_sentence s"
    and "concat chunks = stream_of (reply_sentences rs)" and "rc_buf c = []"
    and "rc_pending c = map (\<lambda>i. \<lparr>pd_id = i, pd_sentences = []\<rparr>) ids @ rest" and "length ids = length rs"
  shows "feed chunks c = Some (c\<lparr>rc_pending := rest,
     rc_outcomes := rc_outcomes c @ zip ids (map (\<lambda>(dat, fin). outcome_of dat fin) rs)\<rparr>)"
proof -
  have "feed chunks c = Some ((fold onSentence (reply_sentences rs) c)\<lparr>rc_buf := []\<rparr>)"
    using assms(4) by (intro feed_stream [OF assms(2)])
      (auto simp: assms(3) partial_of_def encodeSentence_def split: list.splits)
  also have "(fold onSentence (reply_sentences rs) c)\<lparr>rc_buf := []\<rparr>
     = (c\<lparr>rc_pending := rest, rc_outcomes := rc_outcomes c @ zip ids (map (\<lambda>(dat, fin). outcome_of dat fin) rs)\<rparr>)"
    using assms(4) by (simp add: fold_replies [OF assms(1,5,6)])
  finally show ?thesis .
qed

lemma done_ok: "ok_sentence [''!done'']"
proof -
  have "valid_text ''!done''" by (rule ascii_valid_text) (simp add: code_def)
  then show ?thesis by (simp add: ok_sentence_def ros_ok_def)
qed

theorem replies_reach_their_commands_witness:
  "feed [encodeSentence [''!done''] @ encodeSentence [''!done'']] (sendSentence 2 [''/b''] (sendSentence 1 [''/a'']
      \<lparr>rc_buf = [], rc_pending = [], rc_outcomes = [], rc_written = []\<rparr>))
   = Some \<lparr>rc_buf = [], rc_pending = [], rc_outcomes = [(1, Ok [[''!done'']]), (2, Ok [[''!done'']])],
       rc_written = [encodeSentence [''/a''], encodeSentence [''/b'']]\<rparr>"
  using replies_reach_their_commands [of "[([], [''!done'']), ([], [''!done''])]"
      "[encodeSentence [''!done''] @ encodeSentence [''!done'']]"
      "sendSentence 2 [''/b''] (sendSentence 1 [''/a''] \<lparr>rc_buf = [], rc_pending = [], rc_outcomes = [], rc_written = []\<rparr>)"
      "[1, 2]" "[]"] done_ok
  by (simp add: reply_sentences_def stream_of_def sendSentence_def is_final_def final_kinds_def outcome_of_def)

text \<open>
  Replies carry no tag, so the client can settle a command with the reply to another one:
  after a timeout the reply to the command that timed out, when it arrives late, becomes the
  result of the next pending command; and since a trap settles a command at once, the \<open>!done\<close>
  with which the router ends the same reply settles the next pending command as a success.
\<close>

theorem stray_reply_settles_next:
  assumes "i \<noteq> j"
    and "c1 = sendSentence j q (sendSentence i p (c\<lparr>rc_pending := [], rc_outcomes := []\<rparr>))"
  shows "rc_outcomes (onSentence (''!done'' # r) (commandTimeout i w c1))
      = [(i, Err (Unreachable (''RouterOS command timed out: '' @ w))), (j, Ok [''!done'' # r])]
    \<and> rc_outcomes (fold onSentence [[''!trap'', ''=message='' @ m], [''!done'']] c1)
      = [(i, Err (Failed m)), (j, Ok [[''!done'']])]"
  using assms by (simp add: onSentence_def commandTimeout_def sendSentence_def message_of_def starts_with_def)

theorem stray_reply_settles_next_witness:
  "rc_outcomes (onSentence [''!done''] (commandTimeout 1 ''/a'' (sendSentence 2 [''/b''] (sendSentence 1 [''/a'']
      \<lparr>rc_buf = [], rc_pending = [], rc_outcomes = [], rc_written = []\<rparr>))))
   = [(1, Err (Unreachable (''RouterOS command timed out: '' @ ''/a''))), (2, Ok [[''!done'']])]"
  using stray_reply_settles_next [of 1 2 _ "[''/b'']" "[''/a'']"
      "\<lparr>rc_buf = [], rc_pending = [], rc_outcomes = [], rc_written = []\<rparr>" "[]" "''/a''", OF _ refl] by simp
end
