(* ===== verification/RouterosProvisioning.thy ===== *)
theory RouterosProvisioning
  imports RouterosCommands RouterosStream
begin

text \<open>
  What the provisioning commands of theory RouterosCommands promise on a router that keeps its tables
  as RouterOS documents (\<open>ros_table\<close>): \<open>print\<close> lists the rows the queries select, \<open>set\<close> overwrites
  the attributes of the row with the given \<open>.id\<close>, \<open>add\<close> appends a row and returns its fresh id.
  A router that keeps the words it was sent shows that the contract can hold.
\<close>

section \<open>The tables of a router\<close>



definition clean_keys :: "(string \<times> string) list \<Rightarrow> bool" where
  "clean_keys kvs \<longleftrightarrow> distinct (map fst kvs) \<and> (\<forall>k \<in> set (map fst kvs). k \<noteq> [] \<and> CHR ''='' \<notin> set k \<and> k \<noteq> ''.id'')"





























lemma clean_app: "clean_keys (xs @ ys) \<longleftrightarrow> clean_keys xs \<and> clean_keys ys \<and> fst ` set xs \<inter> fst ` set ys = {}"
  by (auto simp: clean_keys_def)

lemma clean_opt: "k \<noteq> [] \<Longrightarrow> CHR ''='' \<notin> set k \<Longrightarrow> k \<noteq> ''.id'' \<Longrightarrow> clean_keys (opt_attr k p n)"
  by (simp add: clean_keys_def opt_attr_def)

lemma fst_opt: "fst ` set (opt_attr k p n) \<subseteq> {k}"
  by (auto simp: opt_attr_def)
































text \<open>When the router goes down before it answers, the rejected command is the answer: the reboot is
  reported as a failure.\<close>

lemma reboot_disconnect_fails:
  assumes "rl_open link s = (s1, Ok ())"
    and "rl_run link [''/system/reboot''] s1 = (s2, Err (Unreachable ''RouterOS connection closed''))"
  shows "systemReboot link s = (s2, Err (Unreachable ''RouterOS connection closed''))"
  using assms by (simp add: systemReboot_def with_client_def ros_bind_def)

end
