(* ===== verification/CircuitBreaker.thy ===== *)
theory CircuitBreaker
  imports Prelude
begin

text \<open>
  The circuit breaker of \<open>src/utils/circuitBreaker.js\<close>. Its state is a record, times are
  milliseconds. \<open>call\<close> awaits the service, so other calls run in between: it is split at the
  \<open>await\<close> into a start and a completion, and the interleavings are the runs of a step relation
  that keeps the calls in flight.
\<close>

section \<open>Operations\<close>

datatype breaker_state = Closed | Open | HalfOpen

record breaker =
  cb_failures :: nat
  cb_lastFailure :: int
  cb_state :: breaker_state

record breaker_opts =
  cb_name :: string
  cb_threshold :: nat
  cb_resetMs :: int

definition createCircuitBreaker :: breaker where
  "createCircuitBreaker = \<lparr>cb_failures = 0, cb_lastFailure = 0, cb_state = Closed\<rparr>"

definition isOpen :: "breaker_opts \<Rightarrow> int \<Rightarrow> breaker \<Rightarrow> breaker \<times> bool" where
  "isOpen opts now b =
     (if cb_failures b < cb_threshold opts then (b\<lparr>cb_state := Closed\<rparr>, False)
      else if now - cb_lastFailure b > cb_resetMs opts then (b\<lparr>cb_state := HalfOpen\<rparr>, False)
      else (b\<lparr>cb_state := Open\<rparr>, True))"

definition recordSuccess :: "breaker \<Rightarrow> breaker" where
  "recordSuccess b = b\<lparr>cb_failures := 0, cb_state := Closed\<rparr>"

definition recordFailure :: "breaker_opts \<Rightarrow> int \<Rightarrow> breaker \<Rightarrow> breaker" where
  "recordFailure opts now b =
     (let b' = b\<lparr>cb_failures := cb_failures b + 1, cb_lastFailure := now\<rparr> in
      if cb_failures b' \<ge> cb_threshold opts then b'\<lparr>cb_state := Open\<rparr> else b')"

definition getState :: "breaker_opts \<Rightarrow> int \<Rightarrow> breaker \<Rightarrow> breaker" where
  "getState opts now b = fst (isOpen opts now b)"

definition reset_breaker :: "breaker \<Rightarrow> breaker" where
  "reset_breaker b = b\<lparr>cb_failures := 0, cb_lastFailure := 0, cb_state := Closed\<rparr>"

text \<open>\<open>call\<close> up to its \<open>await\<close> (whether the service is called), and from there on.\<close>

definition call_starts :: "breaker_opts \<Rightarrow> int \<Rightarrow> breaker \<Rightarrow> breaker \<times> bool" where
  "call_starts opts now b = (let (b', opened) = isOpen opts now b in (b', \<not> opened))"

definition call_ends :: "breaker_opts \<Rightarrow> int \<Rightarrow> bool \<Rightarrow> breaker \<Rightarrow> breaker" where
  "call_ends opts now success b = (if success then recordSuccess b else recordFailure opts now b)"

section \<open>Interleavings\<close>

datatype breaker_event =
    Admitted nat int | Refused nat int | Succeeded nat int | Failed_at nat int | Inspected int | Reset

inductive breaker_step ::
    "breaker_opts \<Rightarrow> breaker \<times> nat set \<Rightarrow> breaker_event \<Rightarrow> breaker \<times> nat set \<Rightarrow> bool" for opts where
  admit: "call_starts opts now b = (b', True) \<Longrightarrow> i \<notin> fl \<Longrightarrow>
     breaker_step opts (b, fl) (Admitted i now) (b', insert i fl)"
| refuse: "call_starts opts now b = (b', False) \<Longrightarrow> i \<notin> fl \<Longrightarrow>
     breaker_step opts (b, fl) (Refused i now) (b', fl)"
| succeed: "i \<in> fl \<Longrightarrow> breaker_step opts (b, fl) (Succeeded i now) (call_ends opts now True b, fl - {i})"
| fail: "i \<in> fl \<Longrightarrow> breaker_step opts (b, fl) (Failed_at i now) (call_ends opts now False b, fl - {i})"
| inspect: "breaker_step opts (b, fl) (Inspected now) (getState opts now b, fl)"
| reset: "breaker_step opts (b, fl) Reset (reset_breaker b, fl)"

inductive breaker_run :: "breaker_opts \<Rightarrow> breaker_event list \<Rightarrow> breaker \<times> nat set \<Rightarrow> bool" for opts where
  start: "breaker_run opts [] (createCircuitBreaker, {})"
| step: "breaker_run opts evs s \<Longrightarrow> breaker_step opts s e s' \<Longrightarrow> breaker_run opts (evs @ [e]) s'"

inductive_cases breaker_stepE: "breaker_step opts s e s'"
inductive_simps breaker_step_simps:
  "breaker_step opts (b, fl) (Admitted i now) s'"
  "breaker_step opts (b, fl) (Refused i now) s'"

section \<open>What the breaker promises\<close>







lemmas breaker_defs = createCircuitBreaker_def isOpen_def recordSuccess_def recordFailure_def getState_def
  reset_breaker_def call_starts_def call_ends_def Let_def





definition breaker_demo :: breaker_opts where
  "breaker_demo = \<lparr>cb_name = ''gw'', cb_threshold = 1, cb_resetMs = 10\<rparr>"

lemma breaker_demo_run: "breaker_run breaker_demo [Admitted 0 100, Failed_at 0 105, Refused 1 110]
   (\<lparr>cb_failures = 1, cb_lastFailure = 105, cb_state = Open\<rparr>, {})"
proof -
  have 1: "breaker_run breaker_demo [Admitted 0 100] (createCircuitBreaker, {0})"
    using breaker_run.step [OF breaker_run.start breaker_step.admit [of breaker_demo 100]]
    by (simp add: breaker_defs breaker_demo_def)
  have 2: "breaker_run breaker_demo [Admitted 0 100, Failed_at 0 105]
      (\<lparr>cb_failures = 1, cb_lastFailure = 105, cb_state = Open\<rparr>, {})"
    using breaker_run.step [OF 1 breaker_step.fail [of 0 "{0}" breaker_demo _ 105]]
    by (simp add: breaker_defs breaker_demo_def)
  show ?thesis
    using breaker_run.step [OF 2 breaker_step.refuse [of breaker_demo 110 _ _ 1]]
    by (simp add: breaker_defs breaker_demo_def)
qed


text \<open>
  The state the breaker reports is true to its counter: with a positive threshold it is
  \<open>closed\<close> exactly when fewer than \<open>threshold\<close> failures have run up.
\<close>

theorem breaker_state_invariant:
  assumes "breaker_run opts evs (b, fl)" and "0 < cb_threshold opts"
  shows "cb_state b = Closed \<longleftrightarrow> cb_failures b < cb_threshold opts"
  using assms(1)
proof (induction evs "(b, fl)" arbitrary: b fl rule: breaker_run.induct)
  case start
  then show ?case using assms(2) by (simp add: createCircuitBreaker_def)
next
  case (step evs s e)
  obtain b0 fl0 where s: "s = (b0, fl0)" by force
  show ?case
    using step(2,3) assms(2) unfolding s
    by (auto elim!: breaker_stepE simp: breaker_defs split: if_splits)
qed

theorem breaker_state_invariant_witness:
  "cb_state \<lparr>cb_failures = 1, cb_lastFailure = 105, cb_state = Open\<rparr> \<noteq> Closed"
  using breaker_state_invariant [OF breaker_demo_run] by (simp add: breaker_demo_def)

text \<open>
  After the cooldown the breaker does not limit itself to one probe: however many calls start
  before the first of them completes, all are admitted.
\<close>

theorem half_open_admits_all:
  assumes "breaker_run opts evs (b, fl)" and "cb_resetMs opts < now - cb_lastFailure b"
    and "distinct ids" and "set ids \<inter> fl = {}"
  shows "\<exists>b'. breaker_run opts (evs @ map (\<lambda>i. Admitted i now) ids) (b', fl \<union> set ids)
     \<and> cb_failures b' = cb_failures b \<and> cb_lastFailure b' = cb_lastFailure b"
  using assms(3,4)
proof (induction ids rule: rev_induct)
  case Nil
  then show ?case using assms(1) by auto
next
  case (snoc i ids)
  then obtain b1 where 1: "breaker_run opts (evs @ map (\<lambda>i. Admitted i now) ids) (b1, fl \<union> set ids)"
      "cb_failures b1 = cb_failures b" "cb_lastFailure b1 = cb_lastFailure b"
    by auto
  obtain b2 where 2: "call_starts opts now b1 = (b2, True)" "cb_failures b2 = cb_failures b1"
      "cb_lastFailure b2 = cb_lastFailure b1"
    using assms(2) by (cases "cb_failures b < cb_threshold opts") (auto simp: breaker_defs 1)
  have "i \<notin> fl \<union> set ids"
    using snoc.prems by auto
  from breaker_run.step [OF 1(1) breaker_step.admit [OF 2(1) this]] show ?case
    using 1 2 by auto
qed

theorem half_open_admits_all_witness:
  "\<exists>b'. breaker_run breaker_demo [Admitted 0 100, Failed_at 0 105, Refused 1 110, Admitted 2 120, Admitted 3 120] (b', {2, 3})"
  using half_open_admits_all [OF breaker_demo_run, of 120 "[2, 3]"] by (auto simp: breaker_demo_def)

end
