(* ===== verification/CacheService.thy ===== *)
theory CacheService
  imports JsText
begin

text \<open>
  The cache of \<open>src/services/cacheService.js\<close>, which also carries the fixed-window counters of the
  rate limiters. The in-memory store is a JavaScript \<open>Map\<close>: an association list in insertion order,
  where overwriting a key keeps its place. The Redis client is a parameter, with one function per
  command; the two Lua scripts are translated command by command. Times are milliseconds.
\<close>

section \<open>Values\<close>

text \<open>What the rate limiters store: a count, the object of the bulk mail budget, or, after an
  increment of such an object, \<open>NaN\<close>.\<close>

datatype cache_value = Count int | Budget int int | NaN

text \<open>\<open>Number(value || 0)\<close>.\<close>

fun count_of :: "cache_value \<Rightarrow> int option" where
  "count_of (Count n) = Some n"
| "count_of (Budget _ _) = None"
| "count_of NaN = Some 0"

definition to_count :: "int option \<Rightarrow> cache_value" where
  "to_count n = (case n of Some m \<Rightarrow> Count m | None \<Rightarrow> NaN)"

record cache_entry =
  ce_value :: cache_value
  ce_expires :: int

section \<open>MemoryCache\<close>

type_synonym mem_store = "(string \<times> cache_entry) list"

definition mem_put :: "string \<Rightarrow> cache_entry \<Rightarrow> mem_store \<Rightarrow> mem_store" where
  "mem_put key e store =
     (if key \<in> fst ` set store then map (\<lambda>(k, x). if k = key then (k, e) else (k, x)) store
      else store @ [(key, e)])"

definition mem_del :: "string \<Rightarrow> mem_store \<Rightarrow> mem_store" where
  "mem_del key store = filter (\<lambda>kx. fst kx \<noteq> key) store"

definition mem_get :: "string \<Rightarrow> int \<Rightarrow> mem_store \<Rightarrow> mem_store \<times> cache_value option" where
  "mem_get key now store =
     (case map_of store key of
        None \<Rightarrow> (store, None)
      | Some e \<Rightarrow>
          if ce_expires e \<noteq> 0 \<and> now > ce_expires e then (mem_del key store, None)
          else (mem_del key store @ [(key, e)], Some (ce_value e)))"

text \<open>The second argument is \<open>maxSize\<close>; \<open>ttlSeconds = 0\<close> never expires.\<close>

definition mem_set :: "nat \<Rightarrow> string \<Rightarrow> cache_value \<Rightarrow> int \<Rightarrow> int \<Rightarrow> mem_store \<Rightarrow> mem_store" where
  "mem_set maxSize key v ttlSeconds now store =
     (let room = (if length store \<ge> maxSize \<and> key \<notin> fst ` set store then
                    (case store of [] \<Rightarrow> [] | (oldest, _) # _ \<Rightarrow> mem_del oldest store)
                  else store) in
      mem_put key \<lparr>ce_value = v, ce_expires = (if ttlSeconds = 0 then 0 else now + ttlSeconds * 1000)\<rparr> room)"

definition mem_incrementFixedWindow ::
    "string \<Rightarrow> int \<Rightarrow> int \<Rightarrow> mem_store \<Rightarrow> mem_store \<times> (string + int option \<times> int)" where
  "mem_incrementFixedWindow key windowMs now store =
     (let fresh = (mem_put key \<lparr>ce_value = Count 1, ce_expires = now + windowMs\<rparr> store, Ok (Some 1, now + windowMs)) in
      case map_of store key of
        None \<Rightarrow> fresh
      | Some e \<Rightarrow>
          if ce_expires e \<le> now then fresh
          else let n = map_option (\<lambda>m. m + 1) (count_of (ce_value e)) in
            (mem_put key (e\<lparr>ce_value := to_count n\<rparr>) store, Ok (n, ce_expires e)))"

definition mem_decrementFixedWindow :: "string \<Rightarrow> int \<Rightarrow> mem_store \<Rightarrow> mem_store" where
  "mem_decrementFixedWindow key now store =
     (case map_of store key of
        None \<Rightarrow> store
      | Some e \<Rightarrow>
          if ce_expires e \<le> now then store
          else mem_put key (e\<lparr>ce_value := to_count (map_option (\<lambda>m. max 0 (m - 1)) (count_of (ce_value e)))\<rparr>) store)"

definition mem_flush :: "mem_store \<Rightarrow> mem_store" where
  "mem_flush store = []"

section \<open>RedisCache\<close>

text \<open>The commands of the client, each of which may fail, and the JSON functions.\<close>

record 's redis =
  rd_get :: "string \<Rightarrow> 's \<Rightarrow> 's \<times> (string + string option)"
  rd_set :: "string \<Rightarrow> string \<Rightarrow> int option \<Rightarrow> 's \<Rightarrow> 's \<times> (string + unit)"
  rd_del :: "string \<Rightarrow> 's \<Rightarrow> 's \<times> (string + unit)"
  rd_incr :: "string \<Rightarrow> 's \<Rightarrow> 's \<times> (string + int)"
  rd_decr :: "string \<Rightarrow> 's \<Rightarrow> 's \<times> (string + int)"
  rd_pexpire :: "string \<Rightarrow> int \<Rightarrow> 's \<Rightarrow> 's \<times> (string + unit)"
  rd_pttl :: "string \<Rightarrow> 's \<Rightarrow> 's \<times> (string + int)"
  rd_flushdb :: "'s \<Rightarrow> 's \<times> (string + unit)"
  json_parse :: "string \<Rightarrow> string + cache_value"
  json_stringify :: "cache_value \<Rightarrow> string"

definition then_do :: "('s \<Rightarrow> 's \<times> ('e + 'a)) \<Rightarrow> ('a \<Rightarrow> 's \<Rightarrow> 's \<times> ('e + 'b)) \<Rightarrow> 's \<Rightarrow> 's \<times> ('e + 'b)" where
  "then_do m f s = (case m s of (s', Inl e) \<Rightarrow> (s', Inl e) | (s', Inr x) \<Rightarrow> f x s')"

definition redis_get :: "'s redis \<Rightarrow> string \<Rightarrow> 's \<Rightarrow> 's \<times> cache_value option" where
  "redis_get r key s =
     (case rd_get r key s of
        (s', Inr (Some (c # cs))) \<Rightarrow> (s', (case json_parse r (c # cs) of Inr v \<Rightarrow> Some v | Inl _ \<Rightarrow> None))
      | (s', _) \<Rightarrow> (s', None))"

definition redis_set :: "'s redis \<Rightarrow> string \<Rightarrow> cache_value \<Rightarrow> int \<Rightarrow> 's \<Rightarrow> 's" where
  "redis_set r key v ttlSeconds s =
     fst (rd_set r key (json_stringify r v) (if ttlSeconds = 0 then None else Some ttlSeconds) s)"

definition redis_del :: "'s redis \<Rightarrow> string \<Rightarrow> 's \<Rightarrow> 's" where
  "redis_del r key s = fst (rd_del r key s)"

definition redis_incrementFixedWindow ::
    "'s redis \<Rightarrow> string \<Rightarrow> int \<Rightarrow> int \<Rightarrow> 's \<Rightarrow> 's \<times> (string + int option \<times> int)" where
  "redis_incrementFixedWindow r key windowMs now =
     then_do (rd_incr r key) (\<lambda>count.
       then_do (\<lambda>s. if count = 1 then rd_pexpire r key windowMs s else (s, Ok ())) (\<lambda>_.
         then_do (rd_pttl r key) (\<lambda>ttl s. (s, Ok (Some count, now + max 1 ttl)))))"

definition redis_number :: "string option \<Rightarrow> rat" where
  "redis_number raw = (case raw of None \<Rightarrow> 0 | Some t \<Rightarrow> (case js_number t of Some q \<Rightarrow> q | None \<Rightarrow> 0))"

definition redis_decrementFixedWindow :: "'s redis \<Rightarrow> string \<Rightarrow> 's \<Rightarrow> 's \<times> (string + unit)" where
  "redis_decrementFixedWindow r key =
     then_do (rd_get r key) (\<lambda>raw.
       if redis_number raw > 0 then then_do (rd_decr r key) (\<lambda>_ s. (s, Ok ())) else (\<lambda>s. (s, Ok ())))"

definition redis_flush :: "'s redis \<Rightarrow> 's \<Rightarrow> 's" where
  "redis_flush r s = fst (rd_flushdb r s)"

section \<open>Cache-aside\<close>

text \<open>\<open>wrap\<close> over either cache, given as its \<open>get\<close> and \<open>set\<close>.\<close>

definition cache_wrap ::
    "(string \<Rightarrow> 's \<Rightarrow> 's \<times> 'v option) \<Rightarrow> (string \<Rightarrow> 'v \<Rightarrow> int \<Rightarrow> 's \<Rightarrow> 's) \<Rightarrow> string \<Rightarrow> int
     \<Rightarrow> ('s \<Rightarrow> 's \<times> ('e + 'v)) \<Rightarrow> 's \<Rightarrow> 's \<times> ('e + 'v)" where
  "cache_wrap get put key ttl fn s =
     (case get key s of
        (s', Some v) \<Rightarrow> (s', Ok v)
      | (s', None) \<Rightarrow> then_do fn (\<lambda>v s''. (put key v ttl s'', Ok v)) s')"

section \<open>Fixed windows\<close>

text \<open>What the limiters rely on: an increment of a key without a live window opens one of the given
  length with count 1, one within a live window counts up and keeps its end, and other keys are not
  touched. \<open>proper\<close> says that a key holds a counter or nothing.\<close>

locale fixed_window =
  fixes incr :: "string \<Rightarrow> int \<Rightarrow> int \<Rightarrow> 's \<Rightarrow> 's \<times> (string + int option \<times> int)"
    and window :: "'s \<Rightarrow> string \<Rightarrow> (int \<times> int) option"
    and proper :: "'s \<Rightarrow> string \<Rightarrow> bool"
  assumes opens: "\<lbrakk>proper s k; \<And>c r. window s k = Some (c, r) \<Longrightarrow> r \<le> now\<rbrakk> \<Longrightarrow>
      \<exists>s'. incr k w now s = (s', Ok (Some 1, now + w)) \<and> window s' k = Some (1, now + w) \<and> proper s' k"
    and counts: "\<lbrakk>proper s k; window s k = Some (c, r); now < r\<rbrakk> \<Longrightarrow>
      \<exists>s'. incr k w now s = (s', Ok (Some (c + 1), r)) \<and> window s' k = Some (c + 1, r) \<and> proper s' k"
    and keeps: "k' \<noteq> k \<Longrightarrow> window (fst (incr k w now s)) k' = window s k' \<and> proper (fst (incr k w now s)) k' = proper s k'"

definition mem_window :: "mem_store \<Rightarrow> string \<Rightarrow> (int \<times> int) option" where
  "mem_window store key =
     (case map_of store key of
        Some e \<Rightarrow> (case ce_value e of Count n \<Rightarrow> Some (n, ce_expires e) | _ \<Rightarrow> None)
      | None \<Rightarrow> None)"

definition mem_proper :: "mem_store \<Rightarrow> string \<Rightarrow> bool" where
  "mem_proper store key \<longleftrightarrow> (\<forall>e. map_of store key = Some e \<longrightarrow> (\<exists>n. ce_value e = Count n))"

lemma map_of_overwrite:
  "map_of (map (\<lambda>(k, x). if k = key then (k, e) else (k, x)) store) k =
     (if k = key \<and> map_of store key \<noteq> None then Some e else map_of store k)"
proof (induction store)
  case (Cons kx store)
  then show ?case
    by (cases kx; cases "fst kx = key"; cases "fst kx = k") simp_all
qed simp

lemma map_of_put: "map_of (mem_put key e store) k = (if k = key then Some e else map_of store k)"
proof (cases "map_of store key")
  case None
  then have "key \<notin> fst ` set store"
    by (simp add: map_of_eq_None_iff)
  then show ?thesis
    using None by (cases "k = key"; cases "map_of store k") (simp_all add: mem_put_def map_add_def)
next
  case (Some e')
  then have "key \<in> fst ` set store"
    by (metis map_of_eq_None_iff option.distinct(1))
  then show ?thesis
    using Some by (simp add: mem_put_def map_of_overwrite)
qed

interpretation mem: fixed_window mem_incrementFixedWindow mem_window mem_proper
  by unfold_locales
    (auto simp: mem_incrementFixedWindow_def mem_window_def mem_proper_def map_of_put Let_def to_count_def
      split: option.splits cache_value.splits)

text \<open>The Redis scripts give the same contract, where the server keeps counters as documented:
  \<open>INCR\<close> of an absent or expired key gives 1 and a key without expiry, \<open>PEXPIRE\<close> sets the expiry
  from the current time, \<open>PTTL\<close> is what is left. \<open>left s k\<close> is the count and the expiry of a key
  that has not expired, \<open>now\<close> the time of the server.\<close>

definition redis_counters :: "'s redis \<Rightarrow> (int \<Rightarrow> 's \<Rightarrow> string \<Rightarrow> (int \<times> int option) option) \<Rightarrow> int \<Rightarrow> bool" where
  "redis_counters r left now \<longleftrightarrow>
     (\<forall>s k. \<exists>s'. rd_incr r k s = (s', Ok (case left now s k of Some (c, _) \<Rightarrow> c + 1 | None \<Rightarrow> 1))
        \<and> left now s' k = Some (case left now s k of Some (c, e) \<Rightarrow> (c + 1, e) | None \<Rightarrow> (1, None))
        \<and> (\<forall>k'. k' \<noteq> k \<longrightarrow> left now s' k' = left now s k'))
     \<and> (\<forall>s k w c e. left now s k = Some (c, e) \<and> 0 < w \<longrightarrow> (\<exists>s'. rd_pexpire r k w s = (s', Ok ())
        \<and> left now s' k = Some (c, Some (now + w)) \<and> (\<forall>k'. k' \<noteq> k \<longrightarrow> left now s' k' = left now s k')))
     \<and> (\<forall>s k c e. left now s k = Some (c, Some e) \<longrightarrow> rd_pttl r k s = (s, Ok (e - now)))"

lemma redis_opens:
  assumes r: "redis_counters r left now" and k: "left now s k = None" and w: "0 < w"
  shows "\<exists>s'. redis_incrementFixedWindow r k w now s = (s', Ok (Some 1, now + w)) \<and> left now s' k = Some (1, Some (now + w))"
proof -
  obtain s1 where 1: "rd_incr r k s = (s1, Ok 1)" "left now s1 k = Some (1, None)"
    using r k unfolding redis_counters_def by (metis (no_types, lifting) option.case(1))
  obtain s2 where 2: "rd_pexpire r k w s1 = (s2, Ok ())" "left now s2 k = Some (1, Some (now + w))"
    using r 1(2) w unfolding redis_counters_def by blast
  have "rd_pttl r k s2 = (s2, Ok (now + w - now))"
    using r 2(2) unfolding redis_counters_def by blast
  then show ?thesis
    using 1 2 w by (auto simp: redis_incrementFixedWindow_def then_do_def)
qed

lemma redis_counts:
  assumes r: "redis_counters r left now" and k: "left now s k = Some (c, Some e)" and c: "0 < c" and e: "now < e"
  shows "\<exists>s'. redis_incrementFixedWindow r k w now s = (s', Ok (Some (c + 1), e)) \<and> left now s' k = Some (c + 1, Some e)"
proof -
  obtain s1 where 1: "rd_incr r k s = (s1, Ok (c + 1))" "left now s1 k = Some (c + 1, Some e)"
    using r k unfolding redis_counters_def by (metis (no_types, lifting) option.case(2) old.prod.case)
  have "rd_pttl r k s1 = (s1, Ok (e - now))"
    using r 1(2) unfolding redis_counters_def by blast
  then show ?thesis
    using 1 c e by (auto simp: redis_incrementFixedWindow_def then_do_def)
qed

section \<open>Counting within a window\<close>

text \<open>The times and counts a key goes through, from the window \<open>v\<close> on.\<close>

fun counted :: "int \<Rightarrow> (int \<times> int) option \<Rightarrow> (int \<times> int) list \<Rightarrow> bool" where
  "counted w v [] = True"
| "counted w v ((t, n) # xs) =
     (case v of
        Some (c, r) \<Rightarrow> if t < r then n = c + 1 \<and> counted w (Some (c + 1, r)) xs
                     else n = 1 \<and> counted w (Some (1, t + w)) xs
      | None \<Rightarrow> n = 1 \<and> counted w (Some (1, t + w)) xs)"

definition under_limit :: "int \<Rightarrow> (int \<times> int) list \<Rightarrow> nat" where
  "under_limit limit xs = length (filter (\<lambda>(t, n). n \<le> limit) xs)"

lemma under_limit_simps [simp]:
  "under_limit L [] = 0" "under_limit L ((t, n) # xs) = (if n \<le> L then Suc (under_limit L xs) else under_limit L xs)"
  by (simp_all add: under_limit_def)

lemma counted_live:
  "counted w (Some (c, r)) xs \<Longrightarrow> \<forall>(t, n) \<in> set xs. t < r \<Longrightarrow> int (under_limit L xs) \<le> max 0 (L - c)"
  by (induction xs arbitrary: c) (force split: if_splits)+

lemma counted_opened:
  assumes "counted w (Some (1, t + w)) xs" and "\<forall>(t', n) \<in> set xs. t' < a + w" and "a \<le> t" and "1 \<le> L"
  shows "Suc (under_limit L xs) \<le> nat L"
proof -
  have "int (under_limit L xs) \<le> max 0 (L - 1)"
    using assms by (intro counted_live [OF assms(1)]) fastforce
  then show ?thesis
    using assms(4) by linarith
qed

lemma counted_interval:
  assumes "counted w v xs" and "\<forall>(t, n) \<in> set xs. a \<le> t \<and> t < a + w" and "1 \<le> L" and "\<And>c r. v = Some (c, r) \<Longrightarrow> 0 \<le> c"
  shows "under_limit L xs \<le> 2 * nat L"
proof (cases v)
  case None
  then show ?thesis
  proof (cases xs)
    case (Cons x ys)
    obtain t n where x: "x = (t, n)" by force
    then have "n = 1" "counted w (Some (1, t + w)) ys" "a \<le> t"
      using assms(1,2) Cons None by auto
    moreover have "Suc (under_limit L ys) \<le> nat L"
      using calculation assms(2,3) Cons by (intro counted_opened [of w t ys a L]) auto
    ultimately show ?thesis
      using assms(3) Cons x by auto
  qed simp
next
  case (Some cr)
  obtain c r where v: "v = Some (c, r)" by (metis Some surj_pair)
  have "under_limit L xs \<le> nat (max 0 (L - c)) + nat L"
    if "counted w (Some (c, r)) xs" "\<forall>(t, n) \<in> set xs. a \<le> t \<and> t < a + w" for c r
    using that
  proof (induction xs arbitrary: c)
    case (Cons x ys)
    obtain t n where x: "x = (t, n)" by force
    show ?case
    proof (cases "t < r")
      case True
      then have "n = c + 1" "under_limit L ys \<le> nat (max 0 (L - (c + 1))) + nat L"
        using Cons x by auto
      then show ?thesis
        using x by (auto simp: max_def split: if_splits)
    next
      case False
      then have "n = 1" "counted w (Some (1, t + w)) ys" "a \<le> t"
        using Cons.prems x by auto
      moreover have "Suc (under_limit L ys) \<le> nat L"
        using calculation Cons.prems(2) assms(3) by (intro counted_opened [of w t ys a L]) auto
      ultimately show ?thesis
        using assms(3) x by auto
    qed
  qed simp
  then show ?thesis
    using assms(1,2,4) v by fastforce
qed

end
