(* ===== verification/RateLimit.thy ===== *)
theory RateLimit
  imports CacheService AccessControl
begin

text \<open>
  The parts of \<open>src/middleware/rateLimit.js\<close> that are not instances of the express-rate-limit
  package: its store, the limiter of API tokens and the bulk mail budget. The cache is a parameter:
  an increment, or a \<open>get\<close> and a \<open>set\<close>. Within one call of a handler the clock does not advance.
\<close>

section \<open>CacheStore\<close>

definition store_increment ::
    "(string \<Rightarrow> int \<Rightarrow> int \<Rightarrow> 's \<Rightarrow> 's \<times> (string + int option \<times> int)) \<Rightarrow> string \<Rightarrow> int \<Rightarrow> string \<Rightarrow> int
     \<Rightarrow> 's \<Rightarrow> 's \<times> (string + int option \<times> int)" where
  "store_increment incr prefix' windowMs key now = incr (prefix' @ key) windowMs now"

definition store_decrement :: "(string \<Rightarrow> int \<Rightarrow> 's \<Rightarrow> 's) \<Rightarrow> string \<Rightarrow> string \<Rightarrow> int \<Rightarrow> 's \<Rightarrow> 's" where
  "store_decrement decr prefix' key now = decr (prefix' @ key) now"

definition store_resetKey :: "(string \<Rightarrow> 's \<Rightarrow> 's) \<Rightarrow> string \<Rightarrow> string \<Rightarrow> 's \<Rightarrow> 's" where
  "store_resetKey del prefix' key = del (prefix' @ key)"

section \<open>API token limits\<close>

record limit_window =
  lw_field :: string
  lw_name :: string
  lw_windowMs :: int
  lw_max :: nat

definition API_TOKEN_RATE_LIMIT_WINDOWS :: "limit_window list" where
  "API_TOKEN_RATE_LIMIT_WINDOWS =
     [\<lparr>lw_field = ''burst_size'', lw_name = ''burst'', lw_windowMs = 1000, lw_max = 65535\<rparr>,
      \<lparr>lw_field = ''requests_per_minute'', lw_name = ''minute'', lw_windowMs = 60 * 1000, lw_max = 0xFFFFFFFF\<rparr>,
      \<lparr>lw_field = ''requests_per_hour'', lw_name = ''hour'', lw_windowMs = 60 * 60 * 1000, lw_max = 0xFFFFFFFF\<rparr>,
      \<lparr>lw_field = ''requests_per_day'', lw_name = ''day'', lw_windowMs = 24 * 60 * 60 * 1000, lw_max = 0xFFFFFFFF\<rparr>]"

definition rate_default :: "string \<Rightarrow> nat" where
  "rate_default field =
     (if field = ''requests_per_minute'' then 60
      else if field = ''requests_per_hour'' then 1000
      else if field = ''requests_per_day'' then 10000 else 20)"

definition policy_field :: "string \<Rightarrow> rate_policy \<Rightarrow> nat option" where
  "policy_field field =
     (if field = ''requests_per_minute'' then rp_minute
      else if field = ''requests_per_hour'' then rp_hour
      else if field = ''requests_per_day'' then rp_day else rp_burst)"

datatype limit_reply = Next | TooMany string int | NextError string

definition configuredLimit :: "rate_policy \<Rightarrow> limit_window \<Rightarrow> limit_reply + nat" where
  "configuredLimit policy window =
     (let v = (case policy_field (lw_field window) policy of Some n \<Rightarrow> n | None \<Rightarrow> rate_default (lw_field window)) in
      if v < 1 \<or> v > lw_max window then Err (NextError ''RATE_LIMIT_CONFIGURATION_INVALID'') else Ok v)"

definition window_key :: "nat \<Rightarrow> nat \<Rightarrow> string \<Rightarrow> string" where
  "window_key org token name = ''rl_api_token_policy:'' @ show_nat org @ '':'' @ show_nat token @ '':'' @ name"

text \<open>All increments are started before any is awaited, so they all happen, failures or not.\<close>

fun bump_all ::
    "(string \<Rightarrow> int \<Rightarrow> int \<Rightarrow> 's \<Rightarrow> 's \<times> (string + int option \<times> int)) \<Rightarrow> (string \<Rightarrow> string) \<Rightarrow> limit_window list \<Rightarrow> int
     \<Rightarrow> 's \<Rightarrow> 's \<times> (string + int option \<times> int) list" where
  "bump_all incr key [] now s = (s, [])"
| "bump_all incr key (w # ws) now s =
     (let (s', r) = incr (key (lw_name w)) (lw_windowMs w) now s; (s'', rs) = bump_all incr key ws now s' in (s'', r # rs))"

definition proper_counter :: "int option \<times> int \<Rightarrow> bool" where
  "proper_counter c \<longleftrightarrow> (case fst c of None \<Rightarrow> False | Some n \<Rightarrow> 1 \<le> n \<and> n \<le> 9007199254740991)"

definition exceeded :: "(limit_window \<times> nat) list \<Rightarrow> (int option \<times> int) list \<Rightarrow> (limit_window \<times> int) option" where
  "exceeded limits counters =
     map_option (\<lambda>((w, l), c). (w, snd c))
       (find (\<lambda>((w, l), c). case fst c of Some n \<Rightarrow> n > int l | None \<Rightarrow> False) (zip limits counters))"

definition judge :: "int \<Rightarrow> (limit_window \<times> nat) list \<Rightarrow> (string + int option \<times> int) list \<Rightarrow> limit_reply" where
  "judge now limits outs =
     (case collect outs of
        Inl _ \<Rightarrow> NextError ''RATE_LIMIT_UNAVAILABLE''
      | Inr counters \<Rightarrow>
          if \<not> list_all proper_counter counters then NextError ''RATE_LIMIT_UNAVAILABLE''
          else (case exceeded limits counters of
                  None \<Rightarrow> Next
                | Some (w, resetAt) \<Rightarrow>
                    TooMany (''API token '' @ lw_name w @ '' rate limit exceeded'')
                      (max 1 (- ((now - resetAt) div 1000)))))"

definition apiTokenConfiguredLimiter ::
    "(string \<Rightarrow> int \<Rightarrow> int \<Rightarrow> 's \<Rightarrow> 's \<times> (string + int option \<times> int)) \<Rightarrow> req_user option \<Rightarrow> nat \<Rightarrow> int \<Rightarrow> 's \<Rightarrow> 's \<times> limit_reply" where
  "apiTokenConfiguredLimiter incr user orgId now s =
     (case Option.bind user ru_token of
        None \<Rightarrow> (s, Next)
      | Some token \<Rightarrow>
          if token = 0 then (s, Next)
          else if orgId = 0 then (s, NextError ''RATE_LIMIT_CONFIGURATION_INVALID'')
          else (case Option.bind user ru_policy of
            None \<Rightarrow> (s, Next)
          | Some policy \<Rightarrow>
              if \<not> rp_active policy then (s, Next)
              else (case collect (map (configuredLimit policy) API_TOKEN_RATE_LIMIT_WINDOWS) of
                Inl e \<Rightarrow> (s, e)
              | Inr limits \<Rightarrow>
                  let (s', outs) = bump_all incr (window_key orgId token) API_TOKEN_RATE_LIMIT_WINDOWS now s in
                  (s', judge now (zip API_TOKEN_RATE_LIMIT_WINDOWS limits) outs))))"

section \<open>The bulk mail budget\<close>

record budget_reply =
  bg_allowed :: bool
  bg_remaining :: int
  bg_resetAt :: int

definition budget_key :: "nat \<Rightarrow> string" where
  "budget_key orgId = ''bulk_email_daily:'' @ show_nat orgId"

definition checkBulkEmailDailyBudget ::
    "(string \<Rightarrow> int \<Rightarrow> 's \<Rightarrow> 's \<times> cache_value option) \<Rightarrow> (string \<Rightarrow> cache_value \<Rightarrow> int \<Rightarrow> int \<Rightarrow> 's \<Rightarrow> 's)
     \<Rightarrow> nat \<Rightarrow> int \<Rightarrow> int \<Rightarrow> int \<Rightarrow> 's \<Rightarrow> 's \<times> budget_reply" where
  "checkBulkEmailDailyBudget get put orgId count limit now s =
     (let windowMs = 24 * 60 * 60 * 1000; (s', existing) = get (budget_key orgId) now s;
          (used, resetAt) = (case existing of
              Some (Budget n r) \<Rightarrow> if r > now then (n, r) else (0, now + windowMs)
            | _ \<Rightarrow> (0, now + windowMs)) in
      if used + count > limit
      then (s', \<lparr>bg_allowed = False, bg_remaining = max 0 (limit - used), bg_resetAt = resetAt\<rparr>)
      else (put (budget_key orgId) (Budget (used + count) resetAt) (max 1 (- ((now - resetAt) div 1000))) now s',
            \<lparr>bg_allowed = True, bg_remaining = limit - used - count, bg_resetAt = resetAt\<rparr>))"

section \<open>What the token limiter guarantees\<close>

lemma show_nat_inj: "show_nat m = show_nat n \<longleftrightarrow> m = n"
  by (metis digits_val_show)

lemma window_key_inj: "window_key o1 t1 n1 = window_key o2 t2 n2 \<longleftrightarrow> o1 = o2 \<and> t1 = t2 \<and> n1 = n2"
proof -
  have "split_first CHR '':'' (show_nat a @ CHR '':'' # r) = Some (show_nat a, r)" for a r
    by (rule split_first_append) (use show_nat_digits in force)
  then have cut: "show_nat a @ CHR '':'' # r = show_nat b @ CHR '':'' # r' \<longleftrightarrow> a = b \<and> r = r'" for a b r r'
    by (metis option.inject prod.inject show_nat_inj)
  show ?thesis
    unfolding window_key_def by (simp add: cut)
qed

definition next_count :: "int \<Rightarrow> (int \<times> int) option \<Rightarrow> int \<Rightarrow> int \<times> int" where
  "next_count w v t = (case v of Some (c, r) \<Rightarrow> if t < r then (c + 1, r) else (1, t + w) | None \<Rightarrow> (1, t + w))"

lemma counted_next: "counted w v ((t, n) # xs) \<longleftrightarrow> n = fst (next_count w v t) \<and> counted w (Some (next_count w v t)) xs"
  by (auto simp: next_count_def split: option.splits)

lemma collect_Ok_iff: "collect rs = Inr xs \<longleftrightarrow> rs = map Inr xs"
  by (induction rs arbitrary: xs) (auto simp: and_then_Ok_iff Cons_eq_map_conv)

lemma judge_Next:
  assumes "judge now limits outs = Next" and "j < length limits" and "j < length outs"
    and "limits ! j = (w, l)" and "outs ! j = Inr (Some n, r)"
  shows "n \<le> int l"
proof -
  obtain counters where c: "outs = map Inr counters" "exceeded limits counters = None"
    using assms(1) by (auto simp: judge_def collect_Ok_iff[symmetric] split: sum.splits if_splits option.splits)
  then have "(limits ! j, counters ! j) \<in> set (zip limits counters)" "counters ! j = (Some n, r)"
    using assms(2-5) by (auto simp: in_set_zip)
  then show ?thesis
    using c(2) assms(4) by (fastforce simp: exceeded_def find_None_iff)
qed

lemma bump_Cons:
  "bump_all incr key (w # ws) now s =
     (let ir = incr (key (lw_name w)) (lw_windowMs w) now s; rest = bump_all incr key ws now (fst ir)
      in (fst rest, snd ir # snd rest))"
  by (simp add: Let_def case_prod_unfold)

declare bump_all.simps(2) [simp del] bump_Cons [simp]

text \<open>A run of requests through the limiter, and how many of one token got through.\<close>

type_synonym token_request = "req_user option \<times> nat \<times> int"

fun limiter_run ::
    "(string \<Rightarrow> int \<Rightarrow> int \<Rightarrow> 's \<Rightarrow> 's \<times> (string + int option \<times> int)) \<Rightarrow> token_request list \<Rightarrow> 's \<Rightarrow> limit_reply list" where
  "limiter_run incr [] s = []"
| "limiter_run incr ((u, o', t) # qs) s =
     (let r = apiTokenConfiguredLimiter incr u o' t s in snd r # limiter_run incr qs (fst r))"

fun of_token :: "nat \<Rightarrow> nat \<Rightarrow> token_request \<Rightarrow> bool" where
  "of_token token org (u, o', t) \<longleftrightarrow> Option.bind u ru_token = Some token \<and> o' = org"

fun under_policy :: "rate_policy \<Rightarrow> token_request \<Rightarrow> bool" where
  "under_policy p (u, o', t) \<longleftrightarrow> Option.bind u ru_policy = Some p"

definition passed :: "nat \<Rightarrow> nat \<Rightarrow> token_request list \<Rightarrow> limit_reply list \<Rightarrow> nat" where
  "passed token org qs rs = length (filter (\<lambda>(q, r). of_token token org q \<and> r = Next) (zip qs rs))"

lemma windows_distinct: "distinct (map lw_name API_TOKEN_RATE_LIMIT_WINDOWS)"
  by (simp add: API_TOKEN_RATE_LIMIT_WINDOWS_def)

lemma window_key_fresh: "inj (window_key o' t)"
  by (simp add: inj_def window_key_inj)

context fixed_window
begin

lemma incr_next:
  assumes "proper s k"
  obtains s' where "incr k w now s = (s', Inr (Some (fst (next_count w (window s k) now)), snd (next_count w (window s k) now)))"
    and "window s' k = Some (next_count w (window s k) now)" and "proper s' k"
proof (cases "\<exists>c r. window s k = Some (c, r) \<and> now < r")
  case True
  then obtain c r where v: "window s k = Some (c, r)" "now < r" by blast
  from counts [OF assms v, of w] that show ?thesis
    by (auto simp: next_count_def v)
next
  case False
  then have "next_count w (window s k) now = (1, now + w)" "\<And>c r. window s k = Some (c, r) \<Longrightarrow> r \<le> now"
    by (auto simp: next_count_def not_less split: option.splits)
  then show ?thesis
    using opens [OF assms, of now w] that by auto
qed

lemma bump_other:
  "\<forall>w \<in> set ws. key (lw_name w) \<noteq> k \<Longrightarrow>
     window (fst (bump_all incr key ws now s)) k = window s k \<and> proper (fst (bump_all incr key ws now s)) k = proper s k"
proof (induction ws arbitrary: s)
  case (Cons w ws)
  then show ?case
    using keeps [of k "key (lw_name w)" "lw_windowMs w" now s] by (auto simp: Let_def)
qed simp

lemma bump_length: "length (snd (bump_all incr key ws now s)) = length ws"
  by (induction ws arbitrary: s) (simp_all add: Let_def)

lemma bump_key:
  assumes "inj key" and "distinct (map lw_name ws)" and "j < length ws" and "proper s (key (lw_name (ws ! j)))"
  shows "snd (bump_all incr key ws now s) ! j =
       (let v = next_count (lw_windowMs (ws ! j)) (window s (key (lw_name (ws ! j)))) now in Inr (Some (fst v), snd v))
    \<and> window (fst (bump_all incr key ws now s)) (key (lw_name (ws ! j))) =
        Some (next_count (lw_windowMs (ws ! j)) (window s (key (lw_name (ws ! j)))) now)
    \<and> proper (fst (bump_all incr key ws now s)) (key (lw_name (ws ! j)))"
  using assms(2-4)
proof (induction ws arbitrary: s j)
  case (Cons w ws)
  show ?case
  proof (cases j)
    case 0
    let ?k = "key (lw_name w)"
    obtain s' where s': "incr ?k (lw_windowMs w) now s =
          (s', Inr (Some (fst (next_count (lw_windowMs w) (window s ?k) now)), snd (next_count (lw_windowMs w) (window s ?k) now)))"
        "window s' ?k = Some (next_count (lw_windowMs w) (window s ?k) now)" "proper s' ?k"
      by (rule incr_next [of s ?k "lw_windowMs w" now]) (use Cons.prems 0 in auto)
    have "\<forall>w' \<in> set ws. key (lw_name w') \<noteq> ?k"
      using Cons.prems(1) by (auto simp: inj_eq [OF assms(1)] image_iff)
    then show ?thesis
      using bump_other [of ws key ?k now s'] s' 0 by (simp add: Let_def)
  next
    case (Suc i)
    let ?s = "fst (incr (key (lw_name w)) (lw_windowMs w) now s)"
    have "ws ! i \<in> set ws"
      using Cons.prems Suc by simp
    then have "key (lw_name (ws ! i)) \<noteq> key (lw_name w)"
      using Cons.prems(1) by (auto simp: inj_eq [OF assms(1)] image_iff)
    from keeps [OF this, of "lw_windowMs w" now s] Cons.IH [of i ?s] Cons.prems show ?thesis
      by (simp add: Suc Let_def)
  qed
qed simp

lemma limiter_frame:
  assumes "Option.bind u ru_token \<noteq> Some token \<or> o' \<noteq> org"
  shows "window (fst (apiTokenConfiguredLimiter incr u o' t s)) (window_key org token n) = window s (window_key org token n)
    \<and> proper (fst (apiTokenConfiguredLimiter incr u o' t s)) (window_key org token n) = proper s (window_key org token n)"
proof -
  have "window_key o' tok n' \<noteq> window_key org token n" if "Option.bind u ru_token = Some tok" for tok n'
    using assms that by (auto simp: window_key_inj)
  then show ?thesis
    using bump_other [of API_TOKEN_RATE_LIMIT_WINDOWS "window_key o' (the (Option.bind u ru_token))" "window_key org token n" t s]
    by (auto simp: apiTokenConfiguredLimiter_def Let_def case_prod_unfold split: option.splits sum.splits)
qed

lemma limiter_step:
  assumes q: "of_token token org (u, o', t)" "under_policy p (u, o', t)" and p: "rp_active p" "token \<noteq> 0" "org \<noteq> 0"
    and j: "j < length API_TOKEN_RATE_LIMIT_WINDOWS" and l: "configuredLimit p (API_TOKEN_RATE_LIMIT_WINDOWS ! j) = Inr L"
    and pr: "proper s (window_key org token (lw_name (API_TOKEN_RATE_LIMIT_WINDOWS ! j)))"
  shows "let r = apiTokenConfiguredLimiter incr u o' t s; k = window_key org token (lw_name (API_TOKEN_RATE_LIMIT_WINDOWS ! j));
             v = next_count (lw_windowMs (API_TOKEN_RATE_LIMIT_WINDOWS ! j)) (window s k) t
         in proper (fst r) k \<and> (window (fst r) k = Some v \<and> (snd r = Next \<longrightarrow> fst v \<le> int L)
              \<or> window (fst r) k = window s k \<and> snd r \<noteq> Next)"
proof (cases "collect (map (configuredLimit p) API_TOKEN_RATE_LIMIT_WINDOWS)")
  case (Inl e)
  then have "e \<noteq> Next"
    by (auto simp: API_TOKEN_RATE_LIMIT_WINDOWS_def configuredLimit_def and_then_def Let_def split: sum.splits if_splits)
  then show ?thesis
    using Inl q p pr by (simp add: apiTokenConfiguredLimiter_def Let_def)
next
  case (Inr limits)
  let ?ws = API_TOKEN_RATE_LIMIT_WINDOWS
  have lim: "map (configuredLimit p) ?ws = map Inr limits"
    using Inr by (simp add: collect_Ok_iff)
  then have len: "length limits = length ?ws"
    by (metis length_map)
  have "configuredLimit p (?ws ! j) = Inr (limits ! j)"
    using lim j len by (metis nth_map)
  then have Lj: "limits ! j = L"
    using l by simp
  have r: "apiTokenConfiguredLimiter incr u o' t s =
     (fst (bump_all incr (window_key org token) ?ws t s), judge t (zip ?ws limits) (snd (bump_all incr (window_key org token) ?ws t s)))"
    using q p Inr by (simp add: apiTokenConfiguredLimiter_def case_prod_unfold Let_def)
  note b = bump_key [OF window_key_fresh windows_distinct j pr, of t]
  have "fst (next_count (lw_windowMs (?ws ! j)) (window s (window_key org token (lw_name (?ws ! j)))) t) \<le> int L"
    if "judge t (zip ?ws limits) (snd (bump_all incr (window_key org token) ?ws t s)) = Next"
    using judge_Next [OF that, of j "?ws ! j" L] b j len Lj by (simp add: bump_length Let_def)
  then show ?thesis
    using b by (simp add: r Let_def)
qed

lemma limiter_trace:
  assumes p: "rp_active p" "token \<noteq> 0" "org \<noteq> 0"
    and j: "j < length API_TOKEN_RATE_LIMIT_WINDOWS" and l: "configuredLimit p (API_TOKEN_RATE_LIMIT_WINDOWS ! j) = Inr L"
    and "proper s (window_key org token (lw_name (API_TOKEN_RATE_LIMIT_WINDOWS ! j)))"
    and "\<forall>q \<in> set qs. of_token token org q \<longrightarrow> under_policy p q"
  shows "\<exists>xs. counted (lw_windowMs (API_TOKEN_RATE_LIMIT_WINDOWS ! j))
       (window s (window_key org token (lw_name (API_TOKEN_RATE_LIMIT_WINDOWS ! j)))) xs
     \<and> fst ` set xs \<subseteq> (snd \<circ> snd) ` set qs \<and> passed token org qs (limiter_run incr qs s) \<le> under_limit (int L) xs"
  using assms(6,7)
proof (induction qs arbitrary: s)
  case Nil
  then show ?case
    by (intro exI [of _ "[]"]) (simp add: passed_def)
next
  case (Cons q qs)
  let ?w = "API_TOKEN_RATE_LIMIT_WINDOWS ! j"
  let ?k = "window_key org token (lw_name ?w)"
  obtain u o' t where q: "q = (u, o', t)" by (cases q)
  let ?r = "apiTokenConfiguredLimiter incr u o' t s"
  have pass: "passed token org (q # qs) (limiter_run incr (q # qs) s) =
      (if of_token token org q \<and> snd ?r = Next then 1 else 0) + passed token org qs (limiter_run incr qs (fst ?r))"
    by (auto simp: passed_def q Let_def)
  consider (other) "\<not> of_token token org q" | (mine) "of_token token org q" "under_policy p q"
    using Cons.prems(2) by auto
  then show ?case
  proof cases
    case other
    then have f: "window (fst ?r) ?k = window s ?k" "proper (fst ?r) ?k"
      using limiter_frame [of u token o' org t s] Cons.prems(1) by (auto simp: q)
    obtain xs where "counted (lw_windowMs ?w) (window s ?k) xs" "fst ` set xs \<subseteq> (snd \<circ> snd) ` set qs"
        "passed token org qs (limiter_run incr qs (fst ?r)) \<le> under_limit (int L) xs"
      using Cons.IH [OF f(2)] Cons.prems(2) f(1) by auto
    then show ?thesis
      using other by (intro exI [of _ xs]) (auto simp: pass)
  next
    case mine
    let ?v = "next_count (lw_windowMs ?w) (window s ?k) t"
    have f: "proper (fst ?r) ?k" "window (fst ?r) ?k = Some ?v \<and> (snd ?r = Next \<longrightarrow> fst ?v \<le> int L)
         \<or> window (fst ?r) ?k = window s ?k \<and> snd ?r \<noteq> Next"
      using limiter_step [OF mine [unfolded q] p j l Cons.prems(1)] by (auto simp: Let_def)
    obtain xs where xs: "counted (lw_windowMs ?w) (window (fst ?r) ?k) xs" "fst ` set xs \<subseteq> (snd \<circ> snd) ` set qs"
        "passed token org qs (limiter_run incr qs (fst ?r)) \<le> under_limit (int L) xs"
      using Cons.IH [OF f(1)] Cons.prems(2) by auto
    show ?thesis
    proof (cases "window (fst ?r) ?k = Some ?v \<and> (snd ?r = Next \<longrightarrow> fst ?v \<le> int L)")
      case True
      then have "counted (lw_windowMs ?w) (window s ?k) ((t, fst ?v) # xs)"
        using xs(1) by (simp add: counted_next del: counted.simps)
      moreover have "passed token org (q # qs) (limiter_run incr (q # qs) s) \<le> under_limit (int L) ((t, fst ?v) # xs)"
        unfolding pass using True xs(3) by auto
      moreover have "fst ` set ((t, fst ?v) # xs) \<subseteq> (snd \<circ> snd) ` set (q # qs)"
        using xs(2) by (auto simp: q)
      ultimately show ?thesis by blast
    next
      case False
      then have "passed token org (q # qs) (limiter_run incr (q # qs) s) \<le> under_limit (int L) xs"
        unfolding pass using f(2) xs(3) by auto
      then show ?thesis
        using False f(2) xs(1,2) by (intro exI [of _ xs]) auto
    qed
  qed
qed

lemma token_bound:
  assumes "rp_active p" "token \<noteq> 0" "org \<noteq> 0" and "W \<in> set API_TOKEN_RATE_LIMIT_WINDOWS" and "configuredLimit p W = Inr L"
    and "\<forall>q \<in> set qs. of_token token org q \<longrightarrow> under_policy p q"
    and "\<forall>(u, o', t) \<in> set qs. a \<le> t \<and> t < a + lw_windowMs W"
    and "proper s (window_key org token (lw_name W))"
    and "\<And>c r. window s (window_key org token (lw_name W)) = Some (c, r) \<Longrightarrow> 0 \<le> c"
  shows "passed token org qs (limiter_run incr qs s) \<le> 2 * L"
proof -
  obtain j where j: "j < length API_TOKEN_RATE_LIMIT_WINDOWS" "W = API_TOKEN_RATE_LIMIT_WINDOWS ! j"
    using assms(4) by (metis in_set_conv_nth)
  obtain xs where xs: "counted (lw_windowMs W) (window s (window_key org token (lw_name W))) xs"
      "fst ` set xs \<subseteq> (snd \<circ> snd) ` set qs" "passed token org qs (limiter_run incr qs s) \<le> under_limit (int L) xs"
    using limiter_trace [OF assms(1-3) j(1) assms(5) [unfolded j(2)] assms(8) [unfolded j(2)] assms(6)] by (auto simp: j)
  have "a \<le> t \<and> t < a + lw_windowMs W" if "(t, n) \<in> set xs" for t n
  proof -
    have "t \<in> (snd \<circ> snd) ` set qs"
      using xs(2) that by force
    then show ?thesis
      using assms(7) by fastforce
  qed
  moreover have "1 \<le> int L"
    using assms(5) by (auto simp: configuredLimit_def Let_def split: if_splits)
  ultimately have "under_limit (int L) xs \<le> 2 * nat (int L)"
    using assms(9) by (intro counted_interval [OF xs(1), of a]) auto
  then show ?thesis
    using xs(3) by simp
qed

end





text \<open>
  The in-memory cache can forget a running counter. Increments do not move a key to the end of
  the map, so a counter is the oldest entry sooner or later; when the cache is full, storing any
  other value evicts it, and the token starts a new window in the middle of the old one.
\<close>

theorem eviction_restarts_window:
  assumes "maxSize \<le> length ((k, e) # rest)" and "k \<notin> fst ` set rest" and "key \<noteq> k" and "key \<notin> fst ` set rest"
  shows "snd (mem_incrementFixedWindow k w now (mem_set maxSize key v ttl now ((k, e) # rest))) = Ok (Some 1, now + w)"
proof -
  have "map_of (mem_del k ((k, e) # rest)) k = None"
    by (auto simp: mem_del_def map_of_eq_None_iff)
  then have "map_of (mem_set maxSize key v ttl now ((k, e) # rest)) k = None"
    using assms by (simp add: mem_set_def map_of_put)
  then show ?thesis
    by (simp add: mem_incrementFixedWindow_def)
qed

theorem eviction_restarts_window_witness:
  "snd (mem_incrementFixedWindow ''c'' 1000 50 (mem_set 1 ''plans'' NaN 300 50
     [(''c'', \<lparr>ce_value = Count 20, ce_expires = 1000\<rparr>)])) = Ok (Some 1, 1050)"
  using eviction_restarts_window [of 1 "''c''" "\<lparr>ce_value = Count 20, ce_expires = 1000\<rparr>" "[]" "''plans''" 1000 50 NaN 300]
  by simp

end
