(* ===== verification/Billing.thy ===== *)
theory Billing
  imports JsText "HOL-Library.Product_Lexorder"
begin

text \<open>
  Invoices, payments and their allocations: \<open>src/services/paymentAllocationService.js\<close>, the payment
  and settlement half of \<open>src/services/billingService.js\<close>, \<open>src/services/clientBalanceService.js\<close> and
  the handlers of \<open>src/routes/payments.js\<close>. The database is a record of tables. Money columns are
  \<open>DECIMAL(10,2)\<close> and every amount the handlers compute is rounded to cents, so amounts are integers
  in cents. The triggers and unique keys of \<open>database/schema.sql\<close> on \<open>payment_allocations\<close> are part
  of the statements that fire them. Reconnecting a contract, the SAT payment complement and the
  audit log run after the fact and are left out; the invoices whose contracts would be reconnected
  are part of the reply.
\<close>

section \<open>Tables\<close>

datatype invoice_status = Draft | Issued | Sent | Paid | Overdue | Cancelled | Voided
datatype payment_status = Pending | Completed | PaymentFailed | Refunded | PaymentCancelled
datatype entry_type = Debit | Credit

record invoice_row =
  inv_id :: nat
  inv_org :: "nat option"
  inv_client :: nat
  inv_contract :: "nat option"
  inv_number :: string
  inv_issued :: int
  inv_due :: int
  inv_subtotal :: int
  inv_tax :: int
  inv_total :: int
  inv_rate :: rat
  inv_rate_id :: "nat option"
  inv_currency :: string
  inv_status :: invoice_status
  inv_paid_at :: "int option"
  inv_deleted :: bool

record payment_row =
  pay_id :: nat
  pay_org :: "nat option"
  pay_client :: nat
  pay_amount :: int
  pay_currency :: string
  pay_status :: payment_status
  pay_deleted :: bool

record alloc_row =
  al_id :: nat
  al_payment :: nat
  al_invoice :: nat
  al_amount :: int
  al_deleted :: bool

record ledger_row =
  lg_client :: nat
  lg_org :: "nat option"
  lg_entry :: entry_type
  lg_amount :: int
  lg_currency :: string
  lg_ref_type :: string
  lg_ref :: nat

record credit_note_row =
  cn_client :: nat
  cn_org :: "nat option"
  cn_total :: int
  cn_currency :: string
  cn_status :: string
  cn_deleted :: bool

record cfdi_row =
  cf_invoice :: nat
  cf_org :: "nat option"
  cf_status :: string

record client_row =
  cl_id :: nat
  cl_org :: "nat option"
  cl_deleted :: bool

record billing_db =
  bd_invoices :: "invoice_row list"
  bd_payments :: "payment_row list"
  bd_allocs :: "alloc_row list"
  bd_ledger :: "ledger_row list"
  bd_credit_notes :: "credit_note_row list"
  bd_cfdi :: "cfdi_row list"
  bd_clients :: "client_row list"

datatype sql_error = OverAllocation | DuplicateEntry | ForeignKey

datatype billing_error = NotFound string | Unprocessable string | Internal sql_error

section \<open>Statements on the allocations\<close>

definition live_for_payment :: "nat \<Rightarrow> billing_db \<Rightarrow> alloc_row list" where
  "live_for_payment p db = filter (\<lambda>a. \<not> al_deleted a \<and> al_payment a = p) (bd_allocs db)"

definition live_for_invoice :: "nat \<Rightarrow> billing_db \<Rightarrow> alloc_row list" where
  "live_for_invoice i db = filter (\<lambda>a. \<not> al_deleted a \<and> al_invoice a = i) (bd_allocs db)"

definition total_of :: "alloc_row list \<Rightarrow> int" where
  "total_of as = sum_list (map al_amount as)"

definition payment_of :: "nat \<Rightarrow> billing_db \<Rightarrow> payment_row option" where
  "payment_of p db = find (\<lambda>r. pay_id r = p) (bd_payments db)"

definition invoice_of :: "nat \<Rightarrow> billing_db \<Rightarrow> invoice_row option" where
  "invoice_of i db = find (\<lambda>r. inv_id r = i) (bd_invoices db)"

text \<open>The triggers compare the live allocations, without the row being changed, plus the new amount
  with the two totals; a missing row gives \<open>NULL\<close>, which no comparison satisfies.\<close>

definition alloc_exceeds :: "(alloc_row \<Rightarrow> bool) \<Rightarrow> nat \<Rightarrow> nat \<Rightarrow> int \<Rightarrow> billing_db \<Rightarrow> bool" where
  "alloc_exceeds other p i amount db \<longleftrightarrow>
     (case payment_of p db of
        None \<Rightarrow> False | Some r \<Rightarrow> total_of (filter other (live_for_payment p db)) + amount > pay_amount r)
     \<or> (case invoice_of i db of
        None \<Rightarrow> False | Some r \<Rightarrow> total_of (filter other (live_for_invoice i db)) + amount > inv_total r)"

definition live_pair :: "nat \<Rightarrow> nat \<Rightarrow> billing_db \<Rightarrow> bool" where
  "live_pair p i db \<longleftrightarrow> list_ex (\<lambda>a. \<not> al_deleted a \<and> al_payment a = p \<and> al_invoice a = i) (bd_allocs db)"

definition new_alloc_id :: "billing_db \<Rightarrow> nat" where
  "new_alloc_id db = Suc (foldl max 0 (map al_id (bd_allocs db)))"

definition insert_allocation :: "nat \<Rightarrow> nat \<Rightarrow> int \<Rightarrow> billing_db \<Rightarrow> sql_error + nat \<times> billing_db" where
  "insert_allocation p i amount db =
     (if alloc_exceeds (\<lambda>_. True) p i amount db then Err OverAllocation
      else if payment_of p db = None \<or> invoice_of i db = None then Err ForeignKey
      else if live_pair p i db then Err DuplicateEntry
      else Ok (new_alloc_id db, db\<lparr>bd_allocs := bd_allocs db @
        [\<lparr>al_id = new_alloc_id db, al_payment = p, al_invoice = i, al_amount = amount, al_deleted = False\<rparr>]\<rparr>))"

text \<open>Setting or clearing \<open>deleted_at\<close> of one row; its current amount is checked either way.\<close>

definition mark_allocation :: "bool \<Rightarrow> alloc_row \<Rightarrow> billing_db \<Rightarrow> sql_error + billing_db" where
  "mark_allocation gone a db =
     (if alloc_exceeds (\<lambda>x. al_id x \<noteq> al_id a) (al_payment a) (al_invoice a) (al_amount a) db then Err OverAllocation
      else if \<not> gone \<and> live_pair (al_payment a) (al_invoice a) db then Err DuplicateEntry
      else Ok (db\<lparr>bd_allocs := map (\<lambda>x. if al_id x = al_id a then x\<lparr>al_deleted := gone\<rparr> else x) (bd_allocs db)\<rparr>))"

fun mark_all :: "bool \<Rightarrow> alloc_row list \<Rightarrow> billing_db \<Rightarrow> sql_error + billing_db" where
  "mark_all gone [] db = Ok db"
| "mark_all gone (a # as) db = and_then (mark_allocation gone a db) (mark_all gone as)"

section \<open>Invoices\<close>

definition update_invoice :: "nat \<Rightarrow> (invoice_row \<Rightarrow> invoice_row) \<Rightarrow> billing_db \<Rightarrow> billing_db" where
  "update_invoice i f db = db\<lparr>bd_invoices := map (\<lambda>r. if inv_id r = i then f r else r) (bd_invoices db)\<rparr>"

definition finalizeIfFullyPaid :: "int \<Rightarrow> invoice_row \<Rightarrow> billing_db \<Rightarrow> billing_db \<times> bool" where
  "finalizeIfFullyPaid now row db =
     (if total_of (live_for_invoice (inv_id row) db) < inv_total row then (db, False)
      else (update_invoice (inv_id row) (\<lambda>r. r\<lparr>inv_status := Paid, inv_paid_at := Some now\<rparr>) db, True))"

definition PAYABLE_STATUSES :: "invoice_status list" where
  "PAYABLE_STATUSES = [Issued, Sent, Overdue]"

definition balance_due :: "billing_db \<Rightarrow> invoice_row \<Rightarrow> int" where
  "balance_due db r = inv_total r - total_of (live_for_invoice (inv_id r) db)"

definition getInvoicesWithBalance ::
    "nat option \<Rightarrow> nat \<Rightarrow> nat list option \<Rightarrow> billing_db \<Rightarrow> (invoice_row \<times> int) list" where
  "getInvoicesWithBalance org client ids db =
     map (\<lambda>r. (r, balance_due db r))
       (sort_key (\<lambda>r. (inv_issued r, inv_id r))
         (filter (\<lambda>r. inv_client r = client \<and> org \<noteq> None \<and> inv_org r = org \<and> \<not> inv_deleted r
             \<and> inv_status r \<in> set PAYABLE_STATUSES
             \<and> (case ids of Some (x # xs) \<Rightarrow> inv_id r \<in> set (x # xs) | _ \<Rightarrow> True))
           (bd_invoices db)))"

definition refreshInvoicePaidStatus :: "int \<Rightarrow> nat \<Rightarrow> billing_db \<Rightarrow> billing_db" where
  "refreshInvoicePaidStatus now i db =
     (case invoice_of i db of
        None \<Rightarrow> db
      | Some r \<Rightarrow>
          if inv_deleted r then db
          else if total_of (live_for_invoice i db) \<ge> inv_total r
          then update_invoice i (\<lambda>r. if inv_status r \<noteq> Paid then r\<lparr>inv_status := Paid, inv_paid_at := Some now\<rparr> else r) db
          else update_invoice i (\<lambda>r. if inv_status r = Paid then r\<lparr>inv_status := Issued, inv_paid_at := None\<rparr> else r) db)"

text \<open>Amounts in the arithmetic on tax are rounded half up, as \<open>Math.round\<close> does.\<close>

definition round_half :: "rat \<Rightarrow> int" where
  "round_half x = \<lfloor>x + 1 / 2\<rfloor>"

lemma round_half_mono: "x \<le> y \<Longrightarrow> round_half x \<le> round_half y"
  by (simp add: round_half_def floor_mono)

lemma round_half_of_int [simp]: "round_half (of_int n) = n"
  by (simp add: round_half_def floor_eq_iff)

lemma round_half_numeral [simp]: "round_half (numeral n) = numeral n" "round_half 0 = 0" "round_half 1 = 1"
  using round_half_of_int [of "numeral n"] round_half_of_int [of 0] round_half_of_int [of 1] by simp_all

definition invoiceTaxFraction :: "rat \<Rightarrow> rat" where
  "invoiceTaxFraction r = (if r > 1 then r / 100 else r)"

definition applyLineItemToTotals :: "nat \<Rightarrow> rat \<Rightarrow> int \<Rightarrow> billing_db \<Rightarrow> billing_db \<times> int" where
  "applyLineItemToTotals i rate amt db =
     (let lineTax = round_half (of_int amt * invoiceTaxFraction rate); delta = amt + lineTax in
      (update_invoice i (\<lambda>r. r\<lparr>inv_subtotal := inv_subtotal r + amt, inv_tax := inv_tax r + lineTax,
                                inv_total := inv_total r + delta\<rparr>) db, delta))"

section \<open>The ledger\<close>

definition recordPaymentCredit :: "payment_row \<Rightarrow> nat option \<Rightarrow> billing_db \<Rightarrow> billing_db" where
  "recordPaymentCredit p org db =
     db\<lparr>bd_ledger := bd_ledger db @ [\<lparr>lg_client = pay_client p, lg_org = org, lg_entry = Credit, lg_amount = pay_amount p,
          lg_currency = pay_currency p, lg_ref_type = ''payment'', lg_ref = pay_id p\<rparr>]\<rparr>"

definition reversePaymentCredit :: "nat \<Rightarrow> billing_db \<Rightarrow> billing_db" where
  "reversePaymentCredit p db =
     db\<lparr>bd_ledger := filter (\<lambda>l. \<not> (lg_ref_type l = ''payment'' \<and> lg_ref l = p)) (bd_ledger db)\<rparr>"

section \<open>Releasing and reversing allocations\<close>

definition releaseInvoiceAllocations :: "nat \<Rightarrow> billing_db \<Rightarrow> sql_error + billing_db" where
  "releaseInvoiceAllocations i db = mark_all True (live_for_invoice i db) db"

definition reversePaymentAllocations :: "int \<Rightarrow> nat \<Rightarrow> billing_db \<Rightarrow> sql_error + billing_db" where
  "reversePaymentAllocations now p db =
     (let allocs = live_for_payment p db in
      and_then (mark_all True allocs db)
        (\<lambda>db'. Ok (fold (refreshInvoicePaidStatus now) (remdups (map al_invoice allocs)) db')))"

definition gone_for_payment :: "nat \<Rightarrow> billing_db \<Rightarrow> alloc_row list" where
  "gone_for_payment p db = filter (\<lambda>a. al_deleted a \<and> al_payment a = p) (bd_allocs db)"

definition restorePaymentAllocations :: "int \<Rightarrow> nat \<Rightarrow> billing_db \<Rightarrow> sql_error + billing_db" where
  "restorePaymentAllocations now p db =
     (let allocs = gone_for_payment p db in
      and_then (mark_all False allocs db)
        (\<lambda>db'. Ok (fold (refreshInvoicePaidStatus now) (remdups (map al_invoice allocs)) db')))"

section \<open>Voiding and cancelling\<close>

text \<open>\<open>Invoice.findByIdOrFail\<close> and \<open>Invoice.update\<close>, scoped to the organization; a null
  organization does not restrict the lookup.\<close>

definition scoped_invoice :: "nat \<Rightarrow> nat option \<Rightarrow> billing_db \<Rightarrow> invoice_row option" where
  "scoped_invoice i org db =
     find (\<lambda>r. inv_id r = i \<and> (org \<noteq> None \<longrightarrow> inv_org r = org) \<and> \<not> inv_deleted r) (bd_invoices db)"

definition settle_ledger :: "invoice_row \<Rightarrow> billing_db \<Rightarrow> billing_db" where
  "settle_ledger r db =
     (let mine = (\<lambda>l. lg_ref_type l = ''invoice'' \<and> lg_ref l = inv_id r \<and> lg_client l = inv_client r) in
      db\<lparr>bd_ledger := map (\<lambda>l. if mine l then l\<lparr>lg_amount := 0\<rparr> else l)
           (filter (\<lambda>l. \<not> (mine l \<and> lg_entry l = Credit)) (bd_ledger db))\<rparr>)"

definition settleInvoiceTerminal ::
    "nat \<Rightarrow> nat option \<Rightarrow> invoice_status \<Rightarrow> invoice_status list \<Rightarrow> billing_db \<Rightarrow> billing_db \<times> (billing_error + invoice_row)" where
  "settleInvoiceTerminal i org status forbidFrom db =
     (case scoped_invoice i org db of
        None \<Rightarrow> (db, Err (NotFound ''invoices''))
      | Some existing \<Rightarrow>
          if inv_status existing \<in> set forbidFrom then (db, Err (Unprocessable ''INVOICE_CANCELLED''))
          else let record' = existing\<lparr>inv_status := status\<rparr>;
                   db1 = update_invoice i (\<lambda>r. r\<lparr>inv_status := status\<rparr>) db in
            if inv_status existing = Voided \<or> inv_status existing = Cancelled then (db1, Ok record')
            else (case (if inv_status existing = Paid then releaseInvoiceAllocations i db1 else Ok db1) of
                    Inl e \<Rightarrow> (db1, Err (Internal e))
                  | Inr db2 \<Rightarrow> (settle_ledger existing db2, Ok record')))"

definition live_cfdi :: "nat \<Rightarrow> nat option \<Rightarrow> billing_db \<Rightarrow> bool" where
  "live_cfdi i org db \<longleftrightarrow> org \<noteq> None \<and> list_ex (\<lambda>c. cf_invoice c = i \<and> cf_org c = org
     \<and> cf_status c \<in> {''draft'', ''vigente'', ''cancel_pending''}) (bd_cfdi db)"

definition voidInvoiceById :: "nat \<Rightarrow> nat option \<Rightarrow> billing_db \<Rightarrow> billing_db \<times> (billing_error + invoice_row)" where
  "voidInvoiceById i org db =
     (if live_cfdi i org db then (db, Err (Unprocessable ''INVOICE_STAMPED''))
      else if org \<noteq> None \<and> live_for_invoice i db \<noteq> [] \<and> list_ex (\<lambda>r. inv_id r = i \<and> inv_org r = org) (bd_invoices db)
      then (db, Err (Unprocessable ''INVOICE_HAS_PAYMENTS''))
      else settleInvoiceTerminal i org Voided [Cancelled] db)"

definition cancelInvoiceForSat :: "nat \<Rightarrow> nat option \<Rightarrow> billing_db \<Rightarrow> billing_db \<times> (billing_error + invoice_row)" where
  "cancelInvoiceForSat i org db = settleInvoiceTerminal i org Cancelled [] db"

section \<open>Payment routes\<close>

text \<open>Every handler works for the organization of the request; a payment of another one, or a
  deleted one, is not found.\<close>

definition own_payment :: "nat \<Rightarrow> nat \<Rightarrow> billing_db \<Rightarrow> payment_row option" where
  "own_payment org p db = find (\<lambda>r. pay_id r = p \<and> pay_org r = Some org \<and> \<not> pay_deleted r) (bd_payments db)"

definition new_payment_id :: "billing_db \<Rightarrow> nat" where
  "new_payment_id db = Suc (foldl max 0 (map pay_id (bd_payments db)))"

definition createPayment ::
    "string \<Rightarrow> nat \<Rightarrow> nat \<Rightarrow> int \<Rightarrow> string option \<Rightarrow> payment_status \<Rightarrow> billing_db \<Rightarrow> billing_db \<times> payment_row" where
  "createPayment orgCurrency org client amount currency status db =
     (let p = \<lparr>pay_id = new_payment_id db, pay_org = Some org, pay_client = client, pay_amount = amount,
               pay_currency = (case currency of Some (c # cs) \<Rightarrow> c # cs | _ \<Rightarrow> orgCurrency),
               pay_status = status, pay_deleted = False\<rparr> in
      (recordPaymentCredit p (Some org) (db\<lparr>bd_payments := bd_payments db @ [p]\<rparr>), p))"

definition destroyPayment :: "int \<Rightarrow> nat \<Rightarrow> nat \<Rightarrow> billing_db \<Rightarrow> billing_db \<times> (billing_error + unit)" where
  "destroyPayment now org p db =
     (case own_payment org p db of
        None \<Rightarrow> (db, Err (NotFound ''payments''))
      | Some r \<Rightarrow>
          let db1 = db\<lparr>bd_payments := map (\<lambda>x. if pay_id x = p then x\<lparr>pay_deleted := True\<rparr> else x) (bd_payments db)\<rparr>;
              db2 = reversePaymentCredit p db1 in
          (case reversePaymentAllocations now p db2 of Inl _ \<Rightarrow> db2 | Inr db3 \<Rightarrow> db3, Ok ()))"

definition restorePayment :: "int \<Rightarrow> nat \<Rightarrow> nat \<Rightarrow> billing_db \<Rightarrow> billing_db \<times> (billing_error + unit)" where
  "restorePayment now org p db =
     (case find (\<lambda>r. pay_id r = p \<and> pay_org r = Some org \<and> pay_deleted r) (bd_payments db) of
        None \<Rightarrow> (db, Err (NotFound ''payments''))
      | Some r \<Rightarrow>
          let db1 = db\<lparr>bd_payments := map (\<lambda>x. if pay_id x = p then x\<lparr>pay_deleted := False\<rparr> else x) (bd_payments db)\<rparr>;
              db2 = recordPaymentCredit r (Some org) (reversePaymentCredit p db1) in
          (case restorePaymentAllocations now p db2 of Inl _ \<Rightarrow> db2 | Inr db3 \<Rightarrow> db3, Ok ()))"

text \<open>Editing a payment (\<open>crudController\<close> over \<open>Payment.update\<close>, no hook); the other fields of the schema
  do not bear on the books.\<close>

definition updatePayment ::
    "nat \<Rightarrow> nat \<Rightarrow> int option \<Rightarrow> string option \<Rightarrow> payment_status option \<Rightarrow> billing_db \<Rightarrow> billing_db \<times> (billing_error + unit)" where
  "updatePayment org p amount currency status db =
     (case own_payment org p db of
        None \<Rightarrow> (db, Err (NotFound ''payments''))
      | Some _ \<Rightarrow>
          (db\<lparr>bd_payments := map (\<lambda>x. if pay_id x = p
               then x\<lparr>pay_amount := (case amount of Some a \<Rightarrow> a | None \<Rightarrow> pay_amount x),
                      pay_currency := (case currency of Some c \<Rightarrow> c | None \<Rightarrow> pay_currency x),
                      pay_status := (case status of Some t \<Rightarrow> t | None \<Rightarrow> pay_status x)\<rparr>
               else x) (bd_payments db)\<rparr>, Ok ()))"

text \<open>The first component of a reply names the new allocation, the second whether its invoice is now
  paid in full.\<close>

definition allocate :: "int \<Rightarrow> nat \<Rightarrow> nat \<Rightarrow> nat \<Rightarrow> int \<Rightarrow> billing_db \<Rightarrow> billing_db \<times> (billing_error + nat \<times> bool)" where
  "allocate now org p i amount db =
     (case own_payment org p db of
        None \<Rightarrow> (db, Err (NotFound ''payments''))
      | Some _ \<Rightarrow>
          (case find (\<lambda>r. inv_id r = i \<and> inv_org r = Some org \<and> \<not> inv_deleted r) (bd_invoices db) of
             None \<Rightarrow> (db, Err (NotFound ''invoices''))
           | Some r \<Rightarrow>
               if inv_status r = Voided \<or> inv_status r = Cancelled then (db, Err (Unprocessable ''INVOICE_NOT_PAYABLE''))
               else (case insert_allocation p i amount db of
                       Inl OverAllocation \<Rightarrow> (db, Err (Unprocessable ''OVER_ALLOCATION''))
                     | Inl e \<Rightarrow> (db, Err (Internal e))
                     | Inr (a, db1) \<Rightarrow> let (db2, paid) = finalizeIfFullyPaid now r db1 in (db2, Ok (a, paid)))))"

record new_alloc =
  na_id :: nat
  na_invoice :: nat
  na_amount :: int
  na_paid :: bool

fun waterfall ::
    "int \<Rightarrow> nat \<Rightarrow> (invoice_row \<times> int) list \<Rightarrow> int \<Rightarrow> billing_db \<Rightarrow> billing_error + billing_db \<times> new_alloc list \<times> int" where
  "waterfall now p [] remainder db = Ok (db, [], remainder)"
| "waterfall now p ((r, due) # rs) remainder db =
     (if remainder \<le> 0 then Ok (db, [], remainder)
      else if due \<le> 0 then waterfall now p rs remainder db
      else let amount = min remainder due in
        case insert_allocation p (inv_id r) amount db of
          Inl OverAllocation \<Rightarrow> Err (Unprocessable ''OVER_ALLOCATION'')
        | Inl DuplicateEntry \<Rightarrow> waterfall now p rs remainder db
        | Inl ForeignKey \<Rightarrow> Err (Internal ForeignKey)
        | Inr (a, db1) \<Rightarrow>
            let (db2, paid) = finalizeIfFullyPaid now r db1 in
            and_then (waterfall now p rs (remainder - amount) db2)
              (\<lambda>(db3, allocs, left).
                 Ok (db3, \<lparr>na_id = a, na_invoice = inv_id r, na_amount = amount, na_paid = paid\<rparr> # allocs, left)))"

definition allocateAuto ::
    "int \<Rightarrow> nat \<Rightarrow> nat \<Rightarrow> nat list option \<Rightarrow> billing_db \<Rightarrow> billing_db \<times> (billing_error + new_alloc list \<times> int)" where
  "allocateAuto now org p ids db =
     (if (case ids of Some xs \<Rightarrow> xs = [] \<or> list_ex (\<lambda>v. v < 1) xs | None \<Rightarrow> False)
      then (db, Err (Unprocessable ''VALIDATION_ERROR''))
      else (case own_payment org p db of
        None \<Rightarrow> (db, Err (NotFound ''payments''))
      | Some r \<Rightarrow>
          let remainder = pay_amount r - total_of (live_for_payment p db) in
          if remainder \<le> 0 then (db, Err (Unprocessable ''PAYMENT_FULLY_ALLOCATED''))
          else let rows = getInvoicesWithBalance (Some org) (pay_client r) ids db in
            if (case ids of Some xs \<Rightarrow> list_ex (\<lambda>i. i \<notin> set (map (inv_id \<circ> fst) rows)) xs | None \<Rightarrow> False)
            then (db, Err (Unprocessable ''INVOICE_NOT_PAYABLE''))
            else (case waterfall now p rows remainder db of
                    Inl e \<Rightarrow> (db, Err e)
                  | Inr (db', allocs, left) \<Rightarrow> (db', Ok (allocs, left)))))"

definition unapply :: "int \<Rightarrow> nat \<Rightarrow> nat \<Rightarrow> nat \<Rightarrow> billing_db \<Rightarrow> billing_db \<times> (billing_error + unit)" where
  "unapply now org p i db =
     (if i = 0 then (db, Err (Unprocessable ''VALIDATION_ERROR''))
      else (case own_payment org p db of
        None \<Rightarrow> (db, Err (NotFound ''payments''))
      | Some _ \<Rightarrow>
          (case find (\<lambda>a. al_invoice a = i) (live_for_payment p db) of
             None \<Rightarrow> (db, Err (Unprocessable ''ALLOCATION_NOT_FOUND''))
           | Some a \<Rightarrow>
               (case mark_allocation True a db of
                  Inl e \<Rightarrow> (db, Err (Internal e))
                | Inr db1 \<Rightarrow> (refreshInvoicePaidStatus now i db1, Ok ())))))"

definition live_invoice :: "nat \<Rightarrow> billing_db \<Rightarrow> invoice_row option" where
  "live_invoice i db = find (\<lambda>r. inv_id r = i \<and> \<not> inv_deleted r) (bd_invoices db)"

definition reallocate ::
    "int \<Rightarrow> nat \<Rightarrow> nat \<Rightarrow> nat \<Rightarrow> nat \<Rightarrow> int option \<Rightarrow> billing_db \<Rightarrow> billing_db \<times> (billing_error + nat)" where
  "reallocate now org p from to' amount db =
     (if from = 0 \<or> to' = 0 \<or> from = to' then (db, Err (Unprocessable ''VALIDATION_ERROR''))
      else (case own_payment org p db of
        None \<Rightarrow> (db, Err (NotFound ''payments''))
      | Some pay \<Rightarrow>
          (case find (\<lambda>a. al_invoice a = from) (live_for_payment p db) of
             None \<Rightarrow> (db, Err (Unprocessable ''ALLOCATION_NOT_FOUND''))
           | Some a \<Rightarrow>
               let moved = (case amount of Some m \<Rightarrow> m | None \<Rightarrow> al_amount a) in
               (case (live_invoice from db, live_invoice to' db) of
                  (None, _) \<Rightarrow> (db, Err (NotFound ''invoices''))
                | (_, None) \<Rightarrow> (db, Err (NotFound ''invoices''))
                | (Some f, Some t) \<Rightarrow>
                    if inv_status t = Voided \<or> inv_status t = Cancelled then (db, Err (Unprocessable ''INVOICE_NOT_PAYABLE''))
                    else if inv_client t \<noteq> pay_client pay \<or> inv_client f \<noteq> pay_client pay
                    then (db, Err (Unprocessable ''CROSS_CLIENT_REALLOCATION''))
                    else (case mark_allocation True a db of
                       Inl e \<Rightarrow> (db, Err (Internal e))
                     | Inr db0 \<Rightarrow>
                         (case insert_allocation p to' moved db0 of
                            Inl OverAllocation \<Rightarrow> (db, Err (Unprocessable ''OVER_ALLOCATION''))
                          | Inl DuplicateEntry \<Rightarrow> (db, Err (Unprocessable ''ALLOCATION_EXISTS''))
                          | Inl e \<Rightarrow> (db, Err (Internal e))
                          | Inr (n, db1) \<Rightarrow>
                              (refreshInvoicePaidStatus now to' (refreshInvoicePaidStatus now from db1), Ok n)))))))"

definition reassign :: "string \<Rightarrow> nat \<Rightarrow> nat \<Rightarrow> nat \<Rightarrow> billing_db \<Rightarrow> billing_db \<times> (billing_error + unit)" where
  "reassign orgCurrency org p client db =
     (if client = 0 then (db, Err (Unprocessable ''VALIDATION_ERROR''))
      else (case own_payment org p db of
        None \<Rightarrow> (db, Err (NotFound ''payments''))
      | Some r \<Rightarrow>
          if \<not> list_ex (\<lambda>c. cl_id c = client \<and> cl_org c = Some org \<and> \<not> cl_deleted c) (bd_clients db)
          then (db, Err (NotFound ''clients''))
          else if live_for_payment p db \<noteq> [] then (db, Err (Unprocessable ''PAYMENT_ALLOCATED''))
          else let db1 = reversePaymentCredit p db;
                   db2 = db1\<lparr>bd_payments := map (\<lambda>x. if pay_id x = p then x\<lparr>pay_client := client\<rparr> else x) (bd_payments db1)\<rparr>;
                   r' = r\<lparr>pay_client := client, pay_currency := (if pay_currency r = [] then orgCurrency else pay_currency r)\<rparr> in
            (recordPaymentCredit r' (Some org) db2, Ok ())))"

section \<open>Balances\<close>

definition computeClientBalance :: "string \<Rightarrow> nat \<Rightarrow> nat \<Rightarrow> billing_db \<Rightarrow> int \<times> string" where
  "computeClientBalance orgCurrency org client db =
     (let invoices = getInvoicesWithBalance (Some org) client None db;
          unallocated = filter (\<lambda>(c, left). left > 0)
            (map (\<lambda>r. (pay_currency r, pay_amount r - total_of (live_for_payment (pay_id r) db)))
              (filter (\<lambda>r. pay_client r = client \<and> pay_org r = Some org \<and> \<not> pay_deleted r \<and> pay_status r = Completed)
                (bd_payments db)));
          credits = filter (\<lambda>(c, t). t > 0)
            (map (\<lambda>n. (cn_currency n, cn_total n))
              (filter (\<lambda>n. cn_client n = client \<and> cn_org n = Some org \<and> \<not> cn_deleted n
                  \<and> (cn_status n = ''issued'' \<or> cn_status n = ''applied'')) (bd_credit_notes db)));
          currencies = remdups (map (\<lambda>(r, d). inv_currency r) (filter (\<lambda>(r, d). d > 0) invoices)
                                @ map fst unallocated @ map fst credits) in
      (sum_list (map snd invoices) - sum_list (map snd unallocated) - sum_list (map snd credits),
       case currencies of [c] \<Rightarrow> c | _ \<Rightarrow> orgCurrency))"

end
