(* ===== verification/BillingBooks.thy ===== *)
theory BillingBooks
  imports Billing
begin

text \<open>
  What the payment operations of theory Billing keep: no payment is allocated beyond its amount and
  no invoice beyond its total, a payment has one live allocation per invoice, and an invoice marked
  paid is covered by its allocations.
\<close>

section \<open>Requests\<close>

datatype money_request =
    CreatePayment nat nat int "string option" payment_status
  | Allocate nat nat nat int
  | AllocateAuto nat nat "nat list option"
  | Reallocate nat nat nat nat "int option"
  | Reassign nat nat nat
  | Unapply nat nat nat
  | DestroyPayment nat nat
  | RestorePayment nat nat
  | VoidInvoice nat "nat option"
  | CancelInvoice nat "nat option"

fun serve :: "string \<Rightarrow> int \<Rightarrow> money_request \<Rightarrow> billing_db \<Rightarrow> billing_db" where
  "serve cur now (CreatePayment org client amount currency status) db = fst (createPayment cur org client amount currency status db)"
| "serve cur now (Allocate org p i amount) db = fst (allocate now org p i amount db)"
| "serve cur now (AllocateAuto org p ids) db = fst (allocateAuto now org p ids db)"
| "serve cur now (Reallocate org p f t amount) db = fst (reallocate now org p f t amount db)"
| "serve cur now (Reassign org p client) db = fst (reassign cur org p client db)"
| "serve cur now (Unapply org p i) db = fst (unapply now org p i db)"
| "serve cur now (DestroyPayment org p) db = fst (destroyPayment now org p db)"
| "serve cur now (RestorePayment org p) db = fst (restorePayment now org p db)"
| "serve cur now (VoidInvoice i org) db = fst (voidInvoiceById i org db)"
| "serve cur now (CancelInvoice i org) db = fst (cancelInvoiceForSat i org db)"

text \<open>What the request schemas check of amounts; the amount of a reallocation has no schema.\<close>

fun nonneg_amounts :: "money_request \<Rightarrow> bool" where
  "nonneg_amounts (CreatePayment _ _ amount _ _) = (0 \<le> amount)"
| "nonneg_amounts (Allocate _ _ _ amount) = (0 \<le> amount)"
| "nonneg_amounts (Reallocate _ _ _ _ (Some amount)) = (0 \<le> amount)"
| "nonneg_amounts _ = True"

section \<open>The books\<close>

definition within_totals :: "billing_db \<Rightarrow> bool" where
  "within_totals db \<longleftrightarrow>
     (\<forall>r \<in> set (bd_payments db). total_of (live_for_payment (pay_id r) db) \<le> pay_amount r)
     \<and> (\<forall>r \<in> set (bd_invoices db). total_of (live_for_invoice (inv_id r) db) \<le> inv_total r)"

definition rows_ok :: "billing_db \<Rightarrow> bool" where
  "rows_ok db \<longleftrightarrow> distinct (map pay_id (bd_payments db)) \<and> distinct (map inv_id (bd_invoices db))
     \<and> distinct (map al_id (bd_allocs db)) \<and> (\<forall>a \<in> set (bd_allocs db). 0 \<le> al_amount a)
     \<and> distinct (map (\<lambda>a. (al_payment a, al_invoice a)) (filter (\<lambda>a. \<not> al_deleted a) (bd_allocs db)))
     \<and> (\<forall>a \<in> set (bd_allocs db). al_payment a \<in> pay_id ` set (bd_payments db) \<and> al_invoice a \<in> inv_id ` set (bd_invoices db))
     \<and> (\<forall>r \<in> set (bd_payments db). 0 \<le> pay_amount r)"

definition paid_covered :: "billing_db \<Rightarrow> bool" where
  "paid_covered db \<longleftrightarrow> (\<forall>r \<in> set (bd_invoices db). \<not> inv_deleted r \<and> inv_status r = Paid \<longrightarrow>
     inv_total r \<le> total_of (live_for_invoice (inv_id r) db))"

definition books_ok :: "billing_db \<Rightarrow> bool" where
  "books_ok db \<longleftrightarrow> rows_ok db \<and> within_totals db"

lemma total_of_simps [simp]:
  "total_of [] = 0" "total_of (a # as) = al_amount a + total_of as" "total_of (as @ bs) = total_of as + total_of bs"
  by (simp_all add: total_of_def)

lemma find_distinct:
  assumes "distinct (map f xs)" and "x \<in> set xs"
  shows "find (\<lambda>y. f y = f x) xs = Some x"
  using assms by (induction xs) auto

lemma payment_of_row: "rows_ok db \<Longrightarrow> r \<in> set (bd_payments db) \<Longrightarrow> payment_of (pay_id r) db = Some r"
  unfolding payment_of_def rows_ok_def by (blast intro: find_distinct)

lemma invoice_of_row: "rows_ok db \<Longrightarrow> r \<in> set (bd_invoices db) \<Longrightarrow> invoice_of (inv_id r) db = Some r"
  unfolding invoice_of_def rows_ok_def by (blast intro: find_distinct)

lemma new_alloc_id_fresh: "new_alloc_id db \<notin> al_id ` set (bd_allocs db)"
proof -
  have "x \<le> foldl max b xs" if "x \<in> set xs \<or> x \<le> b" for x b :: nat and xs
    using that by (induction xs arbitrary: b) fastforce+
  then have "\<forall>a \<in> set (bd_allocs db). al_id a < new_alloc_id db"
    by (simp add: new_alloc_id_def le_imp_less_Suc)
  then show ?thesis by force
qed

lemma insert_books:
  assumes b: "books_ok db" and i: "insert_allocation p i amount db = Inr (n, db')" and a: "0 \<le> amount"
  shows "books_ok db'"
proof -
  have e: "\<not> alloc_exceeds (\<lambda>_. True) p i amount db" and fk: "payment_of p db \<noteq> None" "invoice_of i db \<noteq> None"
    and d: "\<not> live_pair p i db" and db': "db' = db\<lparr>bd_allocs := bd_allocs db @
        [\<lparr>al_id = new_alloc_id db, al_payment = p, al_invoice = i, al_amount = amount, al_deleted = False\<rparr>]\<rparr>"
    using i by (auto simp: insert_allocation_def split: if_splits)
  have r: "rows_ok db"
    using b by (simp add: books_ok_def)
  have rows: "rows_ok db'"
    using r a d fk new_alloc_id_fresh [of db]
    by (auto simp: rows_ok_def db' live_pair_def list_ex_iff payment_of_def invoice_of_def find_None_iff image_iff)
  have "total_of (live_for_payment (pay_id r) db') \<le> pay_amount r" if "r \<in> set (bd_payments db)" for r
    using payment_of_row [OF r that] e b that
    by (auto simp: live_for_payment_def db' books_ok_def within_totals_def alloc_exceeds_def)
  moreover have "total_of (live_for_invoice (inv_id r) db') \<le> inv_total r" if "r \<in> set (bd_invoices db)" for r
    using invoice_of_row [OF r that] e b that
    by (auto simp: live_for_invoice_def db' books_ok_def within_totals_def alloc_exceeds_def)
  ultimately show ?thesis
    using rows by (simp add: books_ok_def within_totals_def db')
qed

text \<open>The row of the table a loaded row stands for: only its \<open>deleted_at\<close> can have changed since.\<close>

definition same_row :: "alloc_row \<Rightarrow> alloc_row \<Rightarrow> bool" where
  "same_row a x \<longleftrightarrow> al_id x = al_id a \<and> al_payment x = al_payment a \<and> al_invoice x = al_invoice a \<and> al_amount x = al_amount a"

definition stored :: "alloc_row \<Rightarrow> billing_db \<Rightarrow> bool" where
  "stored a db \<longleftrightarrow> (\<exists>x \<in> set (bd_allocs db). same_row a x)"

definition marked :: "bool \<Rightarrow> nat \<Rightarrow> alloc_row \<Rightarrow> alloc_row" where
  "marked gone k x = (if al_id x = k then x\<lparr>al_deleted := gone\<rparr> else x)"

lemma mark_Ok: "mark_allocation gone a db = Inr db' \<Longrightarrow>
   \<not> alloc_exceeds (\<lambda>x. al_id x \<noteq> al_id a) (al_payment a) (al_invoice a) (al_amount a) db
   \<and> (gone \<or> \<not> live_pair (al_payment a) (al_invoice a) db)
   \<and> db' = db\<lparr>bd_allocs := map (marked gone (al_id a)) (bd_allocs db)\<rparr>"
  by (auto simp: mark_allocation_def marked_def fun_eq_iff split: if_splits)

lemma marked_simps [simp]:
  "al_id (marked g k x) = al_id x" "al_payment (marked g k x) = al_payment x"
  "al_invoice (marked g k x) = al_invoice x" "al_amount (marked g k x) = al_amount x"
  "al_deleted (marked g k x) = (if al_id x = k then g else al_deleted x)"
  by (simp_all add: marked_def)

lemma marked_absent: "k \<notin> al_id ` set xs \<Longrightarrow> map (marked g k) xs = xs"
  by (induction xs) (auto simp: marked_def)

lemma total_marked:
  assumes "distinct (map al_id xs)" and "x \<in> set xs" and "al_id x = k" and "\<And>g y. P (marked g k y) = P y"
  shows "total_of (filter (\<lambda>y. \<not> al_deleted y \<and> P y) (map (marked g k) xs)) =
     total_of (filter (\<lambda>y. al_id y \<noteq> k) (filter (\<lambda>y. \<not> al_deleted y \<and> P y) xs)) + (if \<not> g \<and> P x then al_amount x else 0)"
  using assms(1,2)
proof (induction xs)
  case (Cons y ys)
  show ?case
  proof (cases "y = x")
    case True
    then have "k \<notin> al_id ` set ys"
      using Cons.prems assms(3) by auto
    moreover have "filter (\<lambda>z. \<not> al_deleted z \<and> P z \<and> al_id z \<noteq> k) ys = filter (\<lambda>z. \<not> al_deleted z \<and> P z) ys"
      using calculation by (intro filter_cong) auto
    ultimately show ?thesis
      using True assms(3,4) by (simp add: marked_absent)
  next
    case False
    then have "al_id y \<noteq> k"
      using Cons.prems assms(3) by auto
    then have m: "marked g k y = y"
      by (simp add: marked_def)
    show ?thesis
      unfolding list.map m filter.simps
      using Cons False \<open>al_id y \<noteq> k\<close> by (cases "al_deleted y"; cases "P y") simp_all
  qed
qed simp

lemma total_other_le: "\<forall>a \<in> set as. 0 \<le> al_amount a \<Longrightarrow> total_of (filter Q as) \<le> total_of as"
  by (induction as) auto

lemma total_split:
  assumes "distinct (map al_id as)" and "x \<in> set as"
  shows "total_of (filter (\<lambda>y. al_id y \<noteq> al_id x) as) + al_amount x = total_of as"
  using assms
proof (induction as)
  case (Cons y ys)
  show ?case
  proof (cases "y = x")
    case True
    then have "al_id x \<notin> al_id ` set ys"
      using Cons.prems by auto
    then have "filter (\<lambda>z. al_id z \<noteq> al_id x) ys = ys"
      by (intro filter_True) (metis image_eqI)
    then show ?thesis using True by simp
  next
    case False
    then have "al_id y \<noteq> al_id x" "x \<in> set ys"
      using Cons.prems by auto
    then show ?thesis using Cons by simp
  qed
qed simp

lemma stored_marked: "stored b db \<Longrightarrow> stored b (db\<lparr>bd_allocs := map (marked g k) (bd_allocs db)\<rparr>)"
  by (auto simp: stored_def same_row_def)

lemma mark_totals:
  assumes r: "rows_ok db" and s: "stored a db" and m: "mark_allocation g a db = Inr db'"
  shows "total_of (live_for_payment p db') = total_of (filter (\<lambda>y. al_id y \<noteq> al_id a) (live_for_payment p db))
           + (if \<not> g \<and> al_payment a = p then al_amount a else 0)"
    and "total_of (live_for_invoice i db') = total_of (filter (\<lambda>y. al_id y \<noteq> al_id a) (live_for_invoice i db))
           + (if \<not> g \<and> al_invoice a = i then al_amount a else 0)"
proof -
  obtain x where x: "x \<in> set (bd_allocs db)" "al_id x = al_id a" "al_payment x = al_payment a"
      "al_invoice x = al_invoice a" "al_amount x = al_amount a"
    using s by (auto simp: stored_def same_row_def)
  have d: "distinct (map al_id (bd_allocs db))"
    using r by (simp add: rows_ok_def)
  note t = total_marked [OF d x(1,2), of _ g]
  show "total_of (live_for_payment p db') = total_of (filter (\<lambda>y. al_id y \<noteq> al_id a) (live_for_payment p db))
           + (if \<not> g \<and> al_payment a = p then al_amount a else 0)"
    using t [of "\<lambda>y. al_payment y = p"] mark_Ok [OF m] x by (simp add: live_for_payment_def)
  show "total_of (live_for_invoice i db') = total_of (filter (\<lambda>y. al_id y \<noteq> al_id a) (live_for_invoice i db))
           + (if \<not> g \<and> al_invoice a = i then al_amount a else 0)"
    using t [of "\<lambda>y. al_invoice y = i"] mark_Ok [OF m] x by (simp add: live_for_invoice_def)
qed

lemma marked_pairs:
  assumes "distinct (map al_id xs)" and "distinct (map f (filter (\<lambda>a. \<not> al_deleted a) xs))" and "\<And>g y. f (marked g k y) = f y"
    and "g \<or> (\<forall>y \<in> set xs. al_id y = k \<longrightarrow> f y \<notin> f ` set (filter (\<lambda>a. \<not> al_deleted a) xs))"
  shows "distinct (map f (filter (\<lambda>a. \<not> al_deleted a) (map (marked g k) xs)))"
  using assms(1,2,4)
proof (induction xs)
  case (Cons y ys)
  have img: "f ` {a \<in> set (map (marked g k) ys). \<not> al_deleted a} \<subseteq>
      f ` {a \<in> set ys. \<not> al_deleted a} \<union> (if g then {} else f ` {a \<in> set ys. al_id a = k})"
    using assms(3) by (auto split: if_splits)
  show ?case
  proof (cases "al_id y = k")
    case True
    then have "k \<notin> al_id ` set ys"
      using Cons.prems(1) by auto
    then show ?thesis
      using Cons.prems True assms(3) by (auto simp: marked_absent split: if_splits)
  next
    case False
    then have m: "marked g k y = y"
      by (simp add: marked_def)
    have "f y \<notin> f ` {a \<in> set (map (marked g k) ys). \<not> al_deleted a}" if "\<not> al_deleted y"
      using Cons.prems(2,3) that by (cases g) (auto simp: image_iff assms(3) split: if_splits)
    moreover have "distinct (map f (filter (\<lambda>a. \<not> al_deleted a) (map (marked g k) ys)))"
      using Cons by (intro Cons.IH) (auto split: if_splits)
    ultimately show ?thesis
      unfolding list.map m filter.simps by (cases "al_deleted y") auto
  qed
qed simp

lemma mark_books:
  assumes b: "books_ok db" and s: "stored a db" and m: "mark_allocation g a db = Inr db'"
  shows "books_ok db'"
proof -
  have r: "rows_ok db" and w: "within_totals db"
    using b by (simp_all add: books_ok_def)
  note k = mark_Ok [OF m]
  have db': "db' = db\<lparr>bd_allocs := map (marked g (al_id a)) (bd_allocs db)\<rparr>"
    using k by simp
  have pairs: "g \<or> (\<forall>y \<in> set (bd_allocs db). al_id y = al_id a \<longrightarrow>
      (al_payment y, al_invoice y) \<notin> (\<lambda>a. (al_payment a, al_invoice a)) ` set (filter (\<lambda>a. \<not> al_deleted a) (bd_allocs db)))"
  proof (cases g)
    case False
    obtain x where x: "x \<in> set (bd_allocs db)" "same_row a x"
      using s by (auto simp: stored_def)
    have "inj_on al_id (set (bd_allocs db))"
      using r by (simp add: rows_ok_def distinct_map)
    then have "y = x" if "y \<in> set (bd_allocs db)" "al_id y = al_id a" for y
      using x that by (intro inj_onD [of al_id "set (bd_allocs db)"]) (auto simp: same_row_def)
    then show ?thesis
      using k False x(2) by (auto simp: live_pair_def list_ex_iff same_row_def)
  qed simp
  have rows: "rows_ok db'"
    using r marked_pairs [OF _ _ _ pairs] by (auto simp: rows_ok_def db' o_def)
  have nn: "\<forall>x \<in> set (live_for_payment p db). 0 \<le> al_amount x" "\<forall>x \<in> set (live_for_invoice i db). 0 \<le> al_amount x" for p i
    using r by (auto simp: rows_ok_def live_for_payment_def live_for_invoice_def)
  have "total_of (live_for_payment (pay_id r) db') \<le> pay_amount r" if "r \<in> set (bd_payments db)" for r
    using payment_of_row [OF \<open>rows_ok db\<close> that] k w that total_other_le [OF nn(1), of "\<lambda>y. al_id y \<noteq> al_id a" "pay_id r"]
    unfolding mark_totals(1) [OF \<open>rows_ok db\<close> s m] by (fastforce simp: within_totals_def alloc_exceeds_def)
  moreover have "total_of (live_for_invoice (inv_id r) db') \<le> inv_total r" if "r \<in> set (bd_invoices db)" for r
    using invoice_of_row [OF \<open>rows_ok db\<close> that] k w that total_other_le [OF nn(2), of "\<lambda>y. al_id y \<noteq> al_id a" "inv_id r"]
    unfolding mark_totals(2) [OF \<open>rows_ok db\<close> s m] by (fastforce simp: within_totals_def alloc_exceeds_def)
  ultimately show ?thesis
    using rows by (simp add: books_ok_def within_totals_def db')
qed

text \<open>Allocations of a payment or an invoice can always be withdrawn.\<close>

lemma stored_live: "a \<in> set (live_for_payment p db) \<Longrightarrow> stored a db" "a \<in> set (live_for_invoice i db) \<Longrightarrow> stored a db"
  "a \<in> set (gone_for_payment p db) \<Longrightarrow> stored a db"
  by (auto simp: stored_def same_row_def live_for_payment_def live_for_invoice_def gone_for_payment_def)

lemma mark_gone_Ok:
  assumes b: "books_ok db" and a: "a \<in> set (bd_allocs db)" and l: "\<not> al_deleted a"
  shows "mark_allocation True a db = Inr (db\<lparr>bd_allocs := map (marked True (al_id a)) (bd_allocs db)\<rparr>)"
proof -
  have r: "rows_ok db" and w: "within_totals db"
    using b by (simp_all add: books_ok_def)
  have d: "distinct (map al_id (live_for_payment p db))" "distinct (map al_id (live_for_invoice i db))" for p i
    using r by (simp_all add: rows_ok_def live_for_payment_def live_for_invoice_def distinct_map_filter)
  have m: "a \<in> set (live_for_payment (al_payment a) db)" "a \<in> set (live_for_invoice (al_invoice a) db)"
    using a l by (simp_all add: live_for_payment_def live_for_invoice_def)
  note t = total_split [OF d(1) m(1)] total_split [OF d(2) m(2)]
  have p: "case payment_of (al_payment a) db of None \<Rightarrow> True | Some r \<Rightarrow> total_of (live_for_payment (al_payment a) db) \<le> pay_amount r"
    using w by (auto simp: within_totals_def payment_of_def split: option.split dest!: find_SomeD)
  have i: "case invoice_of (al_invoice a) db of None \<Rightarrow> True | Some r \<Rightarrow> total_of (live_for_invoice (al_invoice a) db) \<le> inv_total r"
    using w by (auto simp: within_totals_def invoice_of_def split: option.split dest!: find_SomeD)
  have "\<not> alloc_exceeds (\<lambda>x. al_id x \<noteq> al_id a) (al_payment a) (al_invoice a) (al_amount a) db"
    using p i t by (auto simp: alloc_exceeds_def split: option.splits)
  then show ?thesis
    by (auto simp: mark_allocation_def marked_def fun_eq_iff)
qed

lemma mark_all_books:
  "books_ok db \<Longrightarrow> \<forall>a \<in> set as. stored a db \<Longrightarrow> mark_all g as db = Inr db' \<Longrightarrow> books_ok db'"
proof (induction as arbitrary: db)
  case (Cons a as)
  then obtain db1 where 1: "mark_allocation g a db = Inr db1" "mark_all g as db1 = Inr db'"
    by (auto simp: and_then_Ok_iff)
  have "\<forall>b \<in> set as. stored b db1"
    using Cons.prems(2) mark_Ok [OF 1(1)] stored_marked by auto
  with mark_books [OF Cons.prems(1) _ 1(1)] Cons.prems(2) Cons.IH 1(2) show ?case
    by auto
qed simp

lemma mark_all_frame:
  "mark_all g as db = Inr db' \<Longrightarrow> \<exists>xs. db' = db\<lparr>bd_allocs := xs\<rparr>"
proof (induction as arbitrary: db)
  case Nil
  then show ?case by (intro exI [of _ "bd_allocs db"]) simp
next
  case (Cons a as)
  then obtain db1 where 1: "mark_allocation g a db = Inr db1" "mark_all g as db1 = Inr db'"
    by (auto simp: and_then_Ok_iff)
  show ?case
    using mark_Ok [OF 1(1)] Cons.IH [OF 1(2)] by auto
qed

lemma mark_all_gone_Ok:
  assumes "books_ok db" and "distinct (map al_id as)" and "\<forall>a \<in> set as. a \<in> set (bd_allocs db) \<and> \<not> al_deleted a"
  shows "\<exists>db'. mark_all True as db = Inr db'"
  using assms
proof (induction as arbitrary: db)
  case (Cons a as)
  let ?db = "db\<lparr>bd_allocs := map (marked True (al_id a)) (bd_allocs db)\<rparr>"
  have m: "mark_allocation True a db = Inr ?db"
    using Cons.prems by (intro mark_gone_Ok) auto
  have "books_ok ?db"
    using mark_books [OF Cons.prems(1) _ m] Cons.prems(3) by (auto simp: stored_def same_row_def)
  moreover have "b \<in> set (bd_allocs ?db)" if "b \<in> set as" for b
  proof -
    have "al_id b \<noteq> al_id a"
      using Cons.prems(2) that by (metis distinct.simps(2) image_eqI list.set_map list.simps(9))
    then have "marked True (al_id a) b = b"
      by (simp add: marked_def)
    then show ?thesis
      using Cons.prems(3) that by (auto simp: image_iff intro!: bexI [of _ b])
  qed
  ultimately have "\<exists>db'. mark_all True as ?db = Inr db'"
    using Cons.prems by (intro Cons.IH) auto
  then show ?case by (simp add: m)
qed simp

section \<open>Paid invoices\<close>

text \<open>Every invoice marked paid is covered, those in \<open>S\<close> excepted.\<close>

definition covered_but :: "nat set \<Rightarrow> billing_db \<Rightarrow> bool" where
  "covered_but S db \<longleftrightarrow> (\<forall>r \<in> set (bd_invoices db). inv_id r \<notin> S \<and> \<not> inv_deleted r \<and> inv_status r = Paid \<longrightarrow>
     inv_total r \<le> total_of (live_for_invoice (inv_id r) db))"

lemma paid_covered_iff: "paid_covered db = covered_but {} db"
  by (simp add: paid_covered_def covered_but_def)

lemma covered_mono: "covered_but S db \<Longrightarrow> S \<subseteq> T \<Longrightarrow> covered_but T db"
  by (auto simp: covered_but_def)

lemma insert_covered:
  assumes "insert_allocation p i amount db = Inr (n, db')" and "0 \<le> amount" and "covered_but S db"
  shows "covered_but S db'"
proof -
  have "db' = db\<lparr>bd_allocs := bd_allocs db @
        [\<lparr>al_id = new_alloc_id db, al_payment = p, al_invoice = i, al_amount = amount, al_deleted = False\<rparr>]\<rparr>"
    using assms(1) by (auto simp: insert_allocation_def split: if_splits)
  then show ?thesis
    using assms(2,3) by (fastforce simp: covered_but_def live_for_invoice_def)
qed

lemma mark_covered:
  assumes b: "books_ok db" and s: "stored a db" and m: "mark_allocation g a db = Inr db'" and c: "covered_but S db"
  shows "covered_but (if g then insert (al_invoice a) S else S) db'"
proof -
  have r: "rows_ok db"
    using b by (simp add: books_ok_def)
  have other: "filter (\<lambda>y. al_id y \<noteq> al_id a) (live_for_invoice i db) = live_for_invoice i db"
    if "al_invoice a \<noteq> i" for i
  proof -
    obtain x where x: "x \<in> set (bd_allocs db)" "same_row a x"
      using s by (auto simp: stored_def)
    have "inj_on al_id (set (bd_allocs db))"
      using r by (simp add: rows_ok_def distinct_map)
    then have "y = x" if "y \<in> set (bd_allocs db)" "al_id y = al_id a" for y
      using x that by (intro inj_onD [of al_id "set (bd_allocs db)"]) (auto simp: same_row_def)
    then show ?thesis
      using x that by (intro filter_True) (auto simp: live_for_invoice_def same_row_def)
  qed
  have more: "total_of (live_for_invoice (al_invoice a) db) \<le> total_of (live_for_invoice (al_invoice a) db')" if "\<not> g"
  proof -
    have l: "\<not> live_pair (al_payment a) (al_invoice a) db"
      using mark_Ok [OF m] that by simp
    have "filter (\<lambda>y. al_id y \<noteq> al_id a) (live_for_invoice (al_invoice a) db) = live_for_invoice (al_invoice a) db"
    proof (intro filter_True ballI)
      fix y assume y: "y \<in> set (live_for_invoice (al_invoice a) db)"
      obtain x where x: "x \<in> set (bd_allocs db)" "same_row a x"
        using s by (auto simp: stored_def)
      have "inj_on al_id (set (bd_allocs db))"
        using r by (simp add: rows_ok_def distinct_map)
      then have "al_id y = al_id a \<Longrightarrow> y = x"
        using x y by (intro inj_onD [of al_id "set (bd_allocs db)"]) (auto simp: same_row_def live_for_invoice_def)
      then show "al_id y \<noteq> al_id a"
        using l x y by (auto simp: live_pair_def list_ex_iff same_row_def live_for_invoice_def)
    qed
    moreover have "0 \<le> al_amount a"
      using r s by (auto simp: rows_ok_def stored_def same_row_def)
    ultimately show ?thesis
      using mark_totals(2) [OF r s m, of "al_invoice a"] that by simp
  qed
  have inv: "bd_invoices db' = bd_invoices db"
    using mark_Ok [OF m] by simp
  show ?thesis
    unfolding covered_but_def
  proof (intro ballI impI)
    fix q assume q: "q \<in> set (bd_invoices db')"
        "inv_id q \<notin> (if g then insert (al_invoice a) S else S) \<and> \<not> inv_deleted q \<and> inv_status q = Paid"
    then have c': "inv_total q \<le> total_of (live_for_invoice (inv_id q) db)"
      using c inv by (auto simp: covered_but_def split: if_splits)
    show "inv_total q \<le> total_of (live_for_invoice (inv_id q) db')"
    proof (cases "al_invoice a = inv_id q")
      case True
      then have "\<not> g"
        using q by auto
      then show ?thesis
        using more True c' by simp
    next
      case False
      then show ?thesis
        using mark_totals(2) [OF r s m, of "inv_id q"] other [of "inv_id q"] c' by auto
    qed
  qed
qed

lemma mark_all_covered:
  "books_ok db \<Longrightarrow> \<forall>a \<in> set as. stored a db \<Longrightarrow> mark_all g as db = Inr db' \<Longrightarrow> covered_but S db
   \<Longrightarrow> covered_but (if g then al_invoice ` set as \<union> S else S) db'"
proof (induction as arbitrary: db S)
  case (Cons a as)
  then obtain db1 where 1: "mark_allocation g a db = Inr db1" "mark_all g as db1 = Inr db'"
    by (auto simp: and_then_Ok_iff)
  have "\<forall>b \<in> set as. stored b db1"
    using Cons.prems(2) mark_Ok [OF 1(1)] stored_marked by auto
  from Cons.IH [OF mark_books [OF Cons.prems(1) _ 1(1)] this 1(2) mark_covered [OF Cons.prems(1) _ 1(1) Cons.prems(4)]]
  show ?case
    using Cons.prems(2) by (auto split: if_splits)
qed simp

end
