(* ===== verification/BillingInvariant.thy ===== *)
theory BillingInvariant
  imports BillingBooks
begin

text \<open>
  Every payment operation of theory Billing keeps the books balanced: one lemma per handler over the
  lemmas of BillingBooks on the single statements, and the invariant over request sequences.
\<close>

definition good_books :: "billing_db \<Rightarrow> bool" where
  "good_books db \<longleftrightarrow> books_ok db \<and> covered_but {} db"

lemma live_frames [simp]:
  "live_for_payment p (update_invoice i f db) = live_for_payment p db"
  "live_for_invoice j (update_invoice i f db) = live_for_invoice j db"
  "bd_payments (update_invoice i f db) = bd_payments db"
  "bd_allocs (update_invoice i f db) = bd_allocs db"
  by (simp_all add: update_invoice_def live_for_payment_def live_for_invoice_def)

lemma map_invoices_books:
  assumes "\<And>r. inv_id (h r) = inv_id r" and "\<And>r. inv_total (h r) = inv_total r"
  shows "books_ok (db\<lparr>bd_invoices := map h (bd_invoices db)\<rparr>) = books_ok db"
proof -
  have "inv_id \<circ> h = inv_id" "inv_id ` h ` A = inv_id ` A" for A
    using assms by (simp_all add: image_image fun_eq_iff)
  then show ?thesis
    using assms by (simp add: books_ok_def rows_ok_def within_totals_def live_for_payment_def live_for_invoice_def)
qed

lemma update_books:
  assumes "\<And>r. inv_id (f r) = inv_id r \<and> inv_total (f r) = inv_total r"
  shows "books_ok (update_invoice i f db) = books_ok db"
  unfolding update_invoice_def using assms by (intro map_invoices_books) auto

lemma ledger_frames [simp]:
  "live_for_payment p (db\<lparr>bd_ledger := l\<rparr>) = live_for_payment p db"
  "live_for_invoice i (db\<lparr>bd_ledger := l\<rparr>) = live_for_invoice i db"
  "books_ok (db\<lparr>bd_ledger := l\<rparr>) = books_ok db"
  "covered_but S (db\<lparr>bd_ledger := l\<rparr>) = covered_but S db"
  by (simp_all add: live_for_payment_def live_for_invoice_def books_ok_def rows_ok_def within_totals_def covered_but_def)

lemma payments_frames [simp]:
  "covered_but S (db\<lparr>bd_payments := ps\<rparr>) = covered_but S db"
  "live_for_payment q (db\<lparr>bd_payments := ps\<rparr>) = live_for_payment q db"
  "live_for_invoice i (db\<lparr>bd_payments := ps\<rparr>) = live_for_invoice i db"
  by (simp_all add: covered_but_def live_for_payment_def live_for_invoice_def)

lemma map_payments_books:
  assumes "\<And>r. pay_id (h r) = pay_id r" and "\<And>r. pay_amount (h r) = pay_amount r"
  shows "books_ok (db\<lparr>bd_payments := map h (bd_payments db)\<rparr>) = books_ok db"
proof -
  have "pay_id \<circ> h = pay_id" "pay_id ` h ` A = pay_id ` A" for A
    using assms by (simp_all add: image_image fun_eq_iff)
  then show ?thesis
    using assms by (simp add: books_ok_def rows_ok_def within_totals_def)
qed

lemma refresh_books [simp]: "books_ok (refreshInvoicePaidStatus now i db) = books_ok db"
  by (auto simp: refreshInvoicePaidStatus_def update_books split: option.split)

lemma map_invoices_covered:
  assumes "\<And>r. inv_id (h r) = inv_id r" and "\<And>r. inv_total (h r) = inv_total r" and "\<And>r. inv_deleted (h r) = inv_deleted r"
  shows "covered_but S (db\<lparr>bd_invoices := map h (bd_invoices db)\<rparr>) \<longleftrightarrow> (\<forall>r \<in> set (bd_invoices db).
     inv_id r \<notin> S \<and> \<not> inv_deleted r \<and> inv_status (h r) = Paid \<longrightarrow> inv_total r \<le> total_of (live_for_invoice (inv_id r) db))"
  using assms by (simp add: covered_but_def live_for_invoice_def)

lemma covered_update:
  assumes "\<And>r. inv_id (f r) = inv_id r \<and> inv_total (f r) = inv_total r \<and> inv_deleted (f r) = inv_deleted r"
  shows "covered_but S (update_invoice i f db) \<longleftrightarrow> (\<forall>r \<in> set (bd_invoices db). inv_id r \<notin> S \<and> \<not> inv_deleted r
     \<and> inv_status (if inv_id r = i then f r else r) = Paid \<longrightarrow> inv_total r \<le> total_of (live_for_invoice (inv_id r) db))"
  unfolding update_invoice_def using assms by (intro map_invoices_covered) auto

lemma refresh_covered:
  assumes b: "books_ok db" and c: "covered_but (insert i S) db"
  shows "covered_but S (refreshInvoicePaidStatus now i db)"
proof (cases "invoice_of i db")
  case None
  then have "inv_id q \<noteq> i" if "q \<in> set (bd_invoices db)" for q
    using that by (auto simp: invoice_of_def find_None_iff)
  then show ?thesis
    using c None by (auto simp: refreshInvoicePaidStatus_def covered_but_def)
next
  case (Some r)
  have row: "q = r" if "q \<in> set (bd_invoices db)" "inv_id q = i" for q
    using invoice_of_row [of db q] b that Some by (simp add: books_ok_def)
  have old: "inv_total q \<le> total_of (live_for_invoice (inv_id q) db)"
    if "q \<in> set (bd_invoices db)" "inv_id q \<notin> S" "inv_id q \<noteq> i" "\<not> inv_deleted q" "inv_status q = Paid" for q
    using c that by (simp add: covered_but_def)
  consider "inv_deleted r" | "\<not> inv_deleted r" "inv_total r \<le> total_of (live_for_invoice i db)"
    | "\<not> inv_deleted r" "\<not> inv_total r \<le> total_of (live_for_invoice i db)" by blast
  then show ?thesis
  proof cases
    case 1
    then show ?thesis
      using Some old row unfolding covered_but_def by (auto simp: refreshInvoicePaidStatus_def)
  next
    case 2
    then have "refreshInvoicePaidStatus now i db =
        update_invoice i (\<lambda>r. if inv_status r \<noteq> Paid then r\<lparr>inv_status := Paid, inv_paid_at := Some now\<rparr> else r) db"
      by (simp add: refreshInvoicePaidStatus_def Some)
    then show ?thesis
      using 2 old row by (auto simp: covered_update)
  next
    case 3
    then have "refreshInvoicePaidStatus now i db =
        update_invoice i (\<lambda>r. if inv_status r = Paid then r\<lparr>inv_status := Issued, inv_paid_at := None\<rparr> else r) db"
      by (simp add: refreshInvoicePaidStatus_def Some)
    then show ?thesis
      using 3 old row by (auto simp: covered_update)
  qed
qed

lemma refresh_all:
  "books_ok db \<Longrightarrow> covered_but (set is \<union> S) db \<Longrightarrow>
     books_ok (fold (refreshInvoicePaidStatus now) is db) \<and> covered_but S (fold (refreshInvoicePaidStatus now) is db)"
proof (induction "is" arbitrary: db)
  case (Cons i "is")
  then show ?case
    using refresh_covered [of db i "set is \<union> S"] by simp
qed simp

lemma same_invoice:
  assumes "books_ok db" and "q \<in> set (bd_invoices db)" and "r \<in> set (bd_invoices db)" and "inv_id q = inv_id r"
  shows "q = r"
proof -
  have "inj_on inv_id (set (bd_invoices db))"
    using assms(1) by (simp add: books_ok_def rows_ok_def distinct_map)
  then show ?thesis
    using assms by (auto dest: inj_onD)
qed

text \<open>The waterfall works on rows loaded before its own updates, which leave the totals alone.\<close>

definition loaded :: "invoice_row \<Rightarrow> billing_db \<Rightarrow> bool" where
  "loaded r db \<longleftrightarrow> (\<exists>q \<in> set (bd_invoices db). inv_id q = inv_id r \<and> inv_total q = inv_total r)"

lemma loaded_row: "r \<in> set (bd_invoices db) \<Longrightarrow> loaded r db"
  by (auto simp: loaded_def)

lemma finalize_good:
  assumes g: "good_books db" and r: "loaded r db"
  shows "good_books (fst (finalizeIfFullyPaid now r db))"
proof (cases "total_of (live_for_invoice (inv_id r) db) < inv_total r")
  case True
  then show ?thesis
    using g by (simp add: finalizeIfFullyPaid_def)
next
  case False
  let ?f = "\<lambda>r. r\<lparr>inv_status := Paid, inv_paid_at := Some now\<rparr>"
  have "inv_total q \<le> total_of (live_for_invoice (inv_id q) db)"
    if "q \<in> set (bd_invoices db)" "\<not> inv_deleted q" "inv_status (if inv_id q = inv_id r then ?f q else q) = Paid" for q
  proof (cases "inv_id q = inv_id r")
    case True
    moreover obtain q' where "q' \<in> set (bd_invoices db)" "inv_id q' = inv_id r" "inv_total q' = inv_total r"
      using r by (auto simp: loaded_def)
    moreover have "q = q'"
      using g calculation that(1) by (intro same_invoice) (simp_all add: good_books_def)
    ultimately show ?thesis using False by simp
  next
    case False
    then show ?thesis
      using g that by (simp add: good_books_def covered_but_def)
  qed
  then have "covered_but {} (update_invoice (inv_id r) ?f db)"
    by (simp add: covered_update)
  moreover have "books_ok (update_invoice (inv_id r) ?f db)"
    using g by (simp add: update_books good_books_def)
  ultimately show ?thesis
    using False by (simp add: good_books_def finalizeIfFullyPaid_def)
qed

lemma insert_good: "good_books db \<Longrightarrow> insert_allocation p i amount db = Inr (n, db') \<Longrightarrow> 0 \<le> amount \<Longrightarrow> good_books db'"
  using insert_books insert_covered by (auto simp: good_books_def)

lemma insert_frame: "insert_allocation p i amount db = Inr (n, db') \<Longrightarrow> bd_invoices db' = bd_invoices db \<and> bd_payments db' = bd_payments db"
  by (auto simp: insert_allocation_def split: if_splits)

section \<open>The handlers\<close>

lemma create_good: "good_books db \<Longrightarrow> 0 \<le> amount \<Longrightarrow> good_books (fst (createPayment cur org client amount currency status db))"
proof -
  assume g: "good_books db" and a: "0 \<le> amount"
  have fresh: "new_payment_id db \<notin> pay_id ` set (bd_payments db)"
  proof -
    have "x \<le> foldl max b xs" if "x \<in> set xs \<or> x \<le> b" for x b :: nat and xs
      using that by (induction xs arbitrary: b) fastforce+
    then have "\<forall>r \<in> set (bd_payments db). pay_id r < new_payment_id db"
      by (simp add: new_payment_id_def le_imp_less_Suc)
    then show ?thesis by force
  qed
  have none: "live_for_payment (new_payment_id db) db = []"
    using g fresh unfolding good_books_def books_ok_def rows_ok_def live_for_payment_def filter_empty_conv by metis
  show "good_books (fst (createPayment cur org client amount currency status db))"
    using g a fresh none
    by (auto simp: createPayment_def recordPaymentCredit_def Let_def good_books_def books_ok_def rows_ok_def within_totals_def
        covered_but_def live_for_payment_def live_for_invoice_def)
qed

lemma allocate_good:
  assumes g: "good_books db" and a: "0 \<le> amount"
  shows "good_books (fst (allocate now org p i amount db))"
proof -
  have "good_books (fst (finalizeIfFullyPaid now r db1))"
    if "insert_allocation p i amount db = Inr (n, db1)" "r \<in> set (bd_invoices db)" for r n db1
    using insert_good [OF g that(1) a] insert_frame [OF that(1)] that(2) by (intro finalize_good loaded_row) auto
  then show ?thesis
    using g by (auto simp: allocate_def Let_def case_prod_unfold split: option.split sum.split sql_error.split dest!: find_SomeD)
qed


lemma unapply_good:
  assumes g: "good_books db"
  shows "good_books (fst (unapply now org p i db))"
proof -
  have "good_books (refreshInvoicePaidStatus now i db1)"
    if f: "find (\<lambda>a. al_invoice a = i) (live_for_payment p db) = Some a" and m: "mark_allocation True a db = Inr db1" for a db1
  proof -
    have a: "a \<in> set (live_for_payment p db)" "al_invoice a = i"
      using find_SomeD [OF f] by simp_all
    note s = stored_live(1) [OF a(1)]
    show ?thesis
      using g mark_books [OF _ s m] mark_covered [OF _ s m, of "{}"] a(2)
      by (simp add: good_books_def refresh_covered)
  qed
  then show ?thesis
    using g by (auto simp: unapply_def split: option.split sum.split)
qed

lemma reallocate_good:
  assumes g: "good_books db" and n: "case amount of None \<Rightarrow> True | Some m \<Rightarrow> 0 \<le> m"
  shows "good_books (fst (reallocate now org p from to' amount db))"
proof -
  have step: "good_books (refreshInvoicePaidStatus now to' (refreshInvoicePaidStatus now from db2))"
    if f: "find (\<lambda>a. al_invoice a = from) (live_for_payment p db) = Some a" and m: "mark_allocation True a db = Inr db1"
      and i: "insert_allocation p to' (case amount of Some m \<Rightarrow> m | None \<Rightarrow> al_amount a) db1 = Inr (k, db2)" for a db1 k db2
  proof -
    have a: "a \<in> set (live_for_payment p db)" "al_invoice a = from"
      using find_SomeD [OF f] by simp_all
    have "0 \<le> al_amount a"
      using a g by (auto simp: good_books_def books_ok_def rows_ok_def live_for_payment_def)
    with n have nn: "0 \<le> (case amount of Some m \<Rightarrow> m | None \<Rightarrow> al_amount a)"
      by (simp split: option.splits)
    note s = stored_live(1) [OF a(1)]
    have "books_ok db1" "covered_but {from} db1"
      using g mark_books [OF _ s m] mark_covered [OF _ s m, of "{}"] a(2) by (simp_all add: good_books_def)
    with insert_books [OF _ i nn] insert_covered [OF i nn] have "books_ok db2" "covered_but {from} db2"
      by simp_all
    then show ?thesis
      by (simp add: good_books_def refresh_covered covered_mono)
  qed
  show ?thesis
    using g step by (auto simp: reallocate_def Let_def split: option.split sum.split sql_error.split)
qed

lemma payment_map_good:
  assumes "\<And>r. pay_id (h r) = pay_id r" and "\<And>r. pay_amount (h r) = pay_amount r"
  shows "good_books (db\<lparr>bd_payments := map h (bd_payments db), bd_ledger := l\<rparr>) = good_books db"
  using map_payments_books [of h db] assms by (simp add: good_books_def)

lemma reassign_good:
  assumes g: "good_books db"
  shows "good_books (fst (reassign cur org p client db))"
  using g payment_map_good [of "\<lambda>x. if pay_id x = p then x\<lparr>pay_client := client\<rparr> else x"]
  by (auto simp: reassign_def reversePaymentCredit_def recordPaymentCredit_def Let_def split: option.split)

lemma reverse_good:
  assumes g: "good_books db" and m: "reversePaymentAllocations now p db = Inr db'"
  shows "good_books db'"
proof -
  let ?as = "live_for_payment p db"
  obtain db1 where 1: "mark_all True ?as db = Inr db1"
    and db': "db' = fold (refreshInvoicePaidStatus now) (remdups (map al_invoice ?as)) db1"
    using m by (auto simp: reversePaymentAllocations_def and_then_Ok_iff Let_def)
  have s: "\<forall>a \<in> set ?as. stored a db"
    using stored_live(1) by blast
  show ?thesis
    using g mark_all_books [OF _ s 1] mark_all_covered [OF _ s 1, of "{}"] refresh_all [of db1 "remdups (map al_invoice ?as)" "{}" now]
    by (simp add: good_books_def db')
qed

lemma revive_good:
  assumes g: "good_books db" and m: "restorePaymentAllocations now p db = Inr db'"
  shows "good_books db'"
proof -
  let ?as = "gone_for_payment p db"
  obtain db1 where 1: "mark_all False ?as db = Inr db1"
    and db': "db' = fold (refreshInvoicePaidStatus now) (remdups (map al_invoice ?as)) db1"
    using m by (auto simp: restorePaymentAllocations_def and_then_Ok_iff Let_def)
  have s: "\<forall>a \<in> set ?as. stored a db"
    using stored_live(3) by blast
  show ?thesis
    using g mark_all_books [OF _ s 1] mark_all_covered [OF _ s 1, of "{}"] covered_mono [of "{}" db1]
      refresh_all [of db1 "remdups (map al_invoice ?as)" "{}" now]
    by (simp add: good_books_def db')
qed

lemma destroy_good:
  assumes g: "good_books db"
  shows "good_books (fst (destroyPayment now org p db))"
proof -
  have "good_books (reversePaymentCredit p (db\<lparr>bd_payments := map (\<lambda>x. if pay_id x = p then x\<lparr>pay_deleted := d\<rparr> else x) (bd_payments db)\<rparr>))" for d
    using g payment_map_good [of "\<lambda>x. if pay_id x = p then x\<lparr>pay_deleted := d\<rparr> else x"]
    by (simp add: reversePaymentCredit_def)
  then show ?thesis
    using g by (auto simp: destroyPayment_def Let_def split: option.split sum.split intro: reverse_good)
qed

lemma restore_good:
  assumes g: "good_books db"
  shows "good_books (fst (restorePayment now org p db))"
proof -
  have "good_books (recordPaymentCredit r (Some org) (reversePaymentCredit p
      (db\<lparr>bd_payments := map (\<lambda>x. if pay_id x = p then x\<lparr>pay_deleted := d\<rparr> else x) (bd_payments db)\<rparr>)))" for d r
    using g payment_map_good [of "\<lambda>x. if pay_id x = p then x\<lparr>pay_deleted := d\<rparr> else x"]
    by (simp add: reversePaymentCredit_def recordPaymentCredit_def)
  then show ?thesis
    using g by (auto simp: restorePayment_def Let_def split: option.split sum.split intro: revive_good)
qed

lemma updated_status:
  assumes q: "q \<in> set (bd_invoices (update_invoice i (\<lambda>r. r\<lparr>inv_status := status\<rparr>) db))" and i: "inv_id q = i"
  shows "inv_status q = status"
proof -
  have "\<exists>r. q = h r" if "q \<in> set (bd_invoices (db\<lparr>bd_invoices := map h (bd_invoices db)\<rparr>))" for h
    using that by auto
  from this [OF q [unfolded update_invoice_def]]
  obtain r where "q = (if inv_id r = i then r\<lparr>inv_status := status\<rparr> else r)"
    by blast
  then show ?thesis
    using i by (cases "inv_id r = i") auto
qed

lemma settle_ledger_good [simp]: "good_books (settle_ledger r db) = good_books db"
  by (simp add: settle_ledger_def Let_def good_books_def)

lemma settle_good:
  assumes g: "good_books db" and st: "status \<noteq> Paid"
  shows "good_books (fst (settleInvoiceTerminal i org status forbid db))"
proof -
  let ?db1 = "update_invoice i (\<lambda>r. r\<lparr>inv_status := status\<rparr>) db"
  have c: "covered_but {} ?db1"
    using g st unfolding good_books_def by (subst covered_update) (auto simp: covered_but_def)
  have b: "books_ok ?db1"
    using g by (simp add: update_books good_books_def)
  have rel: "good_books (settle_ledger r db2)" if "releaseInvoiceAllocations i ?db1 = Inr db2" for r db2
  proof -
    have m: "mark_all True (live_for_invoice i ?db1) ?db1 = Inr db2"
      using that by (simp add: releaseInvoiceAllocations_def)
    have s: "\<forall>a \<in> set (live_for_invoice i ?db1). stored a ?db1"
      using stored_live(2) by blast
    have "al_invoice ` set (live_for_invoice i ?db1) \<subseteq> {i}"
      by (auto simp: live_for_invoice_def)
    then have c2: "covered_but {i} db2"
      using mark_all_covered [OF b s m c] covered_mono by fastforce
    have "bd_invoices db2 = bd_invoices ?db1"
      using mark_all_frame [OF m] by auto
    then have "inv_status q = status" if "q \<in> set (bd_invoices db2)" "inv_id q = i" for q
      using that updated_status by simp
    then have "covered_but {} db2"
      using c2 st by (auto simp: covered_but_def)
    then show ?thesis
      using mark_all_books [OF b s m] by (subst settle_ledger_good) (simp add: good_books_def)
  qed
  have "good_books ?db1"
    using b c by (simp add: good_books_def)
  then show ?thesis
    using g rel by (simp add: settleInvoiceTerminal_def Let_def split: option.split sum.split)
qed


lemma update_loaded:
  assumes "\<And>r. inv_id (f r) = inv_id r \<and> inv_total (f r) = inv_total r"
  shows "loaded q (update_invoice i f db) = loaded q db"
proof -
  have "loaded q (db\<lparr>bd_invoices := map h (bd_invoices db)\<rparr>) = loaded q db"
    if "\<And>r. inv_id (h r) = inv_id r \<and> inv_total (h r) = inv_total r" for h
    using that by (simp add: loaded_def)
  then show ?thesis
    unfolding update_invoice_def using assms by simp
qed

lemma finalize_frame:
  "loaded q (fst (finalizeIfFullyPaid now r db)) = loaded q db"
  "bd_allocs (fst (finalizeIfFullyPaid now r db)) = bd_allocs db"
  "bd_payments (fst (finalizeIfFullyPaid now r db)) = bd_payments db"
  by (simp_all add: finalizeIfFullyPaid_def update_loaded)

lemma waterfall_good:
  "good_books db \<Longrightarrow> \<forall>x \<in> set rows. loaded (fst x) db \<Longrightarrow> waterfall now p rows rem db = Inr out \<Longrightarrow> good_books (fst out)"
proof (induction now p rows rem db arbitrary: out rule: waterfall.induct)
  case (2 now p r due rs rem db)
  show ?case
  proof (cases "rem \<le> 0 \<or> due \<le> 0")
    case True
    then show ?thesis
      using 2 by (cases "rem \<le> 0") auto
  next
    case pos: False
    show ?thesis
    proof (cases "insert_allocation p (inv_id r) (min rem due) db")
      case (Inl e)
      then show ?thesis
        using 2 pos by (cases e) auto
    next
      case (Inr x)
      obtain a db1 where x: "x = (a, db1)" by fastforce
      let ?db2 = "fst (finalizeIfFullyPaid now r db1)"
      note i = Inr [unfolded x]
      obtain o1 where o1: "waterfall now p rs (rem - min rem due) ?db2 = Inr o1" "fst out = fst o1"
        using 2(6) pos i by (auto simp: Let_def case_prod_unfold and_then_Ok_iff)
      have "good_books db1"
        using insert_good [OF 2(4) i] pos by simp
      moreover have l: "loaded q db1 = loaded q db" for q
        using insert_frame [OF i] by (simp add: loaded_def)
      ultimately have "good_books ?db2"
        using 2(5) by (intro finalize_good) auto
      then show ?thesis
        using 2(3) [of "min rem due" "(a, db1)" a db1 "finalizeIfFullyPaid now r db1" ?db2 "snd (finalizeIfFullyPaid now r db1)" o1] 2(5) o1 i pos l
        by (auto simp: finalize_frame)
    qed
  qed
qed auto

lemma rows_loaded: "x \<in> set (getInvoicesWithBalance org client ids db) \<Longrightarrow> fst x \<in> set (bd_invoices db)"
  by (auto simp: getInvoicesWithBalance_def)

lemma auto_good:
  assumes g: "good_books db"
  shows "good_books (fst (allocateAuto now org p ids db))"
proof -
  have "good_books db'" if "waterfall now p (getInvoicesWithBalance org' c ids db) rem db = Inr (db', y)" for org' c rem db' y
    using waterfall_good [OF g _ that] rows_loaded loaded_row by fastforce
  then show ?thesis
    using g by (auto simp: allocateAuto_def Let_def split: option.split sum.split)
qed

lemma serve_good:
  assumes "good_books db" and "nonneg_amounts r"
  shows "good_books (serve cur now r db)"
proof (cases r)
  case (Reallocate org p f t amount)
  then show ?thesis
    using assms by (cases amount) (auto intro: reallocate_good)
next
  case (VoidInvoice i org)
  then show ?thesis
    using assms(1) settle_good by (simp add: voidInvoiceById_def)
next
  case (CancelInvoice i org)
  then show ?thesis
    using assms(1) settle_good by (simp add: cancelInvoiceForSat_def)
qed (use assms in \<open>auto intro: create_good allocate_good auto_good reassign_good unapply_good destroy_good restore_good\<close>)

text \<open>However requests with amounts that are not negative are sequenced (payments created, allocated
  by hand or by waterfall, moved, reassigned, unapplied, deleted and restored, invoices voided and
  cancelled), no payment is ever allocated beyond its amount, no invoice beyond its total, no payment
  has two live allocations to one invoice, and every invoice marked paid is covered by its live
  allocations.\<close>

theorem books_stay_balanced:
  assumes "good_books db" and "\<forall>r \<in> set rs. nonneg_amounts (snd r)"
  shows "good_books (fold (\<lambda>(now, r). serve cur now r) rs db)"
  using assms
proof (induction rs arbitrary: db)
  case (Cons x rs)
  then show ?case
    using serve_good [of db "snd x" cur "fst x"] by (cases x) simp
qed simp

definition books_sample :: billing_db where
  "books_sample = \<lparr>bd_invoices =
      [\<lparr>inv_id = 5, inv_org = Some 1, inv_client = 9, inv_contract = None, inv_number = ''A-5'', inv_issued = 20, inv_due = 35,
        inv_subtotal = 100, inv_tax = 16, inv_total = 116, inv_rate = 16 / 100, inv_rate_id = None, inv_currency = ''MXN'',
        inv_status = Issued, inv_paid_at = None, inv_deleted = False\<rparr>],
     bd_payments = [\<lparr>pay_id = 7, pay_org = Some 1, pay_client = 9, pay_amount = 150, pay_currency = ''MXN'',
        pay_status = Completed, pay_deleted = False\<rparr>],
     bd_allocs = [], bd_ledger = [], bd_credit_notes = [], bd_cfdi = [], bd_clients = []\<rparr>"

lemma books_stay_balanced_witness:
  "good_books (fold (\<lambda>(now, r). serve ''MXN'' now r)
     [(1, AllocateAuto 1 7 None), (2, CreatePayment 1 9 40 None Completed), (3, Unapply 1 7 5), (4, Allocate 1 8 5 40)] books_sample)"
  by (rule books_stay_balanced)
    (simp_all add: books_sample_def good_books_def books_ok_def rows_ok_def within_totals_def live_for_payment_def
      live_for_invoice_def covered_but_def)

end
