(* ===== verification/BillingProps.thy ===== *)
theory BillingProps
  imports BillingInvariant "HOL-Library.Multiset"
begin

text \<open>What the money operations of theory Billing compute.\<close>

section \<open>The waterfall\<close>

text \<open>The reference: amounts go to the invoices in the order given, each covered before the next.\<close>

fun fifo :: "int \<Rightarrow> (nat \<times> int) list \<Rightarrow> (nat \<times> int) list" where
  "fifo rem [] = []"
| "fifo rem ((i, due) # rs) = (if rem \<le> 0 then [] else (i, min rem due) # fifo (rem - due) rs)"

lemma fifo_empty: "rem \<le> 0 \<Longrightarrow> fifo rem rs = []"
  by (cases "(rem, rs)" rule: fifo.cases) auto

text \<open>The rows the waterfall holds are the live rows of the table.\<close>

definition current :: "billing_db \<Rightarrow> invoice_row \<times> int \<Rightarrow> bool" where
  "current db x \<longleftrightarrow> loaded (fst x) db \<and> snd x = balance_due db (fst x)"

definition remainder_of :: "nat \<Rightarrow> billing_db \<Rightarrow> int" where
  "remainder_of p db = (case payment_of p db of None \<Rightarrow> 0 | Some r \<Rightarrow> pay_amount r - total_of (live_for_payment p db))"

lemma loaded_invoice: "books_ok db \<Longrightarrow> loaded r db \<Longrightarrow> \<exists>q. invoice_of (inv_id r) db = Some q \<and> inv_total q = inv_total r"
  unfolding loaded_def books_ok_def using invoice_of_row by metis

lemma insert_within:
  assumes b: "books_ok db" and c: "current db (r, due)" and p: "payment_of p db \<noteq> None"
    and m: "amount \<le> due" "amount \<le> remainder_of p db" and n: "\<not> live_pair p (inv_id r) db"
  shows "\<exists>a db'. insert_allocation p (inv_id r) amount db = Inr (a, db')"
proof -
  obtain q where "invoice_of (inv_id r) db = Some q" "inv_total q = inv_total r"
    using loaded_invoice [OF b] c by (auto simp: current_def)
  then show ?thesis
    using p m n c by (auto simp: insert_allocation_def alloc_exceeds_def current_def balance_due_def remainder_of_def)
qed

lemma insert_totals:
  assumes "insert_allocation p i amount db = Inr (a, db')"
  shows "total_of (live_for_payment q db') = total_of (live_for_payment q db) + (if q = p then amount else 0)"
    and "total_of (live_for_invoice j db') = total_of (live_for_invoice j db) + (if j = i then amount else 0)"
    and "live_pair q j db' \<longleftrightarrow> live_pair q j db \<or> (q = p \<and> j = i)"
    and "payment_of q db' = payment_of q db"
  using assms by (auto simp: insert_allocation_def live_for_payment_def live_for_invoice_def live_pair_def payment_of_def
      split: if_splits)

lemma finalize_totals:
  "live_for_payment q (fst (finalizeIfFullyPaid now r db)) = live_for_payment q db"
  "live_for_invoice j (fst (finalizeIfFullyPaid now r db)) = live_for_invoice j db"
  "live_pair q j (fst (finalizeIfFullyPaid now r db)) = live_pair q j db"
  "payment_of q (fst (finalizeIfFullyPaid now r db)) = payment_of q db"
  by (simp_all add: live_for_payment_def live_for_invoice_def live_pair_def payment_of_def finalize_frame)

text \<open>One allocation of the waterfall and of the route: the insertion, then the paid flag.\<close>

definition pay_step :: "int \<Rightarrow> nat \<Rightarrow> invoice_row \<Rightarrow> int \<Rightarrow> billing_db \<Rightarrow> billing_db \<Rightarrow> bool" where
  "pay_step now p r amount db db' \<longleftrightarrow>
     (\<exists>a db1. insert_allocation p (inv_id r) amount db = Inr (a, db1) \<and> db' = fst (finalizeIfFullyPaid now r db1))"

lemma pay_step_good:
  assumes "good_books db" and "loaded r db" and "0 \<le> amount" and "pay_step now p r amount db db'"
  shows "good_books db'"
proof -
  obtain a db1 where i: "insert_allocation p (inv_id r) amount db = Inr (a, db1)" and db': "db' = fst (finalizeIfFullyPaid now r db1)"
    using assms(4) by (auto simp: pay_step_def)
  have "loaded r db1"
    using insert_frame [OF i] assms(2) by (simp add: loaded_def)
  then show ?thesis
    using insert_good [OF assms(1) i assms(3)] finalize_good db' by simp
qed

lemma pay_step_effect:
  assumes "pay_step now p r amount db db'"
  shows "remainder_of p db' = (if payment_of p db = None then 0 else remainder_of p db - amount)"
    and "payment_of q db' = payment_of q db"
    and "live_pair q j db' \<longleftrightarrow> live_pair q j db \<or> (q = p \<and> j = inv_id r)"
    and "loaded x db' = loaded x db"
    and "balance_due db' x = balance_due db x - (if inv_id x = inv_id r then amount else 0)"
proof -
  obtain a db1 where i: "insert_allocation p (inv_id r) amount db = Inr (a, db1)" and db': "db' = fst (finalizeIfFullyPaid now r db1)"
    using assms by (auto simp: pay_step_def)
  note t = insert_totals [OF i]
  show "remainder_of p db' = (if payment_of p db = None then 0 else remainder_of p db - amount)"
    by (simp add: remainder_of_def db' finalize_totals t split: option.split)
  show "payment_of q db' = payment_of q db"
    by (simp add: db' finalize_totals t)
  show "live_pair q j db' \<longleftrightarrow> live_pair q j db \<or> (q = p \<and> j = inv_id r)"
    by (simp add: db' finalize_totals t)
  show "loaded x db' = loaded x db"
    using insert_frame [OF i] by (simp add: db' finalize_frame) (simp add: loaded_def)
  show "balance_due db' x = balance_due db x - (if inv_id x = inv_id r then amount else 0)"
    by (simp add: balance_due_def db' finalize_totals t)
qed

lemma waterfall_steps:
  assumes "good_books db" and "payment_of p db \<noteq> None" and "rem = remainder_of p db" and "\<forall>x \<in> set rows. current db x"
    and "distinct (map (inv_id \<circ> fst) rows)"
  shows "\<exists>db' as. waterfall now p rows rem db = Inr (db', as, remainder_of p db')
    \<and> map (\<lambda>a. (na_invoice a, na_amount a)) as =
        fifo rem (map (\<lambda>(r, d). (inv_id r, d)) (filter (\<lambda>(r, d). 0 < d \<and> \<not> live_pair p (inv_id r) db) rows))"
  using assms
proof (induction rows arbitrary: db rem)
  case (Cons x rows)
  obtain r due where x: "x = (r, due)" by fastforce
  show ?case
  proof (cases "rem \<le> 0 \<or> due \<le> 0")
    case True
    then show ?thesis
      using Cons by (cases "rem \<le> 0") (auto simp: x fifo_empty)
  next
    case pos: False
    let ?amount = "min rem due"
    show ?thesis
    proof (cases "live_pair p (inv_id r) db")
      case True
      moreover obtain q where "invoice_of (inv_id r) db = Some q" "inv_total q = inv_total r"
        using loaded_invoice Cons.prems(1,4) by (fastforce simp: current_def x good_books_def)
      ultimately have "insert_allocation p (inv_id r) ?amount db = Inl DuplicateEntry"
        using Cons.prems(2-4) by (auto simp: insert_allocation_def alloc_exceeds_def current_def x balance_due_def remainder_of_def
            split: option.splits)
      then show ?thesis
        using Cons pos True by (simp add: x Let_def)
    next
      case False
      obtain a db1 where i: "insert_allocation p (inv_id r) ?amount db = Inr (a, db1)"
        using insert_within [of db r due p ?amount] Cons.prems False by (auto simp: x good_books_def)
      let ?db2 = "fst (finalizeIfFullyPaid now r db1)"
      have s: "pay_step now p r ?amount db ?db2"
        using i by (auto simp: pay_step_def)
      note e = pay_step_effect [OF s]
      have "good_books ?db2"
        using Cons.prems(1,4) pos by (intro pay_step_good [OF _ _ _ s]) (auto simp: x current_def)
      moreover have other: "inv_id (fst y) \<noteq> inv_id r" if "y \<in> set rows" for y
        using Cons.prems(5) that by (force simp: x)
      moreover have "current ?db2 y" if "y \<in> set rows" for y
        using Cons.prems(4) other [OF that] that by (simp add: current_def e)
      moreover have "filter (\<lambda>(r, d). 0 < d \<and> \<not> live_pair p (inv_id r) ?db2) rows =
          filter (\<lambda>(r, d). 0 < d \<and> \<not> live_pair p (inv_id r) db) rows"
        using other by (intro filter_cong) (auto simp: e)
      ultimately obtain db' as where w: "waterfall now p rows (rem - ?amount) ?db2 = Inr (db', as, remainder_of p db')"
          "map (\<lambda>a. (na_invoice a, na_amount a)) as = fifo (rem - ?amount) (map (\<lambda>(r, d). (inv_id r, d))
             (filter (\<lambda>(r, d). 0 < d \<and> \<not> live_pair p (inv_id r) db) rows))"
        using Cons.IH [of ?db2 "rem - ?amount"] Cons.prems by (auto simp: e x)
      have "fifo (rem - ?amount) rs = fifo (rem - due) rs" for rs
        by (cases "rem \<le> due") (simp_all add: fifo_empty min_def)
      then show ?thesis
        using w pos i False by (simp add: x Let_def case_prod_unfold)
    qed
  qed
qed simp

lemma rows_current:
  assumes "x \<in> set (getInvoicesWithBalance org client ids db)"
  shows "current db x"
  using assms loaded_row by (auto simp: getInvoicesWithBalance_def current_def)

lemma rows_distinct:
  assumes "rows_ok db"
  shows "distinct (map (inv_id \<circ> fst) (getInvoicesWithBalance org client ids db))"
proof -
  have o: "inv_id \<circ> fst \<circ> (\<lambda>r. (r, balance_due db r)) = inv_id"
    by auto
  have "inj_on inv_id (set (bd_invoices db))" "distinct (bd_invoices db)"
    using assms by (simp_all add: rows_ok_def distinct_map)
  then show ?thesis
    unfolding getInvoicesWithBalance_def map_map o distinct_map by (auto intro: inj_on_subset)
qed

lemma own_payment_of:
  assumes "rows_ok db" and "own_payment org p db = Some pay"
  shows "payment_of p db = Some pay" and "pay \<in> set (bd_payments db)" and "pay_id pay = p" and "pay_org pay = Some org"
    and "\<not> pay_deleted pay"
  using find_SomeD [OF assms(2) [unfolded own_payment_def]] payment_of_row [OF assms(1), of pay] by auto

lemma fifo_left: "\<forall>x \<in> set rs. 0 < snd x \<Longrightarrow> 0 \<le> rem \<Longrightarrow>
    sum_list (map snd (fifo rem rs)) = min rem (sum_list (map snd rs))"
proof (induction rem rs rule: fifo.induct)
  case (2 rem i due rs)
  have "0 \<le> sum_list (map snd rs)"
    using 2 by (intro sum_list_nonneg) force
  then show ?case
    using 2 by (cases "rem \<le> due") (auto simp: fifo_empty)
qed simp

text \<open>C13. On balanced books a valid allocate-auto request always succeeds: the unallocated remainder of the
  payment goes to the open invoices of its client oldest first (the order of issue date and id), each
  covered before the next gets anything, an invoice the payment already has a live allocation to
  being skipped; the amounts sum to the smaller of the remainder and what those invoices owe, and the
  reply's remaining credit is what the payment has left.\<close>

theorem allocate_auto_fifo:
  fixes ids rows open'
  assumes g: "good_books db" and o: "own_payment org p db = Some pay" and r: "0 < remainder_of p db"
  defines "rows \<equiv> getInvoicesWithBalance (Some org) (pay_client pay) ids db"
  assumes v: "\<And>xs. ids = Some xs \<Longrightarrow> xs \<noteq> [] \<and> 0 \<notin> set xs \<and> set xs \<subseteq> inv_id ` fst ` set rows"
  defines "open' \<equiv> map (\<lambda>(r, d). (inv_id r, d)) (filter (\<lambda>(r, d). 0 < d \<and> \<not> live_pair p (inv_id r) db) rows)"
  shows "\<exists>db' as. allocateAuto now org p ids db = (db', Ok (as, remainder_of p db'))
    \<and> map (\<lambda>a. (na_invoice a, na_amount a)) as = fifo (remainder_of p db) open'
    \<and> sum_list (map na_amount as) = min (remainder_of p db) (sum_list (map snd open'))
    \<and> sorted (map (\<lambda>x. (inv_issued (fst x), inv_id (fst x))) rows)"
proof -
  have k: "rows_ok db"
    using g by (simp add: good_books_def books_ok_def)
  note pay = own_payment_of [OF k o]
  have rem: "pay_amount pay - total_of (live_for_payment p db) = remainder_of p db"
    by (simp add: remainder_of_def pay)
  obtain db' as where w: "waterfall now p rows (remainder_of p db) db = Inr (db', as, remainder_of p db')"
      "map (\<lambda>a. (na_invoice a, na_amount a)) as = fifo (remainder_of p db) open'"
    using waterfall_steps [OF g _ refl, of p rows now] rows_current rows_distinct [OF k] pay(1)
    unfolding rows_def open'_def by blast
  have "allocateAuto now org p ids db = (db', Ok (as, remainder_of p db'))"
    using v w(1) r unfolding rows_def
    by (cases ids) (fastforce simp: allocateAuto_def o rem Let_def list_ex_iff image_image)+
  moreover have "map na_amount as = map snd (map (\<lambda>a. (na_invoice a, na_amount a)) as)"
    by simp
  then have "sum_list (map na_amount as) = min (remainder_of p db) (sum_list (map snd open'))"
    unfolding w(2) using fifo_left [of open' "remainder_of p db"] r by (auto simp: open'_def)
  moreover have "(\<lambda>x. (inv_issued (fst x), inv_id (fst x))) \<circ> (\<lambda>r. (r, balance_due db r)) = (\<lambda>r. (inv_issued r, inv_id r))"
    by (simp add: comp_def)
  then have "sorted (map (\<lambda>x. (inv_issued (fst x), inv_id (fst x))) rows)"
    unfolding rows_def getInvoicesWithBalance_def map_map by (simp only: sorted_sort_key)
  ultimately show ?thesis
    using w(2) by blast
qed

section \<open>Balances\<close>

text \<open>The two sides of a balance, as sums over the tables.\<close>

definition open_for :: "nat \<Rightarrow> nat \<Rightarrow> invoice_row \<Rightarrow> bool" where
  "open_for org client r \<longleftrightarrow> inv_client r = client \<and> inv_org r = Some org \<and> \<not> inv_deleted r \<and> inv_status r \<in> set PAYABLE_STATUSES"

definition dues :: "nat \<Rightarrow> nat \<Rightarrow> billing_db \<Rightarrow> int" where
  "dues org client db = (\<Sum>r \<leftarrow> bd_invoices db. if open_for org client r then balance_due db r else 0)"

definition spendable :: "nat \<Rightarrow> nat \<Rightarrow> payment_row \<Rightarrow> bool" where
  "spendable org client r \<longleftrightarrow> pay_client r = client \<and> pay_org r = Some org \<and> \<not> pay_deleted r \<and> pay_status r = Completed"

definition credit_left :: "nat \<Rightarrow> nat \<Rightarrow> billing_db \<Rightarrow> int" where
  "credit_left org client db = (\<Sum>r \<leftarrow> bd_payments db.
     if spendable org client r then pay_amount r - total_of (live_for_payment (pay_id r) db) else 0)"

definition notes_left :: "nat \<Rightarrow> nat \<Rightarrow> billing_db \<Rightarrow> int" where
  "notes_left org client db = (\<Sum>n \<leftarrow> filter (\<lambda>n. cn_client n = client \<and> cn_org n = Some org \<and> \<not> cn_deleted n
     \<and> (cn_status n = ''issued'' \<or> cn_status n = ''applied'') \<and> 0 < cn_total n) (bd_credit_notes db). cn_total n)"

lemma sum_sort_key: "sum_list (map f (sort_key k xs)) = sum_list (map f (xs :: 'a list))" for f :: "'a \<Rightarrow> int"
  by (metis mset_map mset_sort sum_mset_sum_list)

lemma sum_filter_if: "sum_list (map f (filter P xs)) = (\<Sum>x \<leftarrow> xs. if P x then f x else (0::int))"
  by (induction xs) auto

lemma sum_positive: "\<forall>x \<in> set xs. (0::int) \<le> f x \<Longrightarrow>
    sum_list (map snd (filter (\<lambda>(c, left). 0 < left) (map (\<lambda>x. (g x, f x)) xs))) = sum_list (map f xs)"
  by (induction xs) auto

lemma dues_rows: "sum_list (map snd (getInvoicesWithBalance (Some org) client None db)) = dues org client db"
proof -
  have "snd \<circ> (\<lambda>r. (r, balance_due db r)) = balance_due db"
    by auto
  then show ?thesis
    by (simp add: getInvoicesWithBalance_def sum_sort_key sum_filter_if dues_def open_for_def)
qed

lemma balance_split:
  assumes "books_ok db"
  shows "fst (computeClientBalance cur org client db) = dues org client db - credit_left org client db - notes_left org client db"
proof -
  let ?left = "\<lambda>r. pay_amount r - total_of (live_for_payment (pay_id r) db)"
  let ?ps = "filter (\<lambda>r. pay_client r = client \<and> pay_org r = Some org \<and> \<not> pay_deleted r \<and> pay_status r = Completed) (bd_payments db)"
  have "\<forall>r \<in> set ?ps. 0 \<le> ?left r"
    using assms by (auto simp: books_ok_def within_totals_def)
  note sum_positive [OF this, of pay_currency]
  moreover have "sum_list (map ?left ?ps) = credit_left org client db"
    unfolding sum_filter_if by (simp add: credit_left_def spendable_def)
  ultimately show ?thesis
    by (simp add: computeClientBalance_def Let_def dues_rows notes_left_def filter_map o_def case_prod_unfold conj_commute conj_left_commute)
qed

lemma sum_one:
  assumes "distinct (map k xs)" and "x \<in> set xs"
  shows "(\<Sum>y \<leftarrow> xs. f y - (if k y = k x \<and> S y then a else 0)) = sum_list (map f xs) - (if S x then a else (0::int))"
  using assms
proof (induction xs)
  case (Cons y ys)
  show ?case
  proof (cases "y = x")
    case True
    then have "k z \<noteq> k x" if "z \<in> set ys" for z
      using Cons.prems that by (auto simp: image_iff)
    then have "(\<Sum>z \<leftarrow> ys. f z - (if k z = k x \<and> S z then a else 0)) = sum_list (map f ys)"
      by (intro arg_cong [of _ _ sum_list] map_cong) auto
    then show ?thesis using True by simp
  next
    case False
    then show ?thesis
      using Cons by (auto simp: image_iff)
  qed
qed simp

text \<open>An allocation moves an amount from the payment's credit to the invoice's balance.\<close>

lemma finalize_map:
  "\<exists>h. bd_invoices (fst (finalizeIfFullyPaid now r db)) = map h (bd_invoices db)
     \<and> (\<forall>q. inv_id (h q) = inv_id q \<and> inv_total (h q) = inv_total q \<and> inv_client (h q) = inv_client q \<and> inv_org (h q) = inv_org q
          \<and> inv_deleted (h q) = inv_deleted q
          \<and> (inv_id q = inv_id r \<and> inv_total r \<le> total_of (live_for_invoice (inv_id r) db) \<or> inv_status (h q) = inv_status q)
          \<and> (inv_id q = inv_id r \<and> inv_total r \<le> total_of (live_for_invoice (inv_id r) db) \<longrightarrow> inv_status (h q) = Paid))"
proof (cases "total_of (live_for_invoice (inv_id r) db) < inv_total r")
  case True
  then show ?thesis
    by (intro exI [of _ "\<lambda>q. q"]) (simp add: finalizeIfFullyPaid_def)
next
  case False
  then show ?thesis
    by (intro exI [of _ "\<lambda>q. if inv_id q = inv_id r then q\<lparr>inv_status := Paid, inv_paid_at := Some now\<rparr> else q"])
      (simp add: finalizeIfFullyPaid_def update_invoice_def)
qed

lemma step_credit:
  assumes "rows_ok db" and "pay \<in> set (bd_payments db)" and "pay_step now (pay_id pay) r amount db db'"
  shows "credit_left org client db' = credit_left org client db - (if spendable org client pay then amount else 0)"
    and "bd_payments db' = bd_payments db" and "bd_credit_notes db' = bd_credit_notes db"
proof -
  obtain a db1 where i: "insert_allocation (pay_id pay) (inv_id r) amount db = Inr (a, db1)"
    and db': "db' = fst (finalizeIfFullyPaid now r db1)"
    using assms(3) by (auto simp: pay_step_def)
  note t = insert_totals [OF i]
  show ps: "bd_payments db' = bd_payments db"
    using insert_frame [OF i] by (simp add: db' finalize_frame)
  have "bd_credit_notes db1 = bd_credit_notes db"
    using i by (auto simp: insert_allocation_def split: if_splits)
  then show "bd_credit_notes db' = bd_credit_notes db"
    by (simp add: db' finalizeIfFullyPaid_def update_invoice_def)
  let ?f = "\<lambda>db r. if spendable org client r then pay_amount r - total_of (live_for_payment (pay_id r) db) else 0"
  have "?f db' y = ?f db y - (if pay_id y = pay_id pay \<and> spendable org client y then amount else 0)" for y
    by (auto simp: db' finalize_totals t)
  then have "credit_left org client db' = (\<Sum>y \<leftarrow> bd_payments db. ?f db y - (if pay_id y = pay_id pay \<and> spendable org client y then amount else 0))"
    by (simp add: credit_left_def ps)
  also have "\<dots> = credit_left org client db - (if spendable org client pay then amount else 0)"
    unfolding credit_left_def using assms(1,2) by (intro sum_one) (simp_all add: rows_ok_def)
  finally show "credit_left org client db' = credit_left org client db - (if spendable org client pay then amount else 0)" .
qed

lemma step_dues:
  assumes k: "rows_ok db" and q: "q \<in> set (bd_invoices db)" "inv_id q = inv_id r" "inv_total q = inv_total r"
    and m: "amount \<le> balance_due db q" and s: "pay_step now p r amount db db'"
  shows "dues org client db' = dues org client db - (if open_for org client q then amount else 0)"
proof -
  obtain a db1 where i: "insert_allocation p (inv_id r) amount db = Inr (a, db1)" and db': "db' = fst (finalizeIfFullyPaid now r db1)"
    using s by (auto simp: pay_step_def)
  note t = insert_totals [OF i]
  have inv: "bd_invoices db1 = bd_invoices db"
    using insert_frame [OF i] by simp
  obtain h where h: "bd_invoices db' = map h (bd_invoices db)"
    "\<And>y. inv_id (h y) = inv_id y \<and> inv_total (h y) = inv_total y \<and> inv_client (h y) = inv_client y \<and> inv_org (h y) = inv_org y
        \<and> inv_deleted (h y) = inv_deleted y
        \<and> (inv_id y = inv_id r \<and> inv_total r \<le> total_of (live_for_invoice (inv_id r) db1) \<or> inv_status (h y) = inv_status y)
        \<and> (inv_id y = inv_id r \<and> inv_total r \<le> total_of (live_for_invoice (inv_id r) db1) \<longrightarrow> inv_status (h y) = Paid)"
    using finalize_map [of now r db1] unfolding db' inv by blast
  let ?f = "\<lambda>db y. if open_for org client y then balance_due db y else 0"
  have e: "balance_due db' (h y) = balance_due db y - (if inv_id y = inv_id r then amount else 0)" for y
    using pay_step_effect(5) [OF s, of "h y"] h(2) [of y] by (simp add: balance_due_def)
  have id: "y = q" if "y \<in> set (bd_invoices db)" "inv_id y = inv_id r" for y
    using invoice_of_row [OF k that(1)] invoice_of_row [OF k q(1)] q(2) that(2) by simp
  have "?f db' (h y) = ?f db y - (if inv_id y = inv_id q \<and> open_for org client y then amount else 0)" if y: "y \<in> set (bd_invoices db)" for y
  proof (cases "inv_id y = inv_id r \<and> inv_total r \<le> total_of (live_for_invoice (inv_id r) db1)")
    case True
    then have "\<not> open_for org client (h y)"
      using h(2) [of y] by (simp add: open_for_def PAYABLE_STATUSES_def)
    moreover have "balance_due db y = amount"
      using True id [OF y] m q t(2) [of "inv_id r"] by (auto simp: balance_due_def)
    ultimately show ?thesis
      using True q(2) by simp
  next
    case False
    then have "inv_status (h y) = inv_status y"
      using h(2) by blast
    then have "open_for org client (h y) = open_for org client y"
      using h(2) [of y] by (simp add: open_for_def)
    then show ?thesis
      using e [of y] q(2) by simp
  qed
  then have "dues org client db' = (\<Sum>y \<leftarrow> bd_invoices db. ?f db y - (if inv_id y = inv_id q \<and> open_for org client y then amount else 0))"
    unfolding dues_def h(1) map_map by (intro arg_cong [of _ _ sum_list] map_cong) simp_all
  also have "\<dots> = dues org client db - (if open_for org client q then amount else 0)"
    unfolding dues_def using k q(1) by (intro sum_one) (simp_all add: rows_ok_def)
  finally show ?thesis .
qed

definition open_row :: "nat \<Rightarrow> nat \<Rightarrow> billing_db \<Rightarrow> invoice_row \<times> int \<Rightarrow> bool" where
  "open_row org client db x \<longleftrightarrow> (\<exists>q \<in> set (bd_invoices db). inv_id q = inv_id (fst x) \<and> inv_total q = inv_total (fst x)
     \<and> open_for org client q)"

lemma step_open:
  assumes s: "pay_step now p r amount db db'" and o: "open_row org client db x" and n: "inv_id (fst x) \<noteq> inv_id r"
  shows "open_row org client db' x"
proof -
  obtain a db1 where i: "insert_allocation p (inv_id r) amount db = Inr (a, db1)" and db': "db' = fst (finalizeIfFullyPaid now r db1)"
    using s by (auto simp: pay_step_def)
  obtain q where q: "q \<in> set (bd_invoices db1)" "inv_id q = inv_id (fst x)" "inv_total q = inv_total (fst x)" "open_for org client q"
    using o insert_frame [OF i] by (auto simp: open_row_def)
  obtain h where h: "bd_invoices db' = map h (bd_invoices db1)"
    "inv_id (h q) = inv_id q" "inv_total (h q) = inv_total q" "inv_client (h q) = inv_client q" "inv_org (h q) = inv_org q"
    "inv_deleted (h q) = inv_deleted q" "inv_id q = inv_id r \<or> inv_status (h q) = inv_status q"
    using finalize_map [of now r db1] unfolding db' by metis
  then have "open_for org client (h q)"
    using q n by (simp add: open_for_def)
  then show ?thesis
    using h q unfolding open_row_def by auto
qed

lemma waterfall_balance:
  "good_books db \<Longrightarrow> pay \<in> set (bd_payments db) \<Longrightarrow> spendable org (pay_client pay) pay
   \<Longrightarrow> \<forall>x \<in> set rows. current db x \<and> open_row org (pay_client pay) db x \<Longrightarrow> distinct (map (inv_id \<circ> fst) rows)
   \<Longrightarrow> waterfall now (pay_id pay) rows rem db = Inr out
   \<Longrightarrow> dues org client (fst out) - credit_left org client (fst out) = dues org client db - credit_left org client db
     \<and> bd_credit_notes (fst out) = bd_credit_notes db"
proof (induction rows arbitrary: db rem out)
  case (Cons x rows)
  obtain r due where x: "x = (r, due)" by fastforce
  let ?amount = "min rem due"
  show ?case
  proof (cases "rem \<le> 0 \<or> due \<le> 0")
    case True
    then show ?thesis
      using Cons by (cases "rem \<le> 0") (auto simp: x)
  next
    case pos: False
    show ?thesis
    proof (cases "insert_allocation (pay_id pay) (inv_id r) ?amount db")
      case (Inl e)
      then show ?thesis
        using Cons pos by (cases e) (auto simp: x Let_def)
    next
      case (Inr y)
      obtain a db1 where i: "insert_allocation (pay_id pay) (inv_id r) ?amount db = Inr (a, db1)"
        using Inr by (cases y) simp
      let ?db2 = "fst (finalizeIfFullyPaid now r db1)"
      have s: "pay_step now (pay_id pay) r ?amount db ?db2"
        using i by (auto simp: pay_step_def)
      have k: "rows_ok db"
        using Cons.prems(1) by (simp add: good_books_def books_ok_def)
      obtain q where q: "q \<in> set (bd_invoices db)" "inv_id q = inv_id r" "inv_total q = inv_total r" "open_for org (pay_client pay) q"
        using Cons.prems(4) by (auto simp: x open_row_def)
      have due: "due = balance_due db q"
        using Cons.prems(4) q by (auto simp: x current_def balance_due_def)
      have step: "dues org client ?db2 - credit_left org client ?db2 = dues org client db - credit_left org client db"
          "bd_payments ?db2 = bd_payments db" "bd_credit_notes ?db2 = bd_credit_notes db"
        using step_dues [OF k q(1-3) _ s, of org client] step_credit(1) [OF k Cons.prems(2) s, of org client] step_credit(2,3) [OF k Cons.prems(2) s] due q(4) Cons.prems(3)
        by (auto simp: open_for_def spendable_def)
      have other: "inv_id (fst y) \<noteq> inv_id r" if "y \<in> set rows" for y
        using Cons.prems(5) that by (force simp: x)
      have "good_books ?db2"
        using Cons.prems(1,4) pos by (intro pay_step_good [OF _ _ _ s]) (auto simp: x current_def)
      moreover have "\<forall>y \<in> set rows. current ?db2 y \<and> open_row org (pay_client pay) ?db2 y"
        using Cons.prems(4) other step_open [OF s] by (simp add: current_def pay_step_effect [OF s])
      moreover obtain o1 where "waterfall now (pay_id pay) rows (rem - ?amount) ?db2 = Inr o1" "fst o1 = fst out"
        using Cons.prems(6) pos i by (auto simp: x Let_def case_prod_unfold and_then_Ok_iff)
      ultimately show ?thesis
        using Cons.IH [of ?db2 "rem - ?amount" o1] Cons.prems(2,3,5) step by simp
    qed
  qed
qed auto

text \<open>Allocating a completed payment by waterfall leaves the balance of every client of the
  organization as it was: what the invoices stop owing is what the payment's credit loses.\<close>

theorem allocation_keeps_balance:
  assumes g: "good_books db" and o: "own_payment org p db = Some pay" and c: "pay_status pay = Completed"
  shows "fst (computeClientBalance cur org client (fst (allocateAuto now org p ids db))) = fst (computeClientBalance cur org client db)"
proof -
  have k: "rows_ok db" and b: "books_ok db"
    using g by (simp_all add: good_books_def books_ok_def)
  note pay = own_payment_of [OF k o]
  have b': "books_ok (fst (allocateAuto now org p ids db))"
    using auto_good [OF g] by (simp add: good_books_def)
  have s: "spendable org (pay_client pay) pay"
    using pay c by (simp add: spendable_def)
  let ?rows = "getInvoicesWithBalance (Some org) (pay_client pay) ids db"
  have open_rows: "open_row org (pay_client pay) db x" if "x \<in> set ?rows" for x
    using that by (auto simp: getInvoicesWithBalance_def open_row_def open_for_def)
  have w: "dues org client db' - credit_left org client db' = dues org client db - credit_left org client db
      \<and> bd_credit_notes db' = bd_credit_notes db" if "waterfall now p ?rows rem db = Inr (db', y)" for rem db' y
  proof -
    from that have "waterfall now (pay_id pay) ?rows rem db = Inr (db', y)"
      by (simp add: pay)
    from waterfall_balance [OF g pay(2) s _ rows_distinct [OF k] this] rows_current open_rows show ?thesis
      by simp
  qed
  have "dues org client (fst (allocateAuto now org p ids db)) - credit_left org client (fst (allocateAuto now org p ids db))
       = dues org client db - credit_left org client db
     \<and> bd_credit_notes (fst (allocateAuto now org p ids db)) = bd_credit_notes db"
    using w by (auto simp: allocateAuto_def o Let_def split: option.split sum.split)
  then show ?thesis
    unfolding balance_split [OF b] balance_split [OF b'] by (simp add: notes_left_def)
qed

section \<open>Voiding\<close>

lemma scoped_row:
  assumes "scoped_invoice i (Some org) db = Some r"
  shows "r \<in> set (bd_invoices db)" "inv_id r = i" "inv_org r = Some org" "\<not> inv_deleted r"
  using find_SomeD [OF assms [unfolded scoped_invoice_def]] by auto

lemma update_twice: "update_invoice i (\<lambda>r. r\<lparr>inv_status := s\<rparr>) (update_invoice i (\<lambda>r. r\<lparr>inv_status := s\<rparr>) db) =
    update_invoice i (\<lambda>r. r\<lparr>inv_status := s\<rparr>) db"
  by (simp add: update_invoice_def o_def cong: if_cong)

lemma find_map: "(\<And>x. P (h x) = P x) \<Longrightarrow> find P (map h xs) = map_option h (find P xs)"
  by (induction xs) auto

lemma scoped_updated:
  "scoped_invoice i org (update_invoice i (\<lambda>r. r\<lparr>inv_status := s\<rparr>) db) =
     map_option (\<lambda>r. r\<lparr>inv_status := s\<rparr>) (scoped_invoice i org db)"
proof -
  have "scoped_invoice i org (update_invoice i (\<lambda>r. r\<lparr>inv_status := s\<rparr>) db) =
     map_option (\<lambda>r. if inv_id r = i then r\<lparr>inv_status := s\<rparr> else r) (scoped_invoice i org db)"
    unfolding scoped_invoice_def update_invoice_def by (simp add: find_map)
  also have "\<dots> = map_option (\<lambda>r. r\<lparr>inv_status := s\<rparr>) (scoped_invoice i org db)"
    unfolding scoped_invoice_def by (intro option.map_cong refl) (auto dest!: find_SomeD simp: set_eq_iff option.set_sel)
  finally show ?thesis .
qed

lemma settle_ledger_frames:
  "bd_allocs (settle_ledger r db) = bd_allocs db" "bd_payments (settle_ledger r db) = bd_payments db"
  "bd_invoices (settle_ledger r db) = bd_invoices db" "bd_cfdi (settle_ledger r db) = bd_cfdi db"
  by (simp_all add: settle_ledger_def Let_def)

lemma void_cases:
  assumes "voidInvoiceById i (Some org) db = (db', Ok row)"
  obtains r where "scoped_invoice i (Some org) db = Some r" "inv_status r \<noteq> Cancelled" "row = r\<lparr>inv_status := Voided\<rparr>"
    "\<not> live_cfdi i (Some org) db" "live_for_invoice i db = []"
    "db' = (let db1 = update_invoice i (\<lambda>r. r\<lparr>inv_status := Voided\<rparr>) db in
        if inv_status r = Voided then db1 else settle_ledger r db1)"
proof -
  obtain r where r: "scoped_invoice i (Some org) db = Some r"
    using assms by (auto simp: voidInvoiceById_def settleInvoiceTerminal_def split: if_splits option.splits)
  have "list_ex (\<lambda>r. inv_id r = i \<and> inv_org r = Some org) (bd_invoices db)"
    using scoped_row [OF r] by (auto simp: list_ex_iff)
  then have l: "live_for_invoice i db = []" "\<not> live_cfdi i (Some org) db"
    using assms by (auto simp: voidInvoiceById_def split: if_splits)
  then show thesis
    using assms r that by (auto simp: voidInvoiceById_def settleInvoiceTerminal_def releaseInvoiceAllocations_def Let_def
        split: if_splits sum.splits)
qed

lemma void_error:
  assumes "voidInvoiceById i (Some org) db = (db', Inl e)"
  shows "db' = db"
proof (cases "scoped_invoice i (Some org) db")
  case None
  then show ?thesis
    using assms by (auto simp: voidInvoiceById_def settleInvoiceTerminal_def split: if_splits)
next
  case (Some r)
  then have "list_ex (\<lambda>r. inv_id r = i \<and> inv_org r = Some org) (bd_invoices db)"
    using scoped_row [OF Some] by (auto simp: list_ex_iff)
  then show ?thesis
    using assms Some by (auto simp: voidInvoiceById_def settleInvoiceTerminal_def releaseInvoiceAllocations_def Let_def
        split: if_splits sum.splits)
qed

lemma void_again:
  assumes v: "voidInvoiceById i (Some org) db = (db', Ok row)"
  shows "voidInvoiceById i (Some org) db' = (db', Ok row)"
proof -
  obtain r where r: "scoped_invoice i (Some org) db = Some r" "row = r\<lparr>inv_status := Voided\<rparr>"
      "\<not> live_cfdi i (Some org) db" "live_for_invoice i db = []"
    and db': "db' = (let db1 = update_invoice i (\<lambda>r. r\<lparr>inv_status := Voided\<rparr>) db in
        if inv_status r = Voided then db1 else settle_ledger r db1)"
    using void_cases [OF v] by metis
  have l: "live_for_invoice i db' = []" "live_cfdi i (Some org) db' = live_cfdi i (Some org) db"
    using r(4) by (auto simp: db' Let_def live_for_invoice_def settle_ledger_frames live_cfdi_def update_invoice_def)
  have inv: "bd_invoices db' = bd_invoices (update_invoice i (\<lambda>r. r\<lparr>inv_status := Voided\<rparr>) db)"
    by (simp add: db' Let_def settle_ledger_frames)
  then have s: "scoped_invoice i (Some org) db' = Some row"
    using scoped_updated [of i "Some org" Voided db] r(1,2) by (simp add: scoped_invoice_def)
  have "update_invoice i (\<lambda>r. r\<lparr>inv_status := Voided\<rparr>) db' = db'"
    using inv by (simp add: update_invoice_def o_def cong: if_cong)
  then show ?thesis
    using l r s by (simp add: voidInvoiceById_def settleInvoiceTerminal_def)
qed

text \<open>C29. Voiding an invoice either changes nothing or happens in full: only an invoice with no live CFDI,
  no live allocation and not cancelled at SAT is voided; its ledger entries then sum to nothing, no
  payment or allocation is touched, and voiding it again changes nothing more.\<close>

theorem void_safe:
  "case voidInvoiceById i (Some org) db of (db', r) \<Rightarrow>
     (case r of
        Inl _ \<Rightarrow> db' = db
      | Inr row \<Rightarrow> \<not> live_cfdi i (Some org) db \<and> live_for_invoice i db = []
          \<and> bd_allocs db' = bd_allocs db \<and> bd_payments db' = bd_payments db
          \<and> (\<exists>r. scoped_invoice i (Some org) db = Some r \<and> inv_status r \<noteq> Cancelled \<and> row = r\<lparr>inv_status := Voided\<rparr>
               \<and> (inv_status r = Voided \<or> filter (\<lambda>l. lg_ref_type l = ''invoice'' \<and> lg_ref l = i \<and> lg_client l = inv_client r
                    \<and> (lg_entry l, lg_amount l) \<noteq> (Debit, 0)) (bd_ledger db') = []))
          \<and> scoped_invoice i (Some org) db' = Some row
          \<and> voidInvoiceById i (Some org) db' = (db', Ok row))"
proof (cases "voidInvoiceById i (Some org) db")
  case v: (Pair db' r)
  show ?thesis
  proof (cases r)
    case (Inl e)
    then show ?thesis
      using v void_error by simp
  next
    case (Inr row)
    obtain r where r: "scoped_invoice i (Some org) db = Some r" "inv_status r \<noteq> Cancelled" "row = r\<lparr>inv_status := Voided\<rparr>"
        "\<not> live_cfdi i (Some org) db" "live_for_invoice i db = []"
      and db': "db' = (let db1 = update_invoice i (\<lambda>r. r\<lparr>inv_status := Voided\<rparr>) db in
        if inv_status r = Voided then db1 else settle_ledger r db1)"
      using void_cases [OF v [unfolded Inr]] by metis
    have "inv_id r = i"
      using scoped_row [OF r(1)] by simp
    then have "filter (\<lambda>l. lg_ref_type l = ''invoice'' \<and> lg_ref l = i \<and> lg_client l = inv_client r
                    \<and> (lg_entry l, lg_amount l) \<noteq> (Debit, 0)) (bd_ledger (settle_ledger r d)) = []" for d
      by (auto simp: settle_ledger_def Let_def filter_empty_conv) (metis entry_type.exhaust)+
    moreover have "scoped_invoice i (Some org) db' = Some row"
      using scoped_updated [of i "Some org" Voided db] r(1,3) by (simp add: db' Let_def scoped_invoice_def settle_ledger_frames)
    ultimately show ?thesis
      using v Inr r void_again [OF v [unfolded Inr]] by (simp add: db' Let_def settle_ledger_frames)
  qed
qed

section \<open>Applied to sample books\<close>

lemma books_sample_good: "good_books books_sample"
  by (simp add: books_sample_def good_books_def books_ok_def rows_ok_def within_totals_def live_for_payment_def
      live_for_invoice_def covered_but_def)

lemma books_sample_payment: "own_payment 1 7 books_sample = Some \<lparr>pay_id = 7, pay_org = Some 1, pay_client = 9,
    pay_amount = 150, pay_currency = ''MXN'', pay_status = Completed, pay_deleted = False\<rparr>"
  by (simp add: books_sample_def own_payment_def)

lemma allocate_auto_fifo_witness:
  "\<exists>db' as. allocateAuto 3 1 7 None books_sample = (db', Ok (as, remainder_of 7 db'))
    \<and> map (\<lambda>a. (na_invoice a, na_amount a)) as = [(5, 116)] \<and> sum_list (map na_amount as) = 116"
proof -
  have rem: "remainder_of 7 books_sample = 150"
    by (simp add: books_sample_def remainder_of_def payment_of_def live_for_payment_def)
  have "map (\<lambda>(r, d). (inv_id r, d)) (filter (\<lambda>(r, d). 0 < d \<and> \<not> live_pair 7 (inv_id r) books_sample)
      (getInvoicesWithBalance (Some 1) 9 None books_sample)) = [(5, 116)]"
    by (simp add: books_sample_def getInvoicesWithBalance_def PAYABLE_STATUSES_def balance_due_def live_for_invoice_def live_pair_def)
  then show ?thesis
    using allocate_auto_fifo [OF books_sample_good books_sample_payment, of None 3] by (auto simp: rem)
qed

lemma allocation_keeps_balance_witness:
  "fst (computeClientBalance ''MXN'' 1 9 (fst (allocateAuto 3 1 7 None books_sample)))
   = fst (computeClientBalance ''MXN'' 1 9 books_sample)"
  by (rule allocation_keeps_balance [OF books_sample_good books_sample_payment]) simp

section \<open>What the books do not rule out\<close>

definition sample_invoice :: "nat \<Rightarrow> int \<Rightarrow> invoice_row" where
  "sample_invoice i amount = \<lparr>inv_id = i, inv_org = Some 1, inv_client = 9, inv_contract = None, inv_number = [], inv_issued = 20, inv_due = 35,
     inv_subtotal = amount, inv_tax = 0, inv_total = amount, inv_rate = 0, inv_rate_id = None, inv_currency = ''MXN'',
     inv_status = Issued, inv_paid_at = None, inv_deleted = False\<rparr>"

definition sample_db :: "payment_status \<Rightarrow> invoice_row list \<Rightarrow> billing_db" where
  "sample_db st invs = \<lparr>bd_invoices = invs,
     bd_payments = [\<lparr>pay_id = 7, pay_org = Some 1, pay_client = 9, pay_amount = 100, pay_currency = ''MXN'',
        pay_status = st, pay_deleted = False\<rparr>],
     bd_allocs = [], bd_ledger = [], bd_credit_notes = [], bd_cfdi = [], bd_clients = []\<rparr>"

definition invoice_statuses :: "billing_db \<Rightarrow> (nat \<times> invoice_status) list" where
  "invoice_statuses db = map (\<lambda>r. (inv_id r, inv_status r)) (bd_invoices db)"

definition run :: "money_request list \<Rightarrow> billing_db \<Rightarrow> billing_db" where
  "run rs db = fold (serve ''MXN'' 3) rs db"

text \<open>A negative reallocation makes room for an allocation beyond the payment.\<close>

lemma reallocation_overpays:
  "invoice_statuses (run [Allocate 1 7 1 100, Reallocate 1 7 1 2 (Some (-900)), Allocate 1 7 3 1000]
     (sample_db Completed [sample_invoice 1 100, sample_invoice 2 100, sample_invoice 3 1000]))
   = [(1, Issued), (2, Issued), (3, Paid)]"
  by code_simp

text \<open>Deleting and restoring a payment revives an allocation that the SAT cancellation had released,
  and the cancelled invoice is paid again.\<close>

lemma restore_unsettles_cancelled:
  "invoice_statuses (run [Allocate 1 7 1 100, CancelInvoice 1 (Some 1)] (sample_db Completed [sample_invoice 1 100]))
     = [(1, Cancelled)]"
  "invoice_statuses (run [Allocate 1 7 1 100, CancelInvoice 1 (Some 1), DestroyPayment 1 7, RestorePayment 1 7]
     (sample_db Completed [sample_invoice 1 100])) = [(1, Paid)]"
  by code_simp+

text \<open>Cancelling a partly paid invoice keeps its allocation alive.\<close>

lemma cancellation_strands_partial_payment:
  "map al_amount (live_for_invoice 1 (run [Allocate 1 7 1 60, CancelInvoice 1 (Some 1)] (sample_db Completed [sample_invoice 1 100])))
   = [60]"
  by code_simp

text \<open>A payment that never completed pays an invoice all the same.\<close>

lemma pending_payment_pays:
  "invoice_statuses (run [AllocateAuto 1 7 None] (sample_db PaymentFailed [sample_invoice 1 100])) = [(1, Paid)]"
  by code_simp

text \<open>An edit lowers the amount of a payment below what is already allocated of it, and its ledger credit
  keeps the old amount.\<close>

lemma edit_unbalances_payment:
  "let db = fst (updatePayment 1 7 (Some 10) None None (run [Allocate 1 7 1 100] (sample_db Completed [sample_invoice 1 100]))) in
     (remainder_of 7 db, invoice_statuses db) = (- 90, [(1, Paid)])"
  by code_simp

end
