(* ===== verification/CrudModel.thy ===== *)
theory CrudModel
  imports JsText "HOL-Library.Char_ord" "HOL-Library.List_Lexorder"
begin

text \<open>
  \<open>src/models/BaseModel.js\<close>: the operations every model inherits. A table is the list of its rows with
  its next automatic id; a row gives a cell for every column. The statements are built as the code
  builds them, as a list of conditions with their bound values, and evaluated on the table: a
  comparison with \<open>NULL\<close> never holds, texts are compared by the collation and a text is compared with
  a number by its numeric value (both parameters). Rows come in the order of their ids unless an
  \<open>ORDER BY\<close> says otherwise, which orders \<open>NULL\<close> first, then numbers, then texts by their bytes, ties
  in the order of the table. Numbers stay below \<open>10 ^ 21\<close>, where they print without an exponent.
\<close>

section \<open>Cells\<close>

datatype cell = Null | Num rat | Text string

instantiation cell :: linorder
begin

fun less_eq_cell :: "cell \<Rightarrow> cell \<Rightarrow> bool" where
  "less_eq_cell Null _ = True"
| "less_eq_cell (Num _) Null = False"
| "less_eq_cell (Num x) (Num y) = (x \<le> y)"
| "less_eq_cell (Num _) (Text _) = True"
| "less_eq_cell (Text s) (Text t) = (s \<le> t)"
| "less_eq_cell (Text _) _ = False"

definition less_cell :: "cell \<Rightarrow> cell \<Rightarrow> bool" where
  "less_cell x y \<longleftrightarrow> x \<le> y \<and> \<not> y \<le> x"

instance
proof
  fix x y z :: cell
  show "(x < y) = (x \<le> y \<and> \<not> y \<le> x)"
    by (rule less_cell_def)
  show "x \<le> x"
    by (cases x) auto
  show "x \<le> y \<Longrightarrow> y \<le> z \<Longrightarrow> x \<le> z"
    by (cases x; cases y; cases z) auto
  show "x \<le> y \<Longrightarrow> y \<le> x \<Longrightarrow> x = y"
    by (cases x; cases y) auto
  show "x \<le> y \<or> y \<le> x"
    by (cases x; cases y) auto
qed

end

type_synonym row = "string \<Rightarrow> cell"

record table =
  tb_rows :: "row list"
  tb_next :: nat

record sql_env =
  same_text :: "string \<Rightarrow> string \<Rightarrow> bool"
  num_of_text :: "string \<Rightarrow> rat"
  sql_now :: cell
  column_default :: "string \<Rightarrow> cell"

fun sql_eq :: "sql_env \<Rightarrow> cell \<Rightarrow> cell \<Rightarrow> bool" where
  "sql_eq env (Num x) (Num y) \<longleftrightarrow> x = y"
| "sql_eq env (Text s) (Text t) \<longleftrightarrow> same_text env s t"
| "sql_eq env (Num x) (Text t) \<longleftrightarrow> x = num_of_text env t"
| "sql_eq env (Text s) (Num y) \<longleftrightarrow> num_of_text env s = y"
| "sql_eq env _ _ \<longleftrightarrow> False"

datatype condition = Eq string cell | IsNull string | NotNull string

fun holds :: "sql_env \<Rightarrow> row \<Rightarrow> condition \<Rightarrow> bool" where
  "holds env r (Eq col v) \<longleftrightarrow> sql_eq env (r col) v"
| "holds env r (IsNull col) \<longleftrightarrow> r col = Null"
| "holds env r (NotNull col) \<longleftrightarrow> r col \<noteq> Null"

definition matches :: "sql_env \<Rightarrow> condition list \<Rightarrow> row \<Rightarrow> bool" where
  "matches env cs r \<longleftrightarrow> list_all (holds env r) cs"

section \<open>Models\<close>

record model =
  md_table :: string
  md_fillable :: "string list"
  md_softDelete :: bool
  md_orgScope :: bool
  md_filterable :: "string list"

type_synonym data = "(string \<times> cell) list"

datatype crud_error =
    RowNotFound string
  | OrgImmutable
  | NoFillableData
  | NoSoftDelete string
  | HookError string
  | NullRecord

definition org_conditions :: "model \<Rightarrow> cell option \<Rightarrow> condition list" where
  "org_conditions m org = (case org of Some o' \<Rightarrow> if md_orgScope m then [Eq ''organization_id'' o'] else [] | None \<Rightarrow> [])"

definition live_conditions :: "model \<Rightarrow> condition list" where
  "live_conditions m = (if md_softDelete m then [IsNull ''deleted_at''] else [])"

definition select_first :: "sql_env \<Rightarrow> condition list \<Rightarrow> table \<Rightarrow> row option" where
  "select_first env cs t = find (matches env cs) (tb_rows t)"

definition findById :: "model \<Rightarrow> sql_env \<Rightarrow> cell \<Rightarrow> cell option \<Rightarrow> table \<Rightarrow> row option" where
  "findById m env id' org t = select_first env (Eq ''id'' id' # org_conditions m org @ live_conditions m) t"

definition findByIdOrFail :: "model \<Rightarrow> sql_env \<Rightarrow> cell \<Rightarrow> cell option \<Rightarrow> table \<Rightarrow> crud_error + row" where
  "findByIdOrFail m env id' org t = (case findById m env id' org t of None \<Rightarrow> Err (RowNotFound (md_table m)) | Some r \<Rightarrow> Ok r)"

definition findByIdIncludingDeleted :: "model \<Rightarrow> sql_env \<Rightarrow> cell \<Rightarrow> cell option \<Rightarrow> table \<Rightarrow> row option" where
  "findByIdIncludingDeleted m env id' org t = select_first env (Eq ''id'' id' # org_conditions m org) t"

definition sortable :: "model \<Rightarrow> string list" where
  "sortable m = md_fillable m @ [''id'', ''created_at'', ''updated_at'']"

definition filter_conditions :: "model \<Rightarrow> data \<Rightarrow> condition list" where
  "filter_conditions m wh = map (\<lambda>(c, v). Eq c v) (filter (\<lambda>(c, _). c \<in> set (md_fillable m) \<or> c \<in> set (md_filterable m)
     \<or> c = ''id'' \<or> c = ''status'' \<or> c = ''organization_id'') wh)"

definition list_conditions :: "model \<Rightarrow> cell option \<Rightarrow> bool \<Rightarrow> bool \<Rightarrow> data \<Rightarrow> condition list" where
  "list_conditions m org withDeleted onlyDeleted wh =
     org_conditions m org
     @ (if md_softDelete m \<and> onlyDeleted then [NotNull ''deleted_at'']
        else if md_softDelete m \<and> \<not> withDeleted then [IsNull ''deleted_at''] else [])
     @ filter_conditions m wh"

record list_opts =
  lo_where :: data
  lo_orderBy :: string
  lo_order :: string
  lo_limit :: "int option"
  lo_offset :: "int option"
  lo_withDeleted :: bool
  lo_onlyDeleted :: bool

text \<open>A limit or offset is a number, \<open>None\<close> for NaN.\<close>

definition safeLimit :: "int option \<Rightarrow> nat" where
  "safeLimit l = nat (max 1 (case l of None \<Rightarrow> 50 | Some n \<Rightarrow> if n = 0 then 50 else n))"

definition safeOffset :: "int option \<Rightarrow> nat" where
  "safeOffset l = nat (max 0 (case l of None \<Rightarrow> 0 | Some n \<Rightarrow> n))"

definition ordered :: "model \<Rightarrow> list_opts \<Rightarrow> row list \<Rightarrow> row list" where
  "ordered m opts rs =
     (let col = (if lo_orderBy opts \<in> set (sortable m) then lo_orderBy opts else ''id'') in
      (if lo_order opts = ''DESC'' then rev else (\<lambda>xs. xs)) (sort_key (\<lambda>r. r col) rs))"

definition selected :: "model \<Rightarrow> sql_env \<Rightarrow> cell option \<Rightarrow> list_opts \<Rightarrow> table \<Rightarrow> row list" where
  "selected m env org opts t =
     (if lo_onlyDeleted opts \<and> \<not> md_softDelete m then []
      else filter (matches env (list_conditions m org (lo_withDeleted opts) (lo_onlyDeleted opts) (lo_where opts))) (tb_rows t))"

definition findAll :: "model \<Rightarrow> sql_env \<Rightarrow> cell option \<Rightarrow> list_opts \<Rightarrow> table \<Rightarrow> row list" where
  "findAll m env org opts t =
     take (safeLimit (lo_limit opts)) (drop (safeOffset (lo_offset opts)) (ordered m opts (selected m env org opts t)))"

definition count_rows :: "model \<Rightarrow> sql_env \<Rightarrow> cell option \<Rightarrow> list_opts \<Rightarrow> table \<Rightarrow> nat" where
  "count_rows m env org opts t = length (selected m env org opts t)"

section \<open>Writes\<close>

definition fillable_data :: "model \<Rightarrow> data \<Rightarrow> data" where
  "fillable_data m d = List.map_filter (\<lambda>c. map_option (Pair c) (map_of d c)) (md_fillable m)"

definition create :: "model \<Rightarrow> sql_env \<Rightarrow> data \<Rightarrow> table \<Rightarrow> table \<times> (crud_error + row option)" where
  "create m env d t =
     (let cols = fillable_data m d in
      if cols = [] then (t, Err NoFillableData)
      else let new = (\<lambda>c. case map_of cols c of Some v \<Rightarrow> v | None \<Rightarrow> if c = ''id'' then Num (of_nat (tb_next t)) else column_default env c);
               t' = t\<lparr>tb_rows := tb_rows t @ [new], tb_next := Suc (tb_next t)\<rparr> in
        (t', Ok (findByIdIncludingDeleted m env (Num (of_nat (tb_next t))) None t')))"

definition set_columns :: "data \<Rightarrow> row \<Rightarrow> row" where
  "set_columns cols r = (\<lambda>c. case map_of cols c of Some v \<Rightarrow> v | None \<Rightarrow> r c)"

text \<open>\<open>UPDATE\<close>: the rows that match are changed; their number is what the driver reports.\<close>

definition update_where :: "sql_env \<Rightarrow> condition list \<Rightarrow> (row \<Rightarrow> row) \<Rightarrow> table \<Rightarrow> table \<times> nat" where
  "update_where env cs f t =
     (t\<lparr>tb_rows := map (\<lambda>r. if matches env cs r then f r else r) (tb_rows t)\<rparr>, length (filter (matches env cs) (tb_rows t)))"

definition update :: "model \<Rightarrow> sql_env \<Rightarrow> cell \<Rightarrow> data \<Rightarrow> cell option \<Rightarrow> table \<Rightarrow> table \<times> (crud_error + row option)" where
  "update m env id' d org t =
     (if md_orgScope m \<and> ''organization_id'' \<in> fst ` set d then (t, Err OrgImmutable)
      else let cols = fillable_data m d in
        if cols = [] then (t, map_sum (\<lambda>e. e) Some (findByIdOrFail m env id' org t))
        else let (t', n) = update_where env (Eq ''id'' id' # org_conditions m org @ live_conditions m) (set_columns cols) t in
          if n = 0 then (t', Err (RowNotFound (md_table m))) else (t', Ok (findById m env id' org t')))"

definition delete_where :: "sql_env \<Rightarrow> condition list \<Rightarrow> table \<Rightarrow> table \<times> nat" where
  "delete_where env cs t =
     (t\<lparr>tb_rows := filter (\<lambda>r. \<not> matches env cs r) (tb_rows t)\<rparr>, length (filter (matches env cs) (tb_rows t)))"

definition found :: "model \<Rightarrow> table \<times> nat \<Rightarrow> table \<times> (crud_error + unit)" where
  "found m r = (fst r, if snd r = 0 then Err (RowNotFound (md_table m)) else Ok ())"

definition forceDelete :: "model \<Rightarrow> sql_env \<Rightarrow> cell \<Rightarrow> cell option \<Rightarrow> table \<Rightarrow> table \<times> (crud_error + unit)" where
  "forceDelete m env id' org t = found m (delete_where env (Eq ''id'' id' # org_conditions m org) t)"

definition set_deleted :: "cell \<Rightarrow> row \<Rightarrow> row" where
  "set_deleted v r = r(''deleted_at'' := v)"

definition delete :: "model \<Rightarrow> sql_env \<Rightarrow> cell \<Rightarrow> cell option \<Rightarrow> table \<Rightarrow> table \<times> (crud_error + unit)" where
  "delete m env id' org t =
     (if md_softDelete m
      then found m (update_where env (Eq ''id'' id' # IsNull ''deleted_at'' # org_conditions m org)
             (set_deleted (sql_now env)) t)
      else forceDelete m env id' org t)"

definition restore :: "model \<Rightarrow> sql_env \<Rightarrow> cell \<Rightarrow> cell option \<Rightarrow> table \<Rightarrow> table \<times> (crud_error + row option)" where
  "restore m env id' org t =
     (if \<not> md_softDelete m then (t, Err (NoSoftDelete (md_table m)))
      else let (t', n) = update_where env (Eq ''id'' id' # NotNull ''deleted_at'' # org_conditions m org)
             (set_deleted Null) t in
        if n = 0 then (t', Err (RowNotFound (md_table m))) else (t', Ok (findById m env id' org t')))"

end
