(* ===== verification/CrudController.thy ===== *)
theory CrudController
  imports CrudModel
begin

text \<open>
  The request handlers of \<open>src/controllers/crudController.js\<close>. A resource's hooks are parameters: a
  guard answers with the error it throws, a hook that runs after the write with the error it throws,
  if any; what hooks do to other tables is theirs. The result of a handler is the table, the audit
  entries it logs and the reply. Serializers, cache invalidation and a resource's own insert
  (\<open>createImpl\<close>) are left out.
\<close>

record hooks =
  hk_beforeCreate :: "data \<Rightarrow> crud_error + data"
  hk_beforeUpdate :: "row \<Rightarrow> data \<Rightarrow> crud_error option"
  hk_beforeDelete :: "row \<Rightarrow> crud_error option"
  hk_beforeRestore :: "cell \<Rightarrow> crud_error option"
  hk_afterCreate :: "row \<Rightarrow> crud_error option"
  hk_afterUpdate :: "row option \<Rightarrow> crud_error option"
  hk_afterRestore :: "row option \<Rightarrow> crud_error option"
  hk_transactionalAfterHooks :: bool
  hk_fatalAfterHooks :: bool

record audit_entry =
  au_action :: string
  au_record :: cell

type_synonym 'a crud_result = "table \<times> audit_entry list \<times> (crud_error + 'a)"

section \<open>Lists\<close>

text \<open>\<open>parseInt(s)\<close> without a radix, and arithmetic with NaN.\<close>

definition parse_int :: "string \<Rightarrow> int option" where
  "parse_int s = (let r = snd (take_sign (js_trim_left s)) in
     if take 2 r = ''0x'' \<or> take 2 r = ''0X'' then parse_int16 s else parse_int10 s)"

definition lift2 :: "(int \<Rightarrow> int \<Rightarrow> int) \<Rightarrow> int option \<Rightarrow> int option \<Rightarrow> int option" where
  "lift2 f x y = (case (x, y) of (Some a, Some b) \<Rightarrow> Some (f a b) | _ \<Rightarrow> None)"

record list_query =
  lq_page :: "string option"
  lq_limit :: "string option"
  lq_order_by :: "string option"
  lq_order :: "string option"
  lq_include_deleted :: "string option"
  lq_only_deleted :: "string option"
  lq_filters :: data

record list_reply =
  lr_data :: "row list"
  lr_total :: nat
  lr_page :: "int option"
  lr_limit :: "int option"
  lr_totalPages :: "int option"

definition number_or :: "int \<Rightarrow> string option \<Rightarrow> int option" where
  "number_or d q = (case q of None \<Rightarrow> Some d | Some s \<Rightarrow> parse_int s)"

definition text_or :: "string \<Rightarrow> string option \<Rightarrow> string" where
  "text_or d q = (case q of Some (c # cs) \<Rightarrow> c # cs | _ \<Rightarrow> d)"

definition list_opts_of :: "list_query \<Rightarrow> list_opts" where
  "list_opts_of q =
     (let limit = number_or 50 (lq_limit q); page = number_or 1 (lq_page q) in
      \<lparr>lo_where = lq_filters q, lo_orderBy = text_or ''id'' (lq_order_by q), lo_order = text_or ''ASC'' (lq_order q),
       lo_limit = lift2 min limit (Some 100),
       lo_offset = lift2 (\<lambda>p l. (max 1 p - 1) * l) page limit,
       lo_withDeleted = (lq_include_deleted q = Some ''true''), lo_onlyDeleted = (lq_only_deleted q = Some ''true'')\<rparr>)"

text \<open>The number of pages; a NaN or infinite quotient is \<open>null\<close> in the reply.\<close>

definition total_pages :: "nat \<Rightarrow> int option \<Rightarrow> int option" where
  "total_pages n l = (case l of None \<Rightarrow> None | Some k \<Rightarrow> if k = 0 then None else Some \<lceil>of_nat n / (of_int k :: rat)\<rceil>)"

definition list_handler :: "model \<Rightarrow> sql_env \<Rightarrow> cell option \<Rightarrow> list_query \<Rightarrow> table \<Rightarrow> list_reply" where
  "list_handler m env org q t =
     (let opts = list_opts_of q; n = count_rows m env org opts t; limit = number_or 50 (lq_limit q) in
      \<lparr>lr_data = findAll m env org opts t, lr_total = n, lr_page = number_or 1 (lq_page q), lr_limit = limit,
       lr_totalPages = total_pages n limit\<rparr>)"

definition get_handler :: "model \<Rightarrow> sql_env \<Rightarrow> cell option \<Rightarrow> string \<Rightarrow> table \<Rightarrow> crud_error + row" where
  "get_handler m env org id' t = findByIdOrFail m env (Text id') org t"

section \<open>Writes\<close>

text \<open>An error of a hook after the write reaches the caller only if such errors are fatal.\<close>

definition after_write :: "hooks \<Rightarrow> crud_error option \<Rightarrow> 'a \<Rightarrow> crud_error + 'a" where
  "after_write hk e r = (case e of Some err \<Rightarrow> if hk_fatalAfterHooks hk then Err err else Ok r | None \<Rightarrow> Ok r)"

definition inject_org :: "model \<Rightarrow> cell option \<Rightarrow> data \<Rightarrow> data" where
  "inject_org m org d =
     (case org of None \<Rightarrow> d
      | Some o' \<Rightarrow> if md_orgScope m then (''organization_id'', o') # filter (\<lambda>(c, _). c \<noteq> ''organization_id'') d else d)"

definition create_handler :: "model \<Rightarrow> sql_env \<Rightarrow> hooks \<Rightarrow> cell option \<Rightarrow> data \<Rightarrow> table \<Rightarrow> row crud_result" where
  "create_handler m env hk org body t =
     (case hk_beforeCreate hk (inject_org m org body) of
        Inl e \<Rightarrow> (t, [], Err e)
      | Inr d \<Rightarrow>
          (case create m env d t of
             (t', Inl e) \<Rightarrow> (t', [], Err e)
           | (t', Inr None) \<Rightarrow> (t', [], Err NullRecord)
           | (t', Inr (Some r)) \<Rightarrow> (t', [\<lparr>au_action = ''create'', au_record = r ''id''\<rparr>], after_write hk (hk_afterCreate hk r) r)))"

text \<open>Fetch, guard, write; in a transaction, when the resource asks for one, a failure rolls the write back.\<close>

definition applyUpdate ::
    "model \<Rightarrow> sql_env \<Rightarrow> hooks \<Rightarrow> cell option \<Rightarrow> string \<Rightarrow> data \<Rightarrow> table \<Rightarrow> table \<times> (crud_error + row option)" where
  "applyUpdate m env hk org id' body t =
     (if md_orgScope m \<and> ''organization_id'' \<in> fst ` set body then (t, Err OrgImmutable)
      else (case findByIdOrFail m env (Text id') org t of
        Inl e \<Rightarrow> (t, Err e)
      | Inr old \<Rightarrow>
          (case hk_beforeUpdate hk old body of
             Some e \<Rightarrow> (t, Err e)
           | None \<Rightarrow>
               (case update m env (Text id') body org t of
                  (t', Inl e) \<Rightarrow> (t', Err e)
                | (t', Inr r) \<Rightarrow>
                    (case (if hk_transactionalAfterHooks hk then hk_afterUpdate hk r else None) of
                       Some e \<Rightarrow> (t, Err e)
                     | None \<Rightarrow> (t', Ok r))))))"

definition update_handler ::
    "string \<Rightarrow> model \<Rightarrow> sql_env \<Rightarrow> hooks \<Rightarrow> cell option \<Rightarrow> string \<Rightarrow> data \<Rightarrow> table \<Rightarrow> row crud_result" where
  "update_handler action m env hk org id' body t =
     (case applyUpdate m env hk org id' body t of
        (t', Inl e) \<Rightarrow> (t', [], Err e)
      | (t', Inr None) \<Rightarrow> (t', [], Err NullRecord)
      | (t', Inr (Some r)) \<Rightarrow> (t', [\<lparr>au_action = action, au_record = r ''id''\<rparr>],
          if hk_transactionalAfterHooks hk then Ok r else after_write hk (hk_afterUpdate hk (Some r)) r))"

definition number_cell :: "int option \<Rightarrow> cell" where
  "number_cell n = (case n of None \<Rightarrow> Null | Some k \<Rightarrow> Num (of_int k))"

definition destroy_handler :: "model \<Rightarrow> sql_env \<Rightarrow> hooks \<Rightarrow> cell option \<Rightarrow> string \<Rightarrow> table \<Rightarrow> unit crud_result" where
  "destroy_handler m env hk org id' t =
     (case findByIdOrFail m env (Text id') org t of
        Inl e \<Rightarrow> (t, [], Err e)
      | Inr old \<Rightarrow>
          (case hk_beforeDelete hk old of
             Some e \<Rightarrow> (t, [], Err e)
           | None \<Rightarrow>
               (case delete m env (Text id') org t of
                  (t', Inl e) \<Rightarrow> (t', [], Err e)
                | (t', Inr _) \<Rightarrow> (t', [\<lparr>au_action = (if md_softDelete m then ''soft_delete'' else ''delete''),
                      au_record = number_cell (parse_int id')\<rparr>], Ok ()))))"

definition restore_handler :: "model \<Rightarrow> sql_env \<Rightarrow> hooks \<Rightarrow> cell option \<Rightarrow> string \<Rightarrow> table \<Rightarrow> row crud_result" where
  "restore_handler m env hk org id' t =
     (case hk_beforeRestore hk (Text id') of
        Some e \<Rightarrow> (t, [], Err e)
      | None \<Rightarrow>
          (case restore m env (Text id') org t of
             (t', Inl e) \<Rightarrow> (t', [], Err e)
           | (t', Inr r) \<Rightarrow>
               (case (if hk_transactionalAfterHooks hk then hk_afterRestore hk r else None) of
                  Some e \<Rightarrow> (t, [], Err e)
                | None \<Rightarrow>
                    (case r of
                       None \<Rightarrow> (t', [], Err NullRecord)
                     | Some row \<Rightarrow> (t', [\<lparr>au_action = ''restore'', au_record = row ''id''\<rparr>],
                         if hk_transactionalAfterHooks hk then Ok row else after_write hk (hk_afterRestore hk r) row)))))"

end
