(* ===== verification/CrudTenants.thy ===== *)
theory CrudTenants
  imports CrudController
begin

text \<open>
  What the generic operations promise: an organization sees and changes its own rows only, lists are
  cut into pages without loss within the page limit, deletion can be undone, and a failed write
  leaves the table alone.
\<close>

section \<open>Requests\<close>

datatype crud_request =
    List list_query
  | Get string
  | Put string data
  | Patch string data
  | Destroy string
  | Restore string

datatype crud_reply = Listed list_reply | One "crud_error + row" | Done "crud_error + unit"

definition reply_with :: "('a \<Rightarrow> crud_reply) \<Rightarrow> table \<times> audit_entry list \<times> 'a \<Rightarrow> table \<times> audit_entry list \<times> crud_reply" where
  "reply_with k out = (fst out, fst (snd out), k (snd (snd out)))"

fun serve_crud ::
    "model \<Rightarrow> sql_env \<Rightarrow> hooks \<Rightarrow> cell option \<Rightarrow> crud_request \<Rightarrow> table \<Rightarrow> table \<times> audit_entry list \<times> crud_reply" where
  "serve_crud m env hk org (List q) t = (t, [], Listed (list_handler m env org q t))"
| "serve_crud m env hk org (Get i) t = (t, [], One (get_handler m env org i t))"
| "serve_crud m env hk org (Put i d) t = reply_with One (update_handler ''update'' m env hk org i d t)"
| "serve_crud m env hk org (Patch i d) t = reply_with One (update_handler ''partial_update'' m env hk org i d t)"
| "serve_crud m env hk org (Destroy i) t = reply_with Done (destroy_handler m env hk org i t)"
| "serve_crud m env hk org (Restore i) t = reply_with One (restore_handler m env hk org i t)"

section \<open>The rows of an organization\<close>

definition own :: "sql_env \<Rightarrow> cell \<Rightarrow> row \<Rightarrow> bool" where
  "own env a r = sql_eq env (r ''organization_id'') a"

definition view :: "sql_env \<Rightarrow> cell \<Rightarrow> table \<Rightarrow> table" where
  "view env a t = t\<lparr>tb_rows := filter (own env a) (tb_rows t)\<rparr>"

definition others :: "sql_env \<Rightarrow> cell \<Rightarrow> table \<Rightarrow> row list" where
  "others env a t = filter (\<lambda>r. \<not> own env a r) (tb_rows t)"

text \<open>An operation that works on the view of an organization and leaves the other rows alone.\<close>

definition tenant_local :: "sql_env \<Rightarrow> cell \<Rightarrow> (table \<Rightarrow> table \<times> 'r) \<Rightarrow> bool" where
  "tenant_local env a h \<longleftrightarrow>
     (\<forall>t. h (view env a t) = (view env a (fst (h t)), snd (h t)) \<and> others env a (fst (h t)) = others env a t)"

definition scoped :: "sql_env \<Rightarrow> cell \<Rightarrow> condition list \<Rightarrow> bool" where
  "scoped env a cs \<longleftrightarrow> (\<forall>r. matches env cs r \<longrightarrow> own env a r)"

lemma scoped_member: "Eq ''organization_id'' a \<in> set cs \<Longrightarrow> scoped env a cs"
  by (auto simp: scoped_def matches_def list_all_iff own_def)

lemma find_filter: "(\<And>x. P x \<Longrightarrow> Q x) \<Longrightarrow> find P (filter Q xs) = find P xs"
  by (induction xs) auto

lemma select_view: "scoped env a cs \<Longrightarrow> select_first env cs (view env a t) = select_first env cs t"
  by (simp add: select_first_def view_def scoped_def find_filter)

lemma filter_view: "scoped env a cs \<Longrightarrow> filter (matches env cs) (filter (own env a) rs) = filter (matches env cs) rs"
  unfolding scoped_def filter_filter by (metis (mono_tags, lifting) filter_cong)

lemma update_where_local:
  assumes s: "scoped env a cs" and f: "\<And>r. own env a (f r) = own env a r"
  shows "tenant_local env a (update_where env cs f)"
proof -
  have "filter (own env a) (map (\<lambda>r. if matches env cs r then f r else r) rs) =
      map (\<lambda>r. if matches env cs r then f r else r) (filter (own env a) rs)"
    and "filter (\<lambda>r. \<not> own env a r) (map (\<lambda>r. if matches env cs r then f r else r) rs) = filter (\<lambda>r. \<not> own env a r) rs" for rs
    using s f by (induction rs) (auto simp: scoped_def)
  then show ?thesis
    using filter_view [OF s] by (simp add: tenant_local_def update_where_def view_def others_def)
qed

lemma delete_where_local:
  assumes s: "scoped env a cs"
  shows "tenant_local env a (delete_where env cs)"
proof -
  have "filter (own env a) (filter (\<lambda>r. \<not> matches env cs r) rs) = filter (\<lambda>r. \<not> matches env cs r) (filter (own env a) rs)"
    and "filter (\<lambda>r. \<not> own env a r) (filter (\<lambda>r. \<not> matches env cs r) rs) = filter (\<lambda>r. \<not> own env a r) rs" for rs
    using s by (induction rs) (auto simp: scoped_def)
  then show ?thesis
    using filter_view [OF s] by (simp add: tenant_local_def delete_where_def view_def others_def)
qed

lemma tenant_localD:
  "tenant_local env a h \<Longrightarrow> h t = (t', r) \<Longrightarrow> h (view env a t) = (view env a t', r) \<and> others env a t' = others env a t"
  unfolding tenant_local_def by (metis fst_conv snd_conv)

lemma tenant_localI:
  "(\<And>t t' r. h t = (t', r) \<Longrightarrow> h (view env a t) = (view env a t', r) \<and> others env a t' = others env a t) \<Longrightarrow> tenant_local env a h"
  unfolding tenant_local_def by (metis prod.collapse)

section \<open>Locality of the operations\<close>

lemma scoped_conditions:
  assumes "md_orgScope m"
  shows "scoped env a (Eq ''id'' i # org_conditions m (Some a))"
    and "scoped env a (Eq ''id'' i # org_conditions m (Some a) @ live_conditions m)"
    and "scoped env a (Eq ''id'' i # c # org_conditions m (Some a))"
    and "scoped env a (list_conditions m (Some a) wd od wh)"
  using assms by (auto intro!: scoped_member simp: org_conditions_def list_conditions_def)

lemma findById_view:
  "md_orgScope m \<Longrightarrow> findById m env i (Some a) (view env a t) = findById m env i (Some a) t"
  "md_orgScope m \<Longrightarrow> findByIdOrFail m env i (Some a) (view env a t) = findByIdOrFail m env i (Some a) t"
  by (simp_all add: findById_def findByIdOrFail_def select_view scoped_conditions)

lemma selected_view: "md_orgScope m \<Longrightarrow> selected m env (Some a) opts (view env a t) = selected m env (Some a) opts t"
  using filter_view [OF scoped_conditions(4)] by (simp add: selected_def view_def)

lemma fillable_keys: "fst ` set (fillable_data m d) \<subseteq> fst ` set d \<inter> set (md_fillable m)"
proof -
  have "fst ` set (List.map_filter (\<lambda>c. map_option (Pair c) (map_of d c)) cs) \<subseteq> fst ` set d \<inter> set cs" for cs
  proof (induction cs)
    case (Cons c cs)
    have "c \<in> fst ` set d" if "map_of d c = Some y" for y
      using map_of_SomeD [OF that] by (auto intro: rev_image_eqI)
    then show ?case
      using Cons by (auto simp: List.map_filter_simps split: option.splits)
  qed (simp add: List.map_filter_simps)
  then show ?thesis
    by (simp add: fillable_data_def)
qed

lemma set_columns_other: "c \<notin> fst ` set cols \<Longrightarrow> set_columns cols r c = r c"
  by (simp add: set_columns_def map_of_eq_None_iff [THEN iffD2])

lemma own_set_columns:
  assumes "''organization_id'' \<notin> fst ` set d"
  shows "own env a (set_columns (fillable_data m d) r) = own env a r"
proof -
  have "''organization_id'' \<notin> fst ` set (fillable_data m d)"
    using assms fillable_keys [of m d] by blast
  then show ?thesis
    by (simp add: own_def set_columns_other)
qed

lemma update_local:
  assumes "md_orgScope m"
  shows "tenant_local env a (update m env i d (Some a))"
proof (cases "''organization_id'' \<in> fst ` set d \<or> fillable_data m d = []")
  case True
  then show ?thesis
    using assms findById_view by (auto simp: tenant_local_def update_def Let_def)
next
  case False
  let ?u = "update_where env (Eq ''id'' i # org_conditions m (Some a) @ live_conditions m) (set_columns (fillable_data m d))"
  have l: "tenant_local env a ?u"
    using False by (intro update_where_local scoped_conditions assms own_set_columns) auto
  show ?thesis
  proof (rule tenant_localI)
    fix t t' r assume u: "update m env i d (Some a) t = (t', r)"
    obtain s n where s: "?u t = (s, n)" by fastforce
    show "update m env i d (Some a) (view env a t) = (view env a t', r) \<and> others env a t' = others env a t"
      using tenant_localD [OF l s] False u s findById_view [OF assms]
      by (auto simp: update_def Let_def)
  qed
qed

lemma found_local: "tenant_local env a h \<Longrightarrow> tenant_local env a (\<lambda>t. found m (h t))"
  by (simp add: tenant_local_def found_def)

lemma own_deleted: "own env a (set_deleted x r) = own env a r"
  by (simp add: own_def set_deleted_def)

lemma delete_local:
  assumes "md_orgScope m"
  shows "tenant_local env a (delete m env i (Some a))"
proof -
  have "tenant_local env a (update_where env (Eq ''id'' i # IsNull ''deleted_at'' # org_conditions m (Some a)) (set_deleted (sql_now env)))"
    by (intro update_where_local scoped_conditions assms own_deleted)
  moreover have "tenant_local env a (delete_where env (Eq ''id'' i # org_conditions m (Some a)))"
    by (intro delete_where_local scoped_conditions assms)
  ultimately show ?thesis
    by (cases "md_softDelete m") (simp_all add: tenant_local_def delete_def forceDelete_def found_def)
qed

lemma restore_local:
  assumes "md_orgScope m"
  shows "tenant_local env a (restore m env i (Some a))"
proof (cases "md_softDelete m")
  case True
  let ?u = "update_where env (Eq ''id'' i # NotNull ''deleted_at'' # org_conditions m (Some a)) (set_deleted Null)"
  have l: "tenant_local env a ?u"
    by (intro update_where_local scoped_conditions assms own_deleted)
  show ?thesis
  proof (rule tenant_localI)
    fix t t' r assume u: "restore m env i (Some a) t = (t', r)"
    obtain s n where s: "?u t = (s, n)" by fastforce
    show "restore m env i (Some a) (view env a t) = (view env a t', r) \<and> others env a t' = others env a t"
      using tenant_localD [OF l s] True u s findById_view [OF assms]
      by (auto simp: restore_def Let_def)
  qed
qed (simp add: tenant_local_def restore_def)

lemma applyUpdate_local:
  assumes "md_orgScope m"
  shows "tenant_local env a (applyUpdate m env hk (Some a) i d)"
proof (rule tenant_localI)
  fix t t' r assume u: "applyUpdate m env hk (Some a) i d t = (t', r)"
  obtain s x where s: "update m env (Text i) d (Some a) t = (s, x)" by fastforce
  show "applyUpdate m env hk (Some a) i d (view env a t) = (view env a t', r) \<and> others env a t' = others env a t"
    using tenant_localD [OF update_local [OF assms] s] u findById_view [OF assms]
    by (auto simp: applyUpdate_def s split: sum.splits option.splits if_splits)
qed

lemma handlers_local:
  assumes m: "md_orgScope m"
  shows "tenant_local env a (update_handler act m env hk (Some a) i d)"
    and "tenant_local env a (destroy_handler m env hk (Some a) i)"
    and "tenant_local env a (restore_handler m env hk (Some a) i)"
proof -
  show "tenant_local env a (update_handler act m env hk (Some a) i d)"
  proof (rule tenant_localI)
    fix t t' r assume u: "update_handler act m env hk (Some a) i d t = (t', r)"
    obtain s x where s: "applyUpdate m env hk (Some a) i d t = (s, x)" by fastforce
    show "update_handler act m env hk (Some a) i d (view env a t) = (view env a t', r) \<and> others env a t' = others env a t"
      using tenant_localD [OF applyUpdate_local [OF m] s] u
      by (auto simp: update_handler_def s split: sum.splits option.splits if_splits)
  qed
  show "tenant_local env a (destroy_handler m env hk (Some a) i)"
  proof (rule tenant_localI)
    fix t t' r assume u: "destroy_handler m env hk (Some a) i t = (t', r)"
    obtain s x where s: "delete m env (Text i) (Some a) t = (s, x)" by fastforce
    show "destroy_handler m env hk (Some a) i (view env a t) = (view env a t', r) \<and> others env a t' = others env a t"
      using tenant_localD [OF delete_local [OF m] s] u findById_view [OF m]
      by (auto simp: destroy_handler_def s split: sum.splits option.splits)
  qed
  show "tenant_local env a (restore_handler m env hk (Some a) i)"
  proof (rule tenant_localI)
    fix t t' r assume u: "restore_handler m env hk (Some a) i t = (t', r)"
    obtain s x where s: "restore m env (Text i) (Some a) t = (s, x)" by fastforce
    show "restore_handler m env hk (Some a) i (view env a t) = (view env a t', r) \<and> others env a t' = others env a t"
      using tenant_localD [OF restore_local [OF m] s] u
      by (auto simp: restore_handler_def s split: sum.splits option.splits if_splits)
  qed
qed

text \<open>C3. For a model with an organization column the generic routes are a per-organization database: the
  reply and the audit entries of a request of an organization are those of the same request on the
  rows of that organization alone, its rows afterwards are those of that request, and the rows of all
  others are unchanged.\<close>

theorem crud_refines_tenant_database:
  assumes "md_orgScope m"
  shows "let (t', audit, reply) = serve_crud m env hk (Some a) req t in
     serve_crud m env hk (Some a) req (view env a t) = (view env a t', audit, reply) \<and> others env a t' = others env a t"
proof -
  note h = handlers_local [OF assms, unfolded tenant_local_def, rule_format]
  show ?thesis
  proof (cases req)
    case (List q)
    then show ?thesis
      by (simp add: list_handler_def findAll_def count_rows_def selected_view [OF assms] Let_def)
  next
    case (Get i)
    then show ?thesis
      by (simp add: get_handler_def findById_view [OF assms])
  next
    case (Put i d)
    then show ?thesis
      by (simp add: reply_with_def h(1))
  next
    case (Patch i d)
    then show ?thesis
      by (simp add: reply_with_def h(1))
  next
    case (Destroy i)
    then show ?thesis
      by (simp add: reply_with_def h(2))
  next
    case (Restore i)
    then show ?thesis
      by (simp add: reply_with_def h(3))
  qed
qed

end
