(* ===== verification/CrudPages.thy ===== *)
theory CrudPages
  imports CrudTenants
begin

section \<open>Isolation over request sequences\<close>

definition tenant_step :: "model \<Rightarrow> sql_env \<Rightarrow> hooks \<Rightarrow> rat \<times> (data + crud_request) \<Rightarrow> table \<Rightarrow> table" where
  "tenant_step m env hk x t =
     (case snd x of
        Inl body \<Rightarrow> fst (create_handler m env hk (Some (Num (fst x))) body t)
      | Inr req \<Rightarrow> fst (serve_crud m env hk (Some (Num (fst x))) req t))"

text \<open>A hook before creation keeps the organization the controller has set.\<close>

definition keeps_org :: "hooks \<Rightarrow> bool" where
  "keeps_org hk \<longleftrightarrow> (\<forall>d d'. hk_beforeCreate hk d = Inr d' \<longrightarrow> map_of d' ''organization_id'' = map_of d ''organization_id'')"

lemma own_one: "own env (Num a) r \<Longrightarrow> own env (Num b) r \<Longrightarrow> a = b"
  by (cases "r ''organization_id''") (auto simp: own_def)

lemma map_of_fillable: "map_of (fillable_data m d) c = (if c \<in> set (md_fillable m) then map_of d c else None)"
proof -
  have "map_of (List.map_filter (\<lambda>c. map_option (Pair c) (map_of d c)) cs) c = (if c \<in> set cs then map_of d c else None)" for cs
    by (induction cs) (auto simp: List.map_filter_simps split: option.splits)
  then show ?thesis
    by (simp add: fillable_data_def)
qed

lemma create_adds:
  assumes m: "md_orgScope m" "''organization_id'' \<in> set (md_fillable m)"
    and hk: "keeps_org hk"
  shows "\<exists>new. own env (Num a) new \<and> tb_rows (fst (create_handler m env hk (Some (Num a)) body t)) \<in> {tb_rows t, tb_rows t @ [new]}"
proof (cases "hk_beforeCreate hk (inject_org m (Some (Num a)) body)")
  case (Inl e)
  have "own env (Num a) (\<lambda>_. Num a)"
    by (simp add: own_def)
  then show ?thesis
    using Inl by (auto simp: create_handler_def)
next
  case (Inr d)
  have o: "map_of d ''organization_id'' = Some (Num a)"
    using hk Inr m(1) by (simp add: keeps_org_def inject_org_def)
  let ?new = "\<lambda>c. case map_of (fillable_data m d) c of Some v \<Rightarrow> v
      | None \<Rightarrow> if c = ''id'' then Num (of_nat (tb_next t)) else column_default env c"
  have "own env (Num a) ?new"
    using o m(2) by (simp add: own_def map_of_fillable)
  moreover have "tb_rows (fst (create m env d t)) \<in> {tb_rows t, tb_rows t @ [?new]}"
    by (simp add: create_def Let_def)
  moreover have "fst (create_handler m env hk (Some (Num a)) body t) = fst (create m env d t)"
    by (cases "create m env d t") (auto simp: create_handler_def Inr split: sum.split option.split)
  ultimately show ?thesis
    by auto
qed

lemma step_isolated:
  assumes m: "md_orgScope m" "''organization_id'' \<in> set (md_fillable m)"
    and hk: "keeps_org hk"
    and n: "fst x \<noteq> b"
  shows "filter (own env (Num b)) (tb_rows (tenant_step m env hk x t)) = filter (own env (Num b)) (tb_rows t)"
proof (cases "snd x")
  case (Inl body)
  then show ?thesis
    using create_adds [OF m hk, where env = env and a = "fst x" and body = body and t = t] own_one [of env _ _ b] n
    by (auto simp: tenant_step_def)
next
  case (Inr req)
  have o: "filter (own env (Num b)) rs = filter (own env (Num b)) (filter (\<lambda>r. \<not> own env (Num (fst x)) r) rs)" for rs
    using own_one n by (auto intro: filter_cong)
  have "others env (Num (fst x)) (tenant_step m env hk x t) = others env (Num (fst x)) t"
    using crud_refines_tenant_database [OF m(1), where env = env and hk = hk and a = "Num (fst x)" and req = req and t = t]
    by (simp add: tenant_step_def Inr case_prod_unfold Let_def)
  then show ?thesis
    using o by (metis others_def)
qed

text \<open>C12. Whatever requests organizations other than \<open>b\<close> make, creations included, the rows of \<open>b\<close> stay as
  they were: none is changed, deleted, added or reordered.\<close>

theorem tenants_isolated:
  assumes "md_orgScope m" and "''organization_id'' \<in> set (md_fillable m)"
    and "keeps_org hk"
    and "b \<notin> fst ` set rs"
  shows "filter (own env (Num b)) (tb_rows (fold (tenant_step m env hk) rs t)) = filter (own env (Num b)) (tb_rows t)"
  using assms(4)
proof (induction rs arbitrary: t)
  case (Cons x rs)
  then show ?case
    using step_isolated [OF assms(1-3), where x = x and b = b and env = env and t = t] by simp
qed simp

section \<open>Pages\<close>

lemma pages_concat: "concat (map (\<lambda>k. take l (drop (k * l) xs)) [0..<n]) = take (n * l) xs"
proof (induction n)
  case (Suc n)
  have "take (Suc n * l) xs = take (n * l) xs @ take l (drop (n * l) xs)"
    by (simp add: take_add [symmetric] add.commute)
  then show ?case
    using Suc by simp
qed simp

lemma parse_int_show [simp]: "parse_int (show_nat n) = Some (int n)"
proof -
  obtain c cs where s: "show_nat n = c # cs" "is_digit c" "\<forall>d \<in> set cs. is_digit d"
    using show_nat_digits [of n] by (cases "show_nat n") auto
  have "take_sign (js_trim_left (show_nat n)) = (1, show_nat n)"
    using s by (simp add: digit_no_space take_sign_digit)
  moreover have "\<not> is_digit (CHR ''x'')" "\<not> is_digit (CHR ''X'')"
    by (simp_all add: is_digit_def code_def)
  then have "take 2 (show_nat n) \<noteq> ''0x''" "take 2 (show_nat n) \<noteq> ''0X''"
    using s by (cases cs; auto simp: numeral_2_eq_2)+
  ultimately show ?thesis
    by (simp add: parse_int_def)
qed

lemma list_rows:
  assumes "number_or 50 (lq_limit q) = Some l"
  defines "page \<equiv> number_or 1 (lq_page q)" and "opts \<equiv> list_opts_of q"
  shows "lr_data (list_handler m env org q t) =
     take (safeLimit (Some (min l 100))) (drop (safeOffset (map_option (\<lambda>p. (max 1 p - 1) * l) page)) (ordered m opts (selected m env org opts t)))"
  using assms(1) unfolding page_def opts_def
  by (simp add: list_handler_def findAll_def list_opts_of_def Let_def lift2_def split: option.split)

definition page_query :: "list_query \<Rightarrow> nat \<Rightarrow> list_query" where
  "page_query q k = q\<lparr>lq_page := Some (show_nat k)\<rparr>"

text \<open>The rows of a query in the order of the reply, before they are cut into pages.\<close>

definition listing :: "model \<Rightarrow> sql_env \<Rightarrow> cell option \<Rightarrow> list_query \<Rightarrow> table \<Rightarrow> row list" where
  "listing m env org q t = ordered m (list_opts_of q) (selected m env org (list_opts_of q) t)"

lemma listing_page: "listing m env org (q\<lparr>lq_page := p\<rparr>) t = listing m env org q t"
  by (simp add: listing_def ordered_def selected_def list_opts_of_def Let_def)

lemma page_rows:
  assumes "number_or 50 (lq_limit q) = Some (int l)" and "1 \<le> l"
  shows "lr_data (list_handler m env org (page_query q (Suc k)) t) = take (min l 100) (drop (k * l) (listing m env org q t))"
proof -
  have "safeLimit (Some (min (int l) 100)) = min l 100"
    using assms(2) by (auto simp: safeLimit_def min_def)
  moreover have "safeOffset (Some ((max 1 (int (Suc k)) - 1) * int l)) = k * l"
    by (simp add: safeOffset_def nat_mult_distrib)
  ultimately show ?thesis
    using list_rows [of "page_query q (Suc k)" "int l" m env org t] assms(1) listing_page
    by (simp add: page_query_def number_or_def listing_def)
qed

lemma listing_length: "length (listing m env org q t) = lr_total (list_handler m env org q t)"
  by (simp add: listing_def ordered_def list_handler_def count_rows_def Let_def)

text \<open>With a page limit of 1 to 100 the pages of a list, put together, are the whole list: the reply's
  number of pages is enough, and no row is missing or shown twice.\<close>

theorem pages_cover_list:
  assumes "number_or 50 (lq_limit q) = Some (int l)" and "1 \<le> l" and "l \<le> 100"
    and "lr_totalPages (list_handler m env org q t) = Some (int n)"
  shows "concat (map (\<lambda>k. lr_data (list_handler m env org (page_query q (Suc k)) t)) [0..<n]) = listing m env org q t"
proof -
  let ?xs = "listing m env org q t"
  have "\<lceil>of_nat (length ?xs) / (of_nat l :: rat)\<rceil> = int n"
    using assms(1,2,4) listing_length [of m env org q t] by (simp add: list_handler_def total_pages_def Let_def split: if_splits)
  then have "of_nat (length ?xs) / (of_nat l :: rat) \<le> of_nat n"
    by linarith
  then have "(of_nat (length ?xs) :: rat) \<le> of_nat (n * l)"
    using assms(2) by (simp add: divide_le_eq)
  then have "length ?xs \<le> n * l"
    by (simp only: of_nat_le_iff)
  moreover have "concat (map (\<lambda>k. lr_data (list_handler m env org (page_query q (Suc k)) t)) [0..<n]) = take (n * l) ?xs"
    using page_rows [OF assms(1,2)] assms(3) pages_concat by (simp add: min_def)
  ultimately show ?thesis by simp
qed

text \<open>With a larger limit the offset counts the requested limit but a page holds 100 rows: the rows after
  the first hundred of every page are on no page at all.\<close>

theorem oversized_pages_skip_rows:
  assumes "number_or 50 (lq_limit q) = Some (int l)" and "100 < l" and "distinct (listing m env org q t)"
    and "100 < length (listing m env org q t)"
  shows "listing m env org q t ! 100 \<notin> set (lr_data (list_handler m env org (q\<lparr>lq_page := p\<rparr>) t))"
proof -
  let ?xs = "listing m env org q t"
  define k where "k = (case number_or 1 p of None \<Rightarrow> 0 | Some n \<Rightarrow> nat (max 1 n - 1))"
  have off: "safeOffset (map_option (\<lambda>p. (max 1 p - 1) * int l) (number_or 1 p)) = k * l"
    by (auto simp: safeOffset_def k_def nat_mult_distrib split: option.split)
  have rows: "lr_data (list_handler m env org (q\<lparr>lq_page := p\<rparr>) t) = take 100 (drop (k * l) ?xs)"
    using list_rows [of "q\<lparr>lq_page := p\<rparr>" "int l" m env org t] assms(1,2) listing_page off
    by (simp add: listing_def safeLimit_def)
  have "?xs ! 100 \<noteq> take 100 (drop (k * l) ?xs) ! i" if "i < length (take 100 (drop (k * l) ?xs))" for i
  proof -
    have i: "i < 100" "k * l + i < length ?xs"
      using that by auto
    moreover have "k * l + i \<noteq> 100"
      using i(1) assms(2) by (cases k) auto
    ultimately show ?thesis
      using assms(3,4) by (simp add: nth_eq_iff_index_eq)
  qed
  then show ?thesis
    unfolding rows by (metis in_set_conv_nth)
qed

end
