(* ===== verification/CrudProps.thy ===== *)
theory CrudProps
  imports CrudPages
begin

section \<open>Updates\<close>

definition crud_key :: "model \<Rightarrow> cell option \<Rightarrow> string \<Rightarrow> condition list" where
  "crud_key m org i = Eq ''id'' (Text i) # org_conditions m org @ live_conditions m"

definition reserved :: "string list" where
  "reserved = [''id'', ''organization_id'', ''deleted_at'']"

lemma key_columns:
  assumes "\<And>c. c \<in> set reserved \<Longrightarrow> r' c = r c"
  shows "matches env (crud_key m org i) r' = matches env (crud_key m org i) r"
  using assms by (auto simp: crud_key_def matches_def org_conditions_def live_conditions_def reserved_def split: option.split)

lemma find_update: "(\<And>r. P r \<Longrightarrow> P (f r)) \<Longrightarrow> find P (map (\<lambda>r. if P r then f r else r) xs) = map_option f (find P xs)"
  by (induction xs) auto

lemma find_filter_Nil: "find P xs = Some x \<Longrightarrow> filter P xs \<noteq> []"
  by (induction xs) (auto split: if_splits)

lemma set_columns_Nil [simp]: "set_columns [] r = r"
  by (simp add: set_columns_def)

lemma disjoint_keys: "A \<inter> (F - {x}) = {} \<Longrightarrow> x \<notin> D \<Longrightarrow> K \<subseteq> D \<inter> F \<Longrightarrow> A \<inter> K = {}"
  by blast

lemma update_found:
  assumes f: "findById m env (Text i) org t = Some old" and d: "md_orgScope m \<longrightarrow> ''organization_id'' \<notin> fst ` set d"
    and k: "set reserved \<inter> fst ` set (fillable_data m d) = {}"
  shows "update m env (Text i) d org t =
     (t\<lparr>tb_rows := map (\<lambda>r. if matches env (crud_key m org i) r then set_columns (fillable_data m d) r else r) (tb_rows t)\<rparr>,
      Ok (Some (set_columns (fillable_data m d) old)))"
proof -
  let ?f = "set_columns (fillable_data m d)"
  have m: "matches env (crud_key m org i) (?f r) = matches env (crud_key m org i) r" for r
    using k by (intro key_columns set_columns_other) blast
  have old: "find (matches env (crud_key m org i)) (tb_rows t) = Some old"
    using f by (simp add: findById_def select_first_def crud_key_def)
  then have n: "filter (matches env (crud_key m org i)) (tb_rows t) \<noteq> []"
    by (rule find_filter_Nil)
  show ?thesis
  proof (cases "fillable_data m d = []")
    case True
    then show ?thesis
      using d f by (auto simp: update_def findByIdOrFail_def True cong: if_cong)
  next
    case False
    then show ?thesis
      using d n old find_update [of "matches env (crud_key m org i)" ?f "tb_rows t"] m
      unfolding update_def Let_def crud_key_def [symmetric] findById_def select_first_def update_where_def
      by auto
  qed
qed

text \<open>An accepted update changes the addressed row, in the columns the request names that the model lets
  be filled, and nothing else; the reply is the row as stored afterwards and one audit entry is
  written.\<close>

theorem update_writes_fillable_columns:
  assumes f: "findById m env (Text i) org t = Some old" and d: "''organization_id'' \<notin> fst ` set d"
    and k: "set reserved \<inter> (set (md_fillable m) - {''organization_id''}) = {}"
    and h: "hk_beforeUpdate hk old d = None" "\<And>r. hk_afterUpdate hk r = None"
  defines "new \<equiv> \<lambda>r. (\<lambda>c. if c \<in> set (md_fillable m) \<and> c \<in> fst ` set d then the (map_of d c) else r c)"
  shows "update_handler act m env hk org i d t =
     (t\<lparr>tb_rows := map (\<lambda>r. if matches env (crud_key m org i) r then new r else r) (tb_rows t)\<rparr>,
      [\<lparr>au_action = act, au_record = new old ''id''\<rparr>], Ok (new old))"
proof -
  have n: "set_columns (fillable_data m d) r = new r" for r
  proof
    fix c
    have "map_of d c = Some (the (map_of d c))" if "c \<in> fst ` set d"
      using that map_of_eq_None_iff [of d c] by (cases "map_of d c") auto
    then show "set_columns (fillable_data m d) r c = new r c"
      by (cases "c \<in> fst ` set d") (auto simp: set_columns_def map_of_fillable new_def map_of_eq_None_iff [THEN iffD2] split: option.split)
  qed
  have "set reserved \<inter> fst ` set (fillable_data m d) = {}"
    by (rule disjoint_keys [OF k d fillable_keys])
  then have u: "update m env (Text i) d org t =
     (t\<lparr>tb_rows := map (\<lambda>r. if matches env (crud_key m org i) r then new r else r) (tb_rows t)\<rparr>, Ok (Some (new old)))"
    using update_found [OF f] d n by simp
  show ?thesis
    using f d h by (simp add: update_handler_def applyUpdate_def findByIdOrFail_def u after_write_def)
qed

section \<open>Deletion and restoration\<close>




section \<open>Failures\<close>





section \<open>Applied to a sample resource\<close>

definition sample_model :: model where
  "sample_model = \<lparr>md_table = ''sites'', md_fillable = [''organization_id'', ''name''], md_softDelete = True, md_orgScope = True,
     md_filterable = []\<rparr>"

definition crud_env :: sql_env where
  "crud_env = \<lparr>same_text = (=), num_of_text = (\<lambda>s. of_nat (digits_val s)), sql_now = Num 99, column_default = (\<lambda>_. Null)\<rparr>"

definition sample_row :: "rat \<Rightarrow> rat \<Rightarrow> row" where
  "sample_row i o' = (\<lambda>c. if c = ''id'' then Num i else if c = ''organization_id'' then Num o' else Null)"

definition sample_table :: table where
  "sample_table = \<lparr>tb_rows = [sample_row 1 7, sample_row 2 8], tb_next = 3\<rparr>"

definition no_hooks :: hooks where
  "no_hooks = \<lparr>hk_beforeCreate = Ok, hk_beforeUpdate = (\<lambda>_ _. None), hk_beforeDelete = (\<lambda>_. None), hk_beforeRestore = (\<lambda>_. None),
     hk_afterCreate = (\<lambda>_. None), hk_afterUpdate = (\<lambda>_. None), hk_afterRestore = (\<lambda>_. None),
     hk_transactionalAfterHooks = False, hk_fatalAfterHooks = False\<rparr>"

lemma sample_found: "findById sample_model crud_env (Text ''1'') (Some (Num 7)) sample_table = Some (sample_row 1 7)"
  by (simp add: findById_def select_first_def sample_model_def crud_env_def sample_table_def sample_row_def
      org_conditions_def live_conditions_def matches_def digits_val_def digit_val_def code_def)

lemma crud_refines_tenant_database_witness:
  "let (t', audit, reply) = serve_crud sample_model crud_env no_hooks (Some (Num 7)) (Destroy ''1'') sample_table in
     serve_crud sample_model crud_env no_hooks (Some (Num 7)) (Destroy ''1'') (view crud_env (Num 7) sample_table)
       = (view crud_env (Num 7) t', audit, reply) \<and> others crud_env (Num 7) t' = others crud_env (Num 7) sample_table"
  by (rule crud_refines_tenant_database) (simp add: sample_model_def)

lemma tenants_isolated_witness:
  "filter (own crud_env (Num 8)) (tb_rows (fold (tenant_step sample_model crud_env no_hooks)
     [(7, Inl [(''name'', Text ''a''), (''organization_id'', Num 8)]), (7, Inr (Destroy ''2'')), (9, Inr (Put ''2'' [(''name'', Null)]))] sample_table))
   = filter (own crud_env (Num 8)) (tb_rows sample_table)"
  by (rule tenants_isolated) (simp_all add: sample_model_def no_hooks_def keeps_org_def)

definition sample_query :: "string \<Rightarrow> list_query" where
  "sample_query l = \<lparr>lq_page = None, lq_limit = Some l, lq_order_by = None, lq_order = None, lq_include_deleted = None,
     lq_only_deleted = None, lq_filters = []\<rparr>"

lemma pages_cover_list_witness:
  "concat (map (\<lambda>k. lr_data (list_handler sample_model crud_env (Some (Num 7)) (page_query (sample_query (show_nat 1)) (Suc k)) sample_table))
     [0..<1]) = listing sample_model crud_env (Some (Num 7)) (sample_query (show_nat 1)) sample_table"
proof (rule pages_cover_list [where l = 1])
  show "lr_totalPages (list_handler sample_model crud_env (Some (Num 7)) (sample_query (show_nat 1)) sample_table) = Some (int 1)"
    by (simp add: list_handler_def sample_query_def number_or_def total_pages_def count_rows_def selected_def list_opts_of_def Let_def
        sample_model_def sample_table_def list_conditions_def org_conditions_def filter_conditions_def matches_def sample_row_def crud_env_def)
qed (simp_all add: sample_query_def number_or_def)

lemma update_writes_fillable_columns_witness:
  "\<exists>t' r. update_handler ''update'' sample_model crud_env no_hooks (Some (Num 7)) ''1'' [(''name'', Text ''x''), (''id'', Num 2)] sample_table
     = (t', [\<lparr>au_action = ''update'', au_record = Num 1\<rparr>], Ok r)"
  using update_writes_fillable_columns [OF sample_found, of "[(''name'', Text ''x''), (''id'', Num 2)]" no_hooks "''update''"]
  by (simp add: sample_model_def no_hooks_def reserved_def sample_row_def)



definition long_table :: table where
  "long_table = \<lparr>tb_rows = map (\<lambda>i. sample_row (of_nat i) 7) [0..<101], tb_next = 101\<rparr>"

lemma long_listing:
  "listing sample_model crud_env (Some (Num 7)) (sample_query (show_nat 200)) long_table = tb_rows long_table"
proof -
  let ?q = "list_opts_of (sample_query (show_nat 200))"
  have q: "lo_order ?q = ''ASC''" "lo_orderBy ?q = ''id''" "\<not> lo_onlyDeleted ?q" "\<not> lo_withDeleted ?q" "lo_where ?q = []"
    by (simp_all add: list_opts_of_def sample_query_def text_or_def Let_def)
  have all: "filter (matches crud_env (list_conditions sample_model (Some (Num 7)) False False [])) (tb_rows long_table) = tb_rows long_table"
    by (intro filter_True) (auto simp: long_table_def list_conditions_def org_conditions_def sample_model_def
        filter_conditions_def matches_def sample_row_def crud_env_def)
  have "sorted (map (\<lambda>r. r ''id'') (tb_rows long_table))"
    by (simp add: long_table_def sample_row_def comp_def sorted_map sorted_wrt_iff_nth_less)
  then show ?thesis
    by (simp add: listing_def selected_def q all ordered_def Let_def sorted_sort_id sort_key_id_if_sorted)
qed

lemma oversized_pages_skip_rows_witness:
  "listing sample_model crud_env (Some (Num 7)) (sample_query (show_nat 200)) long_table ! 100
     \<notin> set (lr_data (list_handler sample_model crud_env (Some (Num 7)) ((sample_query (show_nat 200))\<lparr>lq_page := Some ''2''\<rparr>) long_table))"
proof (rule oversized_pages_skip_rows [where l = 200])
  have "inj (\<lambda>i. sample_row (of_nat i) 7)"
    by (rule injI) (drule fun_cong [of _ _ "''id''"], simp add: sample_row_def)
  then show "distinct (listing sample_model crud_env (Some (Num 7)) (sample_query (show_nat 200)) long_table)"
    unfolding long_listing by (simp add: long_table_def distinct_map inj_on_subset [of _ UNIV])
  show "100 < length (listing sample_model crud_env (Some (Num 7)) (sample_query (show_nat 200)) long_table)"
    unfolding long_listing by (simp add: long_table_def)
qed (simp_all add: sample_query_def number_or_def)

end
