(* ===== verification/Validation.thy ===== *)
theory Validation
  imports JsText
begin

text \<open>
  The request validation of \<open>src/middleware/validate.js\<close>. A JSON body is a list of fields with
  values; a schema the list of its fields with their rules. A rule's regular expression is a
  predicate on strings. The coercion of 0 and 1 to booleans is part of the result.
\<close>

section \<open>Values\<close>

datatype js_val =
    JUndef
  | JNull
  | JBool bool
  | JNum rat
  | JStr string
  | JArr "js_val list"
  | JObj "(string \<times> js_val) list"

definition missing :: "js_val \<Rightarrow> bool" where
  "missing v \<longleftrightarrow> v = JUndef \<or> v = JNull"

type_synonym body = "(string \<times> js_val) list"


definition put_field :: "string \<Rightarrow> js_val \<Rightarrow> body \<Rightarrow> body" where
  "put_field f v b = map (\<lambda>(g, w). (g, if g = f then v else w)) b"

text \<open>\<open>Array.includes\<close> compares arrays and objects by identity, and a parsed body is identical to no
  constant of a schema.\<close>

fun same_value :: "js_val \<Rightarrow> js_val \<Rightarrow> bool" where
  "same_value (JArr _) _ = False"
| "same_value (JObj _) _ = False"
| "same_value v w = (v = w)"

section \<open>Rules\<close>

record rules =
  ru_type :: "string option"
  ru_required :: bool
  ru_min :: "rat option"
  ru_max :: "rat option"
  ru_enum :: "js_val list option"
  ru_pattern :: "(string \<Rightarrow> bool) option"


datatype problem = Required | MustBe string | OneOf | TooShort | TooLong | TooSmall | TooLarge | BadFormat

definition is_alnum :: "char \<Rightarrow> bool" where
  "is_alnum c \<longleftrightarrow> is_digit c \<or> (65 \<le> code c \<and> code c \<le> 90) \<or> (97 \<le> code c \<and> code c \<le> 122)"

definition email_label :: "string \<Rightarrow> bool" where
  "email_label s \<longleftrightarrow> s \<noteq> [] \<and> length s \<le> 63 \<and> is_alnum (hd s) \<and> is_alnum (last s)
     \<and> list_all (\<lambda>c. is_alnum c \<or> c = CHR ''-'') s"

definition is_email :: "string \<Rightarrow> bool" where
  "is_email s = (case js_split CHR ''@'' s of
     [local, domain] \<Rightarrow> local \<noteq> [] \<and> list_all (\<lambda>c. is_alnum c \<or> c \<in> set ''.!#$%&*+/=?^_`{|}~-'' \<or> code c = 39) local
       \<and> list_all email_label (js_split CHR ''.'' domain)
   | _ \<Rightarrow> False)"

section \<open>Checks\<close>

text \<open>The chain of type checks; a type it does not name is not checked.\<close>

definition type_check :: "string option \<Rightarrow> js_val \<Rightarrow> problem list" where
  "type_check ty v =
     (if ty = Some ''string'' then (case v of JStr _ \<Rightarrow> [] | _ \<Rightarrow> [MustBe ''a string''])
      else if ty = Some ''number'' then (case v of JNum _ \<Rightarrow> [] | _ \<Rightarrow> [MustBe ''a number''])
      else if ty = Some ''boolean''
      then (case v of JBool _ \<Rightarrow> [] | JNum n \<Rightarrow> if n = 0 \<or> n = 1 then [] else [MustBe ''a boolean''] | _ \<Rightarrow> [MustBe ''a boolean''])
      else if ty = Some ''array'' then (case v of JArr _ \<Rightarrow> [] | _ \<Rightarrow> [MustBe ''an array''])
      else if ty = Some ''object'' then (case v of JObj _ \<Rightarrow> [] | _ \<Rightarrow> [MustBe ''an object''])
      else if ty = Some ''email'' then (case v of JStr s \<Rightarrow> if is_email s then [] else [MustBe ''a valid email''] | _ \<Rightarrow> [])
      else [])"


definition below :: "rat \<Rightarrow> rat option \<Rightarrow> bool" where
  "below x m = (case m of None \<Rightarrow> False | Some b \<Rightarrow> x < b)"

definition above :: "rat \<Rightarrow> rat option \<Rightarrow> bool" where
  "above x m = (case m of None \<Rightarrow> False | Some b \<Rightarrow> b < x)"

definition value_checks :: "rules \<Rightarrow> js_val \<Rightarrow> problem list" where
  "value_checks r v =
     (case ru_enum r of None \<Rightarrow> [] | Some vs \<Rightarrow> if list_ex (same_value v) vs then [] else [OneOf])
     @ (case v of
          JStr s \<Rightarrow> (if below (of_nat (js_length s)) (ru_min r) then [TooShort] else [])
                 @ (if above (of_nat (js_length s)) (ru_max r) then [TooLong] else [])
        | JNum n \<Rightarrow> (if below n (ru_min r) then [TooSmall] else []) @ (if above n (ru_max r) then [TooLarge] else [])
        | _ \<Rightarrow> [])
     @ (case v of JStr s \<Rightarrow> (case ru_pattern r of None \<Rightarrow> [] | Some p \<Rightarrow> if p s then [] else [BadFormat]) | _ \<Rightarrow> [])"



section \<open>What passes\<close>

definition admits :: "rules \<Rightarrow> js_val \<Rightarrow> bool" where
  "admits r v \<longleftrightarrow>
     (if missing v then \<not> ru_required r
      else \<not> (ru_required r \<and> v = JStr []) \<and> type_check (ru_type r) v = [] \<and> value_checks r v = [])"



lemma keys_put [simp]: "map fst (put_field f v b) = map fst b"
  by (simp add: put_field_def comp_def case_prod_unfold)









section \<open>Soundness and completeness\<close>













section \<open>What the checks leave open\<close>

text \<open>A type the chain does not know is not checked, and \<open>email\<close> is checked on strings only.\<close>

lemma integer_unchecked:
  "admits \<lparr>ru_type = Some ''integer'', ru_required = True, ru_min = Some 8, ru_max = None, ru_enum = None, ru_pattern = None\<rparr> (JArr [])"
  "admits \<lparr>ru_type = Some ''integer'', ru_required = True, ru_min = Some 8, ru_max = None, ru_enum = None, ru_pattern = None\<rparr> (JNum (17 / 2))"
  by (simp_all add: admits_def missing_def type_check_def value_checks_def below_def above_def)

lemma email_unchecked:
  "admits \<lparr>ru_type = Some ''email'', ru_required = True, ru_min = None, ru_max = Some 255, ru_enum = None, ru_pattern = None\<rparr> (JObj b)"
  by (simp add: admits_def missing_def type_check_def value_checks_def)

end
