(* ===== verification/SqlBuild.thy ===== *)
theory SqlBuild
  imports Validation
begin

text \<open>
  The statement builders of \<open>src/utils/sqlBuild.js\<close>. A bound value is the value itself or, for
  arrays and objects, the JSON text of it; a Date is bound as it is.
\<close>

section \<open>Identifiers\<close>

definition is_word :: "char \<Rightarrow> bool" where
  "is_word c \<longleftrightarrow> is_alnum c \<or> c = CHR ''_''"

definition SAFE_IDENT :: "string \<Rightarrow> bool" where
  "SAFE_IDENT s \<longleftrightarrow> s \<noteq> [] \<and> is_word (hd s) \<and> \<not> is_digit (hd s) \<and> list_all is_word s"

definition backtick :: char where
  "backtick = CHR 0x60"

definition quoteIdent :: "string \<Rightarrow> string result" where
  "quoteIdent s = (if SAFE_IDENT s then Ok (backtick # s @ [backtick]) else Err (''Unsafe SQL identifier: '' @ s))"

section \<open>Values\<close>

datatype sql_value = Value js_val | Date int

datatype bound = Bind sql_value | Json js_val

fun normaliseValue :: "sql_value \<Rightarrow> bound" where
  "normaliseValue (Value (JArr vs)) = Json (JArr vs)"
| "normaliseValue (Value (JObj b)) = Json (JObj b)"
| "normaliseValue (Value JUndef) = Bind (Value JNull)"
| "normaliseValue v = Bind v"

section \<open>Builders\<close>

definition marks :: "nat \<Rightarrow> string" where
  "marks n = js_join '', '' (replicate n ''?'')"

definition buildInsert :: "(string \<times> sql_value) list \<Rightarrow> (string \<times> string \<times> bound list) result" where
  "buildInsert obj =
     (if obj = [] then Err ''buildInsert: no columns to insert''
      else and_then (collect (map (quoteIdent \<circ> fst) obj))
        (\<lambda>cols. Ok (js_join '', '' cols, marks (length obj), map (normaliseValue \<circ> snd) obj)))"

definition buildUpdate :: "(string \<times> sql_value) list \<Rightarrow> (string \<times> bound list) result" where
  "buildUpdate obj =
     and_then (collect (map (quoteIdent \<circ> fst) obj))
       (\<lambda>cols. Ok (js_join '', '' (map (\<lambda>c. c @ '' = ?'') cols), map (normaliseValue \<circ> snd) obj))"

definition rowPlaceholder :: "nat \<Rightarrow> string" where
  "rowPlaceholder width = ''('' @ marks width @ '')''"

definition buildBulkValues :: "sql_value list list \<Rightarrow> (string \<times> bound list) result" where
  "buildBulkValues rows =
     (case rows of
        [] \<Rightarrow> Ok ([], [])
      | r # rs \<Rightarrow>
          if list_ex (\<lambda>row. length row \<noteq> length r) rows then Err ''buildBulkValues: row length does not match first row length''
          else Ok (js_join '', '' (map (\<lambda>_. rowPlaceholder (length r)) rows), map normaliseValue (concat rows)))"

definition inPlaceholders :: "'a list \<Rightarrow> string result" where
  "inPlaceholders vs = (if vs = [] then Err ''inPlaceholders: non-empty array required'' else Ok (marks (length vs)))"

section \<open>Reading the statements back\<close>

text \<open>A column list as a parser reads it: the parts between commas, without backticks and blanks.\<close>

definition read_columns :: "string \<Rightarrow> string list" where
  "read_columns s = map (filter (\<lambda>c. c \<noteq> backtick \<and> c \<noteq> CHR '' '')) (js_split CHR '','' s)"

definition parameters :: "string \<Rightarrow> nat" where
  "parameters s = length (filter (\<lambda>c. c = CHR ''?'') s)"

lemma word_chars: "is_word c \<Longrightarrow> c \<noteq> CHR '','' \<and> c \<noteq> CHR '' '' \<and> c \<noteq> CHR ''?'' \<and> c \<noteq> backtick"
  by (auto simp: is_word_def is_alnum_def is_digit_def code_def backtick_def)

lemma split_space: "js_split CHR '','' (CHR '' '' # s) = (case js_split CHR '','' s of w # ws \<Rightarrow> (CHR '' '' # w) # ws)"
  by (cases "js_split CHR '','' s") auto

lemma split_join_comma:
  "\<forall>w \<in> set (w # ws). CHR '','' \<notin> set w \<Longrightarrow> js_split CHR '','' (js_join '', '' (w # ws)) = w # map ((#) CHR '' '') ws"
proof (induction ws arbitrary: w)
  case (Cons v ws)
  have "js_split CHR '','' (js_join '', '' (w # v # ws)) = w # js_split CHR '','' (CHR '' '' # js_join '', '' (v # ws))"
    using Cons.prems by (simp add: js_split_append del: js_split.simps)
  also have "\<dots> = w # map ((#) CHR '' '') (v # ws)"
    using Cons.IH [of v] Cons.prems by (simp add: split_space del: js_split.simps)
  finally show ?case .
qed (simp add: js_split_no_sep)

lemma read_join:
  assumes "ws \<noteq> []" and "\<forall>w \<in> set ws. CHR '','' \<notin> set w"
  shows "read_columns (js_join '', '' ws) = map (filter (\<lambda>c. c \<noteq> backtick \<and> c \<noteq> CHR '' '')) ws"
  using assms by (cases ws) (simp_all add: read_columns_def split_join_comma comp_def)

lemma collect_quoted:
  "list_all (\<lambda>x. SAFE_IDENT (fst x)) obj \<Longrightarrow>
     collect (map (quoteIdent \<circ> fst) obj) = Inr (map (\<lambda>x. backtick # fst x @ [backtick]) obj)"
  by (induction obj) (simp_all add: quoteIdent_def)

lemma collect_unsafe:
  "\<not> list_all (\<lambda>x. SAFE_IDENT (fst x)) obj \<Longrightarrow> \<exists>e. collect (map (quoteIdent \<circ> fst) obj) = Inl e"
proof (induction obj)
  case (Cons x obj)
  show ?case
  proof (cases "SAFE_IDENT (fst x)")
    case True
    then obtain e where "collect (map (quoteIdent \<circ> fst) obj) = Inl e"
      using Cons by (auto simp: comp_def)
    then show ?thesis
      using True by (simp add: quoteIdent_def comp_def)
  qed (simp add: quoteIdent_def)
qed simp

lemma read_quoted: "SAFE_IDENT k \<Longrightarrow> filter (\<lambda>c. c \<noteq> backtick \<and> c \<noteq> CHR '' '') (backtick # k @ [backtick]) = k"
  using word_chars by (auto simp: SAFE_IDENT_def list_all_iff intro!: filter_True)

lemma quoted_no_comma: "SAFE_IDENT k \<Longrightarrow> CHR '','' \<notin> set (backtick # k @ [backtick])"
  using word_chars by (auto simp: SAFE_IDENT_def list_all_iff backtick_def)

lemma parameters_simps [simp]:
  "parameters [] = 0" "parameters (s @ t) = parameters s + parameters t"
  "parameters (c # s) = (if c = CHR ''?'' then 1 else 0) + parameters s"
  by (simp_all add: parameters_def)

lemma parameters_join: "parameters (js_join '', '' ws) = sum_list (map parameters ws)"
  by (induction "'', ''" ws rule: js_join.induct) simp_all

lemma parameters_marks [simp]: "parameters (marks n) = n"
  by (simp add: marks_def parameters_join map_replicate_const sum_list_replicate)

text \<open>An INSERT built from an object reads back as the object: its column list, split at the commas and
  unquoted, is the object's keys in order, so no key can break out of its quotes, and there is one
  placeholder and one bound value per column; an object with an unsafe key is refused.\<close>

theorem insert_reads_back:
  "case buildInsert obj of
     Ok (columns, placeholders, values) \<Rightarrow> read_columns columns = map fst obj \<and> parameters columns = 0
       \<and> parameters placeholders = length obj \<and> values = map (normaliseValue \<circ> snd) obj
   | Err _ \<Rightarrow> obj = [] \<or> list_ex (\<lambda>x. fst x \<in> - Collect SAFE_IDENT) obj"
proof (cases "obj \<noteq> [] \<and> list_all (\<lambda>x. SAFE_IDENT (fst x)) obj")
  case False
  then have "\<exists>e. buildInsert obj = Inl e"
    using collect_unsafe [of obj] by (auto simp: buildInsert_def)
  then show ?thesis
    using False by (fastforce simp: list_ex_iff list_all_iff)
next
  case True
  let ?cols = "map (\<lambda>x. backtick # fst x @ [backtick]) obj"
  have b: "buildInsert obj = Ok (js_join '', '' ?cols, marks (length obj), map (normaliseValue \<circ> snd) obj)"
    using True collect_quoted [of obj] by (simp add: buildInsert_def)
  have s: "SAFE_IDENT (fst x)" if "x \<in> set obj" for x
    using True that by (simp add: list_all_iff)
  have "read_columns (js_join '', '' ?cols) = map fst obj"
    using True s quoted_no_comma read_quoted by (subst read_join) auto
  moreover have "parameters (js_join '', '' ?cols) = 0"
    using s word_chars unfolding parameters_join
    by (auto simp: sum_list_eq_0_iff SAFE_IDENT_def list_all_iff parameters_def filter_empty_conv backtick_def)
  ultimately show ?thesis
    by (simp add: b)
qed

lemma bulk_values_count:
  "buildBulkValues rows = Ok (placeholders, values) \<Longrightarrow> parameters placeholders = length values"
proof (cases rows)
  case (Cons r rs)
  assume b: "buildBulkValues rows = Ok (placeholders, values)"
  then have l: "\<forall>row \<in> set rows. length row = length r"
    by (auto simp: buildBulkValues_def Cons list_ex_iff split: if_splits)
  have "length (concat rows) = length rows * length r"
    using l by (induction rows) auto
  moreover have "parameters placeholders = length rows * length r"
    using b by (auto simp: buildBulkValues_def Cons parameters_join rowPlaceholder_def comp_def sum_list_triv split: if_splits)
  ultimately show ?thesis
    using b by (auto simp: buildBulkValues_def Cons split: if_splits)
qed (simp add: buildBulkValues_def)

end
