(* ===== verification/TaxRules.thy ===== *)
theory TaxRules
  imports JsText "HOL-Library.Char_ord" "HOL-Library.List_Lexorder"
begin

text \<open>
  Tax resolution of \<open>src/services/billingService.js\<close>: postal codes, region rules, the tax context of
  an invoice and the guard against incoherent tax figures. Rates are exact fractions, amounts integer
  cents. Letters are turned to upper case within ASCII.
\<close>

section \<open>Postal codes\<close>

definition js_upper :: "string \<Rightarrow> string" where
  "js_upper s = map (\<lambda>c. if 97 \<le> code c \<and> code c \<le> 122 then char_of (code c - 32) else c) s"

definition is_upper_alnum :: "char \<Rightarrow> bool" where
  "is_upper_alnum c \<longleftrightarrow> is_digit c \<or> (65 \<le> code c \<and> code c \<le> 90)"

text \<open>The matches of \<open>/\d{5}/g\<close>, from left to right without overlap.\<close>

function five_runs :: "string \<Rightarrow> string list" where
  "five_runs s =
     (if length s < 5 then []
      else if list_all is_digit (take 5 s) then take 5 s # five_runs (drop 5 s)
      else five_runs (tl s))"
  by pat_completeness auto
termination
  by (relation "measure length") auto

declare five_runs.simps [simp del]

text \<open>White space removed everywhere, and the test for a ZIP+4 code.\<close>

fun strip_spaces :: "string \<Rightarrow> string" where
  "strip_spaces [] = []"
| "strip_spaces (c # cs) =
     (case find (\<lambda>w. starts_with (c # cs) w) js_spaces of
        None \<Rightarrow> c # strip_spaces cs
      | Some w \<Rightarrow> strip_spaces (drop (length w - 1) cs))"

definition zip_plus_four :: "string \<Rightarrow> bool" where
  "zip_plus_four s =
     (let a = takeWhile (\<lambda>c. c \<noteq> CHR ''-'') s; b = drop (length a + 1) s; a' = js_trim a; b' = js_trim b in
      CHR ''-'' \<in> set s \<and> length a' = 5 \<and> list_all is_digit a' \<and> length b' = 4 \<and> list_all is_digit b')"

definition normalizePostalCode :: "string option \<Rightarrow> string option" where
  "normalizePostalCode raw =
     (case raw of
        None \<Rightarrow> None
      | Some r \<Rightarrow>
          let str = js_upper (js_trim r) in
          if str = [] then None
          else (case five_runs str of
             f # fs \<Rightarrow> if fs \<noteq> [] \<and> \<not> zip_plus_four str then None else Some f
           | [] \<Rightarrow>
               let cleaned = filter is_upper_alnum str in
               if length cleaned < 3 \<or> length cleaned > 10 then None
               else if \<not> list_ex is_digit cleaned then None
               else Some cleaned))"

section \<open>Region rules\<close>

text \<open>A range entry like \<open>21000-22999\<close>: its two bounds.\<close>

definition range_bounds :: "string \<Rightarrow> (string \<times> string) option" where
  "range_bounds part = (case js_split CHR ''-'' part of
     [a, b] \<Rightarrow> if a \<noteq> [] \<and> b \<noteq> [] \<and> list_all is_digit a \<and> list_all is_digit b then Some (a, b) else None
   | _ \<Rightarrow> None)"

text \<open>The width of one entry of a rule that holds the code.\<close>

definition entry_width :: "string \<Rightarrow> string \<Rightarrow> nat option" where
  "entry_width part cp =
     (if part = [] then None
      else case range_bounds part of
        Some (a, b) \<Rightarrow>
          if length a \<noteq> length b \<or> length cp \<noteq> length a \<or> \<not> list_all is_digit cp then None
          else let (lo, hi) = (if digits_val a \<le> digits_val b then (a, b) else (b, a)) in
            if lo \<le> cp \<and> cp \<le> hi then Some (digits_val hi - digits_val lo + 1) else None
      | None \<Rightarrow>
          if last part = CHR ''*''
          then (if butlast part \<noteq> [] \<and> starts_with cp (butlast part) then Some (10 ^ max 1 (10 - length (butlast part))) else None)
          else if part = cp then Some 1 else None)"

definition narrower :: "nat option \<Rightarrow> nat option \<Rightarrow> nat option" where
  "narrower best w = (case (best, w) of
     (_, None) \<Rightarrow> best
   | (None, Some k) \<Rightarrow> Some k
   | (Some b, Some k) \<Rightarrow> if k < b then Some k else Some b)"

definition spec_parts :: "string \<Rightarrow> string list" where
  "spec_parts spec = map (\<lambda>p. strip_spaces (js_upper (js_trim p))) (js_split CHR '','' spec)"

definition postalSpecMatch :: "string \<Rightarrow> string \<Rightarrow> nat option" where
  "postalSpecMatch spec cp =
     (if spec = [] \<or> cp = [] then None
      else foldl (\<lambda>best part. narrower best (entry_width part cp)) None (spec_parts spec))"

record tax_rule =
  tr_id :: nat
  tr_org :: "nat option"
  tr_rate :: rat
  tr_codes :: "string option"
  tr_active :: bool
  tr_deleted :: bool

record tax_rate =
  tx_id :: nat
  tx_org :: "nat option"
  tx_rate :: rat
  tx_default :: bool
  tx_active :: bool
  tx_deleted :: bool

record tax_client =
  tc_id :: nat
  tc_org :: "nat option"
  tc_exempt :: bool
  tc_locale :: string
  tc_zip :: "string option"

record tax_db =
  td_rules :: "tax_rule list"
  td_rates :: "tax_rate list"
  td_clients :: "tax_client list"
  td_locale :: "nat \<Rightarrow> string"

record region =
  rg_id :: nat
  rg_rate :: rat
  rg_width :: nat

definition region_rules :: "nat option \<Rightarrow> tax_db \<Rightarrow> tax_rule list" where
  "region_rules org db = sort_key tr_id (filter (\<lambda>r. org \<noteq> None \<and> tr_org r = org \<and> tr_active r \<and> \<not> tr_deleted r \<and> tr_codes r \<noteq> None)
     (td_rules db))"

definition better_region :: "string \<Rightarrow> region option \<Rightarrow> tax_rule \<Rightarrow> region option" where
  "better_region cp winner r =
     (case postalSpecMatch (case tr_codes r of Some s \<Rightarrow> s | None \<Rightarrow> []) cp of
        None \<Rightarrow> winner
      | Some w \<Rightarrow>
          (case winner of
             None \<Rightarrow> Some \<lparr>rg_id = tr_id r, rg_rate = tr_rate r, rg_width = w\<rparr>
           | Some b \<Rightarrow> if w < rg_width b then Some \<lparr>rg_id = tr_id r, rg_rate = tr_rate r, rg_width = w\<rparr> else Some b))"

definition resolveRegionRate :: "nat option \<Rightarrow> string option \<Rightarrow> tax_db \<Rightarrow> region option" where
  "resolveRegionRate org rawZip db =
     (case normalizePostalCode rawZip of None \<Rightarrow> None | Some cp \<Rightarrow> foldl (better_region cp) None (region_rules org db))"

section \<open>The tax context\<close>

record tax_context =
  cx_rate :: rat
  cx_rate_id :: "nat option"
  cx_exempt :: bool
  cx_rule_id :: "nat option"

definition tax_client_of :: "nat option \<Rightarrow> nat option \<Rightarrow> tax_db \<Rightarrow> tax_client option" where
  "tax_client_of org client db =
     (case client of
        None \<Rightarrow> None
      | Some c \<Rightarrow> if c = 0 then None else find (\<lambda>x. tc_id x = c \<and> tc_org x = org) (td_clients db))"

text \<open>The row the \<open>tax_rates\<close> query returns: the explicit id first, then the organization's default.\<close>

definition chosen_rate :: "nat option \<Rightarrow> nat option \<Rightarrow> tax_db \<Rightarrow> tax_rate option" where
  "chosen_rate org explicit db =
     (let wanted = (case explicit of Some i \<Rightarrow> i | None \<Rightarrow> 0);
          ok = (\<lambda>r. tx_active r \<and> \<not> tx_deleted r);
          hit = (\<lambda>r. (tx_id r = wanted \<and> (org \<noteq> None \<and> tx_org r = org \<or> tx_org r = None) \<and> ok r)
                   \<or> (org \<noteq> None \<and> tx_org r = org \<and> tx_default r \<and> ok r)) in
      (case find (\<lambda>r. hit r \<and> tx_id r = wanted) (td_rates db) of
         Some r \<Rightarrow> Some r
       | None \<Rightarrow> find hit (td_rates db)))"

definition resolveTaxContext :: "nat option \<Rightarrow> nat option \<Rightarrow> nat option \<Rightarrow> tax_db \<Rightarrow> tax_context" where
  "resolveTaxContext org client explicit db =
     (let row = tax_client_of org client db;
          explicit' = (if explicit = Some 0 then None else explicit);
          region = (case row of Some c \<Rightarrow> if explicit' = None then resolveRegionRate org (tc_zip c) db else None | None \<Rightarrow> None) in
      if (case row of Some c \<Rightarrow> tc_exempt c | None \<Rightarrow> False)
      then \<lparr>cx_rate = 0, cx_rate_id = None, cx_exempt = True, cx_rule_id = None\<rparr>
      else (case region of
         Some g \<Rightarrow> \<lparr>cx_rate = rg_rate g, cx_rate_id = None, cx_exempt = False, cx_rule_id = Some (rg_id g)\<rparr>
       | None \<Rightarrow>
           (case chosen_rate org explicit' db of
              Some r \<Rightarrow> \<lparr>cx_rate = tx_rate r, cx_rate_id = Some (tx_id r), cx_exempt = False, cx_rule_id = None\<rparr>
            | None \<Rightarrow>
                if (case org of Some o' \<Rightarrow> td_locale db o' = ''MX'' | None \<Rightarrow> (case row of Some c \<Rightarrow> tc_locale c = ''MX'' | None \<Rightarrow> False))
                then \<lparr>cx_rate = 16 / 100, cx_rate_id = None, cx_exempt = False, cx_rule_id = None\<rparr>
                else \<lparr>cx_rate = 0, cx_rate_id = None, cx_exempt = False, cx_rule_id = None\<rparr>)))"

datatype tax_error = CLIENT_TAX_EXEMPT | TAX_REQUIRED

text \<open>The amount is in cents, \<open>None\<close> a value that is not a finite number.\<close>

definition assertTaxCoherent :: "nat option \<Rightarrow> nat option \<Rightarrow> rat option \<Rightarrow> tax_db \<Rightarrow> tax_error + unit" where
  "assertTaxCoherent org client taxAmount db =
     (if client = None then Ok ()
      else let carriesTax = (case taxAmount of None \<Rightarrow> False | Some t \<Rightarrow> t > 1 / 2);
               ctx = resolveTaxContext org client None db in
        if cx_exempt ctx then (if carriesTax then Err CLIENT_TAX_EXEMPT else Ok ())
        else if \<not> carriesTax \<and> cx_rate ctx > 0 then Err TAX_REQUIRED else Ok ())"

end
