(* ===== verification/TaxRulesProps.thy ===== *)
theory TaxRulesProps
  imports TaxRules "HOL-Library.Product_Lexorder"
begin

text \<open>Region rules: entries are read numerically, and the narrowest rule wins.\<close>

section \<open>Entries\<close>

lemma digits_val_Cons: "is_digit c \<Longrightarrow> digits_val (c # cs) = digit_val c * 10 ^ length cs + digits_val cs"
proof -
  have "foldl (\<lambda>acc c. acc * 10 + digit_val c) a ds = a * 10 ^ length ds + foldl (\<lambda>acc c. acc * 10 + digit_val c) 0 ds" for a ds
  proof (induction ds arbitrary: a)
    case (Cons d ds)
    show ?case
      using Cons [of "a * 10 + digit_val d"] Cons [of "digit_val d"] by (simp add: algebra_simps)
  qed simp
  from this [of "digit_val c" cs] show ?thesis
    by (simp add: digits_val_def)
qed

lemma digits_val_bound: "list_all is_digit ds \<Longrightarrow> digits_val ds < 10 ^ length ds"
proof (induction ds)
  case (Cons c cs)
  then have "digit_val c \<le> 9"
    by (auto simp: digit_val_def is_digit_def)
  then have "digit_val c * 10 ^ length cs \<le> 9 * 10 ^ length cs"
    by simp
  moreover have "digits_val cs < 10 ^ length cs" "is_digit c"
    using Cons by simp_all
  ultimately have "digits_val (c # cs) < 9 * 10 ^ length cs + 10 ^ length cs"
    by (simp only: digits_val_Cons)
  then show ?case
    by simp
qed (simp add: digits_val_def)

text \<open>Digit strings of one length compare as the numbers they write.\<close>

lemma digits_compare:
  "length s = length t \<Longrightarrow> list_all is_digit s \<Longrightarrow> list_all is_digit t \<Longrightarrow> s \<le> t \<longleftrightarrow> digits_val s \<le> digits_val t"
proof (induction s t rule: list_induct2)
  case (Cons c cs d ds)
  have b: "digits_val cs < 10 ^ length cs" "digits_val ds < 10 ^ length cs"
    using Cons.prems Cons.hyps digits_val_bound [of cs] digits_val_bound [of ds] by simp_all
  have dv: "digit_val c = code c - 48" "digit_val d = code d - 48" "48 \<le> code c" "48 \<le> code d"
    using Cons.prems by (simp_all add: digit_val_def is_digit_def)
  have lt: "x * n + a \<le> y * n + b" if "x < y" "a < n" for x y n a b :: nat
  proof -
    have "x * n + n \<le> y * n"
      using that(1) mult_le_mono1 [of "Suc x" y n] by simp
    then show ?thesis using that(2) by simp
  qed
  have gt: "\<not> x * n + a \<le> y * n + b" if "y < x" "b < n" for x y n a b :: nat
  proof -
    have "y * n + n \<le> x * n"
      using that(1) mult_le_mono1 [of "Suc y" x n] by simp
    then show ?thesis using that(2) by simp
  qed
  have cc: "c < d \<longleftrightarrow> code c < code d" "c = d \<longleftrightarrow> code c = code d"
    by (simp_all add: less_char_def code_def)
  consider "code c < code d" | "code c = code d" | "code d < code c" by linarith
  then show ?case
  proof cases
    case 1
    then show ?thesis
      using lt [OF _ b(1), of "digit_val c" "digit_val d" "digits_val ds"] Cons.prems Cons.hyps dv cc
      by (simp add: digits_val_Cons)
  next
    case 2
    then show ?thesis
      using Cons dv cc by (simp add: digits_val_Cons)
  next
    case 3
    then show ?thesis
      using gt [OF _ b(2), of "digit_val d" "digit_val c" "digits_val cs"] Cons.prems Cons.hyps dv cc
      by (simp add: digits_val_Cons)
  qed
qed simp

lemma range_entry:
  assumes "range_bounds part = Some (a, b)" and "part \<noteq> []"
  shows "entry_width part cp =
     (if length a = length b \<and> length cp = length a \<and> list_all is_digit cp
         \<and> min (digits_val a) (digits_val b) \<le> digits_val cp \<and> digits_val cp \<le> max (digits_val a) (digits_val b)
      then Some (max (digits_val a) (digits_val b) - min (digits_val a) (digits_val b) + 1) else None)"
proof -
  have d: "list_all is_digit a" "list_all is_digit b"
    using assms(1) by (auto simp: range_bounds_def split: list.splits if_splits)
  show ?thesis
    using assms d digits_compare [of a cp] digits_compare [of cp b] digits_compare [of b cp] digits_compare [of cp a]
    by (auto simp: entry_width_def Let_def)
qed

section \<open>The narrowest rule\<close>

lemma narrower_simps [simp]:
  "narrower best None = best"
  "narrower None (Some k) = Some k"
  "narrower (Some b) (Some k) = Some (min b k)"
  by (auto simp: narrower_def split: option.split)

lemma narrower_fold:
  "foldl (\<lambda>best p. narrower best (f p)) (Some v) ps = Some (foldl min v (List.map_filter f ps))"
  "foldl (\<lambda>best p. narrower best (f p)) None ps = (case List.map_filter f ps of [] \<Rightarrow> None | w # ws \<Rightarrow> Some (foldl min w ws))"
proof -
  show a: "foldl (\<lambda>best p. narrower best (f p)) (Some v) ps = Some (foldl min v (List.map_filter f ps))" for v ps
    by (induction ps arbitrary: v) (auto simp: List.map_filter_simps split: option.split)
  show "foldl (\<lambda>best p. narrower best (f p)) None ps = (case List.map_filter f ps of [] \<Rightarrow> None | w # ws \<Rightarrow> Some (foldl min w ws))"
    by (induction ps) (auto simp: List.map_filter_simps a split: option.split)
qed

lemma foldl_min: "foldl min (w :: nat) ws = Min (set (w # ws))"
proof (induction ws arbitrary: w)
  case (Cons a ws)
  show ?case
    unfolding foldl_Cons Cons by (cases ws) (simp_all add: min.assoc)
qed simp

text \<open>The widths of the entries of a rule that hold a code.\<close>

definition widths :: "string \<Rightarrow> string \<Rightarrow> nat list" where
  "widths spec cp = List.map_filter (\<lambda>part. entry_width part cp) (spec_parts spec)"

lemma postalSpecMatch_Min:
  "cp \<noteq> [] \<Longrightarrow> postalSpecMatch spec cp = (if spec = [] \<or> widths spec cp = [] then None else Some (Min (set (widths spec cp))))"
  using foldl_min by (auto simp: postalSpecMatch_def narrower_fold widths_def split: list.split)

definition rule_width :: "string \<Rightarrow> tax_rule \<Rightarrow> nat option" where
  "rule_width cp r = postalSpecMatch (case tr_codes r of Some s \<Rightarrow> s | None \<Rightarrow> []) cp"

definition candidate :: "string \<Rightarrow> tax_rule \<Rightarrow> region option" where
  "candidate cp r = map_option (\<lambda>w. \<lparr>rg_id = tr_id r, rg_rate = tr_rate r, rg_width = w\<rparr>) (rule_width cp r)"

definition keep :: "region \<Rightarrow> region \<Rightarrow> region" where
  "keep b k = (if rg_width k < rg_width b then k else b)"

lemma region_fold:
  "foldl (better_region cp) (Some g) rs = Some (foldl keep g (List.map_filter (candidate cp) rs))"
  "foldl (better_region cp) None rs = (case List.map_filter (candidate cp) rs of [] \<Rightarrow> None | g # gs \<Rightarrow> Some (foldl keep g gs))"
proof -
  have b: "better_region cp b r = (case candidate cp r of None \<Rightarrow> b | Some k \<Rightarrow> (case b of None \<Rightarrow> Some k | Some g \<Rightarrow> Some (keep g k)))" for b r
    by (auto simp: better_region_def candidate_def rule_width_def keep_def split: option.split)
  have bs: "candidate cp r = None \<Longrightarrow> better_region cp b r = b"
    "candidate cp r = Some k \<Longrightarrow> better_region cp None r = Some k"
    "candidate cp r = Some k \<Longrightarrow> better_region cp (Some g) r = Some (keep g k)" for b r k g
    by (simp_all add: b)
  show a: "foldl (better_region cp) (Some g) rs = Some (foldl keep g (List.map_filter (candidate cp) rs))" for g rs
    by (induction rs arbitrary: g) (auto simp: bs List.map_filter_simps split: option.split)
  show "foldl (better_region cp) None rs = (case List.map_filter (candidate cp) rs of [] \<Rightarrow> None | g # gs \<Rightarrow> Some (foldl keep g gs))"
    by (induction rs) (auto simp: bs List.map_filter_simps a split: option.split)
qed

lemma keep_least:
  "sorted (map rg_id (g # gs)) \<Longrightarrow> foldl keep g gs \<in> set (g # gs)
     \<and> (\<forall>y \<in> set (g # gs). (rg_width (foldl keep g gs), rg_id (foldl keep g gs)) \<le> (rg_width y, rg_id y))"
proof (induction gs arbitrary: g)
  case (Cons k gs)
  let ?g = "keep g k"
  have "sorted (map rg_id (?g # gs))"
    using Cons.prems by (auto simp: keep_def)
  note ih = Cons.IH [OF this]
  have le: "(rg_width ?g, rg_id ?g) \<le> (rg_width y, rg_id y)" if "y = g \<or> y = k" for y
    using Cons.prems that by (auto simp: keep_def)
  have m: "?g = g \<or> ?g = k"
    by (simp add: keep_def)
  have top: "(rg_width (foldl keep ?g gs), rg_id (foldl keep ?g gs)) \<le> (rg_width ?g, rg_id ?g)"
    using ih by simp
  show ?case
  proof (intro conjI ballI)
    show "foldl keep g (k # gs) \<in> set (g # k # gs)"
      using ih m by auto
    fix y assume "y \<in> set (g # k # gs)"
    then consider "y = g \<or> y = k" | "y \<in> set gs"
      by auto
    then show "(rg_width (foldl keep g (k # gs)), rg_id (foldl keep g (k # gs))) \<le> (rg_width y, rg_id y)"
    proof cases
      case 1
      show ?thesis
        using order_trans [OF top le [OF 1]] by simp
    next
      case 2
      then show ?thesis
        using ih by simp
    qed
  qed
qed simp

lemma candidates_set: "set (List.map_filter (candidate cp) rs) = {g. \<exists>r \<in> set rs. candidate cp r = Some g}"
  by (induction rs) (auto simp: List.map_filter_simps split: option.split)

lemma candidates_sorted: "sorted (map tr_id rs) \<Longrightarrow> sorted (map rg_id (List.map_filter (candidate cp) rs))"
  by (induction rs) (auto simp: List.map_filter_simps candidates_set candidate_def split: option.split)

text \<open>The region rule that taxes a client is the one with the narrowest entry holding the client's
  postal code among the organization's active rules, the oldest of them on a tie; there is none
  exactly when no entry of an active rule holds the code or the address has no usable code.\<close>

theorem narrowest_region_wins:
  "case normalizePostalCode rawZip of
     None \<Rightarrow> resolveRegionRate org rawZip db = None
   | Some cp \<Rightarrow>
       (case resolveRegionRate org rawZip db of
          None \<Rightarrow> list_all (\<lambda>r. rule_width cp r = None) (region_rules org db)
        | Some g \<Rightarrow>
            list_ex (\<lambda>r. rule_width cp r = Some (rg_width g) \<and> rg_id g = tr_id r \<and> rg_rate g = tr_rate r) (region_rules org db)
            \<and> list_all (\<lambda>r. case rule_width cp r of None \<Rightarrow> True | Some w \<Rightarrow> (rg_width g, rg_id g) \<le> (w, tr_id r)) (region_rules org db))"
proof (cases "normalizePostalCode rawZip")
  case (Some cp)
  let ?rs = "region_rules org db" and ?cs = "List.map_filter (candidate cp) (region_rules org db)"
  have e: "resolveRegionRate org rawZip db = foldl (better_region cp) None ?rs"
    by (simp add: resolveRegionRate_def Some)
  show ?thesis
  proof (cases ?cs)
    case Nil
    then have "\<forall>r \<in> set ?rs. candidate cp r = None"
      using candidates_set [of cp ?rs] by (auto simp: not_Some_eq [symmetric])
    then show ?thesis
      using Nil by (simp add: Some e region_fold list_all_iff candidate_def)
  next
    case (Cons g gs)
    let ?w = "foldl keep g gs"
    have "sorted (map rg_id (g # gs))"
      using candidates_sorted [of ?rs cp] Cons by (simp add: region_rules_def)
    note k = keep_least [OF this]
    have c: "set (g # gs) = {g. \<exists>r \<in> set ?rs. candidate cp r = Some g}"
      using candidates_set [of cp ?rs] Cons by simp
    obtain r where r: "r \<in> set ?rs" "candidate cp r = Some ?w"
      using k c by blast
    obtain z where "rule_width cp r = Some z" "?w = \<lparr>rg_id = tr_id r, rg_rate = tr_rate r, rg_width = z\<rparr>"
      using r(2) by (auto simp: candidate_def)
    then have "list_ex (\<lambda>r. rule_width cp r = Some (rg_width ?w) \<and> rg_id ?w = tr_id r \<and> rg_rate ?w = tr_rate r) ?rs"
      using r(1) unfolding list_ex_iff by (intro bexI [of _ r]) simp_all
    moreover have "(rg_width ?w, rg_id ?w) \<le> (w, tr_id r)" if "r \<in> set ?rs" "rule_width cp r = Some w" for r w
    proof -
      have "\<lparr>rg_id = tr_id r, rg_rate = tr_rate r, rg_width = w\<rparr> \<in> set (g # gs)"
        unfolding c using that by (auto simp: candidate_def)
      from bspec [OF conjunct2 [OF k] this] show ?thesis
        by simp
    qed
    ultimately show ?thesis
      by (simp add: Some e region_fold Cons list_all_iff split: option.split)
  qed
qed (simp add: resolveRegionRate_def)

end
