(* ===== verification/Inventory.thy ===== *)
theory Inventory
  imports Billing
begin

text \<open>
  Stock and its sale: \<open>src/services/inventoryDrawdownService.js\<close>. It runs on the transaction of its
  caller, so an error leaves the caller's state as it was. Prices are in cents.
\<close>

record stock_item =
  si_id :: nat
  si_org :: "nat option"
  si_deleted :: bool

record warehouse_row =
  wh_id :: nat
  wh_org :: "nat option"
  wh_deleted :: bool

record stock_row =
  st_id :: nat
  st_item :: nat
  st_warehouse :: nat
  st_qty :: int
  st_deleted :: bool

record stock_move =
  sm_stock :: nat
  sm_type :: string
  sm_qty :: int
  sm_price :: "rat option"
  sm_client :: "nat option"
  sm_invoice :: nat
  sm_by :: "nat option"
  sm_ref :: "string option"

record inventory =
  in_items :: "stock_item list"
  in_warehouses :: "warehouse_row list"
  in_stock :: "stock_row list"
  in_moves :: "stock_move list"

datatype stock_error = No_warehouse | Unknown_item

definition item_visible :: "nat option \<Rightarrow> nat \<Rightarrow> inventory \<Rightarrow> bool" where
  "item_visible org item iv \<longleftrightarrow>
     list_ex (\<lambda>i. si_id i = item \<and> (org \<noteq> None \<and> si_org i = org \<or> si_org i = None)) (in_items iv)"

text \<open>The live rows of the item, the greatest quantity first, the oldest on a tie.\<close>

definition stock_candidates :: "nat option \<Rightarrow> nat \<Rightarrow> inventory \<Rightarrow> stock_row list" where
  "stock_candidates org item iv =
     sort_key (\<lambda>s. (- st_qty s, st_id s))
       (filter (\<lambda>s. st_item s = item \<and> \<not> st_deleted s \<and> item_visible org item iv) (in_stock iv))"

definition first_warehouse :: "nat option \<Rightarrow> inventory \<Rightarrow> warehouse_row option" where
  "first_warehouse org iv =
     (case sort_key wh_id (filter (\<lambda>w. (org \<noteq> None \<and> wh_org w = org \<or> wh_org w = None) \<and> \<not> wh_deleted w) (in_warehouses iv)) of
        [] \<Rightarrow> None | w # _ \<Rightarrow> Some w)"

definition new_stock_id :: "inventory \<Rightarrow> nat" where
  "new_stock_id iv = Suc (foldl max 0 (map st_id (in_stock iv)))"

definition resolveOrCreateStockRow :: "nat option \<Rightarrow> nat \<Rightarrow> inventory \<Rightarrow> stock_error + nat \<times> inventory" where
  "resolveOrCreateStockRow org item iv =
     (case stock_candidates org item iv of
        s # _ \<Rightarrow> Ok (st_id s, iv)
      | [] \<Rightarrow>
          (case first_warehouse org iv of
             None \<Rightarrow> Err No_warehouse
           | Some w \<Rightarrow>
               if \<not> list_ex (\<lambda>i. si_id i = item) (in_items iv) then Err Unknown_item
               else Ok (new_stock_id iv, iv\<lparr>in_stock := in_stock iv @
                 [\<lparr>st_id = new_stock_id iv, st_item = item, st_warehouse = wh_id w, st_qty = 0, st_deleted = False\<rparr>]\<rparr>)))"

definition take_stock :: "nat \<Rightarrow> int \<Rightarrow> inventory \<Rightarrow> inventory" where
  "take_stock i n iv = iv\<lparr>in_stock := map (\<lambda>s. if st_id s = i then s\<lparr>st_qty := st_qty s - n\<rparr> else s) (in_stock iv)\<rparr>"

definition drawdownForSale ::
  "nat option \<Rightarrow> nat \<Rightarrow> rat \<Rightarrow> rat option \<Rightarrow> nat \<Rightarrow> nat option \<Rightarrow> nat option \<Rightarrow> string option \<Rightarrow> inventory \<Rightarrow> stock_error + nat \<times> inventory" where
  "drawdownForSale org item quantity price invoice client performedBy ref iv =
     (case resolveOrCreateStockRow org item iv of
        Err e \<Rightarrow> Err e
      | Ok (i, inv1) \<Rightarrow>
          let n = round_half quantity; inv2 = take_stock i n inv1 in
          Ok (i, inv2\<lparr>in_moves := in_moves inv2 @
            [\<lparr>sm_stock = i, sm_type = ''sell_to_client'', sm_qty = n, sm_price = price, sm_client = client,
              sm_invoice = invoice, sm_by = performedBy, sm_ref = ref\<rparr>]\<rparr>))"

section \<open>What a sale moves\<close>

definition on_hand :: "nat \<Rightarrow> inventory \<Rightarrow> int" where
  "on_hand item iv = sum_list (map st_qty (filter (\<lambda>s. st_item s = item) (in_stock iv)))"

lemma foldl_max_upper: "x \<in> set xs \<or> x \<le> b \<Longrightarrow> x \<le> foldl max b xs" for x b :: nat
  by (induction xs arbitrary: b) fastforce+

lemma new_stock_id_fresh: "s \<in> set (in_stock iv) \<Longrightarrow> st_id s \<noteq> new_stock_id iv"
  using foldl_max_upper [of "st_id s" "map st_id (in_stock iv)" 0] by (auto simp: new_stock_id_def)

lemma take_from_row:
  "distinct (map st_id xs) \<Longrightarrow> s \<in> set xs \<Longrightarrow> st_item s = item \<Longrightarrow>
     sum_list (map st_qty (filter (\<lambda>x. st_item x = j) (map (\<lambda>x. if st_id x = st_id s then x\<lparr>st_qty := st_qty x - n\<rparr> else x) xs)))
     = sum_list (map st_qty (filter (\<lambda>x. st_item x = j) xs)) - (if j = item then n else 0)"
proof (induction xs)
  case (Cons x xs)
  show ?case
  proof (cases "s = x")
    case True
    then have "st_id y \<noteq> st_id s" if "y \<in> set xs" for y
      using Cons.prems that by (auto simp: image_iff)
    then have "map (\<lambda>x. if st_id x = st_id s then x\<lparr>st_qty := st_qty x - n\<rparr> else x) xs = xs"
      by (intro map_idI) simp
    then show ?thesis
      using True Cons.prems by simp
  next
    case False
    then have "st_id x \<noteq> st_id s"
      using Cons.prems by (auto simp: image_iff)
    then show ?thesis
      using False Cons.prems Cons.IH by (cases "j = item") simp_all
  qed
qed simp

lemma resolved_row:
  assumes "resolveOrCreateStockRow org item iv = Ok (i, iv')" and "distinct (map st_id (in_stock iv))"
  shows "\<exists>s \<in> set (in_stock iv'). st_id s = i \<and> st_item s = item \<and> \<not> st_deleted s" and "distinct (map st_id (in_stock iv'))"
    and "on_hand j iv' = on_hand j iv" and "in_moves iv' = in_moves iv" and "in_items iv' = in_items iv"
proof -
  have c: "s \<in> set (in_stock iv) \<and> st_item s = item \<and> \<not> st_deleted s" if "stock_candidates org item iv = s # ss" for s ss
    using arg_cong [OF that, of set] by (auto simp: stock_candidates_def)
  have f: "new_stock_id iv \<notin> st_id ` set (in_stock iv)"
    using new_stock_id_fresh [of _ iv] by (metis imageE)
  show "\<exists>s \<in> set (in_stock iv'). st_id s = i \<and> st_item s = item \<and> \<not> st_deleted s" "distinct (map st_id (in_stock iv'))"
    "on_hand j iv' = on_hand j iv" "in_moves iv' = in_moves iv" "in_items iv' = in_items iv"
    using assms c f by (auto simp: resolveOrCreateStockRow_def on_hand_def split: list.splits option.splits if_splits)
qed

text \<open>A sale takes the rounded quantity off the stock of the sold item and of no other item, never
  fails for lack of stock, and logs exactly this movement; it fails only when there is neither a row
  to take from nor a warehouse to put one in.\<close>

theorem sale_moves_stock:
  assumes "distinct (map st_id (in_stock iv))"
  shows "case drawdownForSale org item q price invoice client who ref iv of
     Err e \<Rightarrow> stock_candidates org item iv = [] \<and> (first_warehouse org iv = None \<or> item \<notin> si_id ` set (in_items iv))
   | Ok (i, iv') \<Rightarrow>
       on_hand item iv' = on_hand item iv - round_half q \<and> (\<forall>j. j \<noteq> item \<longrightarrow> on_hand j iv' = on_hand j iv)
       \<and> (\<exists>m. in_moves iv' = in_moves iv @ [m] \<and> sm_stock m = i \<and> sm_qty m = round_half q \<and> sm_invoice m = invoice)
       \<and> distinct (map st_id (in_stock iv'))"
proof (cases "resolveOrCreateStockRow org item iv")
  case (Inl e)
  then show ?thesis
    by (auto simp: drawdownForSale_def resolveOrCreateStockRow_def list_ex_iff image_iff split: list.splits option.splits if_splits)
next
  case (Inr r)
  obtain i iv1 where r: "r = (i, iv1)"
    by fastforce
  note ok = resolved_row [OF Inr [unfolded r] assms]
  obtain s where s: "s \<in> set (in_stock iv1)" "st_id s = i" "st_item s = item"
    using ok(1) by blast
  have h: "on_hand j (take_stock i (round_half q) iv1) = on_hand j iv - (if j = item then round_half q else 0)" for j
    using take_from_row [OF ok(2) s(1,3), of j "round_half q"] ok(3) [of j] s(2) by (simp add: on_hand_def take_stock_def)
  have d: "distinct (map st_id (in_stock (take_stock i (round_half q) iv1)))"
    using ok(2) by (simp add: take_stock_def comp_def if_distrib cong: if_cong)
  have m: "in_moves (take_stock i (round_half q) iv1) = in_moves iv"
    using ok(4) by (simp add: take_stock_def)
  show ?thesis
    using h d m by (simp add: drawdownForSale_def Inr r Let_def on_hand_def)
qed

definition sample_inventory :: inventory where
  "sample_inventory = \<lparr>in_items = [\<lparr>si_id = 4, si_org = None, si_deleted = False\<rparr>],
     in_warehouses = [\<lparr>wh_id = 1, wh_org = Some 7, wh_deleted = False\<rparr>, \<lparr>wh_id = 2, wh_org = Some 8, wh_deleted = False\<rparr>],
     in_stock = [\<lparr>st_id = 1, st_item = 4, st_warehouse = 1, st_qty = 2, st_deleted = False\<rparr>,
                 \<lparr>st_id = 2, st_item = 4, st_warehouse = 2, st_qty = 5, st_deleted = False\<rparr>],
     in_moves = []\<rparr>"

theorem sale_moves_stock_witness:
  "case drawdownForSale (Some 7) 4 1 None 30 None None None sample_inventory of
     Err e \<Rightarrow> False | Ok (i, iv') \<Rightarrow> on_hand 4 iv' = on_hand 4 sample_inventory - round_half 1"
proof -
  have "stock_candidates (Some 7) 4 sample_inventory \<noteq> []" "distinct (map st_id (in_stock sample_inventory))"
    by (simp_all add: stock_candidates_def sample_inventory_def item_visible_def)
  then show ?thesis
    using sale_moves_stock [where iv = sample_inventory and org = "Some 7" and item = 4 and q = 1 and price = None and invoice = 30
      and client = None and who = None and ref = None] by (auto split: sum.splits)
qed

text \<open>A shared item is taken from the fullest row of any tenant.\<close>

lemma shared_item_crosses_tenants:
  "map_sum id fst (drawdownForSale (Some 7) 4 1 None 30 None None None sample_inventory) = Ok 2"
  by (simp add: drawdownForSale_def resolveOrCreateStockRow_def stock_candidates_def sample_inventory_def item_visible_def Let_def)

end
