(* ===== verification/BillingPeriods.thy ===== *)
theory BillingPeriods
  imports Billing CivilDate
begin

text \<open>
  Billing periods of a contract: \<open>generateBillingPeriod\<close>, \<open>isContractInTrial\<close> and \<open>calculateProration\<close>
  of \<open>src/services/billingService.js\<close>, and the bulk insertion of \<open>src/routes/bulk.js\<close>. \<open>DATE\<close> columns
  are read and written at midnight UTC, the time zone of the connection pool, and the process is taken
  to run in it; a date is its number of days since 1970. An instant is a rational number of days.
\<close>

section \<open>Tables\<close>

datatype period_status = PeriodPending | PeriodInvoiced | PeriodSkipped

record period =
  pd_id :: nat
  pd_contract :: nat
  pd_start :: int
  pd_end :: int
  pd_invoice :: "nat option"
  pd_status :: period_status
  pd_scheduled :: int

record service_plan =
  pl_id :: nat
  pl_name :: string
  pl_price :: int
  pl_currency :: "string option"
  pl_trial_days :: "int option"
  pl_trial_price :: "int option"
  pl_overage_mode :: "string option"
  pl_cap :: "rat option"
  pl_gb_price :: "rat option"

record contract =
  ct_id :: nat
  ct_org :: "nat option"
  ct_client :: nat
  ct_plan :: nat
  ct_start :: int
  ct_billing_day :: "int option"
  ct_price_override :: "int option"
  ct_status :: string
  ct_deleted :: bool

section \<open>Statements\<close>

definition new_period_id :: "period list \<Rightarrow> nat" where
  "new_period_id ps = Suc (foldl max 0 (map pd_id ps))"

text \<open>\<open>INSERT\<close> under the unique key on the contract and the first day; \<open>None\<close> is its violation.\<close>

definition insert_period :: "nat \<Rightarrow> int \<Rightarrow> int \<Rightarrow> int \<Rightarrow> period list \<Rightarrow> (period \<times> period list) option" where
  "insert_period c first end_day scheduled ps =
     (if list_ex (\<lambda>p. pd_contract p = c \<and> pd_start p = first) ps then None
      else let p = \<lparr>pd_id = new_period_id ps, pd_contract = c, pd_start = first, pd_end = end_day, pd_invoice = None,
             pd_status = PeriodPending, pd_scheduled = scheduled\<rparr> in Some (p, ps @ [p]))"

text \<open>\<open>ORDER BY period_end DESC LIMIT 1\<close>.\<close>

definition latest_period :: "nat \<Rightarrow> period_status \<Rightarrow> period list \<Rightarrow> period option" where
  "latest_period c st ps =
     (case sort_key (\<lambda>p. - pd_end p) (filter (\<lambda>p. pd_contract p = c \<and> pd_status p = st) ps) of
        [] \<Rightarrow> None | p # _ \<Rightarrow> Some p)"

definition mark_invoiced :: "nat \<Rightarrow> nat \<Rightarrow> period list \<Rightarrow> period list" where
  "mark_invoiced i n ps = map (\<lambda>p. if pd_id p = i then p\<lparr>pd_status := PeriodInvoiced, pd_invoice := Some n\<rparr> else p) ps"

section \<open>Operations\<close>

definition isContractInTrial :: "contract \<Rightarrow> service_plan \<Rightarrow> int \<Rightarrow> bool" where
  "isContractInTrial c pl today =
     (case pl_trial_days pl of
        None \<Rightarrow> False
      | Some n \<Rightarrow> if n \<le> 0 then False else today < set_date (ct_start c) (date_of (ct_start c) + n))"

text \<open>The window that follows: from the day after the last invoiced period, or from the start of the
  contract, to the day before the same day of the next month.\<close>

definition next_start :: "contract \<Rightarrow> period list \<Rightarrow> int" where
  "next_start c ps =
     (case latest_period (ct_id c) PeriodInvoiced ps of
        Some p \<Rightarrow> set_date (pd_end p) (date_of (pd_end p) + 1)
      | None \<Rightarrow> ct_start c)"

definition period_end_of :: "int \<Rightarrow> int" where
  "period_end_of first = (let e = set_month first (int (month_of first) + 1) in set_date e (date_of e - 1))"

definition billing_day_of :: "contract \<Rightarrow> int" where
  "billing_day_of c = (case ct_billing_day c of None \<Rightarrow> 1 | Some d \<Rightarrow> if d = 0 then 1 else d)"

datatype period_result = Skipped_trial | Period period | Duplicate_period

definition generateBillingPeriod :: "contract \<Rightarrow> service_plan option \<Rightarrow> int \<Rightarrow> period list \<Rightarrow> period_result \<times> period list" where
  "generateBillingPeriod c pl today ps =
     (if (case pl of Some q \<Rightarrow> isContractInTrial c q today | None \<Rightarrow> False) then (Skipped_trial, ps)
      else (case latest_period (ct_id c) PeriodPending ps of
        Some p \<Rightarrow> (Period p, ps)
      | None \<Rightarrow>
          let first = next_start c ps in
          (case insert_period (ct_id c) first (period_end_of first) (set_date first (billing_day_of c)) ps of
             None \<Rightarrow> (Duplicate_period, ps)
           | Some (p, ps') \<Rightarrow> (Period p, ps'))))"

text \<open>The statement of the bulk route: the calendar month of today, when nothing is pending.\<close>

definition bulk_insert :: "nat \<Rightarrow> int \<Rightarrow> period list \<Rightarrow> period list option" where
  "bulk_insert c today ps =
     (if list_ex (\<lambda>p. pd_contract p = c \<and> pd_status p = PeriodPending) ps then Some ps
      else map_option snd (insert_period c (set_date today 1)
        (set_date today (month_days (year_of today) (month_of today))) today ps))"

fun bulk_generate :: "nat list \<Rightarrow> int \<Rightarrow> period list \<Rightarrow> nat \<times> nat list \<times> period list" where
  "bulk_generate [] today ps = (0, [], ps)"
| "bulk_generate (c # cs) today ps =
     (case bulk_insert c today ps of
        None \<Rightarrow> let (ok, bad, ps') = bulk_generate cs today ps in (ok, c # bad, ps')
      | Some ps1 \<Rightarrow> let (ok, bad, ps') = bulk_generate cs today ps1 in (Suc ok, bad, ps'))"

section \<open>Proration\<close>

record proration =
  pr_credit :: int
  pr_charge :: int
  pr_net :: int
  pr_remaining :: int
  pr_days :: int

text \<open>Prices and results are in cents.\<close>

definition calculateProration :: "int \<Rightarrow> int \<Rightarrow> rat \<Rightarrow> rat \<Rightarrow> rat \<Rightarrow> proration" where
  "calculateProration old new change first last_day =
     (let days = round_half (last_day - first) + 1;
          remaining = max 0 (round_half (last_day - change) + 1) in
      if days \<le> 0 \<or> remaining \<le> 0
      then \<lparr>pr_credit = 0, pr_charge = 0, pr_net = 0, pr_remaining = 0, pr_days = days\<rparr>
      else let credit = round_half (of_int old / of_int days * of_int remaining);
               charge = round_half (of_int new / of_int days * of_int remaining) in
        \<lparr>pr_credit = credit, pr_charge = charge, pr_net = charge - credit, pr_remaining = remaining, pr_days = days\<rparr>)"

section \<open>A sequence of operations\<close>

datatype period_op = Generate contract "service_plan option" int | MarkInvoiced nat nat

definition period_step :: "period_op \<Rightarrow> period list \<Rightarrow> period list option" where
  "period_step op ps =
     (case op of
        Generate c pl today \<Rightarrow> (case generateBillingPeriod c pl today ps of (Duplicate_period, _) \<Rightarrow> None | (_, ps') \<Rightarrow> Some ps')
      | MarkInvoiced i n \<Rightarrow> Some (mark_invoiced i n ps))"

fun run_periods :: "period_op list \<Rightarrow> period list \<Rightarrow> period list option" where
  "run_periods [] ps = Some ps"
| "run_periods (op # ops) ps = (case period_step op ps of None \<Rightarrow> None | Some ps' \<Rightarrow> run_periods ops ps')"

end
