(* ===== verification/Invoicing.thy ===== *)
theory Invoicing
  imports Inventory TaxRules BillingPeriods
begin

text \<open>
  The invoicing half of \<open>src/services/billingService.js\<close>: invoice and quote numbers, overage charges,
  the invoice of a billing period and one-off invoices, and the line items of \<open>src/routes/invoices.js\<close>.
  A transaction is a function of the tables; a statement that fails leaves them as they were. Money is
  in cents; line descriptions keep their parts.
\<close>

section \<open>Tables\<close>

datatype line_text =
    PlanLine string int int
  | OverageLine rat string "rat option"
  | AddonLine string
  | FreeText string

record item_row =
  it_invoice :: nat
  it_text :: line_text
  it_qty :: rat
  it_unit :: rat
  it_amount :: int
  it_stock :: "nat option"

record contract_addon =
  ca_contract :: nat
  ca_addon :: nat
  ca_unit :: "int option"
  ca_qty :: nat
  ca_status :: string

record plan_addon =
  pa_id :: nat
  pa_name :: string
  pa_price :: int

record usage_row =
  us_contract :: nat
  us_org :: "nat option"
  us_date :: int
  us_bytes :: nat
  us_complete :: bool

record session_row =
  se_contract :: nat
  se_org :: "nat option"
  se_instance :: "nat option"
  se_event :: string
  se_at :: rat
  se_received :: "rat option"
  se_accounting :: "rat option"

record shop =
  sh_books :: billing_db
  sh_items :: "item_row list"
  sh_periods :: "period list"
  sh_seq :: "nat \<Rightarrow> nat option"
  sh_quotes :: "nat \<Rightarrow> nat option"
  sh_tax :: tax_db
  sh_plans :: "service_plan list"
  sh_contracts :: "contract list"
  sh_addons :: "contract_addon list"
  sh_catalog :: "plan_addon list"
  sh_usage :: "usage_row list"
  sh_sessions :: "session_row list"
  sh_stock :: inventory
  sh_currency :: "nat option \<Rightarrow> string"
  sh_liveness :: nat

datatype invoicing_error = Sql sql_error | Stock stock_error | Api nat string

section \<open>Numbers\<close>

definition bucket_of :: "nat option \<Rightarrow> nat" where
  "bucket_of org = (case org of None \<Rightarrow> 0 | Some o' \<Rightarrow> o')"

definition padded_number :: "string \<Rightarrow> nat \<Rightarrow> string" where
  "padded_number pre n = pre @ pad_start 6 CHR ''0'' (show_nat n)"

text \<open>\<open>INSERT IGNORE\<close> of 1, then the counter is read and advanced in one statement.\<close>

definition advance :: "nat \<Rightarrow> (nat \<Rightarrow> nat option) \<Rightarrow> nat \<times> (nat \<Rightarrow> nat option)" where
  "advance b seq = (let n = (case seq b of None \<Rightarrow> 1 | Some k \<Rightarrow> k) in (n, seq(b \<mapsto> Suc n)))"

definition nextInvoiceNumber :: "nat option \<Rightarrow> shop \<Rightarrow> string \<times> shop" where
  "nextInvoiceNumber org s =
     (let (n, seq) = advance (bucket_of org) (sh_seq s) in (padded_number ''INV-'' n, s\<lparr>sh_seq := seq\<rparr>))"

definition nextQuoteNumber :: "nat option \<Rightarrow> shop \<Rightarrow> string \<times> shop" where
  "nextQuoteNumber org s =
     (let (n, seq) = advance (bucket_of org) (sh_quotes s) in (padded_number ''QUO-'' n, s\<lparr>sh_quotes := seq\<rparr>))"

section \<open>Overage\<close>

definition coalesce :: "'a option list \<Rightarrow> 'a option" where
  "coalesce xs = (case filter (\<lambda>x. x \<noteq> None) xs of [] \<Rightarrow> None | x # _ \<Rightarrow> x)"

text \<open>A session whose usage cannot be verified and that overlaps the period.\<close>

definition unverifiable :: "nat \<Rightarrow> int \<Rightarrow> int \<Rightarrow> session_row \<Rightarrow> bool" where
  "unverifiable liveness first end_day x \<longleftrightarrow>
     (se_instance x = None \<or> se_event x = ''start'')
     \<and> (if se_instance x = None \<and> se_event x = ''stop'' then se_at x
        else the (coalesce [se_received x, se_accounting x, Some (se_at x)]) + of_nat liveness / 1440) \<ge> of_int first
     \<and> se_at x < of_int (end_day + 1)"

record overage =
  ov_gb :: rat
  ov_amount :: int
  ov_unknown :: bool

definition no_overage :: overage where
  "no_overage = \<lparr>ov_gb = 0, ov_amount = 0, ov_unknown = False\<rparr>"

definition calculateOverageCharges :: "nat \<Rightarrow> int \<Rightarrow> int \<Rightarrow> shop \<Rightarrow> overage" where
  "calculateOverageCharges c first end_day s =
     (case find (\<lambda>x. ct_id x = c) (sh_contracts s) of
        None \<Rightarrow> no_overage
      | Some ct \<Rightarrow>
          (case find (\<lambda>p. pl_id p = ct_plan ct) (sh_plans s) of
             None \<Rightarrow> no_overage
           | Some pl \<Rightarrow>
               let same_org = (\<lambda>o'. o' \<noteq> None \<and> o' = ct_org ct);
                   rows = filter (\<lambda>u. us_contract u = c \<and> same_org (us_org u) \<and> first \<le> us_date u \<and> us_date u \<le> end_day) (sh_usage s);
                   used = sum_list (map us_bytes (filter us_complete rows));
                   odd = filter (\<lambda>x. same_org (se_org x) \<and> se_contract x = c \<and> unverifiable (sh_liveness s) first end_day x) (sh_sessions s) in
               if rows = [] \<or> list_ex (\<lambda>u. \<not> us_complete u) rows \<or> odd \<noteq> []
               then \<lparr>ov_gb = 0, ov_amount = 0, ov_unknown = True\<rparr>
               else (case (pl_overage_mode pl = Some ''per_gb'', pl_cap pl, pl_gb_price pl) of
                 (True, Some cap, Some price) \<Rightarrow>
                   let over = max 0 (of_nat used / 1073741824 - cap) in
                   if over \<le> 0 then no_overage
                   else \<lparr>ov_gb = of_int (round_half (over * 1000)) / 1000, ov_amount = round_half (over * price * 100), ov_unknown = False\<rparr>
               | _ \<Rightarrow> no_overage)))"

section \<open>Statements\<close>

definition new_invoice_id :: "billing_db \<Rightarrow> nat" where
  "new_invoice_id db = Suc (foldl max 0 (map inv_id (bd_invoices db)))"

text \<open>\<open>INSERT INTO invoices\<close> under its foreign keys and the unique key on organization and number of
  the live rows; the row's id is the next one.\<close>

definition insert_invoice :: "invoice_row \<Rightarrow> shop \<Rightarrow> invoicing_error + nat \<times> shop" where
  "insert_invoice r s =
     (let db = sh_books s; i = new_invoice_id db in
      if list_ex (\<lambda>x. inv_org r \<noteq> None \<and> inv_org x = inv_org r \<and> inv_number x = inv_number r \<and> \<not> inv_deleted x) (bd_invoices db)
      then Err (Sql DuplicateEntry)
      else if \<not> list_ex (\<lambda>c. cl_id c = inv_client r) (bd_clients db)
              \<or> (case inv_contract r of None \<Rightarrow> False | Some c \<Rightarrow> \<not> list_ex (\<lambda>x. ct_id x = c) (sh_contracts s))
              \<or> (case inv_rate_id r of None \<Rightarrow> False | Some t \<Rightarrow> \<not> list_ex (\<lambda>x. tx_id x = t) (td_rates (sh_tax s)))
      then Err (Sql ForeignKey)
      else Ok (i, s\<lparr>sh_books := db\<lparr>bd_invoices := bd_invoices db @ [r\<lparr>inv_id := i\<rparr>]\<rparr>\<rparr>))"

text \<open>\<open>DECIMAL(10,2)\<close> columns round what they are given.\<close>

definition dec2 :: "rat \<Rightarrow> rat" where
  "dec2 x = of_int (round_half (x * 100)) / 100"

definition insert_item :: "nat \<Rightarrow> line_text \<Rightarrow> rat \<Rightarrow> rat \<Rightarrow> int \<Rightarrow> nat option \<Rightarrow> shop \<Rightarrow> shop" where
  "insert_item i txt qty unit amount stock s =
     s\<lparr>sh_items := sh_items s @
       [\<lparr>it_invoice = i, it_text = txt, it_qty = dec2 qty, it_unit = dec2 unit, it_amount = amount, it_stock = stock\<rparr>]\<rparr>"

definition insert_debit :: "nat \<Rightarrow> nat option \<Rightarrow> int \<Rightarrow> string \<Rightarrow> nat \<Rightarrow> shop \<Rightarrow> shop" where
  "insert_debit client org amount cur i s =
     s\<lparr>sh_books := (sh_books s)\<lparr>bd_ledger := bd_ledger (sh_books s) @
       [\<lparr>lg_client = client, lg_org = org, lg_entry = Debit, lg_amount = amount, lg_currency = cur, lg_ref_type = ''invoice'', lg_ref = i\<rparr>]\<rparr>\<rparr>"

definition set_totals :: "nat \<Rightarrow> int \<Rightarrow> int \<Rightarrow> int \<Rightarrow> shop \<Rightarrow> shop" where
  "set_totals i sub tax tot s =
     s\<lparr>sh_books := update_invoice i (\<lambda>r. r\<lparr>inv_subtotal := sub, inv_tax := tax, inv_total := tot\<rparr>) (sh_books s)\<rparr>"

definition live_invoice_row :: "nat \<Rightarrow> shop \<Rightarrow> invoice_row option" where
  "live_invoice_row i s = find (\<lambda>r. inv_id r = i \<and> \<not> inv_deleted r) (bd_invoices (sh_books s))"

section \<open>The invoice of a billing period\<close>

definition invoice_price :: "contract \<Rightarrow> service_plan \<Rightarrow> int \<Rightarrow> int" where
  "invoice_price c pl today =
     (if isContractInTrial c pl today then (case pl_trial_price pl of None \<Rightarrow> 0 | Some t \<Rightarrow> t)
      else (case ct_price_override c of Some p \<Rightarrow> p | None \<Rightarrow> pl_price pl))"

definition invoice_currency :: "service_plan \<Rightarrow> nat option \<Rightarrow> shop \<Rightarrow> string" where
  "invoice_currency pl org s = (case pl_currency pl of Some k \<Rightarrow> if k = [] then sh_currency s org else k | None \<Rightarrow> sh_currency s org)"

text \<open>The overage line; a quantity that rounds to nothing gives no line.\<close>

definition add_overage :: "nat \<Rightarrow> contract \<Rightarrow> service_plan \<Rightarrow> period \<Rightarrow> string \<Rightarrow> int \<Rightarrow> shop \<Rightarrow> int \<times> shop" where
  "add_overage i c pl p cur today s =
     (if \<not> isContractInTrial c pl today \<and> pl_overage_mode pl = Some ''per_gb''
      then let ov = calculateOverageCharges (ct_id c) (pd_start p) (pd_end p) s in
        if ov_gb ov > 0
        then (ov_amount ov, insert_item i (OverageLine (ov_gb ov) cur (pl_gb_price pl)) (ov_gb ov)
               (case pl_gb_price pl of Some g \<Rightarrow> g | None \<Rightarrow> 0) (ov_amount ov) None s)
        else (0, s)
      else (0, s))"

text \<open>The active add-ons of the contract with their catalogue entry.\<close>

definition active_addons :: "nat \<Rightarrow> shop \<Rightarrow> (contract_addon \<times> plan_addon) list" where
  "active_addons c s =
     List.map_filter (\<lambda>a. map_option (Pair a) (find (\<lambda>p. pa_id p = ca_addon a) (sh_catalog s)))
       (filter (\<lambda>a. ca_contract a = c \<and> ca_status a = ''active'') (sh_addons s))"

definition addon_price :: "contract_addon \<times> plan_addon \<Rightarrow> int" where
  "addon_price x = (case ca_unit (fst x) of Some u \<Rightarrow> u | None \<Rightarrow> pa_price (snd x))"

definition addon_qty :: "contract_addon \<times> plan_addon \<Rightarrow> nat" where
  "addon_qty x = (if ca_qty (fst x) = 0 then 1 else ca_qty (fst x))"

fun add_addons :: "nat \<Rightarrow> (contract_addon \<times> plan_addon) list \<Rightarrow> shop \<Rightarrow> int \<times> shop" where
  "add_addons i [] s = (0, s)"
| "add_addons i (x # xs) s =
     (let amount = addon_price x * int (addon_qty x);
          (rest, s') = add_addons i xs
            (insert_item i (AddonLine (pa_name (snd x))) (of_nat (addon_qty x)) (of_int (addon_price x) / 100) amount None s) in
      (amount + rest, s'))"

definition due_after :: "int \<Rightarrow> int" where
  "due_after t = set_date t (date_of t + 15)"

definition write_invoice :: "period \<Rightarrow> contract \<Rightarrow> service_plan \<Rightarrow> nat option \<Rightarrow> int \<Rightarrow> shop \<Rightarrow> invoicing_error + nat \<times> shop" where
  "write_invoice p c pl org today s =
     (let price = invoice_price c pl today;
          cur = invoice_currency pl org s;
          ctx = resolveTaxContext org (Some (ct_client c)) None (sh_tax s);
          tax = round_half (of_int price * cx_rate ctx);
          (num, s1) = nextInvoiceNumber org s in
      (case insert_invoice \<lparr>inv_id = 0, inv_org = org, inv_client = ct_client c, inv_contract = Some (ct_id c), inv_number = num,
              inv_issued = today, inv_due = due_after (pd_end p), inv_subtotal = price, inv_tax = tax, inv_total = price + tax,
              inv_rate = cx_rate ctx, inv_rate_id = cx_rate_id ctx, inv_currency = cur, inv_status = Issued, inv_paid_at = None,
              inv_deleted = False\<rparr> s1 of
         Err e \<Rightarrow> Err e
       | Ok (i, s2) \<Rightarrow>
           let s3 = insert_item i (PlanLine (pl_name pl) (pd_start p) (pd_end p)) 1 (of_int price / 100) price None s2;
               (ov, s4) = add_overage i c pl p cur today s3;
               (ad, s5) = add_addons i (active_addons (ct_id c) s4) s4;
               running = price + ov + ad;
               tax' = round_half (of_int running * cx_rate ctx);
               (final, s6) = (if running \<noteq> price then (running + tax', set_totals i running tax' (running + tax') s5) else (price + tax, s5));
               s7 = s6\<lparr>sh_periods := mark_invoiced (pd_id p) i (sh_periods s6)\<rparr> in
           Ok (i, insert_debit (ct_client c) org final cur i s7)))"

text \<open>A period that is no longer pending gives the invoice it has.\<close>

definition generateInvoice ::
  "period \<Rightarrow> contract \<Rightarrow> service_plan \<Rightarrow> nat option \<Rightarrow> int \<Rightarrow> shop \<Rightarrow> shop \<times> (invoicing_error + invoice_row option)" where
  "generateInvoice p c pl org today s =
     (case find (\<lambda>q. pd_id q = pd_id p) (sh_periods s) of
        Some q \<Rightarrow>
          if pd_status q \<noteq> PeriodPending
          then (s, Ok (case pd_invoice q of None \<Rightarrow> None | Some i \<Rightarrow> live_invoice_row i s))
          else (case write_invoice p c pl org today s of
                  Err e \<Rightarrow> (s, Err e) | Ok (i, s') \<Rightarrow> (s', Ok (live_invoice_row i s')))
      | None \<Rightarrow>
          (case write_invoice p c pl org today s of
             Err e \<Rightarrow> (s, Err e) | Ok (i, s') \<Rightarrow> (s', Ok (live_invoice_row i s'))))"

section \<open>One-off invoices\<close>

definition createOneOffInvoice ::
  "nat option \<Rightarrow> nat \<Rightarrow> nat option \<Rightarrow> string \<Rightarrow> rat \<Rightarrow> string option \<Rightarrow> nat option \<Rightarrow> nat option \<Rightarrow> int \<Rightarrow> shop
     \<Rightarrow> shop \<times> (invoicing_error + invoice_row option)" where
  "createOneOffInvoice org client contract desc amount override stock who today s =
     (let cur = (case override of Some k \<Rightarrow> if k = [] then sh_currency s org else k | None \<Rightarrow> sh_currency s org);
          ctx = resolveTaxContext org (Some client) None (sh_tax s);
          sub = round_half (amount * 100);
          tax = round_half (of_int sub * cx_rate ctx);
          (num, s1) = nextInvoiceNumber org s in
      (case insert_invoice \<lparr>inv_id = 0, inv_org = org, inv_client = client, inv_contract = contract, inv_number = num,
              inv_issued = today, inv_due = due_after today, inv_subtotal = sub, inv_tax = tax, inv_total = sub + tax,
              inv_rate = cx_rate ctx, inv_rate_id = cx_rate_id ctx, inv_currency = cur, inv_status = Issued, inv_paid_at = None,
              inv_deleted = False\<rparr> s1 of
         Err e \<Rightarrow> (s, Err e)
       | Ok (i, s2) \<Rightarrow>
           let s3 = insert_item i (FreeText desc) 1 (of_int sub / 100) sub stock s2 in
           (case (case stock of None \<Rightarrow> Ok (0, sh_stock s3)
                  | Some item \<Rightarrow> drawdownForSale org item 1 (Some (of_int sub / 100)) i (Some client) who (Some num) (sh_stock s3)) of
              Err e \<Rightarrow> (s, Err (Stock e))
            | Ok (_, iv) \<Rightarrow>
                let s4 = insert_debit client org (sub + tax) cur i (s3\<lparr>sh_stock := iv\<rparr>) in
                (s4, Ok (live_invoice_row i s4)))))"

end
