(* ===== verification/InvoiceRoutes.thy ===== *)
theory InvoiceRoutes
  imports Invoicing
begin

text \<open>
  The requests that write invoices: the handlers of \<open>src/routes/invoices.js\<close>, the billing controller
  and the nightly task of \<open>src/services/taskRunner.js\<close>. Numbers of a request body are exact rationals
  of currency units; the columns they are stored in hold cents.
\<close>

section \<open>Line items\<close>

record item_body =
  ib_text :: string
  ib_qty :: rat
  ib_unit :: rat
  ib_amount :: rat
  ib_rate :: "nat option"
  ib_stock :: "nat option"
  ib_invoice :: "nat option"

definition cents :: "rat \<Rightarrow> int" where
  "cents x = round_half (x * 100)"

definition whole :: "rat \<Rightarrow> bool" where
  "whole x \<longleftrightarrow> of_int \<lfloor>x\<rfloor> = x"

text \<open>\<open>Math.round(q * u * 100) / 100\<close>, compared within a cent.\<close>

definition assertAmountMatchesLine :: "item_body \<Rightarrow> bool" where
  "assertAmountMatchesLine b \<longleftrightarrow> \<bar>ib_amount b - of_int (cents (ib_qty b * ib_unit b)) / 100\<bar> \<le> 1 / 100"

definition assertInvoiceNotTerminal :: "invoice_status \<Rightarrow> string option" where
  "assertInvoiceNotTerminal st =
     (if st = Voided then Some ''INVOICE_VOID'' else if st = Cancelled then Some ''INVOICE_CANCELLED'' else None)"

definition assertNoLiveCfdi :: "nat \<Rightarrow> billing_db \<Rightarrow> bool" where
  "assertNoLiveCfdi i db \<longleftrightarrow>
     \<not> list_ex (\<lambda>f. cf_invoice f = i \<and> cf_status f \<in> {''draft'', ''vigente'', ''cancel_pending''}) (bd_cfdi db)"

definition applyItemTotals :: "invoice_row \<Rightarrow> nat option \<Rightarrow> rat \<Rightarrow> shop \<Rightarrow> shop" where
  "applyItemTotals r org amount s =
     (let (db, delta) = applyLineItemToTotals (inv_id r) (inv_rate r) (cents amount) (sh_books s); s1 = s\<lparr>sh_books := db\<rparr> in
      if delta > 0 then insert_debit (inv_client r) org delta (inv_currency r) (inv_id r) s1 else s1)"

text \<open>The checks of the request, in their order: the row they end with is the invoice of the path.\<close>

definition item_invoice :: "nat option \<Rightarrow> nat \<Rightarrow> item_body \<Rightarrow> shop \<Rightarrow> invoicing_error + invoice_row" where
  "item_invoice org i b s =
     (if \<not> assertAmountMatchesLine b then Err (Api 422 ''VALIDATION_ERROR'')
      else if ib_stock b \<noteq> None \<and> \<not> whole (ib_qty b) then Err (Api 422 ''VALIDATION_ERROR'')
      else (case find (\<lambda>r. inv_id r = i \<and> org \<noteq> None \<and> inv_org r = org \<and> \<not> inv_deleted r) (bd_invoices (sh_books s)) of
        None \<Rightarrow> Err (Api 404 ''NOT_FOUND'')
      | Some r \<Rightarrow>
          (case assertInvoiceNotTerminal (inv_status r) of
             Some c \<Rightarrow> Err (Api 422 c)
           | None \<Rightarrow>
               if \<not> assertNoLiveCfdi i (sh_books s) then Err (Api 422 ''CFDI_STAMPED'')
               else if (case ib_stock b of None \<Rightarrow> False
                        | Some k \<Rightarrow> \<not> list_ex (\<lambda>x. si_id x = k \<and> (si_org x = org \<or> si_org x = None) \<and> \<not> si_deleted x) (in_items (sh_stock s)))
               then Err (Api 422 ''VALIDATION_ERROR'')
               else Ok r)))"

text \<open>The item is inserted under \<open>invoice_id\<close> of the body when it has one: the body is spread over the id
  of the path.\<close>

definition item_target :: "nat \<Rightarrow> item_body \<Rightarrow> nat" where
  "item_target i b = (case ib_invoice b of None \<Rightarrow> i | Some j \<Rightarrow> j)"

definition item_keys_ok :: "nat \<Rightarrow> item_body \<Rightarrow> shop \<Rightarrow> bool" where
  "item_keys_ok i b s \<longleftrightarrow>
     list_ex (\<lambda>x. inv_id x = item_target i b) (bd_invoices (sh_books s))
     \<and> (case ib_rate b of None \<Rightarrow> True | Some t \<Rightarrow> list_ex (\<lambda>x. tx_id x = t) (td_rates (sh_tax s)))"

definition addInvoiceItem :: "int \<Rightarrow> nat option \<Rightarrow> nat option \<Rightarrow> nat \<Rightarrow> item_body \<Rightarrow> shop \<Rightarrow> shop \<times> (invoicing_error + unit)" where
  "addInvoiceItem now org who i b s =
     (case item_invoice org i b s of
        Err e \<Rightarrow> (s, Err e)
      | Ok r \<Rightarrow>
          if \<not> item_keys_ok i b s then (s, Err (Sql ForeignKey))
          else let s1 = insert_item (item_target i b) (FreeText (ib_text b)) (ib_qty b) (ib_unit b) (cents (ib_amount b)) (ib_stock b) s in
            (case (case ib_stock b of None \<Rightarrow> Ok (0, sh_stock s1)
                   | Some k \<Rightarrow> drawdownForSale org k (ib_qty b) (Some (ib_unit b)) i (Some (inv_client r)) who (Some (inv_number r)) (sh_stock s1)) of
               Err e \<Rightarrow> (s, Err (Stock e))
             | Ok (_, iv) \<Rightarrow>
                 let s2 = applyItemTotals r org (ib_amount b) (s1\<lparr>sh_stock := iv\<rparr>) in
                 (s2\<lparr>sh_books := refreshInvoicePaidStatus now i (sh_books s2)\<rparr>, Ok ())))"

section \<open>Generation\<close>

definition with_periods :: "(period list \<Rightarrow> period_result \<times> period list) \<Rightarrow> shop \<Rightarrow> shop \<times> period_result" where
  "with_periods f s = (let (r, ps) = f (sh_periods s) in (s\<lparr>sh_periods := ps\<rparr>, r))"

text \<open>The billing controller reads deleted contracts too, the invoice routes do not.\<close>

definition own_contract :: "bool \<Rightarrow> nat option \<Rightarrow> nat \<Rightarrow> shop \<Rightarrow> contract option" where
  "own_contract deleted_too org c s =
     find (\<lambda>x. ct_id x = c \<and> org \<noteq> None \<and> ct_org x = org \<and> (deleted_too \<or> \<not> ct_deleted x)) (sh_contracts s)"

definition plan_of :: "contract \<Rightarrow> shop \<Rightarrow> service_plan option" where
  "plan_of c s = find (\<lambda>p. pl_id p = ct_plan c) (sh_plans s)"

text \<open>\<open>POST /billing/generate-period\<close>: rows carry no \<open>_plan\<close>, so a trial is never seen here.\<close>

definition generatePeriod :: "nat option \<Rightarrow> nat \<Rightarrow> int \<Rightarrow> shop \<Rightarrow> shop \<times> (invoicing_error + period_result)" where
  "generatePeriod org c today s =
     (case own_contract True org c s of
        None \<Rightarrow> (s, Err (Api 404 ''NOT_FOUND''))
      | Some ct \<Rightarrow>
          (case with_periods (generateBillingPeriod ct None today) s of
             (s', Duplicate_period) \<Rightarrow> (s', Err (Sql DuplicateEntry))
           | (s', r) \<Rightarrow> (s', Ok r)))"

text \<open>Period, then invoice: the contract-charge request of both routers.\<close>

definition generateNow :: "contract \<Rightarrow> service_plan \<Rightarrow> nat option \<Rightarrow> int \<Rightarrow> shop \<Rightarrow> shop \<times> (invoicing_error + invoice_row option)" where
  "generateNow ct pl org today s =
     (case with_periods (generateBillingPeriod ct None today) s of
        (s1, Period p) \<Rightarrow> generateInvoice p ct pl org today s1
      | (s1, _) \<Rightarrow> (s1, Err (Sql DuplicateEntry)))"

definition generateForContract :: "bool \<Rightarrow> nat option \<Rightarrow> nat \<Rightarrow> int \<Rightarrow> shop \<Rightarrow> shop \<times> (invoicing_error + invoice_row option)" where
  "generateForContract deleted_too org c today s =
     (case own_contract deleted_too org c s of
        None \<Rightarrow> (s, Err (Api 404 ''NOT_FOUND''))
      | Some ct \<Rightarrow> (case plan_of ct s of None \<Rightarrow> (s, Err (Api 404 ''NOT_FOUND'')) | Some pl \<Rightarrow> generateNow ct pl org today s))"

text \<open>The nightly task and the bulk request pass a plan of name, price and currency only.\<close>

definition bare_plan :: "service_plan \<Rightarrow> service_plan" where
  "bare_plan pl = \<lparr>pl_id = pl_id pl, pl_name = pl_name pl, pl_price = pl_price pl, pl_currency = pl_currency pl, pl_trial_days = None,
     pl_trial_price = None, pl_overage_mode = None, pl_cap = None, pl_gb_price = None\<rparr>"

definition bill_contract :: "bool \<Rightarrow> (contract \<Rightarrow> nat option) \<Rightarrow> int \<Rightarrow> contract \<Rightarrow> shop \<Rightarrow> shop \<times> nat" where
  "bill_contract only_due org_of today ct s =
     (case plan_of ct s of
        None \<Rightarrow> (s, 0)
      | Some pl \<Rightarrow>
          (case with_periods (generateBillingPeriod ct None today) s of
             (s1, Period p) \<Rightarrow>
               if pd_status p = PeriodPending \<and> (\<not> only_due \<or> pd_scheduled p \<le> today)
               then (case generateInvoice p ct (bare_plan pl) (org_of ct) today s1 of
                       (s2, Ok _) \<Rightarrow> (s2, 1) | (s2, Err _) \<Rightarrow> (s2, 0))
               else (s1, 0)
           | (s1, _) \<Rightarrow> (s1, 0)))"

fun bill_all :: "bool \<Rightarrow> (contract \<Rightarrow> nat option) \<Rightarrow> int \<Rightarrow> contract list \<Rightarrow> shop \<Rightarrow> shop \<times> nat" where
  "bill_all only_due org_of today [] s = (s, 0)"
| "bill_all only_due org_of today (c # cs) s =
     (let (s1, n) = bill_contract only_due org_of today c s; (s2, m) = bill_all only_due org_of today cs s1 in (s2, n + m))"

definition runAutoInvoice :: "nat option \<Rightarrow> int \<Rightarrow> shop \<Rightarrow> shop \<times> nat" where
  "runAutoInvoice org today s =
     bill_all True ct_org today (filter (\<lambda>c. ct_status c = ''active'' \<and> (org = None \<or> ct_org c = org)) (sh_contracts s)) s"

definition bulkGenerate :: "nat option \<Rightarrow> int \<Rightarrow> shop \<Rightarrow> shop \<times> nat" where
  "bulkGenerate org today s =
     bill_all False (\<lambda>_. org) today (filter (\<lambda>c. ct_status c = ''active'' \<and> org \<noteq> None \<and> ct_org c = org) (sh_contracts s)) s"

section \<open>An invoice with its lines\<close>

record new_line =
  nl_text :: string
  nl_qty :: "rat option"
  nl_unit :: rat
  nl_amount :: "rat option"

record invoice_body =
  ivb_client :: nat
  ivb_contract :: "nat option"
  ivb_number :: string
  ivb_subtotal :: rat
  ivb_tax :: "rat option"
  ivb_total :: rat
  ivb_currency :: string
  ivb_rate :: "rat option"
  ivb_rate_id :: "nat option"
  ivb_due :: int
  ivb_status :: "invoice_status option"
  ivb_lines :: "new_line list option"

definition line_qty :: "new_line \<Rightarrow> rat" where
  "line_qty l = (case nl_qty l of None \<Rightarrow> 1 | Some q \<Rightarrow> q)"

definition line_amount :: "new_line \<Rightarrow> rat" where
  "line_amount l = (case nl_amount l of None \<Rightarrow> of_int (cents (line_qty l * nl_unit l)) / 100 | Some a \<Rightarrow> a)"

definition line_ok :: "new_line \<Rightarrow> bool" where
  "line_ok l \<longleftrightarrow> js_trim (nl_text l) \<noteq> [] \<and> js_length (js_trim (nl_text l)) \<le> 255 \<and> 0 < line_qty l \<and> 0 \<le> nl_unit l \<and> 0 \<le> line_amount l"

text \<open>The tax figures: an explicit amount, else from the rate, else the gap between the totals.\<close>

definition body_tax :: "invoice_body \<Rightarrow> rat" where
  "body_tax b = (case ivb_tax b of
     Some t \<Rightarrow> t
   | None \<Rightarrow> (case ivb_rate b of
       Some r \<Rightarrow> of_int (cents (ivb_subtotal b * invoiceTaxFraction r)) / 100
     | None \<Rightarrow> of_int (cents (ivb_total b - ivb_subtotal b)) / 100))"

definition body_rate :: "invoice_body \<Rightarrow> rat" where
  "body_rate b = (case ivb_rate b of
     Some r \<Rightarrow> invoiceTaxFraction r
   | None \<Rightarrow> if ivb_subtotal b > 0 then of_int (round_half (body_tax b / ivb_subtotal b * 1000000)) / 1000000 else 0)"

definition body_problem :: "nat option \<Rightarrow> invoice_body \<Rightarrow> shop \<Rightarrow> string option" where
  "body_problem org b s =
     (let tax = body_tax b; lines = (case ivb_lines b of None \<Rightarrow> [] | Some ls \<Rightarrow> ls);
          derived = of_int (cents (ivb_subtotal b * body_rate b)) / 100;
          expected = of_int (cents (ivb_subtotal b + tax)) / 100 in
      if \<not> list_all line_ok lines then Some ''VALIDATION_ERROR''
      else if ivb_lines b \<noteq> None \<and> \<bar>of_int (cents (sum_list (map line_amount lines))) / 100 - ivb_subtotal b\<bar> > 1 / 100
      then Some ''ITEMS_SUBTOTAL_MISMATCH''
      else if \<bar>tax - derived\<bar> > 1 / 100 then Some ''TAX_INCONSISTENT''
      else if \<bar>ivb_total b - expected\<bar> > 1 / 100 then Some ''TOTAL_INCONSISTENT''
      else if \<not> list_ex (\<lambda>c. cl_id c = ivb_client b \<and> org \<noteq> None \<and> cl_org c = org \<and> \<not> cl_deleted c) (bd_clients (sh_books s))
      then Some ''CLIENT_NOT_FOUND''
      else (case assertTaxCoherent org (Some (ivb_client b)) (Some (tax * 100)) (sh_tax s) of
              Err CLIENT_TAX_EXEMPT \<Rightarrow> Some ''CLIENT_TAX_EXEMPT''
            | Err TAX_REQUIRED \<Rightarrow> Some ''TAX_REQUIRED''
            | Ok _ \<Rightarrow> None))"

definition insert_lines :: "nat \<Rightarrow> new_line list \<Rightarrow> shop \<Rightarrow> shop" where
  "insert_lines i ls s =
     foldl (\<lambda>s l. insert_item i (FreeText (js_trim (nl_text l))) (line_qty l) (nl_unit l) (cents (line_amount l)) None s) s ls"

definition createInvoice :: "nat option \<Rightarrow> int \<Rightarrow> invoice_body \<Rightarrow> shop \<Rightarrow> shop \<times> (invoicing_error + nat)" where
  "createInvoice org today b s =
     (case body_problem org b s of
        Some c \<Rightarrow> (s, Err (Api 422 c))
      | None \<Rightarrow>
          let (num, s1) = (if ivb_number b = [] then nextInvoiceNumber org s else (ivb_number b, s)) in
          (case insert_invoice \<lparr>inv_id = 0, inv_org = org, inv_client = ivb_client b, inv_contract = ivb_contract b, inv_number = num,
                  inv_issued = today, inv_due = ivb_due b, inv_subtotal = cents (ivb_subtotal b), inv_tax = cents (body_tax b),
                  inv_total = cents (ivb_total b), inv_rate = of_int (round_half (body_rate b * 10000)) / 10000, inv_rate_id = ivb_rate_id b,
                  inv_currency = (if ivb_currency b = [] then sh_currency s org else ivb_currency b),
                  inv_status = (case ivb_status b of None \<Rightarrow> Draft | Some st \<Rightarrow> st), inv_paid_at = None, inv_deleted = False\<rparr> s1 of
             Err e \<Rightarrow> (s, Err e)
           | Ok (i, s2) \<Rightarrow> (insert_lines i (case ivb_lines b of None \<Rightarrow> [] | Some ls \<Rightarrow> ls) s2, Ok i)))"

section \<open>The flexible request\<close>

text \<open>\<open>resolveLineItemPricing\<close>: numbers are what \<open>parseFloat\<close> makes of them, \<open>None\<close> an absent field.\<close>

definition resolveLineItemPricing :: "rat option \<Rightarrow> rat option \<Rightarrow> rat option \<Rightarrow> (rat \<times> rat \<times> int) option" where
  "resolveLineItemPricing quantity unit_price amount =
     (let q = max (case quantity of None \<Rightarrow> 1 | Some x \<Rightarrow> if x = 0 then 1 else x) (1 / 100) in
      (case (unit_price, amount) of
         (None, None) \<Rightarrow> None
       | (Some u, a) \<Rightarrow>
           let u' = max u 0 in
           (case a of
              Some x \<Rightarrow> if \<bar>x - of_int (cents (q * u')) / 100\<bar> > 1 / 100 then None else Some (q, u', cents (q * u'))
            | None \<Rightarrow> Some (q, u', cents (q * u')))
       | (None, Some x) \<Rightarrow> let u' = of_int (cents (max x 0 / q)) / 100 in Some (q, u', cents (q * u'))))"

datatype flexible_item =
    ContractCharge "nat option"
  | FreeLine bool "string option" "rat option" "rat option" "rat option" "nat option"
  | UnknownLine

record flexible_line =
  fl_text :: line_text
  fl_qty :: rat
  fl_unit :: rat
  fl_amount :: int
  fl_stock :: "nat option"

record flexible_acc =
  fa_lines :: "flexible_line list"
  fa_periods :: "nat list"
  fa_contracts :: "nat list"
  fa_currency :: string

text \<open>The items are read one by one before the transaction; the periods they create stay even when a
  later item is refused.\<close>

definition read_item :: "nat option \<Rightarrow> int \<Rightarrow> flexible_item \<Rightarrow> flexible_acc \<Rightarrow> shop \<Rightarrow> shop \<times> (invoicing_error + flexible_acc)" where
  "read_item org today it acc s =
     (case it of
        ContractCharge None \<Rightarrow> (s, Err (Api 422 ''VALIDATION_ERROR''))
      | ContractCharge (Some c) \<Rightarrow>
          (case own_contract False org c s of
             None \<Rightarrow> (s, Err (Api 404 ''NOT_FOUND''))
           | Some ct \<Rightarrow>
               (case plan_of ct s of
                  None \<Rightarrow> (s, Err (Api 500 ''INTERNAL_ERROR''))
                | Some pl \<Rightarrow>
                    (case with_periods (generateBillingPeriod ct None today) s of
                       (s1, Period p) \<Rightarrow>
                         let price = (case ct_price_override ct of Some x \<Rightarrow> x | None \<Rightarrow> pl_price pl) in
                         (s1, Ok (acc\<lparr>fa_lines := fa_lines acc @
                                [\<lparr>fl_text = PlanLine (pl_name pl) (pd_start p) (pd_end p), fl_qty = 1, fl_unit = of_int price / 100,
                                  fl_amount = price, fl_stock = None\<rparr>],
                              fa_periods := fa_periods acc @ [pd_id p],
                              fa_contracts := (if c \<in> set (fa_contracts acc) then fa_contracts acc else fa_contracts acc @ [c]),
                              fa_currency := (case pl_currency pl of Some k \<Rightarrow> if k = [] then fa_currency acc else k
                                              | None \<Rightarrow> fa_currency acc)\<rparr>))
                     | (s1, _) \<Rightarrow> (s1, Err (Sql DuplicateEntry)))))
      | FreeLine product desc q u a stock \<Rightarrow>
          (case desc of
             None \<Rightarrow> (s, Err (Api 422 ''VALIDATION_ERROR''))
           | Some d \<Rightarrow>
               if js_trim d = [] then (s, Err (Api 422 ''VALIDATION_ERROR''))
               else (case resolveLineItemPricing q u a of
                  None \<Rightarrow> (s, Err (Api 422 ''VALIDATION_ERROR''))
                | Some (q', u', amount) \<Rightarrow>
                    let linked = (if product then (case stock of Some 0 \<Rightarrow> None | k \<Rightarrow> k) else None) in
                    if linked \<noteq> None \<and> \<not> whole q' then (s, Err (Api 422 ''VALIDATION_ERROR''))
                    else if (case linked of None \<Rightarrow> False
                             | Some k \<Rightarrow> \<not> list_ex (\<lambda>x. si_id x = k \<and> (org \<noteq> None \<and> si_org x = org \<or> si_org x = None) \<and> \<not> si_deleted x)
                                 (in_items (sh_stock s)))
                    then (s, Err (Api 422 ''VALIDATION_ERROR''))
                    else (s, Ok (acc\<lparr>fa_lines := fa_lines acc @
                           [\<lparr>fl_text = FreeText (js_trim d), fl_qty = q', fl_unit = u', fl_amount = amount, fl_stock = linked\<rparr>]\<rparr>))))
      | UnknownLine \<Rightarrow> (s, Err (Api 422 ''VALIDATION_ERROR'')))"

fun read_items :: "nat option \<Rightarrow> int \<Rightarrow> flexible_item list \<Rightarrow> flexible_acc \<Rightarrow> shop \<Rightarrow> shop \<times> (invoicing_error + flexible_acc)" where
  "read_items org today [] acc s = (s, Ok acc)"
| "read_items org today (it # its) acc s =
     (case read_item org today it acc s of
        (s1, Ok acc1) \<Rightarrow> read_items org today its acc1 s1
      | (s1, Err e) \<Rightarrow> (s1, Err e))"

text \<open>The lines of the transaction, each with its stock movement.\<close>

fun write_lines ::
  "nat option \<Rightarrow> nat option \<Rightarrow> nat \<Rightarrow> string \<Rightarrow> nat \<Rightarrow> flexible_line list \<Rightarrow> shop \<Rightarrow> invoicing_error + shop" where
  "write_lines org who client num i [] s = Ok s"
| "write_lines org who client num i (l # ls) s =
     (let s1 = insert_item i (fl_text l) (fl_qty l) (fl_unit l) (fl_amount l) (fl_stock l) s in
      (case fl_stock l of
         None \<Rightarrow> write_lines org who client num i ls s1
       | Some k \<Rightarrow>
           (case drawdownForSale org k (fl_qty l) (Some (fl_unit l)) i (Some client) who (Some num) (sh_stock s1) of
              Err e \<Rightarrow> Err (Stock e)
            | Ok (_, iv) \<Rightarrow> write_lines org who client num i ls (s1\<lparr>sh_stock := iv\<rparr>))))"

text \<open>The transaction that writes the invoice; an error leaves the tables of its start.\<close>

definition flexible_transaction ::
  "nat option \<Rightarrow> nat option \<Rightarrow> nat \<Rightarrow> flexible_acc \<Rightarrow> int \<Rightarrow> shop \<Rightarrow> shop \<times> (invoicing_error + invoice_row option)" where
  "flexible_transaction org who client acc today s =
     (let ctx = resolveTaxContext org (Some client) None (sh_tax s);
          sub = sum_list (map fl_amount (fa_lines acc));
          tax = round_half (of_int sub * cx_rate ctx);
          (num, s1) = nextInvoiceNumber org s in
      (case insert_invoice \<lparr>inv_id = 0, inv_org = org, inv_client = client,
              inv_contract = (case fa_contracts acc of [c] \<Rightarrow> Some c | _ \<Rightarrow> None), inv_number = num,
              inv_issued = today, inv_due = due_after today, inv_subtotal = sub, inv_tax = tax, inv_total = sub + tax,
              inv_rate = cx_rate ctx, inv_rate_id = cx_rate_id ctx, inv_currency = fa_currency acc, inv_status = Issued,
              inv_paid_at = None, inv_deleted = False\<rparr> s1 of
         Err e \<Rightarrow> (s, Err e)
       | Ok (i, s2) \<Rightarrow>
           (case write_lines org who client num i (fa_lines acc) s2 of
              Err e \<Rightarrow> (s, Err e)
            | Ok s3 \<Rightarrow>
                let s4 = s3\<lparr>sh_periods := fold (\<lambda>p. mark_invoiced p i) (fa_periods acc) (sh_periods s3)\<rparr>;
                    s5 = insert_debit client org (sub + tax) (fa_currency acc) i s4 in
                (s5, Ok (live_invoice_row i s5)))))"

definition generateFlexible ::
  "nat option \<Rightarrow> nat option \<Rightarrow> nat \<Rightarrow> flexible_item list \<Rightarrow> int \<Rightarrow> shop \<Rightarrow> shop \<times> (invoicing_error + invoice_row option)" where
  "generateFlexible org who client items today s =
     (if items = [] then (s, Err (Api 422 ''VALIDATION_ERROR''))
      else if \<not> list_ex (\<lambda>c. cl_id c = client \<and> org \<noteq> None \<and> cl_org c = org \<and> \<not> cl_deleted c) (bd_clients (sh_books s))
      then (s, Err (Api 404 ''NOT_FOUND''))
      else (case read_items org today items \<lparr>fa_lines = [], fa_periods = [], fa_contracts = [], fa_currency = sh_currency s org\<rparr> s of
        (s1, Err e) \<Rightarrow> (s1, Err e)
      | (s1, Ok acc) \<Rightarrow> flexible_transaction org who client acc today s1))"

end
