(* ===== verification/InvoiceBooks.thy ===== *)
theory InvoiceBooks
  imports InvoiceRoutes BillingInvariant
begin

text \<open>
  What a generated invoice is: its row, its lines and its ledger debit agree, whichever request writes it.
\<close>

section \<open>Frames\<close>

definition same_catalog :: "shop \<Rightarrow> shop \<Rightarrow> bool" where
  "same_catalog s s' \<longleftrightarrow> sh_tax s' = sh_tax s \<and> sh_plans s' = sh_plans s \<and> sh_contracts s' = sh_contracts s \<and> sh_addons s' = sh_addons s
     \<and> sh_catalog s' = sh_catalog s \<and> sh_usage s' = sh_usage s \<and> sh_sessions s' = sh_sessions s \<and> sh_currency s' = sh_currency s
     \<and> sh_liveness s' = sh_liveness s"

lemma same_catalog_refl [simp]: "same_catalog s s"
  by (simp add: same_catalog_def)

lemma same_catalog_trans: "same_catalog s t \<Longrightarrow> same_catalog t u \<Longrightarrow> same_catalog s u"
  by (simp add: same_catalog_def)

definition lines_sum :: "item_row list \<Rightarrow> int" where
  "lines_sum xs = sum_list (map it_amount xs)"

lemma lines_sum_simps [simp]:
  "lines_sum [] = 0" "lines_sum (x # xs) = it_amount x + lines_sum xs" "lines_sum (xs @ ys) = lines_sum xs + lines_sum ys"
  by (simp_all add: lines_sum_def)

definition invoice_ids :: "shop \<Rightarrow> nat set" where
  "invoice_ids s = inv_id ` set (bd_invoices (sh_books s))"

text \<open>The effect of writing an invoice: one row, its lines, one debit, and nothing else in the books.\<close>

definition invoice_written :: "invoice_row \<Rightarrow> shop \<Rightarrow> shop \<Rightarrow> bool" where
  "invoice_written r s s' \<longleftrightarrow>
     inv_id r \<notin> invoice_ids s \<and> inv_status r = Issued \<and> \<not> inv_deleted r
     \<and> (\<exists>xs. sh_items s' = sh_items s @ xs \<and> (\<forall>x \<in> set xs. it_invoice x = inv_id r) \<and> xs \<noteq> [] \<and> lines_sum xs = inv_subtotal r)
     \<and> inv_tax r = round_half (of_int (inv_subtotal r) * inv_rate r) \<and> inv_total r = inv_subtotal r + inv_tax r
     \<and> sh_books s' = (sh_books s)\<lparr>bd_invoices := bd_invoices (sh_books s) @ [r],
          bd_ledger := bd_ledger (sh_books s) @ [\<lparr>lg_client = inv_client r, lg_org = inv_org r, lg_entry = Debit, lg_amount = inv_total r,
            lg_currency = inv_currency r, lg_ref_type = ''invoice'', lg_ref = inv_id r\<rparr>]\<rparr>"

lemma new_invoice_id_fresh: "new_invoice_id db \<notin> inv_id ` set (bd_invoices db)"
  using foldl_max_upper [of _ "map inv_id (bd_invoices db)" 0] by (fastforce simp: new_invoice_id_def)

lemma insert_invoice_Ok:
  assumes "insert_invoice r s = Ok (i, s')"
  shows "i \<notin> invoice_ids s \<and> s' = s\<lparr>sh_books := (sh_books s)\<lparr>bd_invoices := bd_invoices (sh_books s) @ [r\<lparr>inv_id := i\<rparr>]\<rparr>\<rparr>"
  using assms new_invoice_id_fresh [of "sh_books s"] by (auto simp: insert_invoice_def Let_def invoice_ids_def split: if_splits)

lemma insert_item_simps [simp]:
  "sh_books (insert_item i t q u a k s) = sh_books s" "sh_periods (insert_item i t q u a k s) = sh_periods s"
  "sh_stock (insert_item i t q u a k s) = sh_stock s" "sh_seq (insert_item i t q u a k s) = sh_seq s"
  "same_catalog s (insert_item i t q u a k s)"
  "sh_items (insert_item i t q u a k s) = sh_items s @ [\<lparr>it_invoice = i, it_text = t, it_qty = dec2 q, it_unit = dec2 u, it_amount = a, it_stock = k\<rparr>]"
  by (simp_all add: insert_item_def same_catalog_def)

text \<open>\<open>adds i n s s'\<close>: lines of invoice \<open>i\<close> worth \<open>n\<close> are appended, nothing else changes.\<close>

definition adds :: "nat \<Rightarrow> int \<Rightarrow> shop \<Rightarrow> shop \<Rightarrow> bool" where
  "adds i n s s' \<longleftrightarrow> (\<exists>xs. s' = s\<lparr>sh_items := sh_items s @ xs\<rparr> \<and> (\<forall>x \<in> set xs. it_invoice x = i) \<and> lines_sum xs = n)"

lemma adds_none [simp]: "adds i 0 s s"
  unfolding adds_def by (rule exI [of _ "[]"]) simp

lemma adds_item: "adds i a s (insert_item i t q u a k s)"
  unfolding adds_def insert_item_def by auto

lemma adds_trans: "adds i n s t \<Longrightarrow> adds i m t u \<Longrightarrow> adds i (n + m) s u"
  unfolding adds_def by (elim exE) (rule_tac x = "xs @ xsa" in exI, auto)

lemma add_overage_adds: "add_overage i c pl p cur today s = (n, s') \<Longrightarrow> adds i n s s'"
  using adds_item by (auto simp: add_overage_def Let_def split: if_splits)

lemma add_addons_adds: "add_addons i xs s = (n, s') \<Longrightarrow> adds i n s s'"
proof (induction xs arbitrary: s n s')
  case (Cons x xs)
  then show ?case
    by (auto simp: Let_def split: prod.splits intro: adds_trans [OF adds_item])
qed simp

section \<open>Prices that are not negative\<close>

definition plan_ok :: "service_plan \<Rightarrow> bool" where
  "plan_ok pl \<longleftrightarrow> 0 \<le> pl_price pl \<and> (case pl_trial_price pl of None \<Rightarrow> True | Some t \<Rightarrow> 0 \<le> t)
     \<and> (case pl_gb_price pl of None \<Rightarrow> True | Some g \<Rightarrow> 0 \<le> g)"

definition contract_ok :: "contract \<Rightarrow> bool" where
  "contract_ok c \<longleftrightarrow> (case ct_price_override c of None \<Rightarrow> True | Some x \<Rightarrow> 0 \<le> x)"

definition prices_ok :: "shop \<Rightarrow> bool" where
  "prices_ok s \<longleftrightarrow> list_all plan_ok (sh_plans s) \<and> list_all contract_ok (sh_contracts s)
     \<and> list_all (\<lambda>a. case ca_unit a of None \<Rightarrow> True | Some u \<Rightarrow> 0 \<le> u) (sh_addons s) \<and> list_all (\<lambda>p. 0 \<le> pa_price p) (sh_catalog s)
     \<and> list_all (\<lambda>r. 0 \<le> tx_rate r) (td_rates (sh_tax s)) \<and> list_all (\<lambda>r. 0 \<le> tr_rate r) (td_rules (sh_tax s))"

lemma prices_same: "same_catalog s t \<Longrightarrow> prices_ok t = prices_ok s"
  by (simp add: prices_ok_def same_catalog_def)

lemma round_half_nonneg: "0 \<le> x \<Longrightarrow> 0 \<le> round_half x"
  by (simp add: round_half_def)

lemma invoice_price_nonneg: "plan_ok pl \<Longrightarrow> contract_ok c \<Longrightarrow> 0 \<le> invoice_price c pl today"
  by (auto simp: invoice_price_def plan_ok_def contract_ok_def split: option.splits)

lemma overage_nonneg: "prices_ok s \<Longrightarrow> 0 \<le> ov_amount (calculateOverageCharges c a b s)"
  by (auto simp: calculateOverageCharges_def no_overage_def Let_def prices_ok_def list_all_iff plan_ok_def
      split: option.split bool.split dest!: find_SomeD intro!: round_half_nonneg mult_nonneg_nonneg)

lemma add_overage_nonneg: "add_overage i c pl p cur today s = (n, s') \<Longrightarrow> prices_ok s \<Longrightarrow> 0 \<le> n"
  using overage_nonneg by (auto simp: add_overage_def Let_def split: if_splits)

lemma in_map_filter: "x \<in> set (List.map_filter f xs) \<Longrightarrow> \<exists>y \<in> set xs. f y = Some x"
  by (induction xs) (auto simp: List.map_filter_simps split: option.splits)

lemma active_addons_nonneg:
  assumes "prices_ok s" and "x \<in> set (active_addons c s)"
  shows "0 \<le> addon_price x"
proof -
  obtain a p where "x = (a, p)" "a \<in> set (sh_addons s)" "p \<in> set (sh_catalog s)"
    using in_map_filter [OF assms(2) [unfolded active_addons_def]] by (auto dest: find_SomeD)
  then show ?thesis
    using assms(1) by (auto simp: prices_ok_def list_all_iff addon_price_def split: option.splits)
qed

lemma add_addons_nonneg: "add_addons i xs s = (n, s') \<Longrightarrow> \<forall>x \<in> set xs. 0 \<le> addon_price x \<Longrightarrow> 0 \<le> n"
proof (induction xs arbitrary: s n s')
  case (Cons x xs)
  obtain r t where "add_addons i xs (insert_item i (AddonLine (pa_name (snd x))) (of_nat (addon_qty x)) (of_int (addon_price x) / 100)
      (addon_price x * int (addon_qty x)) None s) = (r, t)"
    by fastforce
  then show ?case
    using Cons.IH [of _ r t] Cons.prems by (auto simp: Let_def intro: add_nonneg_nonneg)
qed simp

section \<open>The invoice of a period\<close>

lemma write_invoice_written:
  assumes "write_invoice p c pl org today s = Ok (i, s')"
  shows "\<exists>r. inv_id r = i \<and> inv_org r = org \<and> inv_client r = ct_client c \<and> inv_contract r = Some (ct_id c)
     \<and> inv_rate r = cx_rate (resolveTaxContext org (Some (ct_client c)) None (sh_tax s))
     \<and> invoice_written r s s' \<and> sh_periods s' = mark_invoiced (pd_id p) i (sh_periods s)
     \<and> same_catalog s s' \<and> sh_stock s' = sh_stock s
     \<and> (prices_ok s \<and> plan_ok pl \<and> contract_ok c \<longrightarrow> 0 \<le> inv_subtotal r)"
proof -
  let ?price = "invoice_price c pl today" and ?cur = "invoice_currency pl org s"
  let ?ctx = "resolveTaxContext org (Some (ct_client c)) None (sh_tax s)"
  let ?tax = "round_half (of_int ?price * cx_rate ?ctx)"
  obtain num s1 where n: "nextInvoiceNumber org s = (num, s1)"
    by fastforce
  let ?row = "\<lparr>inv_id = 0, inv_org = org, inv_client = ct_client c, inv_contract = Some (ct_id c), inv_number = num,
              inv_issued = today, inv_due = due_after (pd_end p), inv_subtotal = ?price, inv_tax = ?tax, inv_total = ?price + ?tax,
              inv_rate = cx_rate ?ctx, inv_rate_id = cx_rate_id ?ctx, inv_currency = ?cur, inv_status = Issued, inv_paid_at = None,
              inv_deleted = False\<rparr>"
  have s1: "sh_books s1 = sh_books s" "sh_items s1 = sh_items s" "sh_periods s1 = sh_periods s" "same_catalog s s1" "sh_stock s1 = sh_stock s"
    using n by (auto simp: nextInvoiceNumber_def same_catalog_def split: prod.splits)
  obtain s2 where ins: "insert_invoice ?row s1 = Ok (i, s2)"
    using assms n by (auto simp: write_invoice_def Let_def split: sum.splits prod.splits)
  note s2 = insert_invoice_Ok [OF ins]
  let ?s3 = "insert_item i (PlanLine (pl_name pl) (pd_start p) (pd_end p)) 1 (of_int ?price / 100) ?price None s2"
  obtain ov s4 where ov: "add_overage i c pl p ?cur today ?s3 = (ov, s4)"
    by fastforce
  obtain ad s5 where ad: "add_addons i (active_addons (ct_id c) s4) s4 = (ad, s5)"
    by fastforce
  have "adds i (?price + (ov + ad)) s2 s5"
    by (rule adds_trans [OF adds_item adds_trans [OF add_overage_adds [OF ov] add_addons_adds [OF ad]]])
  then obtain xs where xs: "s5 = s2\<lparr>sh_items := sh_items s2 @ xs\<rparr>" "\<forall>x \<in> set xs. it_invoice x = i" "lines_sum xs = ?price + ov + ad"
    unfolding adds_def by (auto simp: add.assoc)
  have ne: "xs \<noteq> []"
  proof
    assume "xs = []"
    moreover have "length (sh_items s2) < length (sh_items s5)"
      using add_overage_adds [OF ov] add_addons_adds [OF ad] unfolding adds_def by auto
    ultimately show False
      using xs(1) by simp
  qed
  let ?run = "?price + ov + ad" and ?i = "\<lambda>t. t\<lparr>inv_id := i\<rparr>"
  let ?tax' = "round_half (of_int ?run * cx_rate ?ctx)"
  let ?r = "?row\<lparr>inv_id := i, inv_subtotal := ?run, inv_tax := ?tax', inv_total := ?run + ?tax'\<rparr>"
  have old: "map (\<lambda>r. if inv_id r = i then f r else r) (bd_invoices (sh_books s)) = bd_invoices (sh_books s)" for f
    using s2 s1 by (intro map_idI) (auto simp: invoice_ids_def)
  have "s' = insert_debit (ct_client c) org (?run + ?tax') ?cur i
      (set_totals i ?run ?tax' (?run + ?tax') s5\<lparr>sh_periods := mark_invoiced (pd_id p) i (sh_periods s5)\<rparr>)"
  proof (cases "?run = ?price")
    case True
    have "set_totals i ?price ?tax (?price + ?tax) s5 = s5"
      using old by (simp add: set_totals_def update_invoice_def xs s2 s1)
    then show ?thesis
      unfolding True using assms n ins ov ad True by (simp add: write_invoice_def Let_def)
  next
    case False
    then show ?thesis
      using assms n ins ov ad by (simp add: write_invoice_def Let_def set_totals_def)
  qed
  then have "invoice_written ?r s s' \<and> sh_periods s' = mark_invoiced (pd_id p) i (sh_periods s) \<and> same_catalog s s' \<and> sh_stock s' = sh_stock s"
    using xs ne s1 s2 old
    by (simp add: invoice_written_def insert_debit_def set_totals_def update_invoice_def invoice_ids_def same_catalog_def)
  moreover have "0 \<le> ?run" if ok: "prices_ok s" "plan_ok pl" "contract_ok c"
  proof -
    have "prices_ok s2"
      using ok(1) s1(4) s2 by (simp add: prices_same [of s s1, symmetric]) (simp add: prices_ok_def)
    then have "prices_ok ?s3" "prices_ok s4"
      using add_overage_adds [OF ov] by (simp_all add: prices_ok_def insert_item_def adds_def) auto
    then show ?thesis
      using add_overage_nonneg [OF ov] add_addons_nonneg [OF ad] active_addons_nonneg [of s4 _ "ct_id c"]
        invoice_price_nonneg [OF ok(2,3), of today] by simp
  qed
  ultimately show ?thesis
    by (intro exI [of _ ?r]) simp
qed

section \<open>The new row is found\<close>

lemma written_found: "invoice_written r s s' \<Longrightarrow> live_invoice_row (inv_id r) s' = Some r"
proof -
  assume w: "invoice_written r s s'"
  then have "inv_id r \<notin> inv_id ` set (bd_invoices (sh_books s))"
    by (simp add: invoice_written_def invoice_ids_def)
  then have "inv_id x \<noteq> inv_id r" if "x \<in> set (bd_invoices (sh_books s))" for x
    using that by (metis image_eqI)
  then have "find (\<lambda>x. inv_id x = inv_id r \<and> \<not> inv_deleted x) (bd_invoices (sh_books s)) = None"
    by (auto simp: find_None_iff)
  moreover note w = \<open>invoice_written r s s'\<close>
  moreover have "find P (xs @ [r]) = Some r" if "find P xs = None" "P r" for P xs
    using that by (induction xs) (auto split: if_splits)
  ultimately show ?thesis
    using w by (simp add: live_invoice_row_def invoice_written_def)
qed

lemma next_number_frame:
  "nextInvoiceNumber org s = (num, s1) \<Longrightarrow>
     sh_books s1 = sh_books s \<and> sh_items s1 = sh_items s \<and> sh_periods s1 = sh_periods s \<and> same_catalog s s1 \<and> sh_stock s1 = sh_stock s"
  by (auto simp: nextInvoiceNumber_def same_catalog_def split: prod.splits)

lemma generate_cases:
  assumes "generateInvoice p c pl org today s = (s', Ok x)"
  shows "(s' = s \<and> (\<exists>q. find (\<lambda>q. pd_id q = pd_id p) (sh_periods s) = Some q \<and> pd_status q \<noteq> PeriodPending))
     \<or> (\<exists>i. write_invoice p c pl org today s = Ok (i, s') \<and> x = live_invoice_row i s')"
  using assms by (auto simp: generateInvoice_def split: option.splits if_splits sum.splits)

section \<open>One-off invoices\<close>

lemma one_off_written:
  assumes "createOneOffInvoice org client contract desc amount override stock who today s = (s', Ok x)"
  shows "\<exists>r. x = Some r \<and> invoice_written r s s' \<and> inv_org r = org \<and> inv_client r = client
     \<and> inv_rate r = cx_rate (resolveTaxContext org (Some client) None (sh_tax s)) \<and> inv_subtotal r = round_half (amount * 100)
     \<and> sh_periods s' = sh_periods s \<and> same_catalog s s'"
proof -
  let ?cur = "case override of Some k \<Rightarrow> if k = [] then sh_currency s org else k | None \<Rightarrow> sh_currency s org"
  let ?ctx = "resolveTaxContext org (Some client) None (sh_tax s)" and ?sub = "round_half (amount * 100)"
  let ?tax = "round_half (of_int ?sub * cx_rate ?ctx)"
  obtain num s1 where n: "nextInvoiceNumber org s = (num, s1)"
    by fastforce
  note s1 = next_number_frame [OF n]
  let ?row = "\<lparr>inv_id = 0, inv_org = org, inv_client = client, inv_contract = contract, inv_number = num,
              inv_issued = today, inv_due = due_after today, inv_subtotal = ?sub, inv_tax = ?tax, inv_total = ?sub + ?tax,
              inv_rate = cx_rate ?ctx, inv_rate_id = cx_rate_id ?ctx, inv_currency = ?cur, inv_status = Issued, inv_paid_at = None,
              inv_deleted = False\<rparr>"
  obtain i s2 where ins: "insert_invoice ?row s1 = Ok (i, s2)"
    using assms n by (auto simp: createOneOffInvoice_def Let_def split: sum.splits prod.splits)
  note s2 = insert_invoice_Ok [OF ins]
  let ?s3 = "insert_item i (FreeText desc) 1 (of_int ?sub / 100) ?sub stock s2"
  obtain k iv where "(case stock of None \<Rightarrow> Ok (0, sh_stock ?s3)
                  | Some item \<Rightarrow> drawdownForSale org item 1 (Some (of_int ?sub / 100)) i (Some client) who (Some num) (sh_stock ?s3)) = Ok (k, iv)"
    using assms n ins by (auto simp: createOneOffInvoice_def Let_def split: sum.splits prod.splits)
  then have e: "s' = insert_debit client org (?sub + ?tax) ?cur i (?s3\<lparr>sh_stock := iv\<rparr>)" "x = live_invoice_row i s'"
    using assms n ins by (auto simp: createOneOffInvoice_def Let_def)
  let ?r = "?row\<lparr>inv_id := i\<rparr>"
  have w: "invoice_written ?r s s' \<and> sh_periods s' = sh_periods s \<and> same_catalog s s'"
    using s1 s2 by (simp add: e(1) invoice_written_def insert_debit_def insert_item_def invoice_ids_def same_catalog_def)
  show ?thesis
    using w written_found [of ?r s s'] e(2) by (intro exI [of _ ?r]) simp
qed

section \<open>The flexible request\<close>

lemma read_item_frame:
  assumes "read_item org today it acc s = (s', res)"
  shows "\<exists>ps. s' = s\<lparr>sh_periods := ps\<rparr>" and "res = Ok acc' \<Longrightarrow> length (fa_lines acc') = Suc (length (fa_lines acc))"
proof -
  have same: "\<exists>ps. t = t\<lparr>sh_periods := ps\<rparr>" for t :: shop
    by (rule exI [of _ "sh_periods t"]) simp
  show "\<exists>ps. s' = s\<lparr>sh_periods := ps\<rparr>"
    using assms same by (auto simp: read_item_def with_periods_def Let_def
        split: flexible_item.splits option.splits prod.splits if_splits period_result.splits)
  show "res = Ok acc' \<Longrightarrow> length (fa_lines acc') = Suc (length (fa_lines acc))"
    using assms by (auto simp: read_item_def with_periods_def Let_def
        split: flexible_item.splits option.splits prod.splits if_splits period_result.splits)
qed

lemma read_items_frame:
  "read_items org today its acc s = (s', res) \<Longrightarrow>
     (\<exists>ps. s' = s\<lparr>sh_periods := ps\<rparr>) \<and> (\<forall>acc'. res = Ok acc' \<longrightarrow> length (fa_lines acc') = length (fa_lines acc) + length its)"
proof (induction its arbitrary: acc s s' res)
  case Nil
  then show ?case
    by (auto intro: exI [of _ "sh_periods s"])
next
  case (Cons it its)
  obtain s1 r where r: "read_item org today it acc s = (s1, r)"
    by fastforce
  obtain ps where ps: "s1 = s\<lparr>sh_periods := ps\<rparr>"
    using read_item_frame(1) [OF r] by blast
  show ?case
  proof (cases r)
    case (Inl e)
    then show ?thesis
      using Cons.prems r ps by auto
  next
    case (Inr acc1)
    then have "read_items org today its acc1 s1 = (s', res)"
      using Cons.prems r by simp
    then show ?thesis
      using Cons.IH [of acc1 s1 s' res] read_item_frame(2) [OF r, of acc1] Inr ps by auto
  qed
qed

lemma write_lines_adds:
  "write_lines org who client num i ls s = Ok s' \<Longrightarrow>
     \<exists>xs iv. s' = s\<lparr>sh_items := sh_items s @ xs, sh_stock := iv\<rparr> \<and> (\<forall>x \<in> set xs. it_invoice x = i)
        \<and> lines_sum xs = sum_list (map fl_amount ls) \<and> length xs = length ls"
proof (induction ls arbitrary: s)
  case Nil
  then show ?case
    by (auto intro!: exI [of _ "[]"] exI [of _ "sh_stock s'"])
next
  case (Cons l ls)
  let ?x = "\<lparr>it_invoice = i, it_text = fl_text l, it_qty = dec2 (fl_qty l), it_unit = dec2 (fl_unit l), it_amount = fl_amount l, it_stock = fl_stock l\<rparr>"
  let ?s1 = "s\<lparr>sh_items := sh_items s @ [?x]\<rparr>"
  obtain iv0 where "write_lines org who client num i ls (?s1\<lparr>sh_stock := iv0\<rparr>) = Ok s'"
  proof (cases "fl_stock l")
    case None
    then have "write_lines org who client num i ls (?s1\<lparr>sh_stock := sh_stock s\<rparr>) = Ok s'"
      using Cons.prems by (simp add: insert_item_def)
    then show ?thesis by (rule that)
  next
    case (Some k)
    then show ?thesis
      using Cons.prems that by (auto simp: insert_item_def Let_def split: sum.splits)
  qed
  from Cons.IH [OF this] obtain xs iv where
    "s' = ?s1\<lparr>sh_stock := iv0, sh_items := sh_items ?s1 @ xs, sh_stock := iv\<rparr>" "\<forall>x \<in> set xs. it_invoice x = i"
    "lines_sum xs = sum_list (map fl_amount ls)" "length xs = length ls"
    by auto
  then show ?case
    by (intro exI [of _ "?x # xs"] exI [of _ iv]) simp
qed

lemma transaction_written:
  assumes "flexible_transaction org who client acc today s = (s', res)" and "fa_lines acc \<noteq> []"
  shows "(\<exists>e. res = Err e \<and> s' = s)
     \<or> (\<exists>r. res = Ok (Some r) \<and> invoice_written r s s' \<and> inv_org r = org \<and> inv_client r = client
          \<and> inv_rate r = cx_rate (resolveTaxContext org (Some client) None (sh_tax s))
          \<and> inv_subtotal r = sum_list (map fl_amount (fa_lines acc)) \<and> same_catalog s s'
          \<and> sh_periods s' = fold (\<lambda>p. mark_invoiced p (inv_id r)) (fa_periods acc) (sh_periods s))"
proof -
  let ?ctx = "resolveTaxContext org (Some client) None (sh_tax s)"
  let ?sub = "sum_list (map fl_amount (fa_lines acc))"
  let ?tax = "round_half (of_int ?sub * cx_rate ?ctx)"
  obtain num s1 where n: "nextInvoiceNumber org s = (num, s1)"
    by fastforce
  note s1 = next_number_frame [OF n]
  let ?row = "\<lparr>inv_id = 0, inv_org = org, inv_client = client,
              inv_contract = (case fa_contracts acc of [c] \<Rightarrow> Some c | _ \<Rightarrow> None), inv_number = num,
              inv_issued = today, inv_due = due_after today, inv_subtotal = ?sub, inv_tax = ?tax, inv_total = ?sub + ?tax,
              inv_rate = cx_rate ?ctx, inv_rate_id = cx_rate_id ?ctx, inv_currency = fa_currency acc, inv_status = Issued,
              inv_paid_at = None, inv_deleted = False\<rparr>"
  show ?thesis
  proof (cases "insert_invoice ?row s1")
    case (Inl e)
    then show ?thesis
      using assms(1) n by (auto simp: flexible_transaction_def Let_def)
  next
    case (Inr w)
    obtain i s2 where w: "w = (i, s2)"
      by fastforce
    note s2 = insert_invoice_Ok [OF Inr [unfolded w]]
    show ?thesis
    proof (cases "write_lines org who client num i (fa_lines acc) s2")
      case (Inl e)
      then show ?thesis
        using assms(1) n Inr w by (auto simp: flexible_transaction_def Let_def)
    next
      case wl: (Inr s3)
      obtain xs iv where xs: "s3 = s2\<lparr>sh_items := sh_items s2 @ xs, sh_stock := iv\<rparr>" "\<forall>x \<in> set xs. it_invoice x = i"
        "lines_sum xs = ?sub" "length xs = length (fa_lines acc)"
        using write_lines_adds [OF wl] by blast
      have e: "s' = insert_debit client org (?sub + ?tax) (fa_currency acc) i
           (s3\<lparr>sh_periods := fold (\<lambda>p. mark_invoiced p i) (fa_periods acc) (sh_periods s3)\<rparr>)" "res = Ok (live_invoice_row i s')"
        using assms(1) n Inr w wl by (auto simp: flexible_transaction_def Let_def)
      let ?r = "?row\<lparr>inv_id := i\<rparr>"
      have "xs \<noteq> []"
        using assms(2) xs(4) by auto
      then have wr: "invoice_written ?r s s' \<and> same_catalog s s' \<and> sh_periods s' = fold (\<lambda>p. mark_invoiced p i) (fa_periods acc) (sh_periods s)"
        using s1 s2 xs by (simp add: e(1) invoice_written_def insert_debit_def invoice_ids_def same_catalog_def)
      then show ?thesis
        using written_found [of ?r s s'] e(2) by (intro disjI2 exI [of _ ?r]) simp
    qed
  qed
qed

lemma flexible_cases:
  assumes "generateFlexible org who client items today s = (s', res)"
  shows "\<exists>ps. (\<exists>e. res = Err e \<and> s' = s\<lparr>sh_periods := ps\<rparr>)
     \<or> (\<exists>r. res = Ok (Some r) \<and> invoice_written r (s\<lparr>sh_periods := ps\<rparr>) s' \<and> inv_org r = org \<and> inv_client r = client
           \<and> inv_rate r = cx_rate (resolveTaxContext org (Some client) None (sh_tax s)) \<and> same_catalog s s')"
proof -
  let ?acc0 = "\<lparr>fa_lines = [], fa_periods = [], fa_contracts = [], fa_currency = sh_currency s org\<rparr>"
  obtain s1 r where ri: "read_items org today items ?acc0 s = (s1, r)"
    by fastforce
  obtain ps where s1: "s1 = s\<lparr>sh_periods := ps\<rparr>"
    using read_items_frame [OF ri] by blast
  consider "s' = s" "\<exists>e. res = Err e"
    | e where "r = Err e" "s' = s1" "res = Err e"
    | acc where "r = Ok acc" "items \<noteq> []" "flexible_transaction org who client acc today s1 = (s', res)"
    using assms ri by (auto simp: generateFlexible_def split: if_splits sum.splits)
  then show ?thesis
  proof cases
    case 1
    then show ?thesis
      by (intro exI [of _ "sh_periods s"]) auto
  next
    case 2
    then show ?thesis
      using s1 by (intro exI [of _ ps]) auto
  next
    case 3
    have "fa_lines acc \<noteq> []"
      using read_items_frame [OF ri] 3 by auto
    from transaction_written [OF 3(3) this] show ?thesis
      using s1 by (intro exI [of _ ps]) (auto simp: same_catalog_def)
  qed
qed

end
