(* ===== verification/InvoiceAmounts.thy ===== *)
theory InvoiceAmounts
  imports InvoiceBooks
begin

text \<open>Prices and rates that are not negative give invoices that are not.\<close>

section \<open>Amounts that are not negative\<close>

lemma cents_nonneg: "0 \<le> x \<Longrightarrow> 0 \<le> cents x"
  by (simp add: cents_def round_half_nonneg)

lemma sorted_in: "sort_key f xs = y # ys \<Longrightarrow> y \<in> set xs"
  using set_sort [of f xs] by auto

lemma region_rate_nonneg:
  assumes "list_all (\<lambda>r. 0 \<le> tr_rate r) (td_rules db)" and "resolveRegionRate org z db = Some g"
  shows "0 \<le> rg_rate g"
proof -
  have "\<forall>g. foldl (better_region cp) b rs = Some g \<longrightarrow> 0 \<le> rg_rate g"
    if "\<forall>r \<in> set rs. 0 \<le> tr_rate r" "\<forall>g. b = Some g \<longrightarrow> 0 \<le> rg_rate g" for cp b rs
    using that
  proof (induction rs arbitrary: b)
    case (Cons r rs)
    have "\<forall>g. better_region cp b r = Some g \<longrightarrow> 0 \<le> rg_rate g"
      using Cons.prems by (auto simp: better_region_def split: option.splits if_splits)
    then show ?case
      using Cons by simp
  qed simp
  moreover have "\<forall>r \<in> set (region_rules org db). 0 \<le> tr_rate r"
    using assms(1) by (auto simp: region_rules_def list_all_iff)
  ultimately show ?thesis
    using assms(2) by (auto simp: resolveRegionRate_def split: option.splits)
qed

lemma context_rate_nonneg:
  assumes "\<And>g. region = Some g \<Longrightarrow> 0 \<le> rg_rate g" and "\<And>r. chosen = Some r \<Longrightarrow> 0 \<le> tx_rate r"
  shows "0 \<le> cx_rate (if p then \<lparr>cx_rate = 0, cx_rate_id = None, cx_exempt = True, cx_rule_id = None\<rparr>
      else (case region of
         Some g \<Rightarrow> \<lparr>cx_rate = rg_rate g, cx_rate_id = None, cx_exempt = False, cx_rule_id = Some (rg_id g)\<rparr>
       | None \<Rightarrow> (case chosen of
            Some r \<Rightarrow> \<lparr>cx_rate = tx_rate r, cx_rate_id = Some (tx_id r), cx_exempt = False, cx_rule_id = None\<rparr>
          | None \<Rightarrow> if q then \<lparr>cx_rate = 16 / 100, cx_rate_id = None, cx_exempt = False, cx_rule_id = None\<rparr>
              else \<lparr>cx_rate = 0, cx_rate_id = None, cx_exempt = False, cx_rule_id = None\<rparr>)))"
  using assms by (auto split: option.split)

lemma tax_rate_nonneg:
  assumes "prices_ok s"
  shows "0 \<le> cx_rate (resolveTaxContext org client explicit (sh_tax s))"
proof -
  have r: "list_all (\<lambda>r. 0 \<le> tr_rate r) (td_rules (sh_tax s))" "list_all (\<lambda>r. 0 \<le> tx_rate r) (td_rates (sh_tax s))"
    using assms by (simp_all add: prices_ok_def)
  have c: "0 \<le> tx_rate t" if "chosen_rate org e (sh_tax s) = Some t" for e t
  proof -
    have "t \<in> set (td_rates (sh_tax s))"
      using that unfolding chosen_rate_def Let_def by (auto split: option.splits dest!: find_SomeD)
    then show ?thesis
      using r(2) by (simp add: list_all_iff)
  qed
  show ?thesis
    unfolding resolveTaxContext_def Let_def
    by (rule context_rate_nonneg) (auto intro: c region_rate_nonneg [OF r(1)] split: option.splits if_splits)
qed

lemma pricing_nonneg:
  assumes "resolveLineItemPricing q u a = Some (q', u', n)"
  shows "0 \<le> n"
proof -
  let ?q = "max (case q of None \<Rightarrow> 1 | Some x \<Rightarrow> if x = 0 then 1 else x) (1 / 100)"
  have q: "0 \<le> ?q"
    by (simp add: max_def)
  show ?thesis
  proof (cases u)
    case None
    then obtain x where "a = Some x"
      using assms by (cases a) (simp_all add: resolveLineItemPricing_def Let_def)
    then have "n = cents (?q * (of_int (cents (max x 0 / ?q)) / 100))"
      using assms None unfolding resolveLineItemPricing_def Let_def by (simp only: option.case prod.case option.inject prod.inject) blast
    moreover have "0 \<le> cents (max x 0 / ?q)"
      using q by (intro cents_nonneg divide_nonneg_nonneg) simp_all
    ultimately show ?thesis
      using q by (simp only:) (intro cents_nonneg mult_nonneg_nonneg, simp_all)
  next
    case (Some v)
    then have "n = cents (?q * max v 0)"
      using assms unfolding resolveLineItemPricing_def Let_def by (auto split: option.splits if_splits)
    then show ?thesis
      using q by (simp only:) (intro cents_nonneg mult_nonneg_nonneg, simp_all)
  qed
qed

lemma read_item_nonneg:
  assumes "read_item org today it acc s = (s', Ok acc')" and "prices_ok s" and "\<forall>l \<in> set (fa_lines acc). 0 \<le> fl_amount l"
  shows "\<forall>l \<in> set (fa_lines acc'). 0 \<le> fl_amount l"
proof (cases it)
  case (ContractCharge k)
  obtain c ct pl where k: "k = Some c" "own_contract False org c s = Some ct" "plan_of ct s = Some pl"
    using assms(1) unfolding ContractCharge read_item_def by (auto split: option.splits)
  have "0 \<le> (case ct_price_override ct of Some x \<Rightarrow> x | None \<Rightarrow> pl_price pl)"
  proof -
    have "ct \<in> set (sh_contracts s)" "pl \<in> set (sh_plans s)"
      using k find_SomeD by (force simp: own_contract_def plan_of_def)+
    then have "contract_ok ct" "plan_ok pl"
      using assms(2) by (simp_all add: prices_ok_def list_all_iff)
    then show ?thesis
      by (auto simp: contract_ok_def plan_ok_def split: option.splits)
  qed
  moreover have "\<exists>l. fa_lines acc' = fa_lines acc @ [l] \<and> fl_amount l = (case ct_price_override ct of Some x \<Rightarrow> x | None \<Rightarrow> pl_price pl)"
    using assms(1) unfolding ContractCharge read_item_def Let_def k option.case flexible_item.case
    by (auto simp: k split: prod.splits period_result.splits)
  ultimately show ?thesis
    using assms(3) by auto
next
  case (FreeLine product desc q u a stock)
  obtain q' u' n where "resolveLineItemPricing q u a = Some (q', u', n)" "\<exists>l. fa_lines acc' = fa_lines acc @ [l] \<and> fl_amount l = n"
    using assms(1) unfolding FreeLine read_item_def Let_def by (auto split: option.splits if_splits prod.splits)
  then show ?thesis
    using assms(3) pricing_nonneg by auto
next
  case UnknownLine
  then show ?thesis
    using assms(1) by (simp add: read_item_def)
qed

lemma read_items_nonneg:
  "read_items org today its acc s = (s', Ok acc') \<Longrightarrow> prices_ok s \<Longrightarrow> \<forall>l \<in> set (fa_lines acc). 0 \<le> fl_amount l \<Longrightarrow>
     \<forall>l \<in> set (fa_lines acc'). 0 \<le> fl_amount l"
proof (induction its arbitrary: acc s)
  case (Cons it its)
  obtain s1 acc1 where r: "read_item org today it acc s = (s1, Ok acc1)" "read_items org today its acc1 s1 = (s', Ok acc')"
    using Cons.prems(1) by (auto split: prod.splits sum.splits)
  obtain ps where "s1 = s\<lparr>sh_periods := ps\<rparr>"
    using read_item_frame(1) [OF r(1)] by blast
  then have "prices_ok s1"
    using Cons.prems(2) by (simp add: prices_ok_def)
  then show ?case
    using Cons.IH [OF r(2)] read_item_nonneg [OF r(1) Cons.prems(2,3)] by simp
qed simp

end
