(* ===== verification/DrillView.thy ===== *)
theory DrillView
  imports InvoiceAmounts
begin

text \<open>
  The financial half of the disaster-recovery drill, \<open>src/services/drDrillService.js\<close>, as the
  specification of the invoicing and payment requests: they never make it fail.
\<close>

section \<open>The drill\<close>

definition item_lines :: "nat \<Rightarrow> shop \<Rightarrow> item_row list" where
  "item_lines i s = filter (\<lambda>x. it_invoice x = i) (sh_items s)"

definition inconsistent_invoices :: "shop \<Rightarrow> nat" where
  "inconsistent_invoices s =
     length (filter (\<lambda>r. \<not> inv_deleted r \<and> item_lines (inv_id r) s \<noteq> [] \<and> \<bar>inv_subtotal r - lines_sum (item_lines (inv_id r) s)\<bar> > 1)
       (bd_invoices (sh_books s)))"

definition over_allocated_payments :: "billing_db \<Rightarrow> nat" where
  "over_allocated_payments db =
     length (filter (\<lambda>p. \<not> pay_deleted p \<and> live_for_payment (pay_id p) db \<noteq> [] \<and> total_of (live_for_payment (pay_id p) db) > pay_amount p + 1)
       (bd_payments db))"

definition financial_ok :: "shop \<Rightarrow> bool" where
  "financial_ok s \<longleftrightarrow> inconsistent_invoices s = 0 \<and> over_allocated_payments (sh_books s) = 0"

section \<open>Payments leave what the drill reads of an invoice\<close>

definition drill_view :: "billing_db \<Rightarrow> (nat \<times> int \<times> rat) list" where
  "drill_view db = map (\<lambda>r. (inv_id r, inv_subtotal r, inv_rate r)) (bd_invoices db)"

lemma view_update:
  "(\<And>r. inv_id (f r) = inv_id r \<and> inv_subtotal (f r) = inv_subtotal r \<and> inv_rate (f r) = inv_rate r) \<Longrightarrow> drill_view (update_invoice i f db) = drill_view db"
  by (simp add: drill_view_def update_invoice_def)

lemma view_frames [simp]:
  "drill_view (db\<lparr>bd_payments := ps\<rparr>) = drill_view db" "drill_view (db\<lparr>bd_allocs := as\<rparr>) = drill_view db"
  "drill_view (db\<lparr>bd_ledger := l\<rparr>) = drill_view db"
  by (simp_all add: drill_view_def)

lemma view_refresh [simp]: "drill_view (refreshInvoicePaidStatus now i db) = drill_view db"
  by (auto simp: refreshInvoicePaidStatus_def view_update split: option.split)

lemma view_refresh_all [simp]: "drill_view (fold (refreshInvoicePaidStatus now) is db) = drill_view db"
  by (induction "is" arbitrary: db) auto

lemma view_finalize [simp]: "drill_view (fst (finalizeIfFullyPaid now r db)) = drill_view db"
  by (auto simp: finalizeIfFullyPaid_def view_update)

lemma view_insert: "insert_allocation p i a db = Ok (n, db') \<Longrightarrow> drill_view db' = drill_view db"
  by (auto simp: insert_allocation_def split: if_splits)

lemma view_mark: "mark_allocation g a db = Ok db' \<Longrightarrow> drill_view db' = drill_view db"
  by (auto simp: mark_allocation_def split: if_splits)

lemma view_mark_all: "mark_all g as db = Ok db' \<Longrightarrow> drill_view db' = drill_view db"
  by (induction as arbitrary: db) (auto simp: and_then_def split: sum.splits dest: view_mark)

lemma view_ledger [simp]:
  "drill_view (recordPaymentCredit p org db) = drill_view db" "drill_view (reversePaymentCredit q db) = drill_view db"
  "drill_view (settle_ledger r db) = drill_view db"
  by (simp_all add: recordPaymentCredit_def reversePaymentCredit_def settle_ledger_def Let_def)

lemma view_reverse: "reversePaymentAllocations now p db = Ok db' \<Longrightarrow> drill_view db' = drill_view db"
  by (auto simp: reversePaymentAllocations_def and_then_def Let_def split: sum.splits dest: view_mark_all)

lemma view_restore: "restorePaymentAllocations now p db = Ok db' \<Longrightarrow> drill_view db' = drill_view db"
  by (auto simp: restorePaymentAllocations_def and_then_def Let_def split: sum.splits dest: view_mark_all)

lemma view_settle: "drill_view (fst (settleInvoiceTerminal i org st fs db)) = drill_view db"
proof -
  have u: "drill_view (update_invoice i (\<lambda>r. r\<lparr>inv_status := st\<rparr>) db) = drill_view db"
    by (rule view_update) simp
  have r: "drill_view db2 = drill_view db1" if "releaseInvoiceAllocations i db1 = Ok db2" for db1 db2
    using that by (auto simp: releaseInvoiceAllocations_def dest: view_mark_all)
  show ?thesis
    using r by (auto simp: settleInvoiceTerminal_def Let_def u split: option.split sum.split)
qed

lemma view_waterfall: "waterfall now p rs n db = Ok (db', as, left) \<Longrightarrow> drill_view db' = drill_view db"
proof (induction rs arbitrary: n db as left)
  case (Cons x rs)
  obtain r due where x: "x = (r, due)" by fastforce
  show ?case
  proof (cases "n \<le> 0 \<or> due \<le> 0")
    case True
    then show ?thesis
      using Cons x by (auto split: if_splits)
  next
    case False
    show ?thesis
    proof (cases "insert_allocation p (inv_id r) (min n due) db")
      case (Inl e)
      then show ?thesis
        using Cons x False by (cases e) auto
    next
      case (Inr y)
      obtain a db1 where y: "y = (a, db1)" by fastforce
      obtain db2 paid where f: "finalizeIfFullyPaid now r db1 = (db2, paid)" by fastforce
      then have "drill_view db2 = drill_view db1"
        using view_finalize [of now r db1] by simp
      moreover have "drill_view db1 = drill_view db"
        using view_insert Inr y by simp
      moreover obtain bs l where "waterfall now p rs (n - min n due) db2 = Ok (db', bs, l)"
        using Cons.prems x False Inr y f by (auto simp: and_then_def Let_def split: sum.splits)
      ultimately show ?thesis
        using Cons.IH by simp
    qed
  qed
qed simp

lemma view_reallocate: "drill_view (fst (reallocate now org p f t amount db)) = drill_view db"
proof (cases "fst (reallocate now org p f t amount db) = db")
  case False
  have v: "\<not> (f = 0 \<or> t = 0 \<or> f = t)"
  proof
    assume "f = 0 \<or> t = 0 \<or> f = t"
    then show False using False by (simp only: reallocate_def if_True fst_conv simp_thms)
  qed
  obtain pay where "own_payment org p db = Some pay"
    using False v by (cases "own_payment org p db") (simp_all add: reallocate_def)
  note p = this v
  obtain a where a: "find (\<lambda>a. al_invoice a = f) (live_for_payment p db) = Some a"
    using False p by (cases "find (\<lambda>a. al_invoice a = f) (live_for_payment p db)") (simp_all add: reallocate_def)
  let ?moved = "case amount of Some m \<Rightarrow> m | None \<Rightarrow> al_amount a"
  obtain fr tr where i: "live_invoice f db = Some fr" "live_invoice t db = Some tr"
    using False p a by (cases "live_invoice f db"; cases "live_invoice t db") (simp_all add: reallocate_def Let_def)
  obtain db0 where m: "mark_allocation True a db = Ok db0"
    using False p a i by (cases "mark_allocation True a db") (simp_all add: reallocate_def Let_def split: if_splits)
  obtain n db1 where k: "insert_allocation p t ?moved db0 = Ok (n, db1)"
    using False p a i m
    by (cases "insert_allocation p t ?moved db0") (auto simp: reallocate_def Let_def split: if_splits sql_error.splits)
  have "fst (reallocate now org p f t amount db) = refreshInvoicePaidStatus now t (refreshInvoicePaidStatus now f db1)"
    using False p a i m k by (simp add: reallocate_def Let_def split: if_splits)
  then show ?thesis
    using view_insert [OF k] view_mark [OF m] by simp
qed simp

lemma view_serve: "drill_view (serve cur now r db) = drill_view db"
proof (cases r)
  case (CreatePayment org client amount currency status)
  then show ?thesis by (simp add: createPayment_def Let_def)
next
  case (Allocate org p i amount)
  have "drill_view db2 = drill_view db1" if "finalizeIfFullyPaid now r db1 = (db2, paid)" for r db1 db2 paid
    using view_finalize [of now r db1] that by simp
  then show ?thesis
    using view_insert by (auto simp: Allocate allocate_def Let_def split: option.split sum.split sql_error.split prod.split)
next
  case (AllocateAuto org p ids)
  then show ?thesis
    using view_waterfall by (auto simp: allocateAuto_def Let_def split: option.split sum.split)
next
  case (Reallocate org p f t amount)
  show ?thesis
    unfolding Reallocate serve.simps by (rule view_reallocate)
next
  case (Reassign org p client)
  then show ?thesis
    by (auto simp: reassign_def Let_def split: option.split)
next
  case (Unapply org p i)
  then show ?thesis
    using view_mark by (auto simp: unapply_def split: option.split sum.split)
next
  case (DestroyPayment org p)
  then show ?thesis
    using view_reverse by (fastforce simp: destroyPayment_def Let_def split: option.split sum.split)
next
  case (RestorePayment org p)
  then show ?thesis
    using view_restore by (fastforce simp: restorePayment_def Let_def split: option.split sum.split)
next
  case (VoidInvoice i org)
  then show ?thesis
    by (simp add: voidInvoiceById_def view_settle)
next
  case (CancelInvoice i org)
  then show ?thesis
    by (simp add: cancelInvoiceForSat_def view_settle)
qed

end
