(* ===== verification/ShopInvariant.thy ===== *)
theory ShopInvariant
  imports DrillView
begin

text \<open>The invariant behind the drill, and the request sequences it survives.\<close>

section \<open>The invariant\<close>

definition lines_match :: "shop \<Rightarrow> bool" where
  "lines_match s \<longleftrightarrow> (\<forall>(i, sub, rate) \<in> set (drill_view (sh_books s)). \<bar>sub - lines_sum (item_lines i s)\<bar> \<le> 1 \<and> 0 \<le> rate)"

definition clean :: "shop \<Rightarrow> bool" where
  "clean s \<longleftrightarrow> good_books (sh_books s) \<and> lines_match s \<and> (\<forall>x \<in> set (sh_items s). it_invoice x \<in> invoice_ids s) \<and> prices_ok s"

lemma invoice_ids_view: "invoice_ids s = fst ` set (drill_view (sh_books s))"
  by (auto simp: invoice_ids_def drill_view_def image_image)

lemma clean_frames:
  "clean (s\<lparr>sh_periods := ps\<rparr>) = clean s" "clean (s\<lparr>sh_stock := iv\<rparr>) = clean s" "clean (s\<lparr>sh_seq := q\<rparr>) = clean s"
  by (simp_all add: clean_def lines_match_def item_lines_def invoice_ids_def prices_ok_def)

lemma clean_books:
  "good_books db \<Longrightarrow> drill_view db = drill_view (sh_books s) \<Longrightarrow> clean s \<Longrightarrow> clean (s\<lparr>sh_books := db\<rparr>)"
  by (simp add: clean_def lines_match_def item_lines_def invoice_ids_view prices_ok_def)

lemma clean_money: "clean s \<Longrightarrow> nonneg_amounts r \<Longrightarrow> clean (s\<lparr>sh_books := serve cur now r (sh_books s)\<rparr>)"
  by (intro clean_books serve_good view_serve) (simp_all add: clean_def)

lemma fresh_lines: "clean s \<Longrightarrow> i \<notin> invoice_ids s \<Longrightarrow> item_lines i s = []"
  by (auto simp: clean_def item_lines_def filter_empty_conv)

text \<open>A new invoice without allocations keeps the books balanced.\<close>

lemma add_invoice_good:
  assumes "good_books db" and "inv_id r \<notin> inv_id ` set (bd_invoices db)" and "0 \<le> inv_total r" and "inv_status r \<noteq> Paid"
  shows "good_books (db\<lparr>bd_invoices := bd_invoices db @ [r], bd_ledger := l\<rparr>)"
proof -
  have live: "live_for_payment p (db\<lparr>bd_invoices := rs\<rparr>) = live_for_payment p db"
    "live_for_invoice i (db\<lparr>bd_invoices := rs\<rparr>) = live_for_invoice i db" for p i rs
    by (simp_all add: live_for_payment_def live_for_invoice_def)
  have "al_invoice x \<noteq> inv_id r" if "x \<in> set (bd_allocs db)" for x
    using assms(1,2) that unfolding good_books_def books_ok_def rows_ok_def by metis
  then have "live_for_invoice (inv_id r) db = []"
    by (auto simp: live_for_invoice_def filter_empty_conv)
  then show ?thesis
    using assms by (auto simp: good_books_def books_ok_def rows_ok_def within_totals_def covered_but_def live)
qed

lemma clean_new:
  assumes "clean s" and id: "inv_id r \<notin> invoice_ids s" and "0 \<le> inv_total r" "inv_status r \<noteq> Paid" "0 \<le> inv_rate r"
    and "same_catalog s s'" and books: "sh_books s' = (sh_books s)\<lparr>bd_invoices := bd_invoices (sh_books s) @ [r], bd_ledger := l\<rparr>"
    and xs: "sh_items s' = sh_items s @ xs" "\<forall>x \<in> set xs. it_invoice x = inv_id r" "\<bar>inv_subtotal r - lines_sum xs\<bar> \<le> 1"
  shows "clean s'"
proof -
  have g: "good_books (sh_books s')"
    using assms(1,3,4) id add_invoice_good [of "sh_books s" r] by (simp add: clean_def books invoice_ids_def)
  have view: "drill_view (sh_books s') = drill_view (sh_books s) @ [(inv_id r, inv_subtotal r, inv_rate r)]"
    by (simp add: books drill_view_def)
  have old: "item_lines i s' = item_lines i s" if "i \<in> invoice_ids s" for i
    using xs(1,2) id that by (auto simp: item_lines_def filter_empty_conv)
  have new: "item_lines (inv_id r) s' = xs"
    using fresh_lines [OF assms(1) id] xs(1,2) by (simp add: item_lines_def)
  have "lines_match s'"
    using assms(1,5) old new xs(3) by (fastforce simp: lines_match_def view clean_def invoice_ids_view)
  moreover have "\<forall>x \<in> set (sh_items s'). it_invoice x \<in> invoice_ids s'"
    using assms(1) xs by (auto simp: clean_def invoice_ids_view view)
  ultimately show ?thesis
    using g prices_same [OF assms(6)] assms(1) by (simp add: clean_def)
qed

lemma clean_written:
  assumes "clean s" and w: "invoice_written r s s'" and "same_catalog s s'" and "0 \<le> inv_subtotal r" and "0 \<le> inv_rate r"
  shows "clean s'"
proof -
  obtain xs where xs: "sh_items s' = sh_items s @ xs" "\<forall>x \<in> set xs. it_invoice x = inv_id r" "lines_sum xs = inv_subtotal r"
    using w by (auto simp: invoice_written_def)
  have "0 \<le> inv_total r"
    using w assms(4,5) by (simp add: invoice_written_def round_half_nonneg)
  then show ?thesis
    using clean_new [OF assms(1) _ _ _ assms(5,3) _ xs(1,2)] xs(3) w by (simp add: invoice_written_def)
qed

lemma clean_written_periods: "clean s \<Longrightarrow> invoice_written r (s\<lparr>sh_periods := ps\<rparr>) s' \<Longrightarrow> same_catalog s s' \<Longrightarrow> 0 \<le> inv_subtotal r \<Longrightarrow> 0 \<le> inv_rate r \<Longrightarrow> clean s'"
  by (rule clean_written [of "s\<lparr>sh_periods := ps\<rparr>" r]) (simp_all add: clean_frames same_catalog_def)

section \<open>The generators\<close>

lemma clean_generate:
  assumes "clean s" and "plan_ok pl" and "contract_ok c" and "generateInvoice p c pl org today s = (s', res)"
  shows "clean s'"
proof (cases res)
  case (Inl e)
  then have "s' = s"
    using assms(4) by (auto simp: generateInvoice_def split: option.splits if_splits sum.splits)
  then show ?thesis
    using assms(1) by simp
next
  case (Inr x)
  have prices: "prices_ok s"
    using assms(1) by (simp add: clean_def)
  from generate_cases [OF assms(4) [unfolded Inr]] show ?thesis
  proof (elim disjE conjE exE)
    fix i assume "write_invoice p c pl org today s = Ok (i, s')"
    from write_invoice_written [OF this] show ?thesis
      using clean_written [OF assms(1)] tax_rate_nonneg [OF prices] prices assms(2,3) by auto
  qed (use assms(1) in simp)
qed

lemma bare_plan_ok: "plan_ok pl \<Longrightarrow> plan_ok (bare_plan pl)"
  by (simp add: plan_ok_def bare_plan_def)

lemma plan_of_ok: "clean s \<Longrightarrow> plan_of c s = Some pl \<Longrightarrow> plan_ok pl"
  by (auto simp: plan_of_def clean_def prices_ok_def list_all_iff dest!: find_SomeD)

lemma clean_period: "with_periods f s = (s', r) \<Longrightarrow> clean s' = clean s"
  by (auto simp: with_periods_def Let_def clean_frames split: prod.splits)

lemma clean_generateNow:
  assumes "clean s" "plan_ok pl" "contract_ok c"
  shows "clean (fst (generateNow c pl org today s))"
proof -
  obtain s1 r where p: "with_periods (generateBillingPeriod c None today) s = (s1, r)"
    by fastforce
  have c1: "clean s1"
    using clean_period [OF p] assms(1) by simp
  show ?thesis
  proof (cases r)
    case (Period q)
    obtain s2 res where "generateInvoice q c pl org today s1 = (s2, res)"
      by fastforce
    then show ?thesis
      using clean_generate [OF c1 assms(2,3)] p Period by (simp add: generateNow_def)
  qed (use p c1 in \<open>simp_all add: generateNow_def\<close>)
qed

lemma contract_in_ok: "clean s \<Longrightarrow> c \<in> set (sh_contracts s) \<Longrightarrow> contract_ok c"
  by (simp add: clean_def prices_ok_def list_all_iff)

lemma clean_bill:
  assumes "clean s" "contract_ok c"
  shows "clean (fst (bill_contract due f today c s))"
proof (cases "plan_of c s")
  case (Some pl)
  obtain s1 r where p: "with_periods (generateBillingPeriod c None today) s = (s1, r)"
    by fastforce
  have c1: "clean s1"
    using clean_period [OF p] assms(1) by simp
  show ?thesis
  proof (cases r)
    case (Period q)
    obtain s2 res where "generateInvoice q c (bare_plan pl) (f c) today s1 = (s2, res)"
      by fastforce
    then show ?thesis
      using clean_generate [OF c1 bare_plan_ok [OF plan_of_ok [OF assms(1) Some]] assms(2)] p Period Some c1
      by (auto simp: bill_contract_def split: sum.split)
  qed (use p c1 Some in \<open>simp_all add: bill_contract_def\<close>)
qed (use assms in \<open>simp add: bill_contract_def\<close>)

lemma clean_bill_all: "clean s \<Longrightarrow> \<forall>c \<in> set cs. contract_ok c \<Longrightarrow> clean (fst (bill_all due f today cs s))"
proof (induction cs arbitrary: s)
  case (Cons c cs)
  obtain s1 n where b: "bill_contract due f today c s = (s1, n)"
    by fastforce
  then have "clean s1"
    using clean_bill [of s c due f today] Cons.prems by simp
  then show ?case
    using Cons.IH [of s1] Cons.prems by (auto simp: b split: prod.split)
qed simp

lemma clean_one_off:
  assumes "clean s" and "0 \<le> amount"
  shows "clean (fst (createOneOffInvoice org client contract desc amount override stock who today s))"
proof -
  obtain s' res where r: "createOneOffInvoice org client contract desc amount override stock who today s = (s', res)"
    by fastforce
  show ?thesis
  proof (cases res)
    case (Inl e)
    then have "s' = s"
      using r unfolding createOneOffInvoice_def Let_def by (auto split: prod.splits sum.splits)
    then show ?thesis
      using r assms(1) by simp
  next
    case (Inr x)
    have "prices_ok s"
      using assms(1) by (simp add: clean_def)
    then show ?thesis
      using one_off_written [OF r [unfolded Inr]] clean_written [OF assms(1)] tax_rate_nonneg [of s] assms(2) r
      by (auto simp: round_half_nonneg)
  qed
qed

lemma clean_flexible:
  assumes "clean s"
  shows "clean (fst (generateFlexible org who client items today s))"
proof -
  let ?acc0 = "\<lparr>fa_lines = [], fa_periods = [], fa_contracts = [], fa_currency = sh_currency s org\<rparr>"
  have prices: "prices_ok s"
    using assms by (simp add: clean_def)
  obtain s1 r where ri: "read_items org today items ?acc0 s = (s1, r)"
    by fastforce
  obtain ps where s1: "s1 = s\<lparr>sh_periods := ps\<rparr>"
    using read_items_frame [OF ri] by blast
  have c1: "clean s1"
    using assms by (simp add: s1 clean_frames)
  obtain s' res where g: "generateFlexible org who client items today s = (s', res)"
    by fastforce
  consider "s' = s" | "s' = s1" | acc where "r = Ok acc" "items \<noteq> []" "flexible_transaction org who client acc today s1 = (s', res)"
    using g ri unfolding generateFlexible_def by (auto split: if_splits sum.splits)
  then have "clean s'"
  proof cases
    case 3
    have "fa_lines acc \<noteq> []"
      using read_items_frame [OF ri] 3 by auto
    moreover have "0 \<le> sum_list (map fl_amount (fa_lines acc))"
      using read_items_nonneg [OF ri [unfolded 3(1)] prices] by (intro sum_list_nonneg) auto
    moreover have "prices_ok s1"
      using c1 by (simp add: clean_def)
    ultimately show ?thesis
      using transaction_written [OF 3(3)] clean_written [OF c1] c1 tax_rate_nonneg [of s1] by auto
  qed (use assms c1 in simp_all)
  then show ?thesis
    by (simp add: g)
qed

section \<open>Line items\<close>

lemma grown_rows:
  assumes "good_books db" and "0 \<le> delta"
    and f: "\<And>r. inv_id (f r) = inv_id r \<and> inv_total (f r) = inv_total r + delta \<and> inv_deleted (f r) = inv_deleted r \<and> inv_status (f r) = inv_status r"
  shows "books_ok (update_invoice i f db)" and "covered_but {i} (update_invoice i f db)"
proof -
  let ?db = "update_invoice i f db" and ?h = "\<lambda>r. if inv_id r = i then f r else r"
  have ids: "map inv_id (bd_invoices ?db) = map inv_id (bd_invoices db)"
    using f by (simp add: update_invoice_def)
  have "\<forall>r \<in> set (bd_invoices db). total_of (live_for_invoice (inv_id (?h r)) db) \<le> inv_total (?h r)"
    using assms(1,2) f by (fastforce simp: good_books_def books_ok_def within_totals_def)
  then have "within_totals ?db"
    using assms(1) f by (auto simp: good_books_def books_ok_def within_totals_def update_invoice_def live_for_payment_def live_for_invoice_def)
  moreover have "inv_id ` set (bd_invoices ?db) = inv_id ` set (bd_invoices db)"
    using arg_cong [OF ids, of set] by simp
  ultimately show "books_ok ?db"
    using assms(1) ids by (simp add: good_books_def books_ok_def rows_ok_def)
  show "covered_but {i} ?db"
    using assms(1) f by (auto simp: good_books_def covered_but_def update_invoice_def live_for_invoice_def)
qed

lemma grown_good:
  assumes "good_books db" and "0 \<le> delta"
    and f: "\<And>r. inv_id (f r) = inv_id r \<and> inv_total (f r) = inv_total r + delta \<and> inv_deleted (f r) = inv_deleted r \<and> inv_status (f r) = inv_status r"
  shows "good_books (refreshInvoicePaidStatus now i (update_invoice i f db))"
  using grown_rows [OF assms, of i] refresh_covered [of "update_invoice i f db" i "{}"] by (simp add: good_books_def)

lemma view_grown:
  "drill_view (update_invoice i (\<lambda>r. r\<lparr>inv_subtotal := inv_subtotal r + a, inv_tax := inv_tax r + t, inv_total := inv_total r + d\<rparr>) db)
   = map (\<lambda>(j, sub, rate). (j, if j = i then sub + a else sub, rate)) (drill_view db)"
  by (simp add: drill_view_def update_invoice_def)

lemma item_invoice_row: "item_invoice org i b s = Ok r \<Longrightarrow> r \<in> set (bd_invoices (sh_books s)) \<and> inv_id r = i"
  unfolding item_invoice_def by (auto split: if_splits option.splits dest!: find_SomeD)

lemma clean_item:
  assumes c: "clean s" and "0 \<le> ib_amount b" and "ib_invoice b = None"
  shows "clean (fst (addInvoiceItem now org who i b s))"
proof (cases "fst (addInvoiceItem now org who i b s) = s")
  case False
  let ?a = "cents (ib_amount b)" and ?s1 = "insert_item i (FreeText (ib_text b)) (ib_qty b) (ib_unit b) (cents (ib_amount b)) (ib_stock b) s"
  obtain r where r: "item_invoice org i b s = Ok r"
    using False by (cases "item_invoice org i b s") (simp_all add: addInvoiceItem_def)
  obtain iv where e: "fst (addInvoiceItem now org who i b s) =
      (let s2 = applyItemTotals r org (ib_amount b) (?s1\<lparr>sh_stock := iv\<rparr>) in s2\<lparr>sh_books := refreshInvoicePaidStatus now i (sh_books s2)\<rparr>)"
    using False r assms(3) unfolding addInvoiceItem_def item_target_def
    by (auto simp: Let_def split: if_splits sum.splits)
  have ri: "r \<in> set (bd_invoices (sh_books s))" "inv_id r = i"
    using item_invoice_row [OF r] by simp_all
  have rate: "0 \<le> inv_rate r"
    using c ri(1) by (fastforce simp: clean_def lines_match_def drill_view_def)
  have a: "0 \<le> ?a"
    using assms(2) by (rule cents_nonneg)
  let ?t = "round_half (of_int ?a * invoiceTaxFraction (inv_rate r))"
  have t: "0 \<le> ?t"
    using rate a by (intro round_half_nonneg mult_nonneg_nonneg) (simp_all add: invoiceTaxFraction_def)
  let ?f = "\<lambda>r. r\<lparr>inv_subtotal := inv_subtotal r + ?a, inv_tax := inv_tax r + ?t, inv_total := inv_total r + (?a + ?t)\<rparr>"
  obtain l where l: "fst (addInvoiceItem now org who i b s) =
      ?s1\<lparr>sh_stock := iv, sh_books := refreshInvoicePaidStatus now i ((update_invoice i ?f (sh_books s))\<lparr>bd_ledger := l\<rparr>)\<rparr>"
  proof (cases "?a + ?t > 0")
    case True
    then show ?thesis
      using that e ri(2) by (auto simp: applyItemTotals_def applyLineItemToTotals_def insert_debit_def Let_def)
  next
    case False
    have "(update_invoice i ?f (sh_books s))\<lparr>bd_ledger := bd_ledger (update_invoice i ?f (sh_books s))\<rparr> = update_invoice i ?f (sh_books s)"
      by simp
    then show ?thesis
      using that [of "bd_ledger (update_invoice i ?f (sh_books s))"] False e ri(2)
      by (simp add: applyItemTotals_def applyLineItemToTotals_def Let_def)
  qed
  let ?db = "refreshInvoicePaidStatus now i ((update_invoice i ?f (sh_books s))\<lparr>bd_ledger := l\<rparr>)"
  have "(update_invoice i ?f (sh_books s))\<lparr>bd_ledger := l\<rparr> = update_invoice i ?f ((sh_books s)\<lparr>bd_ledger := l\<rparr>)"
    by (simp add: update_invoice_def)
  moreover have "good_books ((sh_books s)\<lparr>bd_ledger := l\<rparr>)"
    using c by (simp add: clean_def good_books_def)
  ultimately have "good_books ?db"
    using grown_good [of "(sh_books s)\<lparr>bd_ledger := l\<rparr>" "?a + ?t" ?f now i] a t by simp
  moreover have view: "drill_view ?db = map (\<lambda>(j, sub, rate). (j, if j = i then sub + ?a else sub, rate)) (drill_view (sh_books s))"
    by (simp add: view_grown)
  moreover have "item_lines j (?s1\<lparr>sh_stock := iv, sh_books := ?db\<rparr>) = item_lines j s @ (if j = i then [\<lparr>it_invoice = i, it_text = FreeText (ib_text b), it_qty = dec2 (ib_qty b),
        it_unit = dec2 (ib_unit b), it_amount = ?a, it_stock = ib_stock b\<rparr>] else [])" for j
    by (simp add: item_lines_def)
  moreover have "i \<in> invoice_ids s"
    using ri by (auto simp: invoice_ids_def)
  ultimately show ?thesis
    using c by (auto simp: l clean_def lines_match_def invoice_ids_view prices_ok_def image_image case_prod_beta insert_item_def)
qed (use c in simp)

section \<open>Invoices with their lines\<close>

text \<open>What the schema checks of the numbers, and lines in whole cents that are given.\<close>

definition body_nonneg :: "invoice_body \<Rightarrow> bool" where
  "body_nonneg b \<longleftrightarrow> 0 \<le> ivb_subtotal b \<and> 0 \<le> ivb_total b \<and> 0 \<le> body_tax b \<and> (case ivb_rate b of None \<Rightarrow> True | Some r \<Rightarrow> 0 \<le> r)"

definition exact_lines :: "invoice_body \<Rightarrow> bool" where
  "exact_lines b \<longleftrightarrow> (case ivb_lines b of None \<Rightarrow> False | Some ls \<Rightarrow> list_all (\<lambda>l. whole (line_amount l * 100)) ls)"

lemma whole_cents: "whole (x * 100) \<Longrightarrow> of_int (cents x) = x * 100"
  unfolding whole_def cents_def by (metis round_half_of_int)

lemma cents_sum:
  assumes "list_all (\<lambda>l. whole (f l * 100)) ls"
  shows "cents (sum_list (map f ls)) = sum_list (map (\<lambda>l. cents (f l)) ls)"
proof -
  have "of_int (sum_list (map (\<lambda>l. cents (f l)) ls)) = sum_list (map f ls) * 100"
    using assms by (induction ls) (auto simp: whole_cents algebra_simps)
  then show ?thesis
    using round_half_of_int [of "sum_list (map (\<lambda>l. cents (f l)) ls)"] by (simp add: cents_def)
qed

lemma near_cents: "\<bar>of_int n / 100 - x\<bar> \<le> 1 / 100 \<Longrightarrow> \<bar>cents x - n\<bar> \<le> 1"
proof -
  assume "\<bar>of_int n / 100 - x\<bar> \<le> (1 / 100 :: rat)"
  then have "of_int (n - 1) \<le> x * 100" "x * 100 \<le> of_int (n + 1)"
    by (simp_all add: abs_le_iff field_simps)
  from round_half_mono [OF this(1)] round_half_mono [OF this(2)] show ?thesis
    unfolding cents_def round_half_of_int by linarith
qed

lemma insert_lines_sum:
  "insert_lines i ls s = s\<lparr>sh_items := sh_items s @ map (\<lambda>l. \<lparr>it_invoice = i, it_text = FreeText (js_trim (nl_text l)),
     it_qty = dec2 (line_qty l), it_unit = dec2 (nl_unit l), it_amount = cents (line_amount l), it_stock = None\<rparr>) ls\<rparr>"
  unfolding insert_lines_def by (induction ls arbitrary: s) (simp_all add: insert_item_def)

lemma clean_create:
  assumes c: "clean s" and "body_nonneg b" and "exact_lines b" and "ivb_status b \<noteq> Some Paid"
  shows "clean (fst (createInvoice org today b s))"
proof (cases "body_problem org b s")
  case None
  obtain ls where ls: "ivb_lines b = Some ls" "list_all (\<lambda>l. whole (line_amount l * 100)) ls"
    using assms(3) by (auto simp: exact_lines_def split: option.splits)
  have near: "\<bar>of_int (cents (sum_list (map line_amount ls))) / 100 - ivb_subtotal b\<bar> \<le> 1 / 100"
    using None ls(1) unfolding body_problem_def Let_def by (auto split: if_splits)
  obtain num s1 where n: "(if ivb_number b = [] then nextInvoiceNumber org s else (ivb_number b, s)) = (num, s1)"
    by fastforce
  have s1: "sh_books s1 = sh_books s" "sh_items s1 = sh_items s" "same_catalog s s1"
    using n next_number_frame [of org s num s1] by (auto split: if_splits)
  let ?row = "\<lparr>inv_id = 0, inv_org = org, inv_client = ivb_client b, inv_contract = ivb_contract b, inv_number = num,
                  inv_issued = today, inv_due = ivb_due b, inv_subtotal = cents (ivb_subtotal b), inv_tax = cents (body_tax b),
                  inv_total = cents (ivb_total b), inv_rate = of_int (round_half (body_rate b * 10000)) / 10000, inv_rate_id = ivb_rate_id b,
                  inv_currency = (if ivb_currency b = [] then sh_currency s org else ivb_currency b),
                  inv_status = (case ivb_status b of None \<Rightarrow> Draft | Some st \<Rightarrow> st), inv_paid_at = None, inv_deleted = False\<rparr>"
  show ?thesis
  proof (cases "insert_invoice ?row s1")
    case (Inl e)
    then show ?thesis
      using c None n by (simp add: createInvoice_def Let_def)
  next
    case (Inr w)
    obtain i s2 where w: "w = (i, s2)"
      by fastforce
    note s2 = insert_invoice_Ok [OF Inr [unfolded w]]
    have rate: "0 \<le> body_rate b"
      using assms(2) by (auto simp: body_nonneg_def body_rate_def invoiceTaxFraction_def split: option.splits
          intro!: round_half_nonneg divide_nonneg_nonneg mult_nonneg_nonneg)
    have e: "fst (createInvoice org today b s) = insert_lines i ls s2"
      using None n Inr w ls(1) by (simp add: createInvoice_def Let_def)
    let ?xs = "map (\<lambda>l. \<lparr>it_invoice = i, it_text = FreeText (js_trim (nl_text l)),
     it_qty = dec2 (line_qty l), it_unit = dec2 (nl_unit l), it_amount = cents (line_amount l), it_stock = None\<rparr>) ls"
    have sum: "lines_sum ?xs = cents (sum_list (map line_amount ls))"
      using cents_sum [OF ls(2)] by (simp add: lines_sum_def comp_def)
    show ?thesis
      unfolding e
    proof (rule clean_new [where r = "?row\<lparr>inv_id := i\<rparr>" and xs = ?xs and l = "bd_ledger (sh_books s)"])
      show "\<bar>inv_subtotal (?row\<lparr>inv_id := i\<rparr>) - lines_sum ?xs\<bar> \<le> 1"
        using near_cents [OF near] unfolding sum by simp
      show "0 \<le> inv_rate (?row\<lparr>inv_id := i\<rparr>)"
        using rate by (simp add: round_half_nonneg)
      show "0 \<le> inv_total (?row\<lparr>inv_id := i\<rparr>)"
        using assms(2) by (simp add: body_nonneg_def cents_nonneg)
      show "inv_status (?row\<lparr>inv_id := i\<rparr>) \<noteq> Paid"
        using assms(4) by (auto split: option.split)
      show "inv_id (?row\<lparr>inv_id := i\<rparr>) \<notin> invoice_ids s"
        using s2 s1 by (simp add: invoice_ids_def)
    qed (use c s1 s2 in \<open>simp_all add: insert_lines_sum same_catalog_def\<close>)
  qed
qed (use c in \<open>simp add: createInvoice_def\<close>)

end
