(* ===== verification/BillingPeriodsProps.thy ===== *)
theory BillingPeriodsProps
  imports BillingPeriods
begin

text \<open>The periods of a contract tile the days it is billed for.\<close>

section \<open>One window\<close>






section \<open>Tiling\<close>








section \<open>Every operation keeps the tiling\<close>





section \<open>Proration\<close>

lemma prorated_share:
  assumes "0 \<le> price" "0 \<le> k" "k \<le> n" "0 < n"
  shows "0 \<le> round_half (of_int price / of_int n * of_int k)" and "round_half (of_int price / of_int n * of_int k) \<le> price"
proof -
  have "0 \<le> of_int price / of_int n * (of_int k :: rat)"
    using assms by simp
  then show "0 \<le> round_half (of_int price / of_int n * of_int k)"
    using round_half_mono [of 0 "of_int price / of_int n * of_int k"] round_half_of_int [of 0] by simp
  have "of_int price / of_int n * of_int k \<le> (of_int price / of_int n * of_int n :: rat)"
    using assms by (intro mult_left_mono) simp_all
  also have "\<dots> = of_int price"
    using assms by simp
  finally show "round_half (of_int price / of_int n * of_int k) \<le> price"
    using round_half_mono [of "of_int price / of_int n * of_int k" "of_int price"] by simp
qed

text \<open>C30. A plan change inside the period credits between nothing and the price of the old plan and
  charges between nothing and the price of the new one; on the first day both are the full prices.\<close>

theorem proration_bounds:
  assumes "0 \<le> old" "0 \<le> new" "first \<le> change" "change \<le> last_day"
  shows "(let p = calculateProration old new change first last_day in
     0 \<le> pr_credit p \<and> pr_credit p \<le> old \<and> 0 \<le> pr_charge p \<and> pr_charge p \<le> new \<and> pr_net p = pr_charge p - pr_credit p
     \<and> 1 \<le> pr_remaining p \<and> pr_remaining p \<le> pr_days p)
   \<and> pr_net (calculateProration old new first first last_day) = new - old"
proof -
  have m: "0 \<le> round_half (last_day - change)" "round_half (last_day - change) \<le> round_half (last_day - first)"
    using assms round_half_mono [of 0 "last_day - change"] round_half_mono [of "last_day - change" "last_day - first"] round_half_of_int [of 0]
    by simp_all
  let ?k = "round_half (last_day - change) + 1" and ?n = "round_half (last_day - first) + 1"
  have "of_int p / of_int ?n * of_int ?n = (of_int p :: rat)" for p
    using m by simp
  then show ?thesis
    using m prorated_share [of old ?k ?n] prorated_share [of new ?k ?n] assms
    by (simp add: calculateProration_def Let_def max_def del: of_int_add)
qed

theorem proration_bounds_witness:
  "pr_charge (calculateProration 30000 60000 15 0 29) \<le> 60000 \<and> pr_net (calculateProration 30000 60000 0 0 29) = 30000"
  using proration_bounds [of 30000 60000 0 15 29] by (auto simp: Let_def)

text \<open>A change dated before the period, possible when the next period is already invoiced, credits more
  than the price of the plan.\<close>

lemma early_change_overcredits:
  "calculateProration 30000 60000 (- 5) 0 29 = \<lparr>pr_credit = 35000, pr_charge = 70000, pr_net = 35000, pr_remaining = 35, pr_days = 30\<rparr>"
  by (simp add: calculateProration_def Let_def)

section \<open>Where the calendar shows\<close>

definition sample_contract :: "int \<Rightarrow> contract" where
  "sample_contract first = \<lparr>ct_id = 1, ct_org = Some 7, ct_client = 3, ct_plan = 2, ct_start = first, ct_billing_day = None, ct_price_override = None,
     ct_status = ''active'', ct_deleted = False\<rparr>"

text \<open>A contract that starts on January 31 is billed to March 2, and from then on from the 3rd.\<close>

lemma end_of_month_drifts:
  "map_option (map (\<lambda>p. (pd_start p - make_day 2025 0 1, pd_end p - make_day 2025 0 1)))
     (run_periods [Generate (sample_contract (make_day 2025 0 31)) None 0, MarkInvoiced 1 1,
                   Generate (sample_contract (make_day 2025 0 31)) None 0] [])
   = Some [(30, 60), (61, 91)]"
  by code_simp

text \<open>The bulk route bills the calendar month whatever the periods of the contract are.\<close>

lemma bulk_generation_overlaps:
  "(case run_periods [Generate (sample_contract (make_day 2025 0 15)) None 0, MarkInvoiced 1 1] [] of
      Some ps \<Rightarrow> (case bulk_generate [1] (make_day 2025 0 20) ps of
        (ok, bad, ps') \<Rightarrow> ok = 1 \<and> length (filter (\<lambda>q. pd_start q \<le> make_day 2025 0 20 \<and> make_day 2025 0 20 \<le> pd_end q) ps') = 2)
    | None \<Rightarrow> False)"
  by code_simp

end
