(* ===== verification/ShopScenarios.thy ===== *)
theory ShopScenarios
  imports ShopProps
begin

text \<open>A sample shop: witnesses, and scenarios in which the requests go wrong.\<close>

section \<open>A shop to evaluate on\<close>

definition shop_plan :: service_plan where
  "shop_plan = \<lparr>pl_id = 2, pl_name = ''Fibra'', pl_price = 50000, pl_currency = Some ''MXN'', pl_trial_days = None, pl_trial_price = Some 0,
     pl_overage_mode = Some ''per_gb'', pl_cap = Some 1, pl_gb_price = Some 10\<rparr>"

definition shop_contract :: contract where
  "shop_contract = \<lparr>ct_id = 1, ct_org = Some 1, ct_client = 9, ct_plan = 2, ct_start = 20000, ct_billing_day = None, ct_price_override = None,
     ct_status = ''active'', ct_deleted = False\<rparr>"

definition shop_period :: period where
  "shop_period = \<lparr>pd_id = 1, pd_contract = 1, pd_start = 20000, pd_end = 20030, pd_invoice = None, pd_status = PeriodPending, pd_scheduled = 20000\<rparr>"

definition shop_sample :: shop where
  "shop_sample = \<lparr>sh_books = \<lparr>bd_invoices = [], bd_payments = [], bd_allocs = [], bd_ledger = [], bd_credit_notes = [], bd_cfdi = [],
       bd_clients = [\<lparr>cl_id = 9, cl_org = Some 1, cl_deleted = False\<rparr>]\<rparr>,
     sh_items = [], sh_periods = [shop_period], sh_seq = (\<lambda>_. None), sh_quotes = (\<lambda>_. None),
     sh_tax = \<lparr>td_rules = [], td_rates = [\<lparr>tx_id = 5, tx_org = Some 1, tx_rate = 16 / 100, tx_default = True, tx_active = True, tx_deleted = False\<rparr>],
       td_clients = [\<lparr>tc_id = 9, tc_org = Some 1, tc_exempt = False, tc_locale = ''MX'', tc_zip = None\<rparr>], td_locale = (\<lambda>_. ''MX'')\<rparr>,
     sh_plans = [shop_plan], sh_contracts = [shop_contract],
     sh_addons = [\<lparr>ca_contract = 1, ca_addon = 4, ca_unit = Some 5000, ca_qty = 2, ca_status = ''active''\<rparr>],
     sh_catalog = [\<lparr>pa_id = 4, pa_name = ''IP'', pa_price = 6000\<rparr>],
     sh_usage = [],
     sh_sessions = [], sh_stock = \<lparr>in_items = [], in_warehouses = [], in_stock = [], in_moves = []\<rparr>,
     sh_currency = (\<lambda>_. ''MXN''), sh_liveness = 60\<rparr>"

lemma shop_sample_clean: "clean shop_sample"
  by (simp add: clean_def shop_sample_def good_books_def books_ok_def rows_ok_def within_totals_def covered_but_def lines_match_def
      drill_view_def prices_ok_def plan_ok_def shop_plan_def contract_ok_def shop_contract_def)

theorem drill_stays_clean_witness:
  "financial_ok (fold serve_shop
     [InvoiceContract False (Some 1) 1 20010, Money ''MXN'' 5 (CreatePayment 1 9 69600 None Completed),
      Money ''MXN'' 6 (AllocateAuto 1 1 None), NightlyInvoices None 20040] shop_sample)"
  using drill_stays_clean [OF shop_sample_clean, of "[InvoiceContract False (Some 1) 1 20010, Money ''MXN'' 5 (CreatePayment 1 9 69600 None Completed),
      Money ''MXN'' 6 (AllocateAuto 1 1 None), NightlyInvoices None 20040]"] by simp



section \<open>What goes wrong\<close>

definition last_total :: "shop \<Rightarrow> int" where
  "last_total s = (case rev (bd_invoices (sh_books s)) of [] \<Rightarrow> 0 | r # _ \<Rightarrow> inv_total r)"

text \<open>The nightly task passes a plan without its overage mode, so no nightly invoice charges overage that
  the same period charges when it is invoiced by hand.\<close>

lemma nightly_invoices_skip_overage:
  "add_overage i c (bare_plan pl) p cur today s = (0, s)"
  "(let s = shop_sample\<lparr>sh_usage := [\<lparr>us_contract = 1, us_org = Some 1, us_date = 20005, us_bytes = 3221225472, us_complete = True\<rparr>]\<rparr>
    in fst (add_overage 1 shop_contract shop_plan shop_period ''MXN'' 20010 s)) = 2000"
  by (simp_all add: add_overage_def bare_plan_def isContractInTrial_def shop_plan_def shop_period_def shop_contract_def shop_sample_def
      calculateOverageCharges_def Let_def)

text \<open>Two charges for one contract in a flexible request bill its one period twice.\<close>

lemma flexible_charges_period_twice:
  "(let s = serve_shop (FlexibleInvoice (Some 1) None 9 [ContractCharge (Some 1), ContractCharge (Some 1)] 20010) shop_sample
    in last_total s = 116000 \<and> length (filter (\<lambda>p. pd_status p = PeriodInvoiced) (sh_periods s)) = 1)"
  by code_simp

text \<open>A body that names another invoice puts the line there and its amount on the invoice of the path.\<close>

lemma item_lands_on_other_invoice:
  "(let b = \<lparr>ib_text = ''x'', ib_qty = 1, ib_unit = 70, ib_amount = 70, ib_rate = None, ib_stock = None, ib_invoice = Some 1\<rparr>;
        s = fold serve_shop [InvoiceContract False (Some 1) 1 20010, OneOff (Some 1) 9 None ''y'' 10 None None None 20010,
              AddItem 7 (Some 1) None 2 b] shop_sample
    in inconsistent_invoices s = 2)"
  by code_simp

text \<open>A manual invoice is never debited in the ledger, and may be stored as paid without a payment.\<close>

lemma manual_invoice_not_debited: "bd_ledger (sh_books (fst (createInvoice org today b s))) = bd_ledger (sh_books s)"
proof (cases "body_problem org b s")
  case None
  obtain num s1 where n: "(if ivb_number b = [] then nextInvoiceNumber org s else (ivb_number b, s)) = (num, s1)"
    by fastforce
  then have "sh_books s1 = sh_books s"
    using next_number_frame [of org s num s1] by (auto split: if_splits)
  then show ?thesis
    using None n by (auto simp: createInvoice_def Let_def insert_lines_sum dest!: insert_invoice_Ok split: sum.split)
qed (simp add: createInvoice_def)

lemma manual_invoice_paid_unpaid:
  "(let b = \<lparr>ivb_client = 9, ivb_contract = None, ivb_number = [], ivb_subtotal = 100, ivb_tax = None, ivb_total = 116, ivb_currency = [],
          ivb_rate = None, ivb_rate_id = None, ivb_due = 20030, ivb_status = Some Paid, ivb_lines = None\<rparr>;
        s = fst (createInvoice (Some 1) 20010 b shop_sample)
    in \<not> paid_covered (sh_books s))"
  by code_simp

section \<open>Numbers\<close>

text \<open>When a live invoice of the organization already holds the number its sequence gives next, every
  generated invoice of the organization fails and nothing changes, the sequence included: the failure
  repeats for good.\<close>

theorem taken_number_blocks:
  assumes "r \<in> set (bd_invoices (sh_books s))" and "inv_org r = Some g" and "\<not> inv_deleted r" and "inv_number r = fst (nextInvoiceNumber (Some g) s)"
  shows "createOneOffInvoice (Some g) client contract desc amount override stock who today s = (s, Err (Sql DuplicateEntry))
    \<and> write_invoice p c pl (Some g) today s = Err (Sql DuplicateEntry)"
proof -
  obtain num s1 where n: "nextInvoiceNumber (Some g) s = (num, s1)"
    by fastforce
  have "insert_invoice row s1 = Err (Sql DuplicateEntry)" if "inv_org row = Some g" "inv_number row = num" for row
    using assms n that next_number_frame [OF n] by (auto simp: insert_invoice_def Let_def list_ex_iff)
  then show ?thesis
    using n by (simp_all add: createOneOffInvoice_def write_invoice_def Let_def)
qed

definition blocked_sample :: shop where
  "blocked_sample = serve_shop (NewInvoice (Some 1) 20000
     \<lparr>ivb_client = 9, ivb_contract = None, ivb_number = ''INV-000001'', ivb_subtotal = 100, ivb_tax = None, ivb_total = 116, ivb_currency = [],
       ivb_rate = None, ivb_rate_id = None, ivb_due = 20030, ivb_status = None, ivb_lines = None\<rparr>) shop_sample"

lemma blocked_row:
  "(case bd_invoices (sh_books blocked_sample) of r # _ \<Rightarrow> inv_org r = Some 1 \<and> \<not> inv_deleted r \<and> inv_number r = ''INV-000001'' | [] \<Rightarrow> False)
   \<and> fst (nextInvoiceNumber (Some 1) blocked_sample) = ''INV-000001''"
  by code_simp

theorem taken_number_blocks_witness:
  "createOneOffInvoice (Some 1) 9 None ''alta'' 10 None None None 20001 blocked_sample = (blocked_sample, Err (Sql DuplicateEntry))"
proof -
  obtain r where "r \<in> set (bd_invoices (sh_books blocked_sample))" "inv_org r = Some 1" "\<not> inv_deleted r" "inv_number r = ''INV-000001''"
    using blocked_row by (cases "bd_invoices (sh_books blocked_sample)") auto
  then show ?thesis
    using taken_number_blocks [of r blocked_sample 1] blocked_row by simp
qed

end
