(* ===== verification/LateFees.thy ===== *)
theory LateFees
  imports ShopScenarios
begin

text \<open>
  Late fees (\<open>services/lateFeeService.js\<close>, \<open>routes/lateFeeRules.js\<close>): the rules of an organization and the
  scheduled run that adds their fees to overdue invoices. The statements of a run are not in a
  transaction; none of them fails here. The row of an invoice is read once and kept in step in memory,
  as the code does. The id of the new line, which the application stores, is left out. A body key that
  is missing is \<open>None\<close>; the routes check nothing else of it.
\<close>

section \<open>Tables\<close>

record late_rule =
  lf_id :: nat
  lf_org :: nat
  lf_name :: string
  lf_percent :: bool
  lf_amount :: rat
  lf_grace :: int
  lf_max :: "int option"
  lf_active :: bool

record late_application =
  la_invoice :: nat
  la_rule :: nat
  la_org :: nat
  la_amount :: int

record late_shop =
  ls_shop :: shop
  ls_rules :: "late_rule list"
  ls_next :: nat
  ls_fees :: "late_application list"

section \<open>Rules\<close>

record late_body =
  lb_name :: "string option"
  lb_percent :: "bool option"
  lb_amount :: "rat option"
  lb_grace :: "int option"
  lb_max :: "int option option"
  lb_active :: "bool option"

definition given_or :: "'a option \<Rightarrow> 'a \<Rightarrow> 'a" where
  "given_or v d = (case v of None \<Rightarrow> d | Some x \<Rightarrow> x)"

definition getLateFeeRules :: "nat \<Rightarrow> late_shop \<Rightarrow> late_rule list" where
  "getLateFeeRules org st = sort_key lf_id (filter (\<lambda>r. lf_org r = org) (ls_rules st))"

definition getLateFeeRuleById :: "nat \<Rightarrow> nat \<Rightarrow> late_shop \<Rightarrow> late_rule option" where
  "getLateFeeRuleById org i st = find (\<lambda>r. lf_id r = i \<and> lf_org r = org) (ls_rules st)"

text \<open>The name has no default and the column no null.\<close>

definition createLateFeeRule :: "nat \<Rightarrow> late_body \<Rightarrow> late_shop \<Rightarrow> (late_shop \<times> late_rule) result" where
  "createLateFeeRule org b st =
     (case lb_name b of
        None \<Rightarrow> Inl ''Column name cannot be null''
      | Some n \<Rightarrow>
          (let r = \<lparr>lf_id = ls_next st, lf_org = org, lf_name = n, lf_percent = given_or (lb_percent b) False, lf_amount = dec2 (given_or (lb_amount b) 0),
             lf_grace = given_or (lb_grace b) 0, lf_max = given_or (lb_max b) None, lf_active = given_or (lb_active b) True\<rparr>
           in Inr (st\<lparr>ls_rules := ls_rules st @ [r], ls_next := ls_next st + 1\<rparr>, r)))"

definition patch_rule :: "late_body \<Rightarrow> late_rule \<Rightarrow> late_rule" where
  "patch_rule b r = r\<lparr>lf_name := given_or (lb_name b) (lf_name r), lf_percent := given_or (lb_percent b) (lf_percent r),
     lf_amount := (case lb_amount b of None \<Rightarrow> lf_amount r | Some a \<Rightarrow> dec2 a), lf_grace := given_or (lb_grace b) (lf_grace r),
     lf_max := given_or (lb_max b) (lf_max r), lf_active := given_or (lb_active b) (lf_active r)\<rparr>"

definition updateLateFeeRule :: "nat \<Rightarrow> nat \<Rightarrow> late_body \<Rightarrow> late_shop \<Rightarrow> late_shop \<times> late_rule option" where
  "updateLateFeeRule org i b st =
     (let st' = st\<lparr>ls_rules := map (\<lambda>r. if lf_id r = i \<and> lf_org r = org then patch_rule b r else r) (ls_rules st)\<rparr>
      in (st', getLateFeeRuleById org i st'))"

text \<open>The applications keep a foreign key to their rule.\<close>

definition deleteLateFeeRule :: "nat \<Rightarrow> nat \<Rightarrow> late_shop \<Rightarrow> (late_shop \<times> bool) result" where
  "deleteLateFeeRule org i st =
     (if getLateFeeRuleById org i st = None then Inr (st, False)
      else if list_ex (\<lambda>a. la_rule a = i) (ls_fees st) then Inl ''Foreign key constraint fails''
      else Inr (st\<lparr>ls_rules := filter (\<lambda>r. \<not> (lf_id r = i \<and> lf_org r = org)) (ls_rules st)\<rparr>, True))"

section \<open>The run\<close>

definition overdue_invoices :: "nat \<Rightarrow> int \<Rightarrow> late_shop \<Rightarrow> invoice_row list" where
  "overdue_invoices org today st =
     filter (\<lambda>r. inv_org r = Some org \<and> inv_status r \<in> {Issued, Overdue} \<and> inv_due r < today \<and> \<not> inv_deleted r
        \<and> assertNoLiveCfdi (inv_id r) (sh_books (ls_shop st))) (bd_invoices (sh_books (ls_shop st)))"

definition times_applied :: "nat \<Rightarrow> nat \<Rightarrow> late_shop \<Rightarrow> nat" where
  "times_applied i rule st = length (filter (\<lambda>a. la_invoice a = i \<and> la_rule a = rule) (ls_fees st))"

definition fee_of :: "late_rule \<Rightarrow> invoice_row \<Rightarrow> int" where
  "fee_of rule r = (if lf_percent rule then round_half (of_int (inv_subtotal r) * (lf_amount rule / 100)) else cents (lf_amount rule))"

definition due_fee :: "int \<Rightarrow> late_rule \<Rightarrow> invoice_row \<Rightarrow> late_shop \<Rightarrow> bool" where
  "due_fee today rule r st \<longleftrightarrow> today - inv_due r > lf_grace rule
     \<and> (case lf_max rule of None \<Rightarrow> True | Some m \<Rightarrow> int (times_applied (inv_id r) (lf_id rule) st) < m)
     \<and> 0 < fee_of rule r"

definition add_fee_line :: "nat \<Rightarrow> rat \<Rightarrow> string \<Rightarrow> int \<Rightarrow> shop \<Rightarrow> shop" where
  "add_fee_line i rate nm fee s =
     (let s1 = insert_item i (FreeText (''Late fee: '' @ nm)) 1 (of_int fee / 100) fee None s
      in s1\<lparr>sh_books := fst (applyLineItemToTotals i rate fee (sh_books s1))\<rparr>)"

definition apply_fee :: "nat \<Rightarrow> late_rule \<Rightarrow> late_shop \<times> invoice_row \<Rightarrow> late_shop \<times> invoice_row" where
  "apply_fee org rule = (\<lambda>(st, r).
     let fee = fee_of rule r; lineTax = round_half (of_int fee * invoiceTaxFraction (inv_rate r)) in
     (st\<lparr>ls_shop := add_fee_line (inv_id r) (inv_rate r) (lf_name rule) fee (ls_shop st),
         ls_fees := ls_fees st @ [\<lparr>la_invoice = inv_id r, la_rule = lf_id rule, la_org = org, la_amount = fee\<rparr>]\<rparr>,
      r\<lparr>inv_subtotal := inv_subtotal r + fee, inv_tax := inv_tax r + lineTax, inv_total := inv_total r + fee + lineTax\<rparr>))"

fun rule_loop :: "nat \<Rightarrow> int \<Rightarrow> late_rule list \<Rightarrow> late_shop \<times> invoice_row \<Rightarrow> nat \<Rightarrow> late_shop \<times> nat" where
  "rule_loop org today [] st n = (fst st, n)"
| "rule_loop org today (rule # rules) st n =
     (if due_fee today rule (snd st) (fst st) then rule_loop org today rules (apply_fee org rule st) (n + 1)
      else rule_loop org today rules st n)"

fun invoice_loop :: "nat \<Rightarrow> int \<Rightarrow> late_rule list \<Rightarrow> invoice_row list \<Rightarrow> late_shop \<Rightarrow> nat \<Rightarrow> late_shop \<times> nat" where
  "invoice_loop org today rules [] st n = (st, n)"
| "invoice_loop org today rules (r # rs) st n =
     (case rule_loop org today rules (st, r) n of (st', n') \<Rightarrow> invoice_loop org today rules rs st' n')"

definition active_late_rules :: "nat \<Rightarrow> late_shop \<Rightarrow> late_rule list" where
  "active_late_rules org st = filter (\<lambda>r. lf_org r = org \<and> lf_active r) (ls_rules st)"

text \<open>The answer is the number of fees and of invoices looked at.\<close>

definition applyLateFees :: "nat \<Rightarrow> int \<Rightarrow> late_shop \<Rightarrow> late_shop \<times> nat \<times> nat" where
  "applyLateFees org today st =
     (let rules = active_late_rules org st in
      if rules = [] then (st, 0, 0)
      else (let invoices = overdue_invoices org today st in
            case invoice_loop org today rules invoices st 0 of (st', n) \<Rightarrow> (st', n, length invoices)))"

section \<open>Runs step by step\<close>

text \<open>What holds of a step of the two loops holds of a run.\<close>

lemma rule_loop_step:
  assumes "\<And>rule st r. rule \<in> set rules \<Longrightarrow> P st r \<Longrightarrow> due_fee today rule r st \<Longrightarrow> case_prod P (apply_fee org rule (st, r))"
    and "P st r"
  shows "\<exists>r'. P (fst (rule_loop org today rules (st, r) n)) r' \<and> inv_id r' = inv_id r"
  using assms
proof (induction rules arbitrary: st r n)
  case (Cons rule rules)
  show ?case
  proof (cases "due_fee today rule r st")
    case True
    obtain st1 r1 where s: "apply_fee org rule (st, r) = (st1, r1)" by fastforce
    have "P st1 r1" using Cons.prems(1) [of rule st r] Cons.prems(2) True s by simp
    moreover have "inv_id r1 = inv_id r" using s by (auto simp: apply_fee_def Let_def)
    ultimately show ?thesis using Cons.IH [of st1 r1 "n + 1"] Cons.prems(1) True s by (auto simp del: split_paired_All)
  next
    case False
    then show ?thesis using Cons.IH [of st r n] Cons.prems by auto
  qed
qed auto

lemma invoice_loop_step:
  assumes "\<And>rule st r. rule \<in> set rules \<Longrightarrow> Q st \<Longrightarrow> r \<in> R \<Longrightarrow> due_fee today rule r st \<Longrightarrow> Q (fst (apply_fee org rule (st, r)))"
    and "\<And>rule st r. r \<in> R \<Longrightarrow> snd (apply_fee org rule (st, r)) \<in> R"
    and "Q st" and "set rs \<subseteq> R"
  shows "Q (fst (invoice_loop org today rules rs st n))"
  using assms(3,4)
proof (induction rs arbitrary: st n)
  case (Cons r rs)
  obtain st1 n1 where one: "rule_loop org today rules (st, r) n = (st1, n1)" by fastforce
  have "\<exists>r'. (Q st1 \<and> r' \<in> R) \<and> inv_id r' = inv_id r"
    using rule_loop_step [of rules "\<lambda>st r. Q st \<and> r \<in> R" today org st r n] assms(1,2) Cons.prems one
    by (auto simp: case_prod_beta)
  then show ?case using Cons one by simp
qed simp

lemma run_step:
  assumes "\<And>rule st r. rule \<in> set (active_late_rules org st0) \<Longrightarrow> Q st \<Longrightarrow> r \<in> R \<Longrightarrow> due_fee today rule r st \<Longrightarrow> Q (fst (apply_fee org rule (st, r)))"
    and "\<And>rule st r. r \<in> R \<Longrightarrow> snd (apply_fee org rule (st, r)) \<in> R"
    and "Q st0" and "set (overdue_invoices org today st0) \<subseteq> R"
  shows "Q (fst (applyLateFees org today st0))"
  using invoice_loop_step [of "active_late_rules org st0" Q R today org st0 "overdue_invoices org today st0" 0] assms
  by (auto simp: applyLateFees_def Let_def case_prod_beta)

section \<open>The books\<close>

text \<open>An invoice that is not paid may grow without a look at its payments.\<close>

definition unpaid_ids :: "billing_db \<Rightarrow> nat set" where
  "unpaid_ids db = {i \<in> inv_id ` set (bd_invoices db). \<forall>r\<in>set (bd_invoices db). inv_id r = i \<longrightarrow> inv_status r \<noteq> Paid}"

lemma grown_unpaid:
  assumes "good_books db" and "0 \<le> delta" and "i \<in> unpaid_ids db"
    and f: "\<And>r. inv_id (f r) = inv_id r \<and> inv_total (f r) = inv_total r + delta \<and> inv_deleted (f r) = inv_deleted r \<and> inv_status (f r) = inv_status r"
  shows "good_books (update_invoice i f db)"
  using grown_rows [OF assms(1,2) f, of i] assms(3) f
  by (auto simp: good_books_def covered_but_def unpaid_ids_def update_invoice_def)

lemma fee_line_unpaid [simp]: "unpaid_ids (sh_books (add_fee_line i rate nm fee s)) = unpaid_ids (sh_books s)"
proof -
  have rows: "map (\<lambda>r. (inv_id r, inv_status r)) (bd_invoices (update_invoice i f db)) = map (\<lambda>r. (inv_id r, inv_status r)) (bd_invoices db)"
    if "\<And>r. inv_id (f r) = inv_id r \<and> inv_status (f r) = inv_status r" for f db
    using that by (simp add: update_invoice_def)
  have "(\<lambda>r. (inv_id r, inv_status r)) ` set (bd_invoices (update_invoice i f db)) = (\<lambda>r. (inv_id r, inv_status r)) ` set (bd_invoices db)"
    if "\<And>r. inv_id (f r) = inv_id r \<and> inv_status (f r) = inv_status r" for f db
    using arg_cong [OF rows [OF that], of set] by simp
  moreover have "unpaid_ids db = {i \<in> fst ` (\<lambda>r. (inv_id r, inv_status r)) ` set (bd_invoices db). (i, Paid) \<notin> (\<lambda>r. (inv_id r, inv_status r)) ` set (bd_invoices db)}" for db
    by (auto simp: unpaid_ids_def image_iff)
  ultimately show ?thesis
    by (simp add: add_fee_line_def applyLineItemToTotals_def Let_def insert_item_def)
qed

lemma fee_line_clean:
  assumes "clean s" and "0 \<le> rate" and "i \<in> unpaid_ids (sh_books s)" and "0 \<le> fee"
  shows "clean (add_fee_line i rate nm fee s)"
proof -
  let ?t = "round_half (of_int fee * invoiceTaxFraction rate)"
  let ?f = "\<lambda>r. r\<lparr>inv_subtotal := inv_subtotal r + fee, inv_tax := inv_tax r + ?t, inv_total := inv_total r + (fee + ?t)\<rparr>"
  have t: "0 \<le> ?t" using assms(2,4) by (intro round_half_nonneg mult_nonneg_nonneg) (simp_all add: invoiceTaxFraction_def)
  have books: "sh_books (add_fee_line i rate nm fee s) = update_invoice i ?f (sh_books s)"
    by (simp add: add_fee_line_def applyLineItemToTotals_def Let_def insert_item_def)
  have "good_books (update_invoice i ?f (sh_books s))"
    using assms t by (intro grown_unpaid [where delta = "fee + ?t"]) (auto simp: clean_def)
  moreover have "i \<in> invoice_ids s" using assms(3) by (auto simp: unpaid_ids_def invoice_ids_def)
  moreover have "item_lines j (add_fee_line i rate nm fee s) = item_lines j s @ (if j = i then
      [\<lparr>it_invoice = i, it_text = FreeText (''Late fee: '' @ nm), it_qty = dec2 1, it_unit = dec2 (of_int fee / 100), it_amount = fee, it_stock = None\<rparr>] else [])" for j
    by (simp add: item_lines_def add_fee_line_def Let_def insert_item_def)
  moreover have "prices_ok (add_fee_line i rate nm fee s) = prices_ok s"
    by (simp add: prices_ok_def add_fee_line_def Let_def insert_item_def)
  moreover have "sh_items (add_fee_line i rate nm fee s) = sh_items s @
      [\<lparr>it_invoice = i, it_text = FreeText (''Late fee: '' @ nm), it_qty = dec2 1, it_unit = dec2 (of_int fee / 100), it_amount = fee, it_stock = None\<rparr>]"
    by (simp add: add_fee_line_def Let_def insert_item_def)
  ultimately show ?thesis
    using assms(1) by (auto simp: clean_def lines_match_def invoice_ids_view books view_grown image_image case_prod_beta)
qed

lemma fee_is_positive: "due_fee today rule r st \<Longrightarrow> 0 \<le> fee_of rule r"
  by (simp add: due_fee_def)

text \<open>C2. A run of late fees keeps the invariant of the books: the financial checks of the recovery
  drill stay at zero, and no payment is over-allocated.\<close>

theorem late_fees_keep_clean:
  assumes "clean (ls_shop st)"
  shows "clean (ls_shop (fst (applyLateFees org today st))) \<and> financial_ok (ls_shop (fst (applyLateFees org today st)))"
proof -
  let ?U = "unpaid_ids (sh_books (ls_shop st))"
  let ?Q = "\<lambda>s. clean (ls_shop s) \<and> unpaid_ids (sh_books (ls_shop s)) = ?U"
  have "?Q (fst (applyLateFees org today st))"
  proof (rule run_step [where R = "{r. inv_id r \<in> ?U \<and> 0 \<le> inv_rate r}"])
    fix rule s r
    assume "?Q s" "r \<in> {r. inv_id r \<in> ?U \<and> 0 \<le> inv_rate r}" "due_fee today rule r s"
    then show "?Q (fst (apply_fee org rule (s, r)))"
      by (auto simp: apply_fee_def Let_def intro!: fee_line_clean dest: fee_is_positive)
  next
    have d: "distinct (map inv_id (bd_invoices (sh_books (ls_shop st))))"
      using assms by (simp add: clean_def good_books_def books_ok_def rows_ok_def)
    have "inv_id r \<in> ?U \<and> 0 \<le> inv_rate r" if "r \<in> set (overdue_invoices org today st)" for r
    proof -
      have r: "r \<in> set (bd_invoices (sh_books (ls_shop st)))" "inv_status r \<noteq> Paid"
        using that by (auto simp: overdue_invoices_def)
      then have "inv_id r \<in> ?U" using d by (auto simp: unpaid_ids_def distinct_map inj_on_def)
      moreover have "0 \<le> inv_rate r"
        using assms r(1) by (fastforce simp: clean_def lines_match_def drill_view_def)
      ultimately show ?thesis by simp
    qed
    then show "set (overdue_invoices org today st) \<subseteq> {r. inv_id r \<in> ?U \<and> 0 \<le> inv_rate r}" by auto
  qed (auto simp: apply_fee_def Let_def assms)
  then show ?thesis using clean_financial by blast
qed

section \<open>The ledger\<close>

definition fees_on :: "nat \<Rightarrow> late_shop \<Rightarrow> int" where
  "fees_on i st = sum_list (map la_amount (filter (\<lambda>a. la_invoice a = i) (ls_fees st)))"

definition base_amounts :: "late_shop \<Rightarrow> (nat \<times> int) list" where
  "base_amounts st = map (\<lambda>r. (inv_id r, inv_subtotal r - fees_on (inv_id r) st)) (bd_invoices (sh_books (ls_shop st)))"

lemma fees_on_step: "fees_on i (fst (apply_fee org rule (st, r))) = fees_on i st + (if inv_id r = i then fee_of rule r else 0)"
  by (simp add: apply_fee_def Let_def fees_on_def)

lemma fee_books: "sh_books (ls_shop (fst (apply_fee org rule (st, r))))
   = fst (applyLineItemToTotals (inv_id r) (inv_rate r) (fee_of rule r) (sh_books (ls_shop st)))"
  by (simp add: apply_fee_def add_fee_line_def Let_def insert_item_def)

lemma base_step: "base_amounts (fst (apply_fee org rule (st, r))) = base_amounts st"
  unfolding base_amounts_def fees_on_step fee_books by (simp add: applyLineItemToTotals_def Let_def update_invoice_def)

text \<open>C39. A run raises the subtotal of an invoice by exactly the fees it records for it, and debits no
  client: the ledger, from which statements of account are read, is the one before the run.\<close>

theorem late_fees_bypass_ledger:
  shows "base_amounts (fst (applyLateFees org today st)) = base_amounts st
    \<and> bd_ledger (sh_books (ls_shop (fst (applyLateFees org today st)))) = bd_ledger (sh_books (ls_shop st))"
  by (rule run_step [where R = UNIV])
     (auto simp: base_step fee_books applyLineItemToTotals_def Let_def update_invoice_def)

section \<open>How often\<close>

lemma applied_step:
  "times_applied i k (fst (apply_fee org rule (st, r))) = times_applied i k st + (if inv_id r = i \<and> lf_id rule = k then 1 else 0)"
  by (simp add: apply_fee_def Let_def times_applied_def)

lemma rules_kept: "ls_rules (fst (applyLateFees org today st)) = ls_rules st"
  by (rule run_step [where R = UNIV]) (auto simp: apply_fee_def Let_def)

text \<open>C15. However often and whenever the runs come, a rule with a maximum is applied to an invoice at
  most that many times.\<close>

theorem late_fees_capped:
  assumes "distinct (map lf_id (ls_rules st))" and "rule \<in> set (ls_rules st)" and "lf_max rule = Some m"
  shows "int (times_applied i (lf_id rule) (fold (\<lambda>(org, today) s. fst (applyLateFees org today s)) runs st)) \<le> max m (int (times_applied i (lf_id rule) st))"
proof -
  have one: "int (times_applied i (lf_id rule) (fst (applyLateFees org today s))) \<le> max m (int (times_applied i (lf_id rule) s))"
    if "ls_rules s = ls_rules st" for org today s
  proof (rule run_step [where R = UNIV])
    fix k x r
    assume k: "k \<in> set (active_late_rules org s)" and le: "int (times_applied i (lf_id rule) x) \<le> max m (int (times_applied i (lf_id rule) s))"
      and due: "due_fee today k r x"
    show "int (times_applied i (lf_id rule) (fst (apply_fee org k (x, r)))) \<le> max m (int (times_applied i (lf_id rule) s))"
    proof (cases "inv_id r = i \<and> lf_id k = lf_id rule")
      case True
      then have "k = rule" using k assms(1,2) that by (auto simp: active_late_rules_def distinct_map inj_on_def)
      then have "int (times_applied i (lf_id rule) x) < m" using due True assms(3) by (simp add: due_fee_def)
      then show ?thesis using True by (simp add: applied_step)
    next
      case False
      then show ?thesis using le by (auto simp: applied_step)
    qed
  qed simp_all
  have "ls_rules (fold (\<lambda>(org, today) s. fst (applyLateFees org today s)) runs s) = ls_rules st
      \<and> int (times_applied i (lf_id rule) (fold (\<lambda>(org, today) s. fst (applyLateFees org today s)) runs s)) \<le> max m (int (times_applied i (lf_id rule) s))"
    if "ls_rules s = ls_rules st" for s
    using that
  proof (induction runs arbitrary: s)
    case (Cons run runs)
    obtain org today where run: "run = (org, today)" by fastforce
    from Cons.IH [of "fst (applyLateFees org today s)"] one [OF Cons.prems, of org today] show ?case
      by (auto simp: run rules_kept Cons.prems max_def split: if_splits)
  qed simp
  then show ?thesis by blast
qed







section \<open>A sample shop\<close>

definition late_invoice :: invoice_row where
  "late_invoice = \<lparr>inv_id = 1, inv_org = Some 1, inv_client = 9, inv_contract = None, inv_number = ''A'', inv_issued = 20000, inv_due = 20010,
     inv_subtotal = 1000, inv_tax = 160, inv_total = 1160, inv_rate = 16 / 100, inv_rate_id = None, inv_currency = ''MXN'', inv_status = Issued,
     inv_paid_at = None, inv_deleted = False\<rparr>"

definition flat_rule :: "int option \<Rightarrow> late_rule" where
  "flat_rule m = \<lparr>lf_id = 1, lf_org = 1, lf_name = ''Mora'', lf_percent = False, lf_amount = 50, lf_grace = 3, lf_max = m, lf_active = True\<rparr>"

definition late_sample :: "int option \<Rightarrow> late_shop" where
  "late_sample m = \<lparr>ls_shop = shop_sample\<lparr>sh_books := (sh_books shop_sample)\<lparr>bd_invoices := [late_invoice]\<rparr>,
       sh_items := [\<lparr>it_invoice = 1, it_text = FreeText ''Fibra'', it_qty = 1, it_unit = 10, it_amount = 1000, it_stock = None\<rparr>]\<rparr>,
     ls_rules = [flat_rule m], ls_next = 2, ls_fees = []\<rparr>"

lemma late_sample_clean: "clean (ls_shop (late_sample m))"
proof -
  have "prices_ok (ls_shop (late_sample m))"
    using shop_sample_clean by (simp add: clean_def prices_ok_def late_sample_def)
  then show ?thesis
    by (simp add: clean_def good_books_def books_ok_def rows_ok_def within_totals_def covered_but_def lines_match_def drill_view_def item_lines_def
        invoice_ids_def late_sample_def late_invoice_def shop_sample_def live_for_invoice_def live_for_payment_def)
qed

theorem late_fees_keep_clean_witness: "financial_ok (ls_shop (fst (applyLateFees 1 20020 (late_sample None))))"
  using late_fees_keep_clean [OF late_sample_clean] by blast

theorem late_fees_capped_witness:
  "int (times_applied 1 1 (fold (\<lambda>(org, today) s. fst (applyLateFees org today s)) [(1, 20020), (1, 20021), (1, 20022)] (late_sample (Some 2)))) \<le> 2"
  using late_fees_capped [of "late_sample (Some 2)" "flat_rule (Some 2)" 2 1 "[(1, 20020), (1, 20021), (1, 20022)]"]
  by (simp add: late_sample_def flat_rule_def times_applied_def)


end
