(* ===== verification/Spec2Isabelle.thy ===== *)
theory Spec2Isabelle
  imports RadiusServerProps AccountingProps SubnetPlanner OutboundGuard AccessControlProps LoginLockout JobQueueProps SuspensionRuns RouterosProvisioning CircuitBreaker RateLimit BillingProps CrudProps SqlBuild TaxRulesProps LateFees
begin

text \<open>
  FireISP 5.0 is the server of an internet service provider: it keeps subscribers, contracts,
  invoices and payments of several organizations (tenants) in MySQL, answers RADIUS requests of
  access servers, hands out addresses and drives routers. This development models the parts of its
  JavaScript server, under src/src/, that decide something: who is let in, which address is given
  out, what is billed and what is paid. Theories are named here with the source they model; each
  starts with a note on its own conventions.

  Foundations. Prelude holds the vocabulary shared by all theories (byte buffers, results, JavaScript
  truthiness and integer coercion) and JsText strings as the lists of their UTF-8 bytes, with the
  conversions between numbers and digits. Framing is the contract of a self-delimiting encoding, a
  locale interpreted on the attributes of RADIUS (RadiusWire) and on the words and sentences of
  RouterOS (RouterosStream). CivilDate is the day arithmetic of the Date objects of ECMAScript.

  Network access. RadiusCodec (services/radiusServerCodec.js) decodes packets and checks passwords and
  signatures; RadiusCoa (services/radiusCoaEncoder.js, radiusAttributeService.js) encodes packets and
  the attributes of a plan; RadiusWire and RadiusAttrs prove the two inverse to each other.
  NasResolver (services/tenantNasResolverService.js) finds the access server a datagram comes from over
  all tenant databases, SpeedWindows (speedWindowService.js, radiusLoginTimeService.js) the speeds in
  force. RadiusServer (services/radiusServerService.js) composes them into the authentication and
  accounting handlers; RadiusReplies and RadiusServerProps show who is accepted, that every request of
  a known server is answered with a signed, decodable reply, and that accounting is acknowledged
  exactly when it was stored. CoaClient and CoaClientProps (services/suspensionService.js) are the other
  direction, Disconnect and change of authorization sent to access servers over an untrusted network:
  sent means acknowledged by a genuine reply, and every open session is addressed. Suspension
  (services/suspensionService.js, suspensionLogConstants.js) picks overdue contracts and cuts them off;
  SuspensionProps composes it with the RADIUS server, also in the middle of its transaction, and
  SuspensionRuns (controllers/suspensionController.js) shows which contracts a run over the rules
  suspends.

  Addresses. IpPools (services/poolAssignmentService.js, poolUtilizationService.js) with AddressText and
  IpPoolsProps: assigned addresses are free, in range and not reserved, exhaustion is reported exactly
  when nothing is assignable, and overlap detection is exact. SubnetPlanner
  (services/subnetPlannerService.js) partitions a network. IpAllowlist (middleware/ipAllowlist.js) and
  OutboundGuard (utils/safeOutboundUrl.js) decide which addresses may come in and which may be called.

  Access. ApiScopes (utils/scopes.js), AccessControl (services/installOperator.js,
  globalOrganizationAccess.js, orgPrincipalService.js, middleware/auth.js, rbac.js, orgScope.js,
  restrictRoleAssignment.js, models/User.js) and AccessControlProps: a request that gets past the
  middleware is of an active user with the permission, and no one raises privileges. Sessions
  (services/authService.js) runs sign-in, token rotation and password changes query by query, in any
  interleaving; SessionsProps shows that a revoked refresh token stays dead, LoginLockout refines the
  lockout to its two columns and bounds the guesses. RateLimit
  (middleware/rateLimit.js) and CacheService (services/cacheService.js) bound the requests of a token;
  JobQueue and JobQueueProps (services/jobQueueService.js) are the in-process queue as a step relation
  of the event loop: accepted jobs run once and in order, and the queue empties;
  CircuitBreaker (utils/circuitBreaker.js) is a step relation that refines the history of its outcomes.

  Routers. RouterosApi (services/routerosService.js) is the wire format, the incremental reader and the
  queue of pending commands, RouterosStream proves that chunking does not matter and that replies reach
  their commands, RouterosCommands and RouterosProvisioning run the provisioning commands against a
  router that keeps tables as its vendor documents: repeating them converges.

  Resources. Validation (middleware/validate.js) types request bodies. SqlBuild (utils/sqlBuild.js)
  builds statements. CrudModel (models/BaseModel.js) and CrudController (controllers/crudController.js)
  are the generic operations of every resource; CrudTenants shows that they refine a database of one
  tenant, CrudPages and CrudProps isolation, pagination, deletion and failure.

  Money. Billing (services/paymentAllocationService.js, clientBalanceService.js, the settlement half of
  services/billingService.js and routes/payments.js) keeps payments, allocations and invoices;
  BillingBooks, BillingInvariant and BillingProps show that no payment or invoice is overdrawn and that
  the allocation waterfall serves the oldest invoices first. TaxRules resolves tax.
  BillingPeriods makes the periods of a contract and prorates plan changes, Inventory
  (services/inventoryDrawdownService.js) sells stock, Invoicing and InvoiceRoutes
  (services/billingService.js, routes/invoices.js, controllers/billingController.js,
  services/taskRunner.js, utils/lineItemPricing.js) write invoices. DrillView states the
  financial checks of the recovery drill (services/drDrillService.js) as the specification that any
  sequence of these requests keeps (InvoiceBooks, InvoiceAmounts, ShopInvariant, ShopProps);
  ShopScenarios evaluates the model on a small shop. LateFees (services/lateFeeService.js) adds the
  scheduled late fees to the same tables: they keep the checks and their maximum, but pass by the
  ledger.

  Correspondence. A definition has the name of the function it models, or a lower-case name for a
  piece of one; a class is a record of its fields, a row of a table a record or a function from columns
  to cells, a table a list of rows with its next automatic id. An SQL statement is the filter or update
  its text describes, with the unique keys, triggers and column widths of database/schema.sql; a
  transaction is a function of the tables whose failure leaves them unchanged. A thrown error is the
  left side of a sum or None, as each theory says. Money is in integer cents, rates are exact
  fractions, rounding is MySQL's half away from zero or JavaScript's Math.round, whichever the source
  uses. Dates are days at midnight UTC, times milliseconds. Machine arithmetic is on 8- and 32-bit
  words or integers with the wrap-around written out.

  Loops. Recursion is structural or has a measure. The incremental reader of RouterOS and the search
  for a free address may not return in the source: there None is not returning, and the properties
  state when an answer comes. Fuel, where a definition has it, is the length of its input or of the
  range it walks, and a lemma beside it shows that this is enough.

  Parameters. MD5, HMAC-MD5, SHA-256, bcrypt, JWT verification, the URL parser, domainToASCII, the DNS resolver,
  Redis, the router at the other end of a connection, the accounting store as RadiusServer sees it, per-resource hooks and the
  collation of sorted columns are arguments of the definitions. Where a property needs something of
  them, it is a named hypothesis with a witness in which they are concrete functions.

  Interfaces. Locales state what a client relies on: Framing (a self-delimiting encoding) on the
  attributes of RADIUS and the words of RouterOS, address_text in AddressText (parsing inverts printing)
  on both address families, fixed_window in CacheService (a counter within its window) on the memory
  cache, nas_directory in NasResolver (what the RADIUS server may assume of a resolved access server) on
  the snapshot resolver. Each is interpreted on the model's own definitions in the theory of its
  provider, and its clients rest on the interpreted facts.

  Not modelled. Sockets, timers and concurrency between requests other than in CircuitBreaker,
  RouterosApi, Sessions, JobQueue and SuspensionProps; reconnection after a suspension and the
  commissioning it leads to; the fiscal documents of Mexico, whose rules are external XML standards; payment
  gateways, mail, SMS and chat providers, device drivers and tunnels, which are calls of external
  services; reports and analytics, which are SQL formatted for reading; the language-model features;
  GraphQL, scripts and the web front end. The manifest lists them with their files.
\<close>

end
